(* ===== verification/Prelude.thy ===== *)
theory Prelude
  imports Main "HOL-Library.Word"
begin

text \<open>
  Shared vocabulary of the development.

  \<^item> the fixed-width integer types of \<^verbatim>\<open>src/src/server/shared/Define.h\<close> as words, and the
    two's complement reading of the signed ones;
  \<^item> \<open>stdmap\<close> and \<open>stdset\<close>: the ordered containers \<^verbatim>\<open>std::map\<close> and \<^verbatim>\<open>std::set\<close>, kept as
    lists in ascending key order because the program iterates over them in that order and
    picks \<^verbatim>\<open>begin()\<close>; their contracts are the locales \<open>ordered_map\<close> and \<open>ordered_set\<close>;
  \<^item> C strings (\<open>c_str\<close>, \<open>strcmp_ne\<close>);
  \<^item> \<open>step_system\<close>: the contract of a component whose operations keep an invariant, with
    the lemma that every finite run keeps it.
\<close>

unbundle bit_operations_syntax

named_theorems container_simps \<open>laws of the ordered containers\<close>
named_theorems wf_intros \<open>operations that keep a well-formedness predicate\<close>

section \<open>Machine integers\<close>

type_synonym u8 = "8 word"
type_synonym u16 = "16 word"
type_synonym u32 = "32 word"
type_synonym u64 = "64 word"

text \<open>\<open>int32\<close> values are kept as \<^typ>\<open>int\<close>; conversions and sums wrap to two's complement.\<close>

definition int32 :: "int \<Rightarrow> int" where
  "int32 x = signed_take_bit 31 x"

lemma int32_id: "- 2147483648 \<le> x \<Longrightarrow> x < 2147483648 \<Longrightarrow> int32 x = x"
  by (simp add: int32_def signed_take_bit_int_eq_self)

lemma int32_range: "- 2147483648 \<le> int32 x" "int32 x < 2147483648"
  using signed_take_bit_int_greater_eq_minus_exp [of 31 x] signed_take_bit_int_less_exp [of 31 x]
  by (simp_all add: int32_def)

lemma int32_idem [simp]: "int32 (int32 x) = int32 x"
  by (rule int32_id) (rule int32_range)+

lemma sint_of_nat_u32: "n < 2147483648 \<Longrightarrow> sint (of_nat n :: u32) = int n"
  by (simp add: signed_of_nat signed_take_bit_int_eq_self)

lemma unat_of_nat_small: "n < 2 ^ LENGTH('a) \<Longrightarrow> unat (of_nat n :: 'a::len word) = n"
  by (simp add: unsigned_of_nat take_bit_nat_eq_self)

text \<open>A test of the form \<^verbatim>\<open>flags & f\<close>.\<close>

abbreviation has_flag :: "'a::len word \<Rightarrow> 'a word \<Rightarrow> bool" where
  "has_flag flags f \<equiv> flags AND f \<noteq> 0"

lemma has_flag_or: "has_flag (x OR f) g \<longleftrightarrow> has_flag x g \<or> has_flag f g" for x f g :: "'a::len word"
  by (auto simp: bit_eq_iff bit_simps)

lemma has_flag_and_not: "f AND g = 0 \<Longrightarrow> has_flag (x AND NOT f) g \<longleftrightarrow> has_flag x g" for x f g :: "'a::len word"
  by (auto simp: bit_eq_iff bit_simps)

lemma has_flag_and_not_self: "\<not> has_flag (x AND NOT f) f" for x f :: "'a::len word"
  by (auto simp: bit_eq_iff bit_simps)

lemma has_flag_nonzero: "has_flag x f \<Longrightarrow> x \<noteq> 0" for x f :: "'a::len word"
  by auto

lemmas flag_simps = has_flag_or has_flag_and_not has_flag_and_not_self

lemma word_le_of_unat: "a \<le> b \<longleftrightarrow> unat a \<le> unat b" for a b :: "'a::len word"
  by (simp add: word_le_nat_alt)

section \<open>\<^verbatim>\<open>std::map\<close>\<close>

type_synonym ('k, 'v) stdmap = "('k \<times> 'v) list"

definition map_find :: "('k, 'v) stdmap \<Rightarrow> 'k \<Rightarrow> 'v option" where
  "map_find m k = map_of m k"

fun map_set :: "'k::linorder \<Rightarrow> 'v \<Rightarrow> ('k, 'v) stdmap \<Rightarrow> ('k, 'v) stdmap" where
  "map_set k v [] = [(k, v)]"
| "map_set k v ((k', v') # m) =
     (if k < k' then (k, v) # (k', v') # m
      else if k = k' then (k, v) # m
      else (k', v') # map_set k v m)"

definition map_erase :: "'k \<Rightarrow> ('k, 'v) stdmap \<Rightarrow> ('k, 'v) stdmap" where
  "map_erase k m = filter (\<lambda>(k', v). k' \<noteq> k) m"

text \<open>\<^verbatim>\<open>m[k]\<close> default-constructs a missing value; \<^verbatim>\<open>m[k].f(...)\<close> then updates it in place.\<close>

definition map_at :: "'v \<Rightarrow> ('k, 'v) stdmap \<Rightarrow> 'k \<Rightarrow> 'v" where
  "map_at d m k = (case map_find m k of None \<Rightarrow> d | Some v \<Rightarrow> v)"

definition map_modify :: "'v \<Rightarrow> 'k::linorder \<Rightarrow> ('v \<Rightarrow> 'v) \<Rightarrow> ('k, 'v) stdmap \<Rightarrow> ('k, 'v) stdmap" where
  "map_modify d k f m = map_set k (f (map_at d m k)) m"

definition map_wf :: "('k::linorder, 'v) stdmap \<Rightarrow> bool" where
  "map_wf m \<longleftrightarrow> sorted_wrt (<) (map fst m)"

subsection \<open>The contract of an ordered map\<close>

locale ordered_map =
  fixes empty :: "'m"
    and find :: "'m \<Rightarrow> 'k::linorder \<Rightarrow> 'v option"
    and put :: "'k \<Rightarrow> 'v \<Rightarrow> 'm \<Rightarrow> 'm"
    and erase :: "'k \<Rightarrow> 'm \<Rightarrow> 'm"
    and keys :: "'m \<Rightarrow> 'k list"
    and wf :: "'m \<Rightarrow> bool"
  assumes find_empty: "find empty k = None"
    and find_put: "find (put k v m) k' = (if k' = k then Some v else find m k')"
    and find_erase: "find (erase k m) k' = (if k' = k then None else find m k')"
    and keys_iff: "k \<in> set (keys m) \<longleftrightarrow> find m k \<noteq> None"
    and wf_empty: "wf empty"
    and wf_put: "wf m \<Longrightarrow> wf (put k v m)"
    and wf_erase: "wf m \<Longrightarrow> wf (erase k m)"
    and wf_keys: "wf m \<Longrightarrow> sorted_wrt (<) (keys m)"
begin

lemma erase_put: "find (erase k (put k v m)) k' = find (erase k m) k'"
  by (simp add: find_put find_erase)

lemma set_keys_put: "set (keys (put k v m)) = insert k (set (keys m))"
  by (auto simp: keys_iff find_put split: if_splits)

lemma set_keys_erase: "set (keys (erase k m)) = set (keys m) - {k}"
  by (auto simp: keys_iff find_erase split: if_splits)

lemma distinct_keys: "wf m \<Longrightarrow> distinct (keys m)"
  using wf_keys strict_sorted_iff by blast

lemma size_put:
  assumes "wf m"
  shows "length (keys (put k v m)) = (if find m k = None then Suc (length (keys m)) else length (keys m))"
proof -
  have "length (keys (put k v m)) = card (insert k (set (keys m)))"
    using distinct_card [OF distinct_keys [OF wf_put [OF assms]]] by (simp add: set_keys_put)
  also have "\<dots> = (if k \<in> set (keys m) then card (set (keys m)) else Suc (card (set (keys m))))"
    by (simp add: card_insert_if)
  finally show ?thesis
    using distinct_card [OF distinct_keys [OF assms]] by (simp add: keys_iff)
qed

lemma size_erase:
  assumes "wf m"
  shows "length (keys (erase k m)) = (if find m k = None then length (keys m) else length (keys m) - 1)"
proof -
  have "length (keys (erase k m)) = card (set (keys m) - {k})"
    using distinct_card [OF distinct_keys [OF wf_erase [OF assms]]] by (simp add: set_keys_erase)
  then show ?thesis
    using distinct_card [OF distinct_keys [OF assms]]
    by (auto simp: card_Diff_singleton keys_iff)
qed

lemma keys_hd_least: "wf m \<Longrightarrow> keys m \<noteq> [] \<Longrightarrow> find m k \<noteq> None \<Longrightarrow> hd (keys m) \<le> k"
  using wf_keys [of m] keys_iff [of k m] by (cases "keys m") (auto simp: less_imp_le)

end

subsection \<open>\<open>stdmap\<close> keeps the contract\<close>

lemma map_set_fst: "set (map fst (map_set k v m)) = insert k (set (map fst m))"
  by (induction k v m rule: map_set.induct) auto

lemma map_of_map_set: "map_of (map_set k v m) = (map_of m)(k \<mapsto> v)"
  by (induction k v m rule: map_set.induct) (auto simp: fun_eq_iff)

lemma map_of_map_erase: "map_of (map_erase k m) = (map_of m)(k := None)"
  by (induction m) (auto simp: map_erase_def fun_eq_iff)

lemma sorted_map_set: "sorted_wrt (<) (map fst m) \<Longrightarrow> sorted_wrt (<) (map fst (map_set k v m))"
proof (induction k v m rule: map_set.induct)
  case (2 k v k' v' m)
  then show ?case
    using map_set_fst [of k v m] by (auto simp del: set_map)
qed simp

lemma sorted_map_erase: "sorted_wrt (<) (map fst m) \<Longrightarrow> sorted_wrt (<) (map fst (map_erase k m))"
  by (induction m) (auto simp: map_erase_def)

interpretation stdmap: ordered_map "[]" map_find map_set map_erase "map fst" map_wf
proof unfold_locales
  show "k \<in> set (map fst m) \<longleftrightarrow> map_find m k \<noteq> None" for k :: 'a and m :: "('a, 'b) stdmap"
    by (simp add: map_find_def map_of_eq_None_iff)
qed (auto simp: map_find_def map_of_map_set map_of_map_erase map_wf_def
      intro: sorted_map_set sorted_map_erase)

lemmas map_find_set [container_simps] = stdmap.find_put
lemmas map_find_erase [container_simps] = stdmap.find_erase
lemmas map_find_empty [container_simps] = stdmap.find_empty
lemmas map_wf_rules [wf_intros] = stdmap.wf_empty stdmap.wf_put stdmap.wf_erase

lemma map_find_modify [container_simps]:
  "map_find (map_modify d k f m) k' = (if k' = k then Some (f (map_at d m k)) else map_find m k')"
  by (simp add: map_modify_def container_simps)

lemma map_wf_modify [wf_intros]: "map_wf m \<Longrightarrow> map_wf (map_modify d k f m)"
  by (simp add: map_modify_def wf_intros)

lemma map_at_Some [simp]: "map_find m k = Some v \<Longrightarrow> map_at d m k = v"
  by (simp add: map_at_def)

lemma map_at_None [simp]: "map_find m k = None \<Longrightarrow> map_at d m k = d"
  by (simp add: map_at_def)

lemma map_find_Cons: "map_find ((k, v) # m) k' = (if k' = k then Some v else map_find m k')"
  by (auto simp: map_find_def)

lemma map_find_hd: "m \<noteq> [] \<Longrightarrow> map_find m (fst (hd m)) = Some (snd (hd m))"
  by (cases m) (auto simp: map_find_def)

lemma map_find_SomeD: "map_find m k = Some v \<Longrightarrow> (k, v) \<in> set m"
  by (simp add: map_find_def map_of_SomeD)

lemma map_wf_mem: "map_wf m \<Longrightarrow> (k, v) \<in> set m \<Longrightarrow> map_find m k = Some v"
  by (simp add: map_find_def map_wf_def strict_sorted_iff)

lemma map_wf_mem_iff: "map_wf m \<Longrightarrow> (k, v) \<in> set m \<longleftrightarrow> map_find m k = Some v"
  using map_wf_mem map_find_SomeD by fast

text \<open>Counting the entries whose value satisfies a test.\<close>

definition map_count :: "('v \<Rightarrow> bool) \<Rightarrow> ('k, 'v) stdmap \<Rightarrow> nat" where
  "map_count P m = length (filter (\<lambda>kv. P (snd kv)) m)"

lemma map_count_set:
  "map_wf m \<Longrightarrow> map_count P (map_set k v m)
     + (case map_find m k of None \<Rightarrow> 0 | Some v0 \<Rightarrow> of_bool (P v0)) = map_count P m + of_bool (P v)"
proof (induction k v m rule: map_set.induct)
  case (2 k v k' v' m)
  have absent: "map_find m k = None" if "k < k'"
  proof (rule ccontr)
    assume "map_find m k \<noteq> None"
    then have "k \<in> set (map fst m)" by (simp add: stdmap.keys_iff del: set_map)
    with "2.prems" that show False by (auto simp: map_wf_def)
  qed
  show ?case
  proof (cases "k < k'")
    case True
    then show ?thesis using absent by (auto simp: map_count_def map_find_Cons)
  next
    case False
    then show ?thesis
      using "2.IH" "2.prems" by (auto simp: map_count_def map_find_Cons map_wf_def)
  qed
qed (simp add: map_count_def map_find_def)

lemma map_count_erase_le: "map_count P (map_erase k m) \<le> map_count P m"
  by (induction m) (auto simp: map_count_def map_erase_def)

text \<open>Two well-formed maps with the same lookups are the same list.\<close>

lemma map_wf_values: "map_wf m \<Longrightarrow> map (\<lambda>k. (k, the (map_find m k))) (map fst m) = m"
  using map_wf_mem [of m] by (auto intro!: map_idI)

lemma map_wf_ext:
  assumes "map_wf m" "map_wf m'" "\<And>k. map_find m k = map_find m' k"
  shows "m = m'"
proof -
  have "set (map fst m) = set (map fst m')"
    by (simp only: set_eq_iff stdmap.keys_iff assms(3) simp_thms)
  then have keys: "map fst m = map fst m'"
    using assms(1,2) by (intro strict_sorted_equal) (simp_all only: map_wf_def)
  have "m = map (\<lambda>k. (k, the (map_find m k))) (map fst m)"
    by (simp only: map_wf_values assms(1))
  also have "\<dots> = map (\<lambda>k. (k, the (map_find m' k))) (map fst m')"
    by (simp only: keys assms(3))
  also have "\<dots> = m'"
    by (simp only: map_wf_values assms(2))
  finally show ?thesis .
qed

lemma map_set_not_Nil [simp]: "map_set k v m \<noteq> []"
  by (induction k v m rule: map_set.induct) auto

section \<open>\<^verbatim>\<open>std::set\<close>\<close>

type_synonym 'a stdset = "'a list"

fun set_ins :: "'a::linorder \<Rightarrow> 'a stdset \<Rightarrow> 'a stdset" where
  "set_ins x [] = [x]"
| "set_ins x (y # ys) = (if x < y then x # y # ys else if x = y then y # ys else y # set_ins x ys)"

definition set_erase :: "'a \<Rightarrow> 'a stdset \<Rightarrow> 'a stdset" where
  "set_erase x s = filter (\<lambda>y. y \<noteq> x) s"

definition set_wf :: "'a::linorder stdset \<Rightarrow> bool" where
  "set_wf s \<longleftrightarrow> sorted_wrt (<) s"

locale ordered_set =
  fixes mem :: "'a::linorder \<Rightarrow> 's \<Rightarrow> bool"
    and ins :: "'a \<Rightarrow> 's \<Rightarrow> 's"
    and del :: "'a \<Rightarrow> 's \<Rightarrow> 's"
    and elems :: "'s \<Rightarrow> 'a list"
    and wf :: "'s \<Rightarrow> bool"
  assumes mem_ins: "mem x (ins y s) \<longleftrightarrow> x = y \<or> mem x s"
    and mem_del: "mem x (del y s) \<longleftrightarrow> x \<noteq> y \<and> mem x s"
    and mem_elems: "mem x s \<longleftrightarrow> x \<in> set (elems s)"
    and wf_ins: "wf s \<Longrightarrow> wf (ins y s)"
    and wf_del: "wf s \<Longrightarrow> wf (del y s)"
    and wf_elems: "wf s \<Longrightarrow> sorted_wrt (<) (elems s)"
begin

lemma elems_fold_ins: "set (elems (fold ins xs s)) = set xs \<union> set (elems s)"
  by (induction xs arbitrary: s) (auto simp: mem_ins simp flip: mem_elems)

lemma wf_fold_ins: "wf s \<Longrightarrow> wf (fold ins xs s)"
  by (induction xs arbitrary: s) (auto intro: wf_ins)

lemma elems_unique:
  assumes "wf s" "wf t" "set (elems s) = set (elems t)"
  shows "elems s = elems t"
  using assms wf_elems strict_sorted_equal by blast

end

lemma set_ins_set: "set (set_ins x s) = insert x (set s)"
  by (induction x s rule: set_ins.induct) auto

lemma set_ins_wf: "sorted_wrt (<) s \<Longrightarrow> sorted_wrt (<) (set_ins x s)"
  by (induction x s rule: set_ins.induct) (auto simp: set_ins_set intro: less_trans)

interpretation stdset: ordered_set "\<lambda>x s. x \<in> set s" set_ins set_erase "\<lambda>s. s" set_wf
  by unfold_locales
    (auto simp: set_ins_set set_erase_def set_wf_def intro: set_ins_wf sorted_wrt_filter)

lemmas set_rules [container_simps] = stdset.mem_ins stdset.mem_del
lemmas set_wf_rules [wf_intros] = stdset.wf_ins stdset.wf_del

section \<open>C strings\<close>

definition c_str :: "string \<Rightarrow> string" where
  "c_str s = takeWhile (\<lambda>c. c \<noteq> CHR 0x00) s"

definition strcmp_ne :: "string \<Rightarrow> string \<Rightarrow> bool" where
  "strcmp_ne a b \<longleftrightarrow> c_str a \<noteq> c_str b"

lemma c_str_id: "CHR 0x00 \<notin> set s \<Longrightarrow> c_str s = s"
  by (auto simp: c_str_def takeWhile_eq_all_conv)

lemma c_str_append: "CHR 0x00 \<notin> set s \<Longrightarrow> c_str (s @ CHR 0x00 # t) = s"
  by (induction s) (auto simp: c_str_def)

section \<open>Failures that the source does not handle\<close>

datatype cpp_error = NullDeref | AssertFailure | UseAfterFree | OutOfBounds

section \<open>Components whose operations keep an invariant\<close>

locale step_system =
  fixes step :: "'op \<Rightarrow> 's \<Rightarrow> 's"
    and ok :: "'op \<Rightarrow> 's \<Rightarrow> bool"
    and inv :: "'s \<Rightarrow> bool"
  assumes step_inv: "inv s \<Longrightarrow> ok p s \<Longrightarrow> inv (step p s)"
begin

fun run_ok :: "'op list \<Rightarrow> 's \<Rightarrow> bool" where
  "run_ok [] s = True"
| "run_ok (p # ps) s = (ok p s \<and> run_ok ps (step p s))"

lemma run_inv: "inv s \<Longrightarrow> run_ok ps s \<Longrightarrow> inv (fold step ps s)"
  by (induction ps arbitrary: s) (auto intro: step_inv)

lemma run_ok_all: "\<forall>p \<in> set ps. \<forall>s. ok p s \<Longrightarrow> run_ok ps s"
  by (induction ps arbitrary: s) auto

lemma run_ok_always: "(\<And>p s. ok p s) \<Longrightarrow> run_ok ps s"
  by (induction ps arbitrary: s) auto

end

end
