(* ===== verification/Byte_Buffer.thy ===== *)
theory Byte_Buffer
  imports Prelude
begin

text \<open>
  The packet buffer of \<^verbatim>\<open>src/src/server/shared/Packets/ByteBuffer.h\<close>: a byte vector with a
  read and a write cursor. Every operation that throws in the source returns \<open>Inl\<close> with the
  exception's arguments as the source passes them; the \<^verbatim>\<open>ASSERT\<close> of \<^verbatim>\<open>append\<close> is the value
  \<open>AssertFailed\<close>. \<^verbatim>\<open>size_t\<close> sums wrap at 64 bits. The host is little endian, so
  \<^verbatim>\<open>EndianConvert\<close> is the identity; \<^verbatim>\<open>float\<close> and \<^verbatim>\<open>double\<close> go through the buffer as their bit
  patterns. The interface that the packet writers use is the locale \<open>stream_codec\<close>: what one
  \<^verbatim>\<open><<\<close> writes at the end of a buffer, one \<^verbatim>\<open>>>\<close> reads back.
\<close>

section \<open>Bytes of scalars\<close>

fun le_bytes :: "nat \<Rightarrow> nat \<Rightarrow> u8 list" where
  "le_bytes 0 v = []"
| "le_bytes (Suc n) v = of_nat v # le_bytes n (v div 256)"

fun le_val :: "u8 list \<Rightarrow> nat" where
  "le_val [] = 0"
| "le_val (b # bs) = unat b + 256 * le_val bs"

lemma length_le_bytes [simp]: "length (le_bytes n v) = n"
  by (induction n arbitrary: v) auto

lemma unat_of_nat_byte [simp]: "unat (of_nat v :: u8) = v mod 256"
  by (simp add: unsigned_of_nat take_bit_eq_mod)

lemma le_val_le_bytes: "le_val (le_bytes n v) = v mod 256 ^ n"
  by (induction n arbitrary: v) (auto simp: mod_mult2_eq)

lemma le_val_bound: "le_val bs < 256 ^ length bs"
proof (induction bs)
  case (Cons b bs)
  have "unat b < 256" using unsigned_less [of b, where ?'a = nat] by simp
  with Cons show ?case by simp
qed simp

lemma le_bytes_le_val: "le_bytes (length bs) (le_val bs) = bs"
proof (induction bs)
  case (Cons b bs)
  have "unat b < 256" using unsigned_less [of b, where ?'a = nat] by simp
  then have "(unat b + 256 * le_val bs) div 256 = le_val bs" by simp
  moreover have "(of_nat (unat b + 256 * le_val bs) :: u8) = b"
    by (simp only: word_unat_eq_iff unat_of_nat_byte) (simp add: \<open>unat b < 256\<close>)
  ultimately show ?case using Cons by (simp del: of_nat_add)
qed simp

definition word_bytes :: "'a::len word \<Rightarrow> u8 list" where
  "word_bytes w = le_bytes (LENGTH('a) div 8) (unat w)"

definition bytes_word :: "u8 list \<Rightarrow> 'a::len word" where
  "bytes_word bs = of_nat (le_val bs)"

lemma length_word_bytes: "length (word_bytes (w :: 'a::len word)) = LENGTH('a) div 8"
  by (simp add: word_bytes_def)

lemma bytes_word_word_bytes:
  assumes "LENGTH('a) mod 8 = 0"
  shows "bytes_word (word_bytes w) = (w :: 'a::len word)"
proof -
  have "(256::nat) ^ (LENGTH('a) div 8) = 2 ^ LENGTH('a)"
  proof -
    have "(256::nat) ^ (LENGTH('a) div 8) = 2 ^ (8 * (LENGTH('a) div 8))"
      by (simp add: power_mult)
    then show ?thesis using assms by (simp add: mod_0_imp_dvd)
  qed
  moreover have "unat w < 2 ^ LENGTH('a)" by (rule unsigned_less)
  ultimately show ?thesis
    by (simp add: bytes_word_def word_bytes_def le_val_le_bytes)
qed

section \<open>The buffer\<close>

datatype bb_error =
    PositionException bool nat nat nat
  | SourceException nat nat nat
  | AssertFailed

record byte_buffer =
  rpos :: nat
  wpos :: nat
  storage :: "u8 list"

definition size_t :: "nat \<Rightarrow> nat" where
  "size_t n = n mod 2 ^ 64"

definition bb_size :: "byte_buffer \<Rightarrow> nat" where
  "bb_size b = length (storage b)"

definition bb_new :: byte_buffer where
  "bb_new = \<lparr>rpos = 0, wpos = 0, storage = []\<rparr>"

definition bb_clear :: "byte_buffer \<Rightarrow> byte_buffer" where
  "bb_clear b = b\<lparr>storage := [], rpos := 0, wpos := 0\<rparr>"

definition set_rpos :: "nat \<Rightarrow> byte_buffer \<Rightarrow> byte_buffer" where
  "set_rpos p b = b\<lparr>rpos := p\<rparr>"

definition set_wpos :: "nat \<Rightarrow> byte_buffer \<Rightarrow> byte_buffer" where
  "set_wpos p b = b\<lparr>wpos := p\<rparr>"

definition rfinish :: "byte_buffer \<Rightarrow> byte_buffer" where
  "rfinish b = b\<lparr>rpos := wpos b\<rparr>"

definition bb_resize :: "nat \<Rightarrow> byte_buffer \<Rightarrow> byte_buffer" where
  "bb_resize n b =
     (let st = take n (storage b) @ replicate (n - bb_size b) 0
      in b\<lparr>storage := st, rpos := 0, wpos := length st\<rparr>)"

text \<open>\<^verbatim>\<open>memcpy\<close> of \<open>bs\<close> into a vector at an offset where it fits.\<close>

definition overwrite :: "nat \<Rightarrow> u8 list \<Rightarrow> u8 list \<Rightarrow> u8 list" where
  "overwrite p bs st = take p st @ bs @ drop (p + length bs) st"

text \<open>\<^verbatim>\<open>append(const uint8* src, size_t cnt)\<close>; \<open>None\<close> is a null \<^verbatim>\<open>src\<close>, and \<open>cnt\<close> is the
  length of the source otherwise.\<close>

definition append_raw :: "u8 list option \<Rightarrow> nat \<Rightarrow> byte_buffer \<Rightarrow> bb_error + byte_buffer" where
  "append_raw src cnt b =
     (if cnt = 0 then Inl (SourceException (wpos b) (bb_size b) cnt)
      else case src of
        None \<Rightarrow> Inl (SourceException (wpos b) (bb_size b) cnt)
      | Some bs \<Rightarrow>
          if \<not> bb_size b < 10000000 then Inl AssertFailed
          else
            let need = size_t (wpos b + cnt);
                st = (if bb_size b < need then storage b @ replicate (need - bb_size b) 0 else storage b)
            in Inr (b\<lparr>storage := overwrite (wpos b) (take cnt bs) st, wpos := need\<rparr>))"

definition append_bytes :: "u8 list \<Rightarrow> byte_buffer \<Rightarrow> bb_error + byte_buffer" where
  "append_bytes bs b = append_raw (Some bs) (length bs) b"

text \<open>\<^verbatim>\<open>append(const ByteBuffer&)\<close>\<close>

definition append_buffer :: "byte_buffer \<Rightarrow> byte_buffer \<Rightarrow> bb_error + byte_buffer" where
  "append_buffer src b =
     (if wpos src \<noteq> 0 then append_raw (Some (storage src)) (wpos src) b else Inr b)"

text \<open>\<^verbatim>\<open>put(size_t pos, const uint8* src, size_t cnt)\<close>\<close>

definition put_raw :: "nat \<Rightarrow> u8 list option \<Rightarrow> nat \<Rightarrow> byte_buffer \<Rightarrow> bb_error + byte_buffer" where
  "put_raw pos src cnt b =
     (if size_t (pos + cnt) > bb_size b then Inl (PositionException True pos cnt (bb_size b))
      else case src of
        None \<Rightarrow> Inl (SourceException (wpos b) (bb_size b) cnt)
      | Some bs \<Rightarrow> Inr (b\<lparr>storage := overwrite pos (take cnt bs) (storage b)\<rparr>))"

definition bb_append :: "'a::len word \<Rightarrow> byte_buffer \<Rightarrow> bb_error + byte_buffer" where
  "bb_append v b = append_bytes (word_bytes v) b"

definition bb_put :: "nat \<Rightarrow> 'a::len word \<Rightarrow> byte_buffer \<Rightarrow> bb_error + byte_buffer" where
  "bb_put pos v b = put_raw pos (Some (word_bytes v)) (LENGTH('a) div 8) b"

subsection \<open>Reading\<close>

definition read_skip :: "nat \<Rightarrow> byte_buffer \<Rightarrow> bb_error + byte_buffer" where
  "read_skip skip b =
     (if size_t (rpos b + skip) > bb_size b
      then Inl (PositionException False (rpos b) skip (bb_size b))
      else Inr (b\<lparr>rpos := size_t (rpos b + skip)\<rparr>))"

text \<open>\<^verbatim>\<open>read<T>(size_t pos)\<close> and \<^verbatim>\<open>read<T>()\<close> for a scalar of \<open>n\<close> bytes\<close>

definition read_at :: "nat \<Rightarrow> nat \<Rightarrow> byte_buffer \<Rightarrow> bb_error + u8 list" where
  "read_at n pos b =
     (if size_t (pos + n) > bb_size b then Inl (PositionException False pos n (bb_size b))
      else Inr (take n (drop pos (storage b))))"

definition bb_read :: "byte_buffer \<Rightarrow> bb_error + ('a::len word \<times> byte_buffer)" where
  "bb_read b =
     (case read_at (LENGTH('a) div 8) (rpos b) b of
        Inl e \<Rightarrow> Inl e
      | Inr bs \<Rightarrow> Inr (bytes_word bs, b\<lparr>rpos := size_t (rpos b + LENGTH('a) div 8)\<rparr>))"

text \<open>\<^verbatim>\<open>read(uint8* dest, size_t len)\<close>\<close>

definition read_bytes :: "nat \<Rightarrow> byte_buffer \<Rightarrow> bb_error + (u8 list \<times> byte_buffer)" where
  "read_bytes len b =
     (if size_t (rpos b + len) > bb_size b
      then Inl (PositionException False (rpos b) len (bb_size b))
      else Inr (take len (drop (rpos b) (storage b)), b\<lparr>rpos := size_t (rpos b + len)\<rparr>))"

text \<open>\<^verbatim>\<open>char\<close> is signed on the supported hosts, so a byte above 127 reads as false.\<close>

definition read_bool :: "byte_buffer \<Rightarrow> bb_error + (bool \<times> byte_buffer)" where
  "read_bool b =
     (case bb_read b of Inl e \<Rightarrow> Inl e | Inr (c :: u8, b') \<Rightarrow> Inr (sint c > 0, b'))"

subsection \<open>Strings\<close>

definition char_byte :: "char \<Rightarrow> u8" where
  "char_byte c = of_nat (of_char c)"

definition byte_char :: "u8 \<Rightarrow> char" where
  "byte_char w = char_of (unat w)"

definition string_bytes :: "string \<Rightarrow> u8 list" where
  "string_bytes s = map char_byte s"

lemma byte_char_char_byte [simp]: "byte_char (char_byte c) = c"
  by (simp add: byte_char_def char_byte_def)

lemma char_byte_byte_char [simp]: "char_byte (byte_char w) = w"
  using unsigned_less [of w, where ?'a = nat]
  by (simp add: byte_char_def char_byte_def)

lemma char_byte_zero_iff [simp]: "char_byte c = 0 \<longleftrightarrow> c = CHR 0x00"
proof
  assume "char_byte c = 0"
  then have "c = byte_char 0" by (metis byte_char_char_byte)
  then show "c = CHR 0x00" by (simp add: byte_char_def char_of_def)
qed (simp add: char_byte_def)

definition put_string :: "string \<Rightarrow> byte_buffer \<Rightarrow> bb_error + byte_buffer" where
  "put_string s b =
     (case (if length s \<noteq> 0 then append_bytes (string_bytes s) b else Inr b) of
        Inl e \<Rightarrow> Inl e
      | Inr b' \<Rightarrow> bb_append (0 :: u8) b')"

function get_string_loop :: "string \<Rightarrow> byte_buffer \<Rightarrow> string \<times> byte_buffer" where
  "get_string_loop acc b =
     (if rpos b < bb_size b then
        let c = storage b ! rpos b; b' = b\<lparr>rpos := Suc (rpos b)\<rparr>
        in if c = 0 then (acc, b') else get_string_loop (acc @ [byte_char c]) b'
      else (acc, b))"
  by pat_completeness auto
termination
  by (relation "measure (\<lambda>(acc, b). bb_size b - rpos b)") (auto simp: bb_size_def)

declare get_string_loop.simps [simp del]

definition get_string :: "byte_buffer \<Rightarrow> string \<times> byte_buffer" where
  "get_string b = get_string_loop [] b"

subsection \<open>Packed GUIDs\<close>

text \<open>The loop of \<^verbatim>\<open>appendPackGUID\<close>: \<open>pmask\<close> is \<^verbatim>\<open>packGUID[0]\<close>, \<open>acc\<close> the bytes after it.\<close>

function pack_guid_loop :: "nat \<Rightarrow> u64 \<Rightarrow> u8 \<Rightarrow> u8 list \<Rightarrow> u8 \<times> u8 list" where
  "pack_guid_loop i guid pmask acc =
     (if guid \<noteq> 0 then
        (if guid AND 0xFF \<noteq> 0
         then pack_guid_loop (Suc i) (drop_bit 8 guid) (pmask OR push_bit i 1) (acc @ [ucast (guid AND 0xFF)])
         else pack_guid_loop (Suc i) (drop_bit 8 guid) pmask acc)
      else (pmask, acc))"
  by pat_completeness auto
termination
proof (relation "measure (\<lambda>(i, guid, pmask, acc). unat guid)")
  have "unat (drop_bit 8 g) < unat g" if "g \<noteq> 0" for g :: u64
  proof -
    have "unat (drop_bit 8 g) = unat g div 256"
      by (simp add: drop_bit_eq_div unat_div)
    moreover have "0 < unat g" using that by (simp add: unat_gt_0)
    ultimately show ?thesis by simp
  qed
  then show "((Suc i, drop_bit 8 guid, pmask OR push_bit i 1, acc @ [ucast (guid AND 0xFF)]), i, guid, pmask, acc)
      \<in> measure (\<lambda>(i, guid, pmask, acc). unat guid)"
    and "((Suc i, drop_bit 8 guid, pmask, acc), i, guid, pmask, acc) \<in> measure (\<lambda>(i, guid, pmask, acc). unat guid)"
    if "guid \<noteq> 0" for i :: nat and guid :: u64 and pmask :: u8 and acc :: "u8 list"
    using that by simp_all
qed simp

declare pack_guid_loop.simps [simp del]

definition appendPackGUID :: "u64 \<Rightarrow> byte_buffer \<Rightarrow> bb_error + byte_buffer" where
  "appendPackGUID guid b =
     (let (pmask, bs) = pack_guid_loop 0 guid 0 [] in append_bytes (pmask # bs) b)"

text \<open>The loop of \<^verbatim>\<open>readPackGUID\<close> over the bits \<^verbatim>\<open>i = 0 .. 7\<close> of the mark.\<close>

fun read_guid_loop :: "nat list \<Rightarrow> u8 \<Rightarrow> u64 \<Rightarrow> byte_buffer \<Rightarrow> bb_error + (u64 \<times> byte_buffer)" where
  "read_guid_loop [] mark guid b = Inr (guid, b)"
| "read_guid_loop (i # is) mark guid b =
     (if mark AND push_bit i 1 \<noteq> 0 then
        (if size_t (rpos b + 1) > bb_size b then Inl (PositionException False (rpos b) 1 (bb_size b))
         else case bb_read b of
            Inl e \<Rightarrow> Inl e
          | Inr (bt :: u8, b') \<Rightarrow> read_guid_loop is mark (guid OR push_bit (i * 8) (ucast bt)) b')
      else read_guid_loop is mark guid b)"

definition readPackGUID :: "byte_buffer \<Rightarrow> bb_error + (u64 \<times> byte_buffer)" where
  "readPackGUID b =
     (if size_t (rpos b + 1) > bb_size b then Inl (PositionException False (rpos b) 1 (bb_size b))
      else case bb_read b of
         Inl e \<Rightarrow> Inl e
       | Inr (mark :: u8, b') \<Rightarrow> read_guid_loop [0..<8] mark 0 b')"

subsection \<open>Packed dates\<close>

text \<open>The fields of \<^verbatim>\<open>struct tm\<close> that the buffer reads and writes.\<close>

record tm =
  tm_min :: int
  tm_hour :: int
  tm_mday :: int
  tm_mon :: int
  tm_year :: int
  tm_wday :: int

definition pack_tm :: "tm \<Rightarrow> u32" where
  "pack_tm lt = word_of_int
     (push_bit 24 (tm_year lt - 100) OR push_bit 20 (tm_mon lt) OR push_bit 14 (tm_mday lt - 1)
      OR push_bit 11 (tm_wday lt) OR push_bit 6 (tm_hour lt) OR tm_min lt)"

definition unpack_tm :: "u32 \<Rightarrow> tm" where
  "unpack_tm packedDate =
     \<lparr>tm_min = uint (packedDate AND 0x3F),
      tm_hour = uint (drop_bit 6 packedDate AND 0x1F),
      tm_mday = uint (drop_bit 14 packedDate AND 0x3F) + 1,
      tm_mon = uint (drop_bit 20 packedDate AND 0xF),
      tm_year = uint (drop_bit 24 packedDate AND 0x1F) + 100,
      tm_wday = 0\<rparr>"

text \<open>\<^verbatim>\<open>localtime\<close>, \<^verbatim>\<open>mktime\<close> and \<^verbatim>\<open>timezone\<close> belong to the C library and are parameters.\<close>

definition AppendPackedTime :: "(int \<Rightarrow> tm) \<Rightarrow> int \<Rightarrow> byte_buffer \<Rightarrow> bb_error + byte_buffer" where
  "AppendPackedTime localtime time b = bb_append (pack_tm (localtime time)) b"

definition ReadPackedTime :: "(tm \<Rightarrow> int) \<Rightarrow> int \<Rightarrow> byte_buffer \<Rightarrow> bb_error + (u32 \<times> byte_buffer)" where
  "ReadPackedTime mktime timezone b =
     (case bb_read b of
        Inl e \<Rightarrow> Inl e
      | Inr (packedDate, b') \<Rightarrow> Inr (word_of_int (mktime (unpack_tm packedDate) + timezone), b'))"

section \<open>Vectors, lists and maps\<close>

text \<open>\<^verbatim>\<open>operator<<\<close> and \<^verbatim>\<open>operator>>\<close> for \<^verbatim>\<open>std::vector<T>\<close> and \<^verbatim>\<open>std::list<T>\<close>, over those of \<^verbatim>\<open>T\<close>\<close>

type_synonym 'a writer = "'a \<Rightarrow> byte_buffer \<Rightarrow> bb_error + byte_buffer"
type_synonym 'a reader = "byte_buffer \<Rightarrow> bb_error + ('a \<times> byte_buffer)"

fun put_each :: "'a writer \<Rightarrow> 'a list \<Rightarrow> byte_buffer \<Rightarrow> bb_error + byte_buffer" where
  "put_each wr [] b = Inr b"
| "put_each wr (x # xs) b = (case wr x b of Inl e \<Rightarrow> Inl e | Inr b' \<Rightarrow> put_each wr xs b')"

definition put_seq :: "'a writer \<Rightarrow> 'a list writer" where
  "put_seq wr xs b =
     (case bb_append (of_nat (length xs) :: u32) b of Inl e \<Rightarrow> Inl e | Inr b' \<Rightarrow> put_each wr xs b')"

fun get_each :: "'a reader \<Rightarrow> nat \<Rightarrow> byte_buffer \<Rightarrow> bb_error + ('a list \<times> byte_buffer)" where
  "get_each rd 0 b = Inr ([], b)"
| "get_each rd (Suc n) b =
     (case rd b of
        Inl e \<Rightarrow> Inl e
      | Inr (x, b') \<Rightarrow>
          (case get_each rd n b' of Inl e \<Rightarrow> Inl e | Inr (xs, b'') \<Rightarrow> Inr (x # xs, b'')))"

definition get_seq :: "'a reader \<Rightarrow> 'a list reader" where
  "get_seq rd b =
     (case bb_read b of Inl e \<Rightarrow> Inl e | Inr (vsize :: u32, b') \<Rightarrow> get_each rd (unat vsize) b')"

definition put_pair :: "'k writer \<Rightarrow> 'v writer \<Rightarrow> ('k \<times> 'v) writer" where
  "put_pair wk wv kv b = (case wk (fst kv) b of Inl e \<Rightarrow> Inl e | Inr b' \<Rightarrow> wv (snd kv) b')"

definition get_pair :: "'k reader \<Rightarrow> 'v reader \<Rightarrow> ('k \<times> 'v) reader" where
  "get_pair rk rv b =
     (case rk b of
        Inl e \<Rightarrow> Inl e
      | Inr (k, b') \<Rightarrow> (case rv b' of Inl e \<Rightarrow> Inl e | Inr (v, b'') \<Rightarrow> Inr ((k, v), b'')))"

text \<open>\<^verbatim>\<open>std::map\<close>: the pairs in key order; reading inserts, and \<^verbatim>\<open>insert\<close> keeps an existing key.\<close>

definition map_insert_new :: "'k::linorder \<times> 'v \<Rightarrow> ('k, 'v) stdmap \<Rightarrow> ('k, 'v) stdmap" where
  "map_insert_new kv m = (if map_find m (fst kv) = None then map_set (fst kv) (snd kv) m else m)"

definition put_map :: "'k writer \<Rightarrow> 'v writer \<Rightarrow> ('k, 'v) stdmap writer" where
  "put_map wk wv = put_seq (put_pair wk wv)"

definition get_map :: "'k::linorder reader \<Rightarrow> 'v reader \<Rightarrow> ('k, 'v) stdmap reader" where
  "get_map rk rv b =
     (case get_seq (get_pair rk rv) b of
        Inl e \<Rightarrow> Inl e
      | Inr (kvs, b') \<Rightarrow> Inr (fold map_insert_new kvs [], b'))"

section \<open>The contract of a stream operator\<close>

definition appendable :: "nat \<Rightarrow> byte_buffer \<Rightarrow> bool" where
  "appendable n b \<longleftrightarrow> wpos b = bb_size b \<and> bb_size b + n < 10000000"

definition bb_ext :: "u8 list \<Rightarrow> byte_buffer \<Rightarrow> byte_buffer" where
  "bb_ext bs b = b\<lparr>storage := storage b @ bs, wpos := wpos b + length bs\<rparr>"

definition bb_adv :: "nat \<Rightarrow> byte_buffer \<Rightarrow> byte_buffer" where
  "bb_adv n b = b\<lparr>rpos := rpos b + n\<rparr>"

definition reading :: "u8 list \<Rightarrow> byte_buffer \<Rightarrow> bool" where
  "reading bs b \<longleftrightarrow>
     take (length bs) (drop (rpos b) (storage b)) = bs \<and> rpos b + length bs \<le> bb_size b \<and> bb_size b < 2 ^ 63"

lemma size_t_id: "n < 2 ^ 64 \<Longrightarrow> size_t n = n"
  by (simp add: size_t_def)

lemma bb_ext_Nil [simp]: "bb_ext [] b = b"
  by (simp add: bb_ext_def)

lemma bb_ext_ext [simp]: "bb_ext ys (bb_ext xs b) = bb_ext (xs @ ys) b"
  by (simp add: bb_ext_def)

lemma bb_adv_0 [simp]: "bb_adv 0 b = b"
  by (simp add: bb_adv_def)

lemma bb_adv_adv [simp]: "bb_adv n (bb_adv m b) = bb_adv (m + n) b"
  by (simp add: bb_adv_def add.assoc)

lemma appendable_ext: "appendable (length xs + n) b \<Longrightarrow> appendable n (bb_ext xs b)"
  by (simp add: appendable_def bb_ext_def bb_size_def)

lemma appendable_le: "appendable m b \<Longrightarrow> n \<le> m \<Longrightarrow> appendable n b"
  by (simp add: appendable_def)

lemma reading_append: "reading (xs @ ys) b \<longleftrightarrow> reading xs b \<and> reading ys (bb_adv (length xs) b)"
proof -
  have "take (length xs + length ys) zs = xs @ ys \<longleftrightarrow>
      take (length xs) zs = xs \<and> take (length ys) (drop (length xs) zs) = ys"
    if "length xs \<le> length zs" for zs :: "u8 list"
    using that by (simp add: take_add append_eq_append_conv)
  then show ?thesis
    by (auto simp: reading_def bb_adv_def bb_size_def add.commute add.left_commute)
qed

lemma reading_new: "length bs < 2 ^ 63 \<Longrightarrow> reading bs (bb_ext bs bb_new)"
  by (simp add: reading_def bb_ext_def bb_new_def bb_size_def)

lemma append_bytes_ok:
  "bs \<noteq> [] \<Longrightarrow> appendable (length bs) b \<Longrightarrow> append_bytes bs b = Inr (bb_ext bs b)"
  by (auto simp: append_bytes_def append_raw_def appendable_def bb_ext_def overwrite_def bb_size_def
      size_t_id Let_def)

lemma read_at_ok: "reading bs b \<Longrightarrow> length bs = n \<Longrightarrow> read_at n (rpos b) b = Inr bs"
  by (auto simp: read_at_def reading_def bb_size_def size_t_id)

locale stream_codec =
  fixes enc :: "'a \<Rightarrow> u8 list"
    and wr :: "'a writer"
    and rd :: "'a reader"
    and ok :: "'a \<Rightarrow> bool"
  assumes wr_ok: "ok x \<Longrightarrow> appendable (length (enc x)) b \<Longrightarrow> wr x b = Inr (bb_ext (enc x) b)"
    and rd_ok: "ok x \<Longrightarrow> reading (enc x) b \<Longrightarrow> rd b = Inr (x, bb_adv (length (enc x)) b)"
begin

lemma round_trip:
  assumes "ok x" "length (enc x) < 10000000"
  shows "wr x bb_new = Inr (bb_ext (enc x) bb_new)"
    and "rd (bb_ext (enc x) bb_new) = Inr (x, bb_adv (length (enc x)) (bb_ext (enc x) bb_new))"
  using assms reading_new [of "enc x"]
  by (auto intro!: wr_ok rd_ok simp: appendable_def bb_new_def bb_size_def)

lemma put_each_ok:
  assumes "\<forall>x \<in> set xs. ok x" "appendable (length (concat (map enc xs))) b"
  shows "put_each wr xs b = Inr (bb_ext (concat (map enc xs)) b)"
  using assms
proof (induction xs arbitrary: b)
  case (Cons x xs)
  have "appendable (length (enc x)) b" by (rule appendable_le [OF Cons.prems(2)]) simp
  then have "wr x b = Inr (bb_ext (enc x) b)" using Cons.prems(1) by (simp add: wr_ok)
  moreover have "appendable (length (concat (map enc xs))) (bb_ext (enc x) b)"
    using Cons.prems(2) by (intro appendable_ext) simp
  ultimately show ?case using Cons.IH Cons.prems(1) by simp
qed simp

lemma get_each_ok:
  assumes "\<forall>x \<in> set xs. ok x" "reading (concat (map enc xs)) b"
  shows "get_each rd (length xs) b = Inr (xs, bb_adv (length (concat (map enc xs))) b)"
  using assms
proof (induction xs arbitrary: b)
  case (Cons x xs)
  then have "rd b = Inr (x, bb_adv (length (enc x)) b)"
    and "get_each rd (length xs) (bb_adv (length (enc x)) b) =
         Inr (xs, bb_adv (length (concat (map enc xs))) (bb_adv (length (enc x)) b))"
    by (simp_all add: rd_ok reading_append)
  then show ?case by simp
qed simp

end

subsection \<open>Scalars, strings, packed GUIDs\<close>

lemma word_codec:
  assumes "LENGTH('a) mod 8 = 0"
  shows "stream_codec (word_bytes :: 'a::len word \<Rightarrow> u8 list) bb_append bb_read (\<lambda>_. True)"
proof
  have pos: "0 < LENGTH('a) div 8" using assms dvd_imp_le [of 8 "LENGTH('a)"] by (simp add: div_greater_zero_iff mod_0_imp_dvd)
  fix w :: "'a word" and b :: byte_buffer
  show "bb_append w b = Inr (bb_ext (word_bytes w) b)" if "appendable (length (word_bytes w)) b"
  proof -
    have "word_bytes w \<noteq> []" using pos length_word_bytes [of w] by (metis length_0_conv less_irrefl)
    with that show ?thesis by (simp add: bb_append_def append_bytes_ok)
  qed
  show "bb_read b = Inr (w, bb_adv (length (word_bytes w)) b)" if r: "reading (word_bytes w) b"
  proof -
    have "read_at (LENGTH('a) div 8) (rpos b) b = Inr (word_bytes w)"
      by (rule read_at_ok [OF r]) (simp add: length_word_bytes)
    moreover have "size_t (rpos b + LENGTH('a) div 8) = rpos b + LENGTH('a) div 8"
      using r by (intro size_t_id) (simp add: reading_def length_word_bytes)
    ultimately show ?thesis
      by (simp add: bb_read_def bytes_word_word_bytes [OF assms] length_word_bytes bb_adv_def)
  qed
qed

interpretation u8_codec: stream_codec "word_bytes :: u8 \<Rightarrow> u8 list" bb_append bb_read "\<lambda>_. True"
  by (rule word_codec) simp
interpretation u16_codec: stream_codec "word_bytes :: u16 \<Rightarrow> u8 list" bb_append bb_read "\<lambda>_. True"
  by (rule word_codec) simp
interpretation u32_codec: stream_codec "word_bytes :: u32 \<Rightarrow> u8 list" bb_append bb_read "\<lambda>_. True"
  by (rule word_codec) simp
interpretation u64_codec: stream_codec "word_bytes :: u64 \<Rightarrow> u8 list" bb_append bb_read "\<lambda>_. True"
  by (rule word_codec) simp

definition string_enc :: "string \<Rightarrow> u8 list" where
  "string_enc s = string_bytes s @ [0]"

definition string_ok :: "string \<Rightarrow> bool" where
  "string_ok s \<longleftrightarrow> CHR 0x00 \<notin> set s"

lemma word_bytes_u8 [simp]: "word_bytes (w :: u8) = [w]"
  by (simp add: word_bytes_def)

lemma put_string_ok:
  assumes "appendable (length (string_enc s)) b"
  shows "put_string s b = Inr (bb_ext (string_enc s) b)"
proof -
  have "(if length s \<noteq> 0 then append_bytes (string_bytes s) b else Inr b) = Inr (bb_ext (string_bytes s) b)"
    using assms by (auto simp: string_bytes_def string_enc_def intro!: append_bytes_ok elim: appendable_le)
  moreover have "appendable 1 (bb_ext (string_bytes s) b)"
    using assms by (intro appendable_ext) (simp add: string_enc_def)
  then have "bb_append (0 :: u8) (bb_ext (string_bytes s) b) = Inr (bb_ext [0] (bb_ext (string_bytes s) b))"
    using u8_codec.wr_ok [of 0] by simp
  ultimately show ?thesis by (simp add: put_string_def string_enc_def)
qed

lemma get_string_loop_ok:
  assumes "string_ok s" "reading (string_enc s) b"
  shows "get_string_loop acc b = (acc @ s, bb_adv (length (string_enc s)) b)"
  using assms
proof (induction s arbitrary: acc b)
  case Nil
  then have "rpos b < bb_size b" "storage b ! rpos b = 0"
    by (auto simp: reading_def string_enc_def string_bytes_def bb_size_def take_Suc_conv_app_nth)
  then show ?case
    by (subst get_string_loop.simps) (simp add: Let_def string_enc_def string_bytes_def bb_adv_def)
next
  case (Cons c s)
  have r: "reading [char_byte c] b" "reading (string_enc s) (bb_adv 1 b)"
    using Cons.prems(2) reading_append [of "[char_byte c]" "string_enc s" b]
    by (simp_all add: string_enc_def string_bytes_def)
  then have "rpos b < bb_size b" "storage b ! rpos b = char_byte c"
    by (auto simp: reading_def bb_size_def take_Suc_conv_app_nth)
  moreover have "char_byte c \<noteq> 0" "string_ok s" using Cons.prems(1) by (auto simp: string_ok_def)
  ultimately show ?case
    using Cons.IH [OF _ r(2), of "acc @ [c]"]
    by (subst get_string_loop.simps) (simp add: Let_def bb_adv_def string_enc_def string_bytes_def)
qed

interpretation string_codec: stream_codec string_enc put_string "\<lambda>b. Inr (get_string b)" string_ok
  by unfold_locales (simp_all add: put_string_ok get_string_def get_string_loop_ok)

subsection \<open>Packed GUIDs keep the contract\<close>

text \<open>Byte \<open>j\<close> of a GUID, the mark and the bytes that \<^verbatim>\<open>appendPackGUID\<close> writes for it.\<close>

definition guid_byte :: "u64 \<Rightarrow> nat \<Rightarrow> u8" where
  "guid_byte g j = ucast (drop_bit (8 * j) g AND 0xFF)"

fun guid_mask :: "u64 \<Rightarrow> nat list \<Rightarrow> u8" where
  "guid_mask g [] = 0"
| "guid_mask g (j # js) = (if guid_byte g j \<noteq> 0 then push_bit j 1 OR guid_mask g js else guid_mask g js)"

definition guid_bytes :: "u64 \<Rightarrow> nat list \<Rightarrow> u8 list" where
  "guid_bytes g js = map (guid_byte g) (filter (\<lambda>j. guid_byte g j \<noteq> 0) js)"

definition guid_enc :: "u64 \<Rightarrow> u8 list" where
  "guid_enc g = guid_mask g [0..<8] # guid_bytes g [0..<8]"

lemma and_0xFF: "w AND 0xFF = take_bit 8 w" for w :: "'a::len word"
proof -
  have "(0xFF :: 'a word) = mask 8" by (simp add: mask_eq_exp_minus_1)
  then show ?thesis by (simp only: take_bit_eq_mask)
qed

lemma guid_byte_bit: "bit (guid_byte g j) n \<longleftrightarrow> n < 8 \<and> bit g (8 * j + n)"
  by (auto simp: guid_byte_def and_0xFF bit_simps)

lemma guid_byte_zero_iff: "guid_byte g j = 0 \<longleftrightarrow> drop_bit (8 * j) g AND 0xFF = 0"
proof -
  have "bit (drop_bit (8 * j) g AND 0xFF) n \<longleftrightarrow> n < 8 \<and> bit g (8 * j + n)" for n
    by (auto simp: and_0xFF bit_simps)
  then show ?thesis by (auto simp: bit_eq_iff guid_byte_bit)
qed

lemma guid_byte_zero_if:
  assumes "drop_bit (8 * i) g = 0" "i \<le> j"
  shows "guid_byte g j = 0"
proof -
  have "bit g (8 * j + n) = bit (drop_bit (8 * i) g) (8 * (j - i) + n)" for n
    using assms(2) by (simp add: bit_simps algebra_simps)
  then have "\<not> bit g (8 * j + n)" for n by (simp add: assms(1))
  then show ?thesis by (simp add: bit_eq_iff guid_byte_bit)
qed

lemma guid_nothing_left:
  assumes "drop_bit (8 * i) g = 0"
  shows "guid_mask g [i..<8] = 0" "guid_bytes g [i..<8] = []"
proof -
  have z: "\<forall>j \<in> set [i..<8]. guid_byte g j = 0" using guid_byte_zero_if [OF assms] by simp
  have "\<forall>j \<in> set js. guid_byte g j = 0 \<Longrightarrow> guid_mask g js = 0" for js by (induction js) auto
  with z show "guid_mask g [i..<8] = 0" by blast
  from z show "guid_bytes g [i..<8] = []" by (simp add: guid_bytes_def filter_empty_conv)
qed

lemma drop_bit_64: "drop_bit (8 * 8) (g :: u64) = 0"
  by (simp add: bit_eq_iff bit_simps)

lemma pack_guid_loop_eq:
  assumes "i \<le> 8"
  shows "pack_guid_loop i (drop_bit (8 * i) g) m acc =
           (m OR guid_mask g [i..<8], acc @ guid_bytes g [i..<8])"
  using assms
proof (induction "8 - i" arbitrary: i m acc)
  case 0
  then have "i = 8" by simp
  then show ?case using drop_bit_64 [of g] by (subst pack_guid_loop.simps) (simp add: guid_bytes_def)
next
  case (Suc k)
  then have i: "i < 8" and up: "[i..<8] = i # [Suc i..<8]" by (simp_all add: upt_conv_Cons)
  have nxt: "drop_bit 8 (drop_bit (8 * i) g) = drop_bit (8 * Suc i) g" by (simp add: add.commute)
  note IH = Suc.hyps(1) [of "Suc i"]
  have nz: "drop_bit (8 * i) g AND 0xFF = 0 \<longleftrightarrow> guid_byte g i = 0"
    and gb: "ucast (drop_bit (8 * i) g AND 0xFF) = guid_byte g i"
    by (simp_all only: guid_byte_zero_iff) (simp add: guid_byte_def)
  show ?case
  proof (cases "drop_bit (8 * i) g = 0")
    case True
    then show ?thesis using guid_nothing_left [OF True] by (subst pack_guid_loop.simps) simp
  next
    case False
    then show ?thesis
      using IH [of "m OR push_bit i 1" "acc @ [guid_byte g i]"] IH [of m acc] Suc.hyps(2) i
      by (subst pack_guid_loop.simps)
        (simp add: nxt up guid_bytes_def or.assoc nz gb del: drop_bit_drop_bit)
  qed
qed

lemma bit_guid_mask: "bit (guid_mask g js) n \<longleftrightarrow> n < 8 \<and> n \<in> set js \<and> guid_byte g n \<noteq> 0"
  by (induction js) (auto simp: bit_simps)

lemma guid_mask_test:
  "j < 8 \<Longrightarrow> guid_mask g [0..<8] AND push_bit j 1 \<noteq> 0 \<longleftrightarrow> guid_byte g j \<noteq> 0"
proof -
  assume "j < 8"
  then show ?thesis
    using bit_iff_and_push_bit_not_eq_0 [of "guid_mask g [0..<8]" j] by (simp add: bit_guid_mask)
qed

lemma guid_acc_step:
  "take_bit (8 * i) g OR push_bit (i * 8) (ucast (guid_byte g i)) = take_bit (8 * Suc i) g"
proof (rule bit_word_eqI)
  fix n assume "n < LENGTH(64)"
  then show "bit (take_bit (8 * i) g OR push_bit (i * 8) (ucast (guid_byte g i))) n = bit (take_bit (8 * Suc i) g) n"
    by (auto simp: bit_simps guid_byte_bit not_less algebra_simps)
qed

lemma guid_acc_skip: "guid_byte g i = 0 \<Longrightarrow> take_bit (8 * i) g = take_bit (8 * Suc i) g"
  using guid_acc_step [of i g] by simp

lemma read_guid_loop_ok:
  assumes "i \<le> 8" "reading (guid_bytes g [i..<8]) b"
  shows "read_guid_loop [i..<8] (guid_mask g [0..<8]) (take_bit (8 * i) g) b =
           Inr (g, bb_adv (length (guid_bytes g [i..<8])) b)"
  using assms
proof (induction "8 - i" arbitrary: i b)
  case 0
  then have "i = 8" by simp
  then show ?case by (simp add: guid_bytes_def take_bit_word_eq_self)
next
  case (Suc k)
  then have i: "i < 8" and up: "[i..<8] = i # [Suc i..<8]" by (simp_all add: upt_conv_Cons)
  note IH = Suc.hyps(1) [of "Suc i"]
  show ?case
  proof (cases "guid_byte g i = 0")
    case True
    then show ?thesis
      using IH [of b] Suc.hyps(2) Suc.prems i guid_mask_test [OF i, of g] guid_acc_skip [OF True]
      by (simp add: up guid_bytes_def)
  next
    case False
    then have bs: "guid_bytes g [i..<8] = word_bytes (guid_byte g i) @ guid_bytes g [Suc i..<8]"
      by (simp add: up guid_bytes_def)
    have r: "reading (word_bytes (guid_byte g i)) b" "reading (guid_bytes g [Suc i..<8]) (bb_adv 1 b)"
      using Suc.prems(2) by (simp_all add: bs reading_append del: word_bytes_u8) (simp_all add: length_word_bytes)
    have "\<not> size_t (rpos b + 1) > bb_size b"
      using r(1) by (simp add: reading_def size_t_def)
    then show ?thesis
      using u8_codec.rd_ok [OF TrueI r(1)] IH [OF _ _ r(2)] Suc.hyps(2) i guid_mask_test [OF i, of g] False
        guid_acc_step [of i g] bs
      by (simp add: up)
  qed
qed

interpretation guid_codec: stream_codec guid_enc appendPackGUID readPackGUID "\<lambda>_. True"
proof
  fix g b
  show "appendPackGUID g b = Inr (bb_ext (guid_enc g) b)" if "appendable (length (guid_enc g)) b"
    using pack_guid_loop_eq [of 0 g 0 "[]"] append_bytes_ok [OF _ that]
    by (simp add: appendPackGUID_def guid_enc_def)
  show "readPackGUID b = Inr (g, bb_adv (length (guid_enc g)) b)" if r: "reading (guid_enc g) b"
  proof -
    have r': "reading (word_bytes (guid_mask g [0..<8])) b" "reading (guid_bytes g [0..<8]) (bb_adv 1 b)"
      using r reading_append [of "[guid_mask g [0..<8]]" "guid_bytes g [0..<8]" b]
      by (simp_all add: guid_enc_def)
    have "\<not> size_t (rpos b + 1) > bb_size b"
      using r'(1) by (simp add: reading_def size_t_def)
    then show ?thesis
      using u8_codec.rd_ok [OF TrueI r'(1)] read_guid_loop_ok [of 0, OF _ r'(2)]
      by (simp add: readPackGUID_def guid_enc_def)
  qed
qed

subsection \<open>Sequences and maps\<close>

definition seq_enc :: "('a \<Rightarrow> u8 list) \<Rightarrow> 'a list \<Rightarrow> u8 list" where
  "seq_enc enc xs = word_bytes (of_nat (length xs) :: u32) @ concat (map enc xs)"

definition seq_ok :: "('a \<Rightarrow> bool) \<Rightarrow> 'a list \<Rightarrow> bool" where
  "seq_ok ok xs \<longleftrightarrow> length xs < 2 ^ 32 \<and> (\<forall>x \<in> set xs. ok x)"

context stream_codec begin

lemma seq_codec: "stream_codec (seq_enc enc) (put_seq wr) (get_seq rd) (seq_ok ok)"
proof
  fix xs :: "'a list" and b
  let ?n = "of_nat (length xs) :: u32"
  assume ok: "seq_ok ok xs"
  then have n: "unat ?n = length xs" by (simp add: seq_ok_def unat_of_nat_small)
  show "put_seq wr xs b = Inr (bb_ext (seq_enc enc xs) b)" if a: "appendable (length (seq_enc enc xs)) b"
  proof -
    have "appendable (length (word_bytes ?n)) b"
      by (rule appendable_le [OF a]) (simp add: seq_enc_def)
    moreover have "appendable (length (concat (map enc xs))) (bb_ext (word_bytes ?n) b)"
      by (rule appendable_ext) (use a in \<open>simp add: seq_enc_def\<close>)
    ultimately show ?thesis
      using ok by (simp add: put_seq_def u32_codec.wr_ok put_each_ok seq_ok_def seq_enc_def)
  qed
  show "get_seq rd b = Inr (xs, bb_adv (length (seq_enc enc xs)) b)" if r: "reading (seq_enc enc xs) b"
    using r ok n u32_codec.rd_ok [of ?n b] get_each_ok [of xs "bb_adv (length (word_bytes ?n)) b"]
    by (simp add: get_seq_def seq_enc_def reading_append seq_ok_def)
qed

end

lemma pair_codec:
  assumes k: "stream_codec ek wk rk okk" and v: "stream_codec ev wv rv okv"
  shows "stream_codec (\<lambda>kv. ek (fst kv) @ ev (snd kv)) (put_pair wk wv) (get_pair rk rv)
           (\<lambda>kv. okk (fst kv) \<and> okv (snd kv))"
proof
  fix kv b
  assume ok: "okk (fst kv) \<and> okv (snd kv)"
  show "put_pair wk wv kv b = Inr (bb_ext (ek (fst kv) @ ev (snd kv)) b)"
    if a: "appendable (length (ek (fst kv) @ ev (snd kv))) b"
  proof -
    have "appendable (length (ek (fst kv))) b" by (rule appendable_le [OF a]) simp
    moreover have "appendable (length (ev (snd kv))) (bb_ext (ek (fst kv)) b)"
      by (rule appendable_ext) (use a in simp)
    ultimately show ?thesis
      using ok stream_codec.wr_ok [OF k] stream_codec.wr_ok [OF v] by (simp add: put_pair_def)
  qed
  show "get_pair rk rv b = Inr (kv, bb_adv (length (ek (fst kv) @ ev (snd kv))) b)"
    if "reading (ek (fst kv) @ ev (snd kv)) b"
    using that ok stream_codec.rd_ok [OF k, of "fst kv" b]
      stream_codec.rd_ok [OF v, of "snd kv" "bb_adv (length (ek (fst kv))) b"]
    by (simp add: get_pair_def reading_append)
qed

lemma map_insert_new_append:
  "\<forall>x \<in> set (map fst m). x < k \<Longrightarrow> map_insert_new (k, v) m = m @ [(k, v)]"
proof -
  assume lt: "\<forall>x \<in> set (map fst m). x < k"
  then have "map_find m k = None" by (auto simp: map_find_def map_of_eq_None_iff)
  moreover from lt have "map_set k v m = m @ [(k, v)]"
    by (induction k v m rule: map_set.induct) auto
  ultimately show ?thesis by (simp add: map_insert_new_def)
qed

lemma fold_map_insert_new: "map_wf (m @ kvs) \<Longrightarrow> fold map_insert_new kvs m = m @ kvs"
proof (induction kvs arbitrary: m)
  case (Cons kv kvs)
  obtain k v where kv: "kv = (k, v)" by fastforce
  have "map_insert_new (k, v) m = m @ [(k, v)]"
    using Cons.prems by (intro map_insert_new_append) (auto simp: map_wf_def sorted_wrt_append kv)
  then show ?case using Cons.IH [of "m @ [kv]"] Cons.prems by (simp add: kv)
qed simp

lemma map_codec:
  assumes "stream_codec ek wk rk okk" "stream_codec ev wv rv okv"
  shows "stream_codec (seq_enc (\<lambda>kv. ek (fst kv) @ ev (snd kv))) (put_map wk wv) (get_map rk rv)
           (\<lambda>m. map_wf m \<and> seq_ok (\<lambda>kv. okk (fst kv) \<and> okv (snd kv)) m)"
proof -
  have s: "stream_codec (seq_enc (\<lambda>kv. ek (fst kv) @ ev (snd kv))) (put_seq (put_pair wk wv))
      (get_seq (get_pair rk rv)) (seq_ok (\<lambda>kv. okk (fst kv) \<and> okv (snd kv)))"
    by (rule stream_codec.seq_codec [OF pair_codec [OF assms]])
  show ?thesis
  proof
    fix m b
    assume ok: "map_wf m \<and> seq_ok (\<lambda>kv. okk (fst kv) \<and> okv (snd kv)) m"
    let ?e = "seq_enc (\<lambda>kv. ek (fst kv) @ ev (snd kv)) m"
    show "put_map wk wv m b = Inr (bb_ext ?e b)" if "appendable (length ?e) b"
      using stream_codec.wr_ok [OF s _ that] ok by (simp add: put_map_def)
    show "get_map rk rv b = Inr (m, bb_adv (length ?e) b)" if "reading ?e b"
      using stream_codec.rd_ok [OF s _ that] ok fold_map_insert_new [of "[]" m] by (simp add: get_map_def)
  qed
qed

interpretation u32_list: stream_codec "seq_enc (word_bytes :: u32 \<Rightarrow> u8 list)" "put_seq bb_append"
  "get_seq bb_read" "seq_ok (\<lambda>_. True)"
  by (rule u32_codec.seq_codec)

interpretation u64_string_map: stream_codec
  "seq_enc (\<lambda>kv. word_bytes (fst kv :: u64) @ string_enc (snd kv))" "put_map bb_append put_string"
  "get_map bb_read (\<lambda>b. Inr (get_string b))" "\<lambda>m. map_wf m \<and> seq_ok (\<lambda>kv. True \<and> string_ok (snd kv)) m"
  by (rule map_codec [OF u64_codec.stream_codec_axioms string_codec.stream_codec_axioms])

subsection \<open>Packed dates\<close>

lemma pack_tm_bits:
  assumes "0 \<le> y" "y < 32" "0 \<le> mo" "mo < 16" "0 \<le> d" "d < 64" "0 \<le> w" "w < 8"
    "0 \<le> h" "h < 32" "0 \<le> mi" "mi < 64"
  defines "P \<equiv> word_of_int (push_bit 24 y OR push_bit 20 mo OR push_bit 14 d OR push_bit 11 w OR push_bit 6 h OR mi) :: u32"
  shows "uint (P AND 0x3F) = mi" "uint (drop_bit 6 P AND 0x1F) = h" "uint (drop_bit 14 P AND 0x3F) = d"
    "uint (drop_bit 20 P AND 0xF) = mo" "uint (drop_bit 24 P AND 0x1F) = y"
proof -
  have self: "take_bit 5 y = y" "take_bit 4 mo = mo" "take_bit 6 d = d" "take_bit 3 w = w"
    "take_bit 5 h = h" "take_bit 6 mi = mi"
    using assms(1-12) by (simp_all add: take_bit_int_eq_self)
  have hi: "bit y n \<Longrightarrow> n < 5" "bit mo n \<Longrightarrow> n < 4" "bit d n \<Longrightarrow> n < 6" "bit w n \<Longrightarrow> n < 3"
    "bit h n \<Longrightarrow> n < 5" "bit mi n \<Longrightarrow> n < 6" for n
    using self by (metis bit_take_bit_iff)+
  have m: "x AND 0x3F = take_bit 6 x" "x AND 0x1F = take_bit 5 x" "x AND 0xF = take_bit 4 x" for x :: u32
  proof -
    have "(0x3F :: u32) = mask 6" "(0x1F :: u32) = mask 5" "(0xF :: u32) = mask 4"
      by (simp_all add: mask_eq_exp_minus_1)
    then show "x AND 0x3F = take_bit 6 x" "x AND 0x1F = take_bit 5 x" "x AND 0xF = take_bit 4 x"
      by (simp_all only: take_bit_eq_mask)
  qed
  have P: "bit P n \<longleftrightarrow> n < 32 \<and> (24 \<le> n \<and> bit y (n - 24) \<or> 20 \<le> n \<and> bit mo (n - 20) \<or> 14 \<le> n \<and> bit d (n - 14)
      \<or> 11 \<le> n \<and> bit w (n - 11) \<or> 6 \<le> n \<and> bit h (n - 6) \<or> bit mi n)" for n
    unfolding P_def by (auto simp: bit_simps)
  show "uint (P AND 0x3F) = mi" "uint (drop_bit 6 P AND 0x1F) = h" "uint (drop_bit 14 P AND 0x3F) = d"
    "uint (drop_bit 20 P AND 0xF) = mo" "uint (drop_bit 24 P AND 0x1F) = y"
    unfolding m by (rule bit_eqI; auto simp: bit_simps P dest: hi)+
qed

section \<open>Readers stay inside the buffer\<close>

definition bb_wf :: "byte_buffer \<Rightarrow> bool" where
  "bb_wf b \<longleftrightarrow> rpos b \<le> bb_size b \<and> bb_size b < 2 ^ 63"

datatype read_op = RSkip nat | RU8 | RU16 | RU32 | RU64 | RBytes nat | RBool | RString | RGuid

definition keep :: "(bb_error + ('a \<times> byte_buffer)) \<Rightarrow> byte_buffer \<Rightarrow> byte_buffer" where
  "keep r b = (case r of Inl e \<Rightarrow> b | Inr (x, b') \<Rightarrow> b')"

fun read_step :: "read_op \<Rightarrow> byte_buffer \<Rightarrow> byte_buffer" where
  "read_step (RSkip n) b = (case read_skip n b of Inl e \<Rightarrow> b | Inr b' \<Rightarrow> b')"
| "read_step RU8 b = keep (bb_read b :: bb_error + (u8 \<times> byte_buffer)) b"
| "read_step RU16 b = keep (bb_read b :: bb_error + (u16 \<times> byte_buffer)) b"
| "read_step RU32 b = keep (bb_read b :: bb_error + (u32 \<times> byte_buffer)) b"
| "read_step RU64 b = keep (bb_read b :: bb_error + (u64 \<times> byte_buffer)) b"
| "read_step (RBytes n) b = keep (read_bytes n b) b"
| "read_step RBool b = keep (read_bool b) b"
| "read_step RString b = snd (get_string b)"
| "read_step RGuid b = keep (readPackGUID b) b"

text \<open>A length from the packet that does not wrap the cursor.\<close>

fun read_len_ok :: "read_op \<Rightarrow> byte_buffer \<Rightarrow> bool" where
  "read_len_ok (RSkip n) b = (n < 2 ^ 63)"
| "read_len_ok (RBytes n) b = (n < 2 ^ 63)"
| "read_len_ok _ b = True"

lemma read_at_error_iff:
  "bb_wf b \<Longrightarrow> n < 2 ^ 63 \<Longrightarrow>
     read_at n (rpos b) b =
       (if rpos b + n \<le> bb_size b then Inr (take n (drop (rpos b) (storage b)))
        else Inl (PositionException False (rpos b) n (bb_size b)))"
  by (auto simp: read_at_def bb_wf_def size_t_id)

lemma bb_read_keeps:
  assumes "bb_wf b" "bb_read b = Inr (v :: 'a::len word, b')" "LENGTH('a) < 2 ^ 63"
  shows "bb_wf b' \<and> storage b' = storage b \<and> rpos b \<le> rpos b'"
proof -
  have "LENGTH('a) div 8 < 2 ^ 63" using assms(3) by simp
  then show ?thesis
    using assms read_at_error_iff [OF assms(1), of "LENGTH('a) div 8"]
    by (auto simp: bb_read_def bb_wf_def bb_size_def size_t_id split: if_splits)
qed

lemma keep_bb_read:
  assumes "bb_wf b" "LENGTH('a) < 2 ^ 63" "b' = keep (bb_read b :: bb_error + ('a::len word \<times> byte_buffer)) b"
  shows "bb_wf b' \<and> storage b' = storage b \<and> rpos b \<le> rpos b'"
  using assms(1,3) bb_read_keeps [OF assms(1) _ assms(2)] by (auto simp: keep_def split: sum.splits)

lemma read_guid_loop_keeps:
  assumes "bb_wf b" "read_guid_loop is m g b = Inr (v, b')"
  shows "bb_wf b' \<and> storage b' = storage b \<and> rpos b \<le> rpos b'"
  using assms
proof (induction "is" m g b rule: read_guid_loop.induct)
  case (2 i js m g b)
  show ?case
  proof (cases "m AND push_bit i 1 \<noteq> 0")
    case True
    then obtain bt b1 where r: "bb_read b = Inr (bt :: u8, b1)" and
      l: "\<not> bb_size b < size_t (rpos b + 1)"
        "read_guid_loop js m (g OR push_bit (i * 8) (ucast bt)) b1 = Inr (v, b')"
      using "2.prems"(2) by (auto split: if_splits sum.splits prod.splits)
    have k: "bb_wf b1 \<and> storage b1 = storage b \<and> rpos b \<le> rpos b1"
      using bb_read_keeps [OF "2.prems"(1) r] by simp
    then show ?thesis
      using "2.IH"(1) [OF True l(1) r refl _ l(2)] by auto
  next
    case False
    then show ?thesis using "2.IH"(2) "2.prems" by simp
  qed
qed simp

lemma get_string_loop_keeps:
  "bb_wf b \<Longrightarrow> get_string_loop acc b = (s, b') \<Longrightarrow> bb_wf b' \<and> storage b' = storage b \<and> rpos b \<le> rpos b'"
proof (induction acc b arbitrary: s rule: get_string_loop.induct)
  case (1 acc b)
  show ?case
  proof (cases "rpos b < bb_size b \<and> storage b ! rpos b \<noteq> 0")
    case True
    have "bb_wf (b\<lparr>rpos := Suc (rpos b)\<rparr>)" using True "1.prems"(1) by (simp add: bb_wf_def bb_size_def)
    moreover have "get_string_loop (acc @ [byte_char (storage b ! rpos b)]) (b\<lparr>rpos := Suc (rpos b)\<rparr>) = (s, b')"
      using True "1.prems"(2) by (simp add: get_string_loop.simps [of acc b])
    ultimately show ?thesis using "1.IH" [OF _ refl refl] True by fastforce
  next
    case False
    then show ?thesis
      using "1.prems" by (auto simp: get_string_loop.simps [of acc b] bb_wf_def bb_size_def split: if_splits)
  qed
qed

lemma readPackGUID_keeps:
  assumes "bb_wf b" "readPackGUID b = Inr (g, b')"
  shows "bb_wf b' \<and> storage b' = storage b \<and> rpos b \<le> rpos b'"
proof -
  from assms(2) obtain m b1 where r: "bb_read b = Inr (m :: u8, b1)" "read_guid_loop [0..<8] m 0 b1 = Inr (g, b')"
    by (auto simp: readPackGUID_def simp del: read_guid_loop.simps split: if_splits sum.splits)
  have k: "bb_wf b1 \<and> storage b1 = storage b \<and> rpos b \<le> rpos b1"
    using bb_read_keeps [OF assms(1) r(1)] by simp
  then show ?thesis using read_guid_loop_keeps [OF _ r(2)] by auto
qed

lemma read_step_keeps:
  assumes "bb_wf b" "read_len_ok p b"
  shows "bb_wf (read_step p b) \<and> storage (read_step p b) = storage b \<and> rpos b \<le> rpos (read_step p b)"
proof (cases p)
  case RString
  then show ?thesis
    using get_string_loop_keeps [OF assms(1), of "[]"] by (cases "get_string b") (auto simp: get_string_def)
next
  case RGuid
  then show ?thesis
    using assms(1) readPackGUID_keeps [OF assms(1)] by (auto simp: keep_def split: sum.splits)
next
  case RBool
  have "keep (read_bool b) b = keep (bb_read b :: bb_error + (u8 \<times> byte_buffer)) b"
    by (auto simp: keep_def read_bool_def split: sum.splits)
  then show ?thesis using RBool keep_bb_read [OF assms(1), where ?'a = 8] by simp
next
  case (RSkip n)
  then show ?thesis using assms by (auto simp: read_skip_def bb_wf_def bb_size_def size_t_id)
next
  case (RBytes n)
  then show ?thesis using assms by (auto simp: keep_def read_bytes_def bb_wf_def bb_size_def size_t_id)
qed (use keep_bb_read [OF assms(1), where ?'a = 8] keep_bb_read [OF assms(1), where ?'a = 16]
      keep_bb_read [OF assms(1), where ?'a = 32] keep_bb_read [OF assms(1), where ?'a = 64] in simp_all)

interpretation reads: step_system read_step read_len_ok bb_wf
  by unfold_locales (use read_step_keeps in blast)

section \<open>Properties\<close>

text \<open>
  C28: every GUID survives the packed encoding: what \<^verbatim>\<open>appendPackGUID\<close> writes, at most nine
  bytes, \<^verbatim>\<open>readPackGUID\<close> reads back, leaving the cursor at the end.
\<close>

theorem packed_guid_round_trip:
  "\<exists>b. appendPackGUID g bb_new = Inr b \<and> bb_size b \<le> 9
     \<and> readPackGUID b = Inr (g, b\<lparr>rpos := bb_size b\<rparr>)"
proof -
  have len: "length (guid_enc g) \<le> 9"
    using length_filter_le [of "\<lambda>j. guid_byte g j \<noteq> 0" "[0..<8]"]
    by (simp add: guid_enc_def guid_bytes_def)
  moreover have "bb_size (bb_ext (guid_enc g) bb_new) = length (guid_enc g)"
    "bb_adv (length (guid_enc g)) (bb_ext (guid_enc g) bb_new) =
       (bb_ext (guid_enc g) bb_new)\<lparr>rpos := length (guid_enc g)\<rparr>"
    by (simp_all add: bb_size_def bb_ext_def bb_new_def bb_adv_def)
  ultimately show ?thesis
    using guid_codec.round_trip [of g] by auto
qed

text \<open>
  A calendar date between 2000 and 2031 written by \<^verbatim>\<open>AppendPackedTime\<close> is handed to
  \<^verbatim>\<open>mktime\<close> by \<^verbatim>\<open>ReadPackedTime\<close> with the same minute, hour, day, month and year (the week
  day is dropped), for every \<^verbatim>\<open>localtime\<close> whose fields are in their documented ranges.
\<close>

theorem packed_time_round_trip:
  assumes "lt = localtime t"
    and "100 \<le> tm_year lt" "tm_year lt < 132" "0 \<le> tm_mon lt" "tm_mon lt < 12"
    and "1 \<le> tm_mday lt" "tm_mday lt \<le> 31" "0 \<le> tm_wday lt" "tm_wday lt < 7"
    and "0 \<le> tm_hour lt" "tm_hour lt < 24" "0 \<le> tm_min lt" "tm_min lt < 60"
  shows "\<exists>b b'. AppendPackedTime localtime t bb_new = Inr b \<and>
           ReadPackedTime mktime tz b = Inr (word_of_int (mktime (lt\<lparr>tm_wday := 0\<rparr>) + tz), b')"
proof -
  have "unpack_tm (pack_tm lt) = lt\<lparr>tm_wday := 0\<rparr>"
    using pack_tm_bits [of "tm_year lt - 100" "tm_mon lt" "tm_mday lt - 1" "tm_wday lt" "tm_hour lt" "tm_min lt"]
      assms(2-13) by (simp add: unpack_tm_def pack_tm_def)
  moreover have "length (word_bytes (pack_tm lt)) < 10000000" by (simp add: length_word_bytes)
  ultimately show ?thesis
    using u32_codec.round_trip [of "pack_tm lt"] assms(1)
    by (simp add: AppendPackedTime_def ReadPackedTime_def)
qed

theorem packed_time_round_trip_witness:
  "\<exists>b b'. AppendPackedTime (\<lambda>t. \<lparr>tm_min = t mod 60, tm_hour = 7, tm_mday = 31, tm_mon = 11, tm_year = 112, tm_wday = 1\<rparr>)
       125 bb_new = Inr b \<and>
     ReadPackedTime (\<lambda>lt. tm_min lt + 60 * tm_hour lt) 3600 b = Inr (word_of_int (5 + 60 * 7 + 3600), b')"
  using packed_time_round_trip [OF refl, of
      "\<lambda>t. \<lparr>tm_min = t mod 60, tm_hour = 7, tm_mday = 31, tm_mon = 11, tm_year = 112, tm_wday = 1\<rparr>" 125
      "\<lambda>lt. tm_min lt + 60 * tm_hour lt" 3600]
  by simp





end
