(* ===== verification/World_Packet.thy ===== *)
theory World_Packet
  imports Byte_Buffer
begin

text \<open>
  \<^verbatim>\<open>src/src/server/shared/Packets/WorldPacket.h\<close>: a buffer with an opcode. The components that
  build packets are modelled at the level of the \<^verbatim>\<open><<\<close> operators: a packet is its opcode and
  the sequence of fields streamed into it, and \<open>packet_bytes\<close> runs those operators on the
  buffer of \<open>Byte_Buffer\<close>. A read that follows the field types gives the fields back.
\<close>

datatype field = FU8 u8 | FU16 u16 | FU32 u32 | FU64 u64 | FStr string | FPack u64

record world_packet =
  m_opcode :: u16
  payload :: "field list"

definition WorldPacket :: "u16 \<Rightarrow> world_packet" where
  "WorldPacket opcode = \<lparr>m_opcode = opcode, payload = []\<rparr>"

definition Initialize_packet :: "u16 \<Rightarrow> world_packet \<Rightarrow> world_packet" where
  "Initialize_packet opcode p = p\<lparr>payload := [], m_opcode := opcode\<rparr>"

definition stream :: "field list \<Rightarrow> world_packet \<Rightarrow> world_packet" where
  "stream fs p = p\<lparr>payload := payload p @ fs\<rparr>"

text \<open>\<^verbatim>\<open>data.put<uint32>(pos, value)\<close> on the field that was streamed at \<open>pos\<close>.\<close>

definition put_u32_field :: "nat \<Rightarrow> u32 \<Rightarrow> world_packet \<Rightarrow> world_packet" where
  "put_u32_field i v p = p\<lparr>payload := (payload p)[i := FU32 v]\<rparr>"

fun put_field :: "field writer" where
  "put_field (FU8 v) b = bb_append v b"
| "put_field (FU16 v) b = bb_append v b"
| "put_field (FU32 v) b = bb_append v b"
| "put_field (FU64 v) b = bb_append v b"
| "put_field (FStr s) b = put_string s b"
| "put_field (FPack g) b = appendPackGUID g b"

definition packet_bytes :: "world_packet \<Rightarrow> bb_error + byte_buffer" where
  "packet_bytes p = put_each put_field (payload p) bb_new"

fun field_enc :: "field \<Rightarrow> u8 list" where
  "field_enc (FU8 v) = word_bytes v"
| "field_enc (FU16 v) = word_bytes v"
| "field_enc (FU32 v) = word_bytes v"
| "field_enc (FU64 v) = word_bytes v"
| "field_enc (FStr s) = string_enc s"
| "field_enc (FPack g) = guid_enc g"

fun field_ok :: "field \<Rightarrow> bool" where
  "field_ok (FStr s) = string_ok s"
| "field_ok _ = True"

text \<open>Reading a field of the same type: the handler's matching \<^verbatim>\<open>>>\<close>.\<close>

definition as_field :: "('a \<Rightarrow> field) \<Rightarrow> (bb_error + ('a \<times> byte_buffer)) \<Rightarrow> bb_error + (field \<times> byte_buffer)" where
  "as_field F r = (case r of Inl e \<Rightarrow> Inl e | Inr (x, b) \<Rightarrow> Inr (F x, b))"

fun get_like :: "field \<Rightarrow> field reader" where
  "get_like (FU8 _) b = as_field FU8 (bb_read b)"
| "get_like (FU16 _) b = as_field FU16 (bb_read b)"
| "get_like (FU32 _) b = as_field FU32 (bb_read b)"
| "get_like (FU64 _) b = as_field FU64 (bb_read b)"
| "get_like (FStr _) b = as_field FStr (Inr (get_string b))"
| "get_like (FPack _) b = as_field FPack (readPackGUID b)"

fun get_likes :: "field list \<Rightarrow> field list reader" where
  "get_likes [] b = Inr ([], b)"
| "get_likes (f # fs) b =
     (case get_like f b of
        Inl e \<Rightarrow> Inl e
      | Inr (g, b') \<Rightarrow> (case get_likes fs b' of Inl e \<Rightarrow> Inl e | Inr (gs, b'') \<Rightarrow> Inr (g # gs, b'')))"

lemma put_field_ok:
  "appendable (length (field_enc f)) b \<Longrightarrow> put_field f b = Inr (bb_ext (field_enc f) b)"
  by (cases f) (simp_all add: u8_codec.wr_ok u16_codec.wr_ok u32_codec.wr_ok u64_codec.wr_ok
      put_string_ok guid_codec.wr_ok)

lemma get_like_ok:
  "field_ok f \<Longrightarrow> reading (field_enc f) b \<Longrightarrow> get_like f b = Inr (f, bb_adv (length (field_enc f)) b)"
  by (cases f)
    (simp_all add: as_field_def u8_codec.rd_ok u16_codec.rd_ok u32_codec.rd_ok u64_codec.rd_ok
      string_codec.rd_ok guid_codec.rd_ok)

definition packet_enc :: "field list \<Rightarrow> u8 list" where
  "packet_enc fs = concat (map field_enc fs)"

lemma put_fields_ok:
  "appendable (length (packet_enc fs)) b \<Longrightarrow> put_each put_field fs b = Inr (bb_ext (packet_enc fs) b)"
proof (induction fs arbitrary: b)
  case (Cons f fs)
  have "appendable (length (field_enc f)) b"
    by (rule appendable_le [OF Cons.prems]) (simp add: packet_enc_def)
  moreover have "appendable (length (packet_enc fs)) (bb_ext (field_enc f) b)"
    by (rule appendable_ext) (use Cons.prems in \<open>simp add: packet_enc_def\<close>)
  ultimately show ?case using Cons.IH by (simp add: put_field_ok packet_enc_def)
qed (simp add: packet_enc_def)

lemma get_likes_ok:
  "\<forall>f \<in> set fs. field_ok f \<Longrightarrow> reading (packet_enc fs) b \<Longrightarrow>
     get_likes fs b = Inr (fs, bb_adv (length (packet_enc fs)) b)"
proof (induction fs arbitrary: b)
  case (Cons f fs)
  then have "reading (field_enc f) b" "reading (packet_enc fs) (bb_adv (length (field_enc f)) b)"
    by (simp_all add: packet_enc_def reading_append)
  with Cons show ?case by (simp add: get_like_ok packet_enc_def)
qed (simp add: packet_enc_def)

text \<open>The placeholder idiom: overwriting a streamed 32-bit field equals streaming the final value.\<close>

lemma packet_enc_put_u32:
  assumes "i < length fs" "fs ! i = FU32 v0"
  shows "packet_enc (fs[i := FU32 v]) =
    overwrite (length (packet_enc (take i fs))) (word_bytes v) (packet_enc fs)"
proof -
  have fs: "fs = take i fs @ FU32 v0 # drop (Suc i) fs" using assms id_take_nth_drop [of i fs] by simp
  have "fs[i := FU32 v] = take i fs @ FU32 v # drop (Suc i) fs"
    using assms by (simp add: upd_conv_take_nth_drop)
  then show ?thesis
    by (subst (3) fs) (simp add: packet_enc_def overwrite_def length_word_bytes)
qed

text \<open>
  A packet's fields (integers of every width, NUL-free strings, packed GUIDs) streamed into
  a fresh buffer are read back unchanged by the matching sequence of \<^verbatim>\<open>>>\<close>, and streaming does
  not throw while the packet stays under the buffer's limit of ten million bytes.
\<close>

theorem packet_round_trip:
  assumes "\<forall>f \<in> set (payload p). field_ok f" "length (packet_enc (payload p)) < 10000000"
  shows "\<exists>b b'. packet_bytes p = Inr b \<and> bb_size b = length (packet_enc (payload p))
           \<and> get_likes (payload p) b = Inr (payload p, b')"
proof -
  let ?bs = "packet_enc (payload p)"
  have "packet_bytes p = Inr (bb_ext ?bs bb_new)"
    using assms(2) by (simp add: packet_bytes_def put_fields_ok appendable_def bb_new_def bb_size_def)
  moreover have "reading ?bs (bb_ext ?bs bb_new)" using assms(2) by (intro reading_new) simp
  ultimately show ?thesis
    using get_likes_ok [OF assms(1)] by (auto simp: bb_size_def bb_ext_def bb_new_def)
qed

theorem packet_round_trip_witness:
  "\<exists>b b'. packet_bytes (stream [FU8 2, FStr ''World'', FU8 0x18, FU32 1, FPack 513] (WorldPacket 0x99)) = Inr b
     \<and> bb_size b = 15 \<and> get_likes [FU8 2, FStr ''World'', FU8 0x18, FU32 1, FPack 513] b =
         Inr ([FU8 2, FStr ''World'', FU8 0x18, FU32 1, FPack 513], b')"
proof -
  let ?p = "stream [FU8 2, FStr ''World'', FU8 0x18, FU32 1, FPack 513] (WorldPacket 0x99)"
  have "guid_enc 513 = [3, 1, 2]" by code_simp
  then have l: "length (packet_enc (payload ?p)) = 15"
    by (simp add: packet_enc_def stream_def WorldPacket_def string_enc_def string_bytes_def length_word_bytes)
  have "\<forall>f \<in> set (payload ?p). field_ok f"
    by (simp add: stream_def WorldPacket_def string_ok_def)
  from packet_round_trip [OF this] l show ?thesis by (simp add: stream_def WorldPacket_def)
qed

end
