(* ===== verification/Object_Guid.thy ===== *)
theory Object_Guid
  imports Prelude
begin

text \<open>
  The layout of 64-bit object identifiers, \<^verbatim>\<open>src/src/server/game/Entities/Object/ObjectDefines.h\<close>:
  a 16-bit type in the top bits and below it either a 32-bit counter (players, items, groups)
  or a 24-bit entry and a 24-bit counter (creatures, pets, game objects). The lemmas show that
  the parts are recovered from what \<^verbatim>\<open>MAKE_NEW_GUID\<close> builds.
\<close>

definition PAIR64_HIPART :: "u64 \<Rightarrow> u32" where
  "PAIR64_HIPART x = ucast (drop_bit 32 x AND 0xFFFFFFFF)"

definition PAIR64_LOPART :: "u64 \<Rightarrow> u32" where
  "PAIR64_LOPART x = ucast (x AND 0xFFFFFFFF)"

definition MAKE_PAIR64 :: "u32 \<Rightarrow> u32 \<Rightarrow> u64" where
  "MAKE_PAIR64 l h = ucast l OR push_bit 32 (ucast h)"

definition HIGHGUID_ITEM :: u32 where "HIGHGUID_ITEM = 0x4000"
definition HIGHGUID_PLAYER :: u32 where "HIGHGUID_PLAYER = 0x0000"
definition HIGHGUID_GAMEOBJECT :: u32 where "HIGHGUID_GAMEOBJECT = 0xF110"
definition HIGHGUID_TRANSPORT :: u32 where "HIGHGUID_TRANSPORT = 0xF120"
definition HIGHGUID_UNIT :: u32 where "HIGHGUID_UNIT = 0xF130"
definition HIGHGUID_PET :: u32 where "HIGHGUID_PET = 0xF140"
definition HIGHGUID_VEHICLE :: u32 where "HIGHGUID_VEHICLE = 0xF150"
definition HIGHGUID_DYNAMICOBJECT :: u32 where "HIGHGUID_DYNAMICOBJECT = 0xF100"
definition HIGHGUID_CORPSE :: u32 where "HIGHGUID_CORPSE = 0xF101"
definition HIGHGUID_MO_TRANSPORT :: u32 where "HIGHGUID_MO_TRANSPORT = 0x1FC0"
definition HIGHGUID_GROUP :: u32 where "HIGHGUID_GROUP = 0x1F50"

lemmas high_guids = HIGHGUID_ITEM_def HIGHGUID_PLAYER_def HIGHGUID_GAMEOBJECT_def HIGHGUID_TRANSPORT_def
  HIGHGUID_UNIT_def HIGHGUID_PET_def HIGHGUID_VEHICLE_def HIGHGUID_DYNAMICOBJECT_def HIGHGUID_CORPSE_def
  HIGHGUID_MO_TRANSPORT_def HIGHGUID_GROUP_def

definition MAKE_NEW_GUID :: "u32 \<Rightarrow> u32 \<Rightarrow> u32 \<Rightarrow> u64" where
  "MAKE_NEW_GUID l e h = ucast l OR push_bit 24 (ucast e) OR push_bit 48 (ucast h)"

definition GUID_HIPART :: "u64 \<Rightarrow> u32" where
  "GUID_HIPART x = ucast (drop_bit 48 x AND 0x0000FFFF)"

definition GUID_ENPART_2 :: "u64 \<Rightarrow> u32" where
  "GUID_ENPART_2 x = 0"

definition GUID_ENPART_3 :: "u64 \<Rightarrow> u32" where
  "GUID_ENPART_3 x = ucast (drop_bit 24 x AND 0x0000000000FFFFFF)"

definition GUID_LOPART_2 :: "u64 \<Rightarrow> u32" where
  "GUID_LOPART_2 x = ucast (x AND 0x00000000FFFFFFFF)"

definition GUID_LOPART_3 :: "u64 \<Rightarrow> u32" where
  "GUID_LOPART_3 x = ucast (x AND 0x0000000000FFFFFF)"

definition IsGuidHaveEnPart :: "u64 \<Rightarrow> bool" where
  "IsGuidHaveEnPart guid =
     (let h = GUID_HIPART guid
      in if h = HIGHGUID_ITEM \<or> h = HIGHGUID_PLAYER \<or> h = HIGHGUID_DYNAMICOBJECT
            \<or> h = HIGHGUID_CORPSE \<or> h = HIGHGUID_GROUP
         then False
         else True)"

definition GUID_ENPART :: "u64 \<Rightarrow> u32" where
  "GUID_ENPART x = (if IsGuidHaveEnPart x then GUID_ENPART_3 x else GUID_ENPART_2 x)"

definition GUID_LOPART :: "u64 \<Rightarrow> u32" where
  "GUID_LOPART x = (if IsGuidHaveEnPart x then GUID_LOPART_3 x else GUID_LOPART_2 x)"

definition IS_PLAYER_GUID :: "u64 \<Rightarrow> bool" where
  "IS_PLAYER_GUID g \<longleftrightarrow> GUID_HIPART g = HIGHGUID_PLAYER \<and> g \<noteq> 0"

definition IS_CRE_OR_VEH_GUID :: "u64 \<Rightarrow> bool" where
  "IS_CRE_OR_VEH_GUID g \<longleftrightarrow> GUID_HIPART g = HIGHGUID_UNIT \<or> GUID_HIPART g = HIGHGUID_VEHICLE"

definition IS_UNIT_GUID :: "u64 \<Rightarrow> bool" where
  "IS_UNIT_GUID g \<longleftrightarrow> IS_CRE_OR_VEH_GUID g \<or> GUID_HIPART g = HIGHGUID_PET \<or> IS_PLAYER_GUID g"

definition GetLogNameForGuid :: "u64 \<Rightarrow> string" where
  "GetLogNameForGuid guid =
     (let h = GUID_HIPART guid
      in if h = HIGHGUID_ITEM then ''item''
         else if h = HIGHGUID_PLAYER then (if guid \<noteq> 0 then ''player'' else ''none'')
         else if h = HIGHGUID_GAMEOBJECT then ''gameobject''
         else if h = HIGHGUID_TRANSPORT then ''transport''
         else if h = HIGHGUID_UNIT then ''creature''
         else if h = HIGHGUID_PET then ''pet''
         else if h = HIGHGUID_VEHICLE then ''vehicle''
         else if h = HIGHGUID_DYNAMICOBJECT then ''dynobject''
         else if h = HIGHGUID_CORPSE then ''corpse''
         else if h = HIGHGUID_MO_TRANSPORT then ''mo_transport''
         else if h = HIGHGUID_GROUP then ''group''
         else ''<unknown>'')"

section \<open>Masks as truncations\<close>

lemma and_masks:
  "x AND 0xFFFFFFFF = take_bit 32 x" "x AND 0xFFFFFF = take_bit 24 x" "x AND 0xFFFF = take_bit 16 x" for x :: u64
proof -
  have "(0xFFFFFFFF :: u64) = mask 32" "(0xFFFFFF :: u64) = mask 24" "(0xFFFF :: u64) = mask 16"
    by (simp_all add: mask_eq_exp_minus_1)
  then show "x AND 0xFFFFFFFF = take_bit 32 x" "x AND 0xFFFFFF = take_bit 24 x" "x AND 0xFFFF = take_bit 16 x"
    by (simp_all only: take_bit_eq_mask)
qed

lemma bit_bound:
  fixes w :: u32
  assumes "unat w < 2 ^ k" "bit w n"
  shows "n < k"
proof -
  have "take_bit k (unat w) = unat w" using assms(1) by (simp add: take_bit_nat_eq_self)
  moreover have "bit (unat w) n" using assms(2) bit_imp_le_length [of w n] by (simp add: bit_simps)
  ultimately show ?thesis by (metis bit_take_bit_iff)
qed

lemma hipart_make_new:
  assumes "unat h < 2 ^ 16" "unat e < 2 ^ 24"
  shows "GUID_HIPART (MAKE_NEW_GUID l e h) = h"
proof (rule bit_word_eqI)
  fix n assume "n < LENGTH(32)"
  then show "bit (GUID_HIPART (MAKE_NEW_GUID l e h)) n = bit h n"
    using bit_bound [OF assms(1), of n] bit_bound [OF assms(2), of "n + 24"]
      bit_imp_le_length [of l "n + 48"]
    by (auto simp: GUID_HIPART_def MAKE_NEW_GUID_def and_masks bit_simps add.commute)
qed

lemma enpart_make_new:
  assumes "unat l < 2 ^ 24" "unat e < 2 ^ 24"
  shows "GUID_ENPART_3 (MAKE_NEW_GUID l e h) = e"
proof (rule bit_word_eqI)
  fix n assume "n < LENGTH(32)"
  then show "bit (GUID_ENPART_3 (MAKE_NEW_GUID l e h)) n = bit e n"
    using bit_bound [OF assms(1), of "n + 24"] bit_bound [OF assms(2), of n]
    by (auto simp: GUID_ENPART_3_def MAKE_NEW_GUID_def and_masks bit_simps add.commute)
qed

lemma lopart_make_new:
  assumes "unat l < 2 ^ 24"
  shows "GUID_LOPART_3 (MAKE_NEW_GUID l e h) = l"
proof (rule bit_word_eqI)
  fix n assume "n < LENGTH(32)"
  then show "bit (GUID_LOPART_3 (MAKE_NEW_GUID l e h)) n = bit l n"
    using bit_bound [OF assms(1), of n]
    by (auto simp: GUID_LOPART_3_def MAKE_NEW_GUID_def and_masks bit_simps)
qed

lemma lopart2_make_new: "GUID_LOPART_2 (MAKE_NEW_GUID l 0 h) = l"
  by (rule bit_word_eqI) (auto simp: GUID_LOPART_2_def MAKE_NEW_GUID_def and_masks bit_simps)

lemma player_guid: "MAKE_NEW_GUID l 0 HIGHGUID_PLAYER = ucast l"
  by (simp add: MAKE_NEW_GUID_def high_guids)

lemma player_lopart: "GUID_LOPART (ucast (l :: u32)) = l"
proof -
  have "unat HIGHGUID_PLAYER < 2 ^ 16" by (simp add: high_guids)
  from hipart_make_new [OF this, of 0 l] have "GUID_HIPART (ucast l) = HIGHGUID_PLAYER"
    by (simp add: player_guid)
  then have "\<not> IsGuidHaveEnPart (ucast l)" by (simp add: IsGuidHaveEnPart_def)
  then show ?thesis
    using lopart2_make_new [of l HIGHGUID_PLAYER] by (simp add: player_guid GUID_LOPART_def)
qed

text \<open>
  the parts of an identifier are recovered from \<^verbatim>\<open>MAKE_NEW_GUID\<close>: for a creature, pet,
  vehicle or game object the type, the 24-bit entry and the 24-bit counter, and for a player
  every 32-bit counter; a nonzero player identifier is recognised as a player's and a unit's.
\<close>

theorem guid_parts_round_trip:
  assumes "unat l < 2 ^ 24" "unat e < 2 ^ 24"
    and "h \<in> {HIGHGUID_UNIT, HIGHGUID_PET, HIGHGUID_VEHICLE, HIGHGUID_GAMEOBJECT, HIGHGUID_TRANSPORT}"
    and "p \<noteq> 0"
  shows "GUID_HIPART (MAKE_NEW_GUID l e h) = h \<and> GUID_ENPART (MAKE_NEW_GUID l e h) = e
     \<and> GUID_LOPART (MAKE_NEW_GUID l e h) = l
     \<and> GUID_LOPART (MAKE_NEW_GUID p 0 HIGHGUID_PLAYER) = p
     \<and> IS_PLAYER_GUID (MAKE_NEW_GUID p 0 HIGHGUID_PLAYER) \<and> IS_UNIT_GUID (MAKE_NEW_GUID p 0 HIGHGUID_PLAYER)"
proof -
  have "unat h < 2 ^ 16" using assms(3) by (auto simp: high_guids)
  then have hi: "GUID_HIPART (MAKE_NEW_GUID l e h) = h" using assms(2) by (rule hipart_make_new)
  then have "IsGuidHaveEnPart (MAKE_NEW_GUID l e h)"
    using assms(3) by (auto simp: IsGuidHaveEnPart_def high_guids)
  moreover have "(ucast p :: u64) \<noteq> 0"
    using assms(4) player_lopart [of p] player_lopart [of 0] by auto
  moreover have "GUID_HIPART (MAKE_NEW_GUID p 0 HIGHGUID_PLAYER) = HIGHGUID_PLAYER"
    by (rule hipart_make_new) (simp_all add: high_guids)
  ultimately show ?thesis
    using hi enpart_make_new [OF assms(1,2), of h] lopart_make_new [OF assms(1), of e h] player_lopart [of p]
    by (simp add: GUID_ENPART_def GUID_LOPART_def IS_PLAYER_GUID_def IS_UNIT_GUID_def player_guid)
qed

theorem guid_parts_round_trip_witness:
  "GUID_ENPART (MAKE_NEW_GUID 77 1234 HIGHGUID_UNIT) = 1234 \<and> GUID_LOPART (MAKE_NEW_GUID 5 0 HIGHGUID_PLAYER) = 5"
  using guid_parts_round_trip [of 77 1234 HIGHGUID_UNIT 5] by simp

end
