(* ===== verification/World_State.thy ===== *)
theory World_State
  imports World_Packet Object_Guid
begin

text \<open>
  What the modelled components read of the rest of the server: the players known to
  \<^verbatim>\<open>ObjectAccessor\<close> with the attributes their sessions expose, the account levels of
  \<^verbatim>\<open>AccountMgr\<close>, the configuration values and the character names in the database. The
  lookups \<^verbatim>\<open>FindPlayer\<close> and \<^verbatim>\<open>FindPlayerByName\<close> run over the player table as the source does.
\<close>

section \<open>Account levels (\<^verbatim>\<open>AccountMgr.cpp\<close>, \<^verbatim>\<open>Common.h\<close>)\<close>

definition SEC_PLAYER :: u32 where "SEC_PLAYER = 0"
definition SEC_MODERATOR :: u32 where "SEC_MODERATOR = 1"
definition SEC_GAMEMASTER :: u32 where "SEC_GAMEMASTER = 2"
definition SEC_ADMINISTRATOR :: u32 where "SEC_ADMINISTRATOR = 3"
definition SEC_CONSOLE :: u32 where "SEC_CONSOLE = 4"

definition IsPlayerAccount :: "u32 \<Rightarrow> bool" where
  "IsPlayerAccount gmlevel \<longleftrightarrow> gmlevel = SEC_PLAYER"

definition IsModeratorAccount :: "u32 \<Rightarrow> bool" where
  "IsModeratorAccount gmlevel \<longleftrightarrow> gmlevel \<ge> SEC_MODERATOR \<and> gmlevel \<le> SEC_CONSOLE"

definition IsGMAccount :: "u32 \<Rightarrow> bool" where
  "IsGMAccount gmlevel \<longleftrightarrow> gmlevel \<ge> SEC_GAMEMASTER \<and> gmlevel \<le> SEC_CONSOLE"

definition IsAdminAccount :: "u32 \<Rightarrow> bool" where
  "IsAdminAccount gmlevel \<longleftrightarrow> gmlevel \<ge> SEC_ADMINISTRATOR \<and> gmlevel \<le> SEC_CONSOLE"

definition IsConsoleAccount :: "u32 \<Rightarrow> bool" where
  "IsConsoleAccount gmlevel \<longleftrightarrow> gmlevel = SEC_CONSOLE"

lemmas security_levels = SEC_PLAYER_def SEC_MODERATOR_def SEC_GAMEMASTER_def SEC_ADMINISTRATOR_def
  SEC_CONSOLE_def

section \<open>Players\<close>

definition HORDE :: u32 where "HORDE = 67"
definition ALLIANCE :: u32 where "ALLIANCE = 469"

record player =
  pl_guid :: u64
  pl_name :: string
  pl_security :: u32
  pl_team :: u32
  pl_in_world :: bool
  pl_in_group :: bool
  pl_visible :: bool
  pl_gm_visible :: bool
  pl_gm_chat :: bool
  pl_afk :: bool
  pl_dnd :: bool
  pl_developer :: bool
  pl_zone :: u32
  pl_level :: u8
  pl_class :: u8

record world =
  w_players :: "player list"
  w_char_names :: "u32 \<Rightarrow> string option"
  cfg_restricted_lfg_channel :: bool
  cfg_silently_gm_join_to_channel :: bool
  cfg_two_side_channel :: bool
  cfg_two_side_who_list :: bool
  cfg_preserve_custom_channels :: bool
  cfg_preserve_custom_channel_duration :: u32
  cfg_gm_level_in_who_list :: u32

text \<open>The player table is a hash map: one entry per GUID.\<close>

definition world_wf :: "world \<Rightarrow> bool" where
  "world_wf w \<longleftrightarrow> distinct (map pl_guid (w_players w))"

definition FindPlayer :: "world \<Rightarrow> u64 \<Rightarrow> player option" where
  "FindPlayer w guid =
     (case find (\<lambda>p. pl_guid p = guid) (w_players w) of
        None \<Rightarrow> None
      | Some p \<Rightarrow> if pl_in_world p then Some p else None)"

text \<open>\<^verbatim>\<open>::tolower\<close> in the C locale\<close>

definition tolower :: "char \<Rightarrow> char" where
  "tolower c = (if 65 \<le> (of_char c :: nat) \<and> (of_char c :: nat) \<le> 90 then char_of ((of_char c :: nat) + 32) else c)"

definition FindPlayerByName :: "world \<Rightarrow> string \<Rightarrow> player option" where
  "FindPlayerByName w name =
     find (\<lambda>p. pl_in_world p \<and> map tolower (pl_name p) = map tolower name) (w_players w)"

text \<open>\<^verbatim>\<open>ObjectMgr::GetPlayerNameByGUID\<close>: online players first, then the database.\<close>

definition GetPlayerNameByGUID :: "world \<Rightarrow> u64 \<Rightarrow> string option" where
  "GetPlayerNameByGUID w guid =
     (case FindPlayer w guid of
        Some p \<Rightarrow> Some (pl_name p)
      | None \<Rightarrow> w_char_names w (GUID_LOPART guid))"

definition CHAT_TAG_AFK :: u8 where "CHAT_TAG_AFK = 0x01"
definition CHAT_TAG_DND :: u8 where "CHAT_TAG_DND = 0x02"
definition CHAT_TAG_GM :: u8 where "CHAT_TAG_GM = 0x04"
definition CHAT_TAG_DEV :: u8 where "CHAT_TAG_DEV = 0x10"

definition GetChatTag :: "player \<Rightarrow> u8" where
  "GetChatTag p =
     (let tag = 0;
          tag = (if pl_gm_chat p then tag OR CHAT_TAG_GM else tag);
          tag = (if pl_dnd p then tag OR CHAT_TAG_DND else tag);
          tag = (if pl_afk p then tag OR CHAT_TAG_AFK else tag);
          tag = (if pl_developer p then tag OR CHAT_TAG_DEV else tag)
      in tag)"

definition IsVisibleGloballyFor :: "player \<Rightarrow> player \<Rightarrow> bool" where
  "IsVisibleGloballyFor self u =
     (if pl_guid u = pl_guid self then True
      else if pl_visible self then True
      else if \<not> IsPlayerAccount (pl_security u) then pl_security self \<le> pl_security u
      else if \<not> pl_visible self then False
      else True)"

lemma FindPlayer_guid: "FindPlayer w g = Some p \<Longrightarrow> pl_guid p = g \<and> pl_in_world p"
  by (auto simp: FindPlayer_def find_Some_iff split: option.splits if_splits)

lemma FindPlayerByName_FindPlayer:
  assumes "world_wf w" "FindPlayerByName w n = Some p"
  shows "FindPlayer w (pl_guid p) = Some p"
proof -
  have mem: "p \<in> set (w_players w)" and inw: "pl_in_world p"
    using assms(2) by (auto simp: FindPlayerByName_def find_Some_iff)
  have "find (\<lambda>q. pl_guid q = pl_guid p) ps = Some p" if "distinct (map pl_guid ps)" "p \<in> set ps" for ps
    using that by (induction ps) (auto simp: rev_image_eqI)
  with mem assms(1) inw show ?thesis by (simp add: FindPlayer_def world_wf_def)
qed

text \<open>A packet handed to the session of a player.\<close>

type_synonym sent = "u64 \<times> world_packet"

end
