(* ===== verification/Social_Mgr.thy ===== *)
theory Social_Mgr
  imports World_State
begin

text \<open>
  Friend and ignore lists, \<^verbatim>\<open>src/src/server/game/Entities/Player/SocialMgr.cpp\<close> and \<^verbatim>\<open>.h\<close>.
  A \<^verbatim>\<open>PlayerSocial\<close> is a map from low GUIDs to \<^verbatim>\<open>FriendInfo\<close>; the \<^verbatim>\<open>SocialMgr\<close> keeps one per
  player. Every change is also written to the table \<^verbatim>\<open>character_social\<close>; the statements are
  values of \<open>social_stmt\<close> and \<open>exec_social\<close> is what the SQL in \<^verbatim>\<open>CharacterDatabase.cpp\<close> does to
  the table. \<^verbatim>\<open>utf8truncate\<close> is a parameter. The lemmas show that the lists keep the client
  limits, that the memory state and the table stay equal, and what the ignore test answers
  after each change: the contract the chat channels rely on.
\<close>

section \<open>Data\<close>

definition FRIEND_STATUS_OFFLINE :: u8 where "FRIEND_STATUS_OFFLINE = 0x00"
definition FRIEND_STATUS_ONLINE :: u8 where "FRIEND_STATUS_ONLINE = 0x01"
definition FRIEND_STATUS_AFK :: u8 where "FRIEND_STATUS_AFK = 0x02"
definition FRIEND_STATUS_DND :: u8 where "FRIEND_STATUS_DND = 0x04"

definition SOCIAL_FLAG_FRIEND :: u8 where "SOCIAL_FLAG_FRIEND = 0x01"
definition SOCIAL_FLAG_IGNORED :: u8 where "SOCIAL_FLAG_IGNORED = 0x02"

lemmas social_flags = SOCIAL_FLAG_FRIEND_def SOCIAL_FLAG_IGNORED_def

definition SOCIALMGR_FRIEND_LIMIT :: nat where "SOCIALMGR_FRIEND_LIMIT = 50"
definition SOCIALMGR_IGNORE_LIMIT :: nat where "SOCIALMGR_IGNORE_LIMIT = 50"

lemmas social_limits = SOCIALMGR_FRIEND_LIMIT_def SOCIALMGR_IGNORE_LIMIT_def

record friend_info =
  fi_Status :: u8
  fi_Flags :: u8
  fi_Area :: u32
  fi_Level :: u8
  fi_Class :: u8
  fi_Note :: string

definition FriendInfo :: "u8 \<Rightarrow> string \<Rightarrow> friend_info" where
  "FriendInfo flags note =
     \<lparr>fi_Status = FRIEND_STATUS_OFFLINE, fi_Flags = flags, fi_Area = 0, fi_Level = 0, fi_Class = 0, fi_Note = note\<rparr>"

abbreviation FriendInfo_new :: friend_info where
  "FriendInfo_new \<equiv> FriendInfo 0 []"

record player_social =
  m_playerSocialMap :: "(u32, friend_info) stdmap"
  m_playerGUID :: u32

definition PlayerSocial_new :: player_social where
  "PlayerSocial_new = \<lparr>m_playerSocialMap = [], m_playerGUID = 0\<rparr>"

type_synonym social_map = "(u32, player_social) stdmap"

datatype social_stmt =
    UPD_ADD_CHARACTER_SOCIAL_FLAGS u8 u32 u32
  | INS_CHARACTER_SOCIAL u32 u32 u8
  | DEL_CHARACTER_SOCIAL u32 u32
  | UPD_REM_CHARACTER_SOCIAL_FLAGS u8 u32 u32
  | UPD_CHARACTER_SOCIAL_NOTE string u32 u32

section \<open>\<^verbatim>\<open>PlayerSocial\<close>\<close>

definition GetNumberOfSocialsWithFlag :: "u8 \<Rightarrow> player_social \<Rightarrow> nat" where
  "GetNumberOfSocialsWithFlag flag s =
     length (filter (\<lambda>(k, fi). has_flag (fi_Flags fi) flag) (m_playerSocialMap s))"

definition AddToSocialList :: "u32 \<Rightarrow> bool \<Rightarrow> player_social \<Rightarrow> bool \<times> player_social \<times> social_stmt list" where
  "AddToSocialList friendGuid ignore s =
     (if (if ignore then GetNumberOfSocialsWithFlag SOCIAL_FLAG_IGNORED s \<ge> SOCIALMGR_IGNORE_LIMIT
          else GetNumberOfSocialsWithFlag SOCIAL_FLAG_FRIEND s \<ge> SOCIALMGR_FRIEND_LIMIT)
      then (False, s, [])
      else
        let flag = (if ignore then SOCIAL_FLAG_IGNORED else SOCIAL_FLAG_FRIEND)
        in case map_find (m_playerSocialMap s) friendGuid of
             Some fi \<Rightarrow>
               (True,
                s\<lparr>m_playerSocialMap := map_modify FriendInfo_new friendGuid
                    (\<lambda>fi. fi\<lparr>fi_Flags := fi_Flags fi OR flag\<rparr>) (m_playerSocialMap s)\<rparr>,
                [UPD_ADD_CHARACTER_SOCIAL_FLAGS flag (m_playerGUID s) friendGuid])
           | None \<Rightarrow>
               (True,
                s\<lparr>m_playerSocialMap := map_set friendGuid
                    (FriendInfo_new\<lparr>fi_Flags := fi_Flags FriendInfo_new OR flag\<rparr>) (m_playerSocialMap s)\<rparr>,
                [INS_CHARACTER_SOCIAL (m_playerGUID s) friendGuid flag]))"

definition RemoveFromSocialList :: "u32 \<Rightarrow> bool \<Rightarrow> player_social \<Rightarrow> player_social \<times> social_stmt list" where
  "RemoveFromSocialList friendGuid ignore s =
     (case map_find (m_playerSocialMap s) friendGuid of
        None \<Rightarrow> (s, [])
      | Some fi \<Rightarrow>
          let flag = (if ignore then SOCIAL_FLAG_IGNORED else SOCIAL_FLAG_FRIEND);
              fi' = fi\<lparr>fi_Flags := fi_Flags fi AND NOT flag\<rparr>
          in if fi_Flags fi' = 0
             then (s\<lparr>m_playerSocialMap := map_erase friendGuid (m_playerSocialMap s)\<rparr>,
                   [DEL_CHARACTER_SOCIAL (m_playerGUID s) friendGuid])
             else (s\<lparr>m_playerSocialMap := map_set friendGuid fi' (m_playerSocialMap s)\<rparr>,
                   [UPD_REM_CHARACTER_SOCIAL_FLAGS flag (m_playerGUID s) friendGuid]))"

text \<open>\<open>utf8truncate\<close> is the function of \<^verbatim>\<open>Util.cpp\<close>, here a parameter.\<close>

definition SetFriendNote ::
  "(string \<Rightarrow> nat \<Rightarrow> string) \<Rightarrow> u32 \<Rightarrow> string \<Rightarrow> player_social \<Rightarrow> player_social \<times> social_stmt list" where
  "SetFriendNote utf8truncate friendGuid note s =
     (case map_find (m_playerSocialMap s) friendGuid of
        None \<Rightarrow> (s, [])
      | Some fi \<Rightarrow>
          let note' = utf8truncate note 48
          in (s\<lparr>m_playerSocialMap := map_modify FriendInfo_new friendGuid (\<lambda>fi. fi\<lparr>fi_Note := note'\<rparr>)
                  (m_playerSocialMap s)\<rparr>,
              [UPD_CHARACTER_SOCIAL_NOTE note' (m_playerGUID s) friendGuid]))"

definition HasFriend :: "u32 \<Rightarrow> player_social \<Rightarrow> bool" where
  "HasFriend friendGuid s =
     (case map_find (m_playerSocialMap s) friendGuid of
        Some fi \<Rightarrow> has_flag (fi_Flags fi) SOCIAL_FLAG_FRIEND | None \<Rightarrow> False)"

definition HasIgnore :: "u32 \<Rightarrow> player_social \<Rightarrow> bool" where
  "HasIgnore ignore_guid s =
     (case map_find (m_playerSocialMap s) ignore_guid of
        Some fi \<Rightarrow> has_flag (fi_Flags fi) SOCIAL_FLAG_IGNORED | None \<Rightarrow> False)"

section \<open>\<^verbatim>\<open>SocialMgr\<close>\<close>

text \<open>\<^verbatim>\<open>player->GetSocial()\<close>: the entry of the manager that \<^verbatim>\<open>LoadFromDB\<close> made for the player.\<close>

definition GetSocial :: "social_map \<Rightarrow> player \<Rightarrow> player_social" where
  "GetSocial mgr p = map_at PlayerSocial_new mgr (GUID_LOPART (pl_guid p))"

definition GetFriendInfo :: "world \<Rightarrow> social_map \<Rightarrow> player option \<Rightarrow> u32 \<Rightarrow> friend_info \<Rightarrow> friend_info" where
  "GetFriendInfo w mgr player friendGUID friendInfo =
     (case player of
        None \<Rightarrow> friendInfo
      | Some pl \<Rightarrow>
          let fi = friendInfo\<lparr>fi_Status := FRIEND_STATUS_OFFLINE, fi_Area := 0, fi_Level := 0, fi_Class := 0\<rparr>
          in case FindPlayer w (ucast friendGUID) of
               None \<Rightarrow> fi
             | Some pFriend \<Rightarrow>
                 let fi = (case map_find (m_playerSocialMap (GetSocial mgr pl)) friendGUID of
                             Some own \<Rightarrow> fi\<lparr>fi_Note := fi_Note own\<rparr> | None \<Rightarrow> fi)
                 in if (\<not> IsPlayerAccount (pl_security pl)
                        \<or> ((pl_team pFriend = pl_team pl \<or> cfg_two_side_who_list w)
                           \<and> pl_security pFriend \<le> cfg_gm_level_in_who_list w))
                       \<and> IsVisibleGloballyFor pFriend pl
                    then
                      let st = FRIEND_STATUS_ONLINE;
                          st = (if pl_afk pFriend then FRIEND_STATUS_AFK else st);
                          st = (if pl_dnd pFriend then FRIEND_STATUS_DND else st)
                      in fi\<lparr>fi_Status := st, fi_Area := pl_zone pFriend,
                            fi_Level := pl_level pFriend, fi_Class := pl_class pFriend\<rparr>
                    else fi)"

definition SMSG_CONTACT_LIST :: u16 where "SMSG_CONTACT_LIST = 0x067"
definition SMSG_FRIEND_STATUS :: u16 where "SMSG_FRIEND_STATUS = 0x068"

definition contact_fields :: "u32 \<Rightarrow> friend_info \<Rightarrow> field list" where
  "contact_fields guid fi =
     [FU64 (ucast guid), FU32 (ucast (fi_Flags fi)), FStr (fi_Note fi)]
     @ (if has_flag (fi_Flags fi) SOCIAL_FLAG_FRIEND
        then [FU8 (fi_Status fi)]
             @ (if fi_Status fi \<noteq> 0
                then [FU32 (fi_Area fi), FU32 (ucast (fi_Level fi)), FU32 (ucast (fi_Class fi))] else [])
        else [])"

text \<open>
  The loop of \<^verbatim>\<open>SendSocialList\<close>: \<^verbatim>\<open>GetFriendInfo\<close> updates the entry of the list owned by \<open>owner\<close>
  in place, and reads notes through \<^verbatim>\<open>player->GetSocial()\<close>, which may be the same list.
\<close>

fun social_list_loop ::
  "world \<Rightarrow> u32 \<Rightarrow> player \<Rightarrow> u32 list \<Rightarrow> social_map \<Rightarrow> world_packet \<Rightarrow> social_map \<times> world_packet" where
  "social_list_loop w owner pl [] mgr data = (mgr, data)"
| "social_list_loop w owner pl (k # ks) mgr data =
     (let s = map_at PlayerSocial_new mgr owner;
          fi = GetFriendInfo w mgr (Some pl) k (map_at FriendInfo_new (m_playerSocialMap s) k);
          mgr' = map_set owner (s\<lparr>m_playerSocialMap := map_set k fi (m_playerSocialMap s)\<rparr>) mgr
      in social_list_loop w owner pl ks mgr' (stream (contact_fields k fi) data))"

definition SendSocialList :: "world \<Rightarrow> u32 \<Rightarrow> player option \<Rightarrow> social_map \<Rightarrow> social_map \<times> sent list" where
  "SendSocialList w owner player mgr =
     (case player of
        None \<Rightarrow> (mgr, [])
      | Some pl \<Rightarrow>
          let m = m_playerSocialMap (map_at PlayerSocial_new mgr owner);
              data = stream [FU32 7, FU32 (of_nat (length m))] (WorldPacket SMSG_CONTACT_LIST);
              (mgr', data') = social_list_loop w owner pl (map fst m) mgr data
          in (mgr', [(pl_guid pl, data')]))"

datatype friends_result =
    FRIEND_DB_ERROR | FRIEND_LIST_FULL | FRIEND_ONLINE | FRIEND_OFFLINE | FRIEND_NOT_FOUND
  | FRIEND_REMOVED | FRIEND_ADDED_ONLINE | FRIEND_ADDED_OFFLINE | FRIEND_ALREADY | FRIEND_SELF
  | FRIEND_ENEMY | FRIEND_IGNORE_FULL | FRIEND_IGNORE_SELF | FRIEND_IGNORE_NOT_FOUND
  | FRIEND_IGNORE_ALREADY | FRIEND_IGNORE_ADDED | FRIEND_IGNORE_REMOVED | FRIEND_IGNORE_AMBIGUOUS
  | FRIEND_MUTE_FULL | FRIEND_MUTE_SELF | FRIEND_MUTE_NOT_FOUND | FRIEND_MUTE_ALREADY
  | FRIEND_MUTE_ADDED | FRIEND_MUTE_REMOVED | FRIEND_MUTE_AMBIGUOUS | FRIEND_UNK7 | FRIEND_UNKNOWN

fun result_code :: "friends_result \<Rightarrow> u8" where
  "result_code FRIEND_DB_ERROR = 0x00"
| "result_code FRIEND_LIST_FULL = 0x01"
| "result_code FRIEND_ONLINE = 0x02"
| "result_code FRIEND_OFFLINE = 0x03"
| "result_code FRIEND_NOT_FOUND = 0x04"
| "result_code FRIEND_REMOVED = 0x05"
| "result_code FRIEND_ADDED_ONLINE = 0x06"
| "result_code FRIEND_ADDED_OFFLINE = 0x07"
| "result_code FRIEND_ALREADY = 0x08"
| "result_code FRIEND_SELF = 0x09"
| "result_code FRIEND_ENEMY = 0x0A"
| "result_code FRIEND_IGNORE_FULL = 0x0B"
| "result_code FRIEND_IGNORE_SELF = 0x0C"
| "result_code FRIEND_IGNORE_NOT_FOUND = 0x0D"
| "result_code FRIEND_IGNORE_ALREADY = 0x0E"
| "result_code FRIEND_IGNORE_ADDED = 0x0F"
| "result_code FRIEND_IGNORE_REMOVED = 0x10"
| "result_code FRIEND_IGNORE_AMBIGUOUS = 0x11"
| "result_code FRIEND_MUTE_FULL = 0x12"
| "result_code FRIEND_MUTE_SELF = 0x13"
| "result_code FRIEND_MUTE_NOT_FOUND = 0x14"
| "result_code FRIEND_MUTE_ALREADY = 0x15"
| "result_code FRIEND_MUTE_ADDED = 0x16"
| "result_code FRIEND_MUTE_REMOVED = 0x17"
| "result_code FRIEND_MUTE_AMBIGUOUS = 0x18"
| "result_code FRIEND_UNK7 = 0x19"
| "result_code FRIEND_UNKNOWN = 0x1A"

definition MakeFriendStatusPacket :: "friends_result \<Rightarrow> u32 \<Rightarrow> world_packet" where
  "MakeFriendStatusPacket result guid =
     stream [FU8 (result_code result), FU64 (ucast guid)] (WorldPacket SMSG_FRIEND_STATUS)"

definition BroadcastToFriendListers :: "world \<Rightarrow> social_map \<Rightarrow> player option \<Rightarrow> world_packet \<Rightarrow> sent list" where
  "BroadcastToFriendListers w mgr player packet =
     (case player of
        None \<Rightarrow> []
      | Some pl \<Rightarrow>
          let guid = GUID_LOPART (pl_guid pl)
          in concat (map (\<lambda>(owner, s).
               (case map_find (m_playerSocialMap s) guid of
                  None \<Rightarrow> []
                | Some fi \<Rightarrow>
                    if has_flag (fi_Flags fi) SOCIAL_FLAG_FRIEND then
                      (case FindPlayer w (MAKE_NEW_GUID owner 0 HIGHGUID_PLAYER) of
                         None \<Rightarrow> []
                       | Some pFriend \<Rightarrow>
                           if pl_in_world pFriend
                              \<and> (\<not> IsPlayerAccount (pl_security pFriend)
                                 \<or> ((pl_team pFriend = pl_team pl \<or> cfg_two_side_who_list w)
                                    \<and> pl_security pl \<le> cfg_gm_level_in_who_list w))
                              \<and> IsVisibleGloballyFor pl pFriend
                           then [(pl_guid pFriend, packet)] else [])
                    else [])) mgr))"

text \<open>The caller passes its own player, so \<^verbatim>\<open>player\<close> is not null when nothing is broadcast.\<close>

definition SendFriendStatus ::
  "world \<Rightarrow> social_map \<Rightarrow> player option \<Rightarrow> friends_result \<Rightarrow> u32 \<Rightarrow> bool \<Rightarrow> cpp_error + sent list" where
  "SendFriendStatus w mgr player result friendGuid broadcast =
     (let data = MakeFriendStatusPacket result friendGuid;
          fi = GetFriendInfo w mgr player friendGuid FriendInfo_new;
          data = (if result = FRIEND_ADDED_OFFLINE \<or> result = FRIEND_ADDED_ONLINE
                  then stream [FStr (fi_Note fi)] data else data);
          data = (if result = FRIEND_ADDED_ONLINE \<or> result = FRIEND_ONLINE
                  then stream [FU8 (fi_Status fi), FU32 (fi_Area fi), FU32 (ucast (fi_Level fi)),
                               FU32 (ucast (fi_Class fi))] data else data)
      in if broadcast then Inr (BroadcastToFriendListers w mgr player data)
         else case player of None \<Rightarrow> Inl NullDeref | Some pl \<Rightarrow> Inr [(pl_guid pl, data)])"

definition RemovePlayerSocial :: "u32 \<Rightarrow> social_map \<Rightarrow> social_map" where
  "RemovePlayerSocial guid mgr = map_erase guid mgr"

text \<open>\<^verbatim>\<open>LoadFromDB\<close>: the rows of the query, stopping once a hundred entries are in.\<close>

fun load_social_rows :: "(u32 \<times> u8 \<times> string) list \<Rightarrow> player_social \<Rightarrow> player_social" where
  "load_social_rows [] s = s"
| "load_social_rows ((friendGuid, flags, note) # rows) s =
     (let s' = s\<lparr>m_playerSocialMap := map_set friendGuid (FriendInfo flags note) (m_playerSocialMap s)\<rparr>
      in if length (m_playerSocialMap s') \<ge> SOCIALMGR_FRIEND_LIMIT + SOCIALMGR_IGNORE_LIMIT then s'
         else load_social_rows rows s')"

definition LoadFromDB :: "(u32 \<times> u8 \<times> string) list \<Rightarrow> u32 \<Rightarrow> social_map \<Rightarrow> player_social \<times> social_map" where
  "LoadFromDB rows guid mgr =
     (let s = (map_at PlayerSocial_new mgr guid)\<lparr>m_playerGUID := guid\<rparr>;
          s' = load_social_rows rows s
      in (s', map_set guid s' mgr))"

section \<open>The table \<^verbatim>\<open>character_social\<close>\<close>

text \<open>Rows by owner and friend; the effect of the prepared statements on them.\<close>

type_synonym social_table = "u32 \<times> u32 \<Rightarrow> (u8 \<times> string) option"

fun exec_social :: "social_stmt \<Rightarrow> social_table \<Rightarrow> social_table" where
  "exec_social (UPD_ADD_CHARACTER_SOCIAL_FLAGS flag guid friend) db =
     db((guid, friend) := map_option (\<lambda>(f, n). (f OR flag, n)) (db (guid, friend)))"
| "exec_social (UPD_REM_CHARACTER_SOCIAL_FLAGS flag guid friend) db =
     db((guid, friend) := map_option (\<lambda>(f, n). (f AND NOT flag, n)) (db (guid, friend)))"
| "exec_social (INS_CHARACTER_SOCIAL guid friend flags) db = db((guid, friend) \<mapsto> (flags, []))"
| "exec_social (DEL_CHARACTER_SOCIAL guid friend) db = db((guid, friend) := None)"
| "exec_social (UPD_CHARACTER_SOCIAL_NOTE note guid friend) db =
     db((guid, friend) := map_option (\<lambda>(f, n). (f, note)) (db (guid, friend)))"

definition social_mirror :: "social_table \<Rightarrow> player_social \<Rightarrow> bool" where
  "social_mirror db s \<longleftrightarrow>
     (\<forall>f. db (m_playerGUID s, f) = map_option (\<lambda>fi. (fi_Flags fi, fi_Note fi)) (map_find (m_playerSocialMap s) f))"

section \<open>Operations on one list\<close>

datatype social_op = OpAdd u32 bool | OpRemove u32 bool | OpNote u32 string

fun social_exec ::
  "(string \<Rightarrow> nat \<Rightarrow> string) \<Rightarrow> social_op \<Rightarrow> player_social \<Rightarrow> player_social \<times> social_stmt list" where
  "social_exec tr (OpAdd g i) s = snd (AddToSocialList g i s)"
| "social_exec tr (OpRemove g i) s = RemoveFromSocialList g i s"
| "social_exec tr (OpNote g n) s = SetFriendNote tr g n s"

definition social_step :: "(string \<Rightarrow> nat \<Rightarrow> string) \<Rightarrow> social_op \<Rightarrow> player_social \<Rightarrow> player_social" where
  "social_step tr p s = fst (social_exec tr p s)"

text \<open>A list together with the table it is stored in.\<close>

definition social_db_step ::
  "(string \<Rightarrow> nat \<Rightarrow> string) \<Rightarrow> social_op \<Rightarrow> player_social \<times> social_table \<Rightarrow> player_social \<times> social_table" where
  "social_db_step tr p sd = (let (s', stmts) = social_exec tr p (fst sd) in (s', fold exec_social stmts (snd sd)))"

lemmas social_ops = AddToSocialList_def RemoveFromSocialList_def SetFriendNote_def

definition flag_count :: "u8 \<Rightarrow> player_social \<Rightarrow> nat" where
  "flag_count flag s = map_count (\<lambda>fi. has_flag (fi_Flags fi) flag) (m_playerSocialMap s)"

lemma GetNumberOfSocialsWithFlag_count: "GetNumberOfSocialsWithFlag flag s = flag_count flag s"
  by (simp add: GetNumberOfSocialsWithFlag_def flag_count_def map_count_def case_prod_unfold)

definition social_wf :: "player_social \<Rightarrow> bool" where
  "social_wf s \<longleftrightarrow> map_wf (m_playerSocialMap s)
     \<and> (\<forall>k fi. map_find (m_playerSocialMap s) k = Some fi \<longrightarrow> fi_Flags fi \<noteq> 0)
     \<and> flag_count SOCIAL_FLAG_FRIEND s \<le> SOCIALMGR_FRIEND_LIMIT
     \<and> flag_count SOCIAL_FLAG_IGNORED s \<le> SOCIALMGR_IGNORE_LIMIT"

lemma social_flags_disjoint:
  "SOCIAL_FLAG_FRIEND AND SOCIAL_FLAG_IGNORED = 0" "SOCIAL_FLAG_IGNORED AND SOCIAL_FLAG_FRIEND = 0"
  "SOCIAL_FLAG_FRIEND AND SOCIAL_FLAG_FRIEND \<noteq> 0" "SOCIAL_FLAG_IGNORED AND SOCIAL_FLAG_IGNORED \<noteq> 0"
  by (simp_all add: social_flags)

lemma or_flag_nonzero: "x OR SOCIAL_FLAG_FRIEND \<noteq> 0" "x OR SOCIAL_FLAG_IGNORED \<noteq> 0"
  using has_flag_nonzero [of "x OR SOCIAL_FLAG_FRIEND" SOCIAL_FLAG_FRIEND]
    has_flag_nonzero [of "x OR SOCIAL_FLAG_IGNORED" SOCIAL_FLAG_IGNORED]
  by (simp_all add: has_flag_or social_flags)

lemma social_flags_nonzero: "SOCIAL_FLAG_FRIEND \<noteq> 0" "SOCIAL_FLAG_IGNORED \<noteq> 0"
  by (simp_all add: social_flags)

lemmas social_flag_simps = flag_simps social_flags_disjoint or_flag_nonzero social_flags_nonzero

lemma flag_count_set:
  assumes "map_wf (m_playerSocialMap s)"
  shows "flag_count f (s\<lparr>m_playerSocialMap := map_set k fi (m_playerSocialMap s)\<rparr>)
     + (case map_find (m_playerSocialMap s) k of None \<Rightarrow> 0 | Some fi0 \<Rightarrow> of_bool (has_flag (fi_Flags fi0) f))
     = flag_count f s + of_bool (has_flag (fi_Flags fi) f)"
  using map_count_set [OF assms, of "\<lambda>fi. has_flag (fi_Flags fi) f" k fi] by (simp add: flag_count_def)

lemma flag_count_set_le:
  assumes "map_wf (m_playerSocialMap s)" "flag_count f s \<le> limit"
    and "has_flag (fi_Flags fi) f \<Longrightarrow>
      (\<exists>fi0. map_find (m_playerSocialMap s) k = Some fi0 \<and> has_flag (fi_Flags fi0) f) \<or> flag_count f s < limit"
  shows "flag_count f (s\<lparr>m_playerSocialMap := map_set k fi (m_playerSocialMap s)\<rparr>) \<le> limit"
  using flag_count_set [OF assms(1), of f k fi] assms(2,3)
  by (auto simp: of_bool_def split: option.splits if_splits)

lemma flag_count_erase:
  "flag_count f (s\<lparr>m_playerSocialMap := map_erase k (m_playerSocialMap s)\<rparr>) \<le> flag_count f s"
  by (simp add: flag_count_def map_count_erase_le)

lemma social_wf_set:
  assumes "social_wf s" "fi_Flags fi \<noteq> 0"
    and "has_flag (fi_Flags fi) SOCIAL_FLAG_FRIEND \<Longrightarrow>
      HasFriend k s \<or> flag_count SOCIAL_FLAG_FRIEND s < SOCIALMGR_FRIEND_LIMIT"
    and "has_flag (fi_Flags fi) SOCIAL_FLAG_IGNORED \<Longrightarrow>
      HasIgnore k s \<or> flag_count SOCIAL_FLAG_IGNORED s < SOCIALMGR_IGNORE_LIMIT"
  shows "social_wf (s\<lparr>m_playerSocialMap := map_set k fi (m_playerSocialMap s)\<rparr>)"
  unfolding social_wf_def
proof (intro conjI)
  show "flag_count SOCIAL_FLAG_FRIEND (s\<lparr>m_playerSocialMap := map_set k fi (m_playerSocialMap s)\<rparr>) \<le> SOCIALMGR_FRIEND_LIMIT"
    using assms(1,3) by (intro flag_count_set_le) (auto simp: social_wf_def HasFriend_def split: option.splits)
  show "flag_count SOCIAL_FLAG_IGNORED (s\<lparr>m_playerSocialMap := map_set k fi (m_playerSocialMap s)\<rparr>) \<le> SOCIALMGR_IGNORE_LIMIT"
    using assms(1,4) by (intro flag_count_set_le) (auto simp: social_wf_def HasIgnore_def split: option.splits)
qed (use assms(1,2) in \<open>auto simp: social_wf_def container_simps wf_intros\<close>)

lemma social_wf_erase:
  assumes "social_wf s"
  shows "social_wf (s\<lparr>m_playerSocialMap := map_erase k (m_playerSocialMap s)\<rparr>)"
  using assms order_trans [OF flag_count_erase]
  by (auto simp: social_wf_def container_simps wf_intros split: if_splits)

lemma social_wf_flags: "social_wf s \<Longrightarrow> map_find (m_playerSocialMap s) k = Some fi \<Longrightarrow> fi_Flags fi \<noteq> 0"
  by (simp add: social_wf_def)

lemma HasFriend_found: "map_find (m_playerSocialMap s) k = Some fi \<Longrightarrow>
    HasFriend k s = has_flag (fi_Flags fi) SOCIAL_FLAG_FRIEND \<and> HasIgnore k s = has_flag (fi_Flags fi) SOCIAL_FLAG_IGNORED"
  by (simp add: HasFriend_def HasIgnore_def)

lemma social_step_wf:
  assumes "social_wf s"
  shows "social_wf (social_step tr p s)"
proof (cases p)
  case (OpAdd g i)
  then show ?thesis
    using assms by (auto simp: social_step_def AddToSocialList_def Let_def map_modify_def
        GetNumberOfSocialsWithFlag_count social_flag_simps FriendInfo_def HasFriend_def HasIgnore_def not_le
        split: option.splits intro!: social_wf_set)
next
  case (OpRemove g i)
  then show ?thesis
    using assms by (auto simp: social_step_def RemoveFromSocialList_def Let_def social_flag_simps
        HasFriend_def HasIgnore_def split: option.splits intro!: social_wf_set social_wf_erase)
next
  case (OpNote g n)
  then show ?thesis
    using assms social_wf_flags by (auto simp: social_step_def SetFriendNote_def Let_def map_modify_def
        HasFriend_def HasIgnore_def split: option.splits intro!: social_wf_set)
qed

interpretation social: step_system "social_step tr" "\<lambda>_ _. True" social_wf for tr
  by unfold_locales (rule social_step_wf)

lemma social_db_step_mirror:
  assumes "social_mirror (snd sd) (fst sd)"
  shows "social_mirror (snd (social_db_step tr p sd)) (fst (social_db_step tr p sd))"
  using assms
  by (cases p) (auto simp: social_db_step_def social_ops social_mirror_def Let_def container_simps
      FriendInfo_def split: option.splits)

interpretation social_db: step_system "social_db_step tr" "\<lambda>_ _. True" "\<lambda>sd. social_mirror (snd sd) (fst sd)" for tr
  by unfold_locales (rule social_db_step_mirror)

section \<open>The tests after a change\<close>

lemma AddToSocialList_accepted:
  assumes "fst (AddToSocialList g i s)"
  shows "map_find (m_playerSocialMap (fst (snd (AddToSocialList g i s)))) k =
     (if k = g then Some ((map_at FriendInfo_new (m_playerSocialMap s) g)
        \<lparr>fi_Flags := fi_Flags (map_at FriendInfo_new (m_playerSocialMap s) g) OR
           (if i then SOCIAL_FLAG_IGNORED else SOCIAL_FLAG_FRIEND)\<rparr>)
      else map_find (m_playerSocialMap s) k)"
  using assms by (auto simp: AddToSocialList_def Let_def map_modify_def map_at_def container_simps split: option.splits if_splits)

lemma RemoveFromSocialList_found:
  "map_find (m_playerSocialMap (fst (RemoveFromSocialList g i s))) k =
     (if k = g then case map_find (m_playerSocialMap s) g of None \<Rightarrow> None
        | Some fi \<Rightarrow> let fi' = fi\<lparr>fi_Flags := fi_Flags fi AND NOT (if i then SOCIAL_FLAG_IGNORED else SOCIAL_FLAG_FRIEND)\<rparr>
            in if fi_Flags fi' = 0 then None else Some fi'
      else map_find (m_playerSocialMap s) k)"
  by (auto simp: RemoveFromSocialList_def Let_def container_simps split: option.splits)

lemma AddToSocialList_accepts_iff: "fst (AddToSocialList g i s) \<longleftrightarrow>
     (if i then GetNumberOfSocialsWithFlag SOCIAL_FLAG_IGNORED s < SOCIALMGR_IGNORE_LIMIT
      else GetNumberOfSocialsWithFlag SOCIAL_FLAG_FRIEND s < SOCIALMGR_FRIEND_LIMIT)"
  by (auto simp: AddToSocialList_def Let_def split: option.splits)

lemma AddToSocialList_refused: "\<not> fst (AddToSocialList g i s) \<Longrightarrow> snd (AddToSocialList g i s) = (s, [])"
  by (auto simp: AddToSocialList_def Let_def split: option.splits if_splits)

lemma AddToSocialList_tests:
  assumes "fst (AddToSocialList g i s)"
  shows "HasIgnore k (fst (snd (AddToSocialList g i s))) \<longleftrightarrow> k = g \<and> i \<or> HasIgnore k s"
    and "HasFriend k (fst (snd (AddToSocialList g i s))) \<longleftrightarrow> k = g \<and> \<not> i \<or> HasFriend k s"
  unfolding HasIgnore_def HasFriend_def AddToSocialList_accepted [OF assms]
  by (cases "map_find (m_playerSocialMap s) g"; cases i;
      auto simp: social_flag_simps FriendInfo_def)+

lemma RemoveFromSocialList_tests:
  shows "HasIgnore k (fst (RemoveFromSocialList g i s)) \<longleftrightarrow> \<not> (k = g \<and> i) \<and> HasIgnore k s"
    and "HasFriend k (fst (RemoveFromSocialList g i s)) \<longleftrightarrow> \<not> (k = g \<and> \<not> i) \<and> HasFriend k s"
  unfolding HasIgnore_def HasFriend_def RemoveFromSocialList_found
  using has_flag_and_not_self has_flag_and_not [OF social_flags_disjoint(1)] has_flag_and_not [OF social_flags_disjoint(2)]
  by (cases "map_find (m_playerSocialMap s) g"; cases i; force simp: Let_def)+

section \<open>Reloading\<close>

lemma load_social_rows_find:
  assumes "map_wf (m_playerSocialMap s)" "distinct (map fst rows)"
    and "\<And>k. k \<in> fst ` set rows \<Longrightarrow> map_find (m_playerSocialMap s) k = None"
    and "length (m_playerSocialMap s) + length rows \<le> SOCIALMGR_FRIEND_LIMIT + SOCIALMGR_IGNORE_LIMIT"
  shows "map_find (m_playerSocialMap (load_social_rows rows s)) k =
     (case map_of rows k of Some (flags, note) \<Rightarrow> Some (FriendInfo flags note)
      | None \<Rightarrow> map_find (m_playerSocialMap s) k)"
  using assms
proof (induction rows s rule: load_social_rows.induct)
  case (2 g flags nt rows s)
  let ?m = "map_set g (FriendInfo flags nt) (m_playerSocialMap s)"
  have len: "length ?m = Suc (length (m_playerSocialMap s))"
    using stdmap.size_put [OF "2.prems"(1), of g "FriendInfo flags nt"] "2.prems"(3) [of g] by simp
  have wf: "map_wf ?m"
    using "2.prems"(1) by (rule stdmap.wf_put)
  show ?case
  proof (cases "length ?m \<ge> SOCIALMGR_FRIEND_LIMIT + SOCIALMGR_IGNORE_LIMIT")
    case True
    then have "rows = []"
      using len "2.prems"(4) by (cases rows) auto
    with True show ?thesis by (simp add: container_simps)
  next
    case False
    have "map_find (m_playerSocialMap (load_social_rows rows (s\<lparr>m_playerSocialMap := ?m\<rparr>))) k =
        (case map_of rows k of Some (flags, note) \<Rightarrow> Some (FriendInfo flags note)
         | None \<Rightarrow> map_find (m_playerSocialMap (s\<lparr>m_playerSocialMap := ?m\<rparr>)) k)"
    proof (rule "2.IH" [OF refl])
      show "map_find (m_playerSocialMap (s\<lparr>m_playerSocialMap := ?m\<rparr>)) j = None" if "j \<in> fst ` set rows" for j
        using that "2.prems"(2) "2.prems"(3) [of j] by (auto simp: container_simps)
    qed (use False wf "2.prems"(2,4) len in auto)
    moreover have "map_of rows g = None"
      using "2.prems"(2) by (simp add: map_of_eq_None_iff)
    ultimately show ?thesis
      using False by (auto simp: container_simps split: option.split)
  qed
qed (simp split: option.splits)

lemma load_social_rows_guid [simp]: "m_playerGUID (load_social_rows rows s) = m_playerGUID s"
  by (induction rows s rule: load_social_rows.induct) (simp_all add: Let_def)

section \<open>Properties\<close>

text \<open>C26: whatever sequence of additions, removals and note changes a client sends, the friend list
  and the ignore list never exceed the limits of fifty entries the client can show, and no entry
  with neither flag is kept.\<close>

theorem social_limits_kept:
  assumes "social_wf s"
  shows "let s' = fold (social_step utf8truncate) ops s in
     GetNumberOfSocialsWithFlag SOCIAL_FLAG_FRIEND s' \<le> SOCIALMGR_FRIEND_LIMIT
     \<and> GetNumberOfSocialsWithFlag SOCIAL_FLAG_IGNORED s' \<le> SOCIALMGR_IGNORE_LIMIT
     \<and> (\<forall>k fi. map_find (m_playerSocialMap s') k = Some fi \<longrightarrow> fi_Flags fi \<noteq> 0)"
  using social.run_inv [OF assms social.run_ok_always] by (auto simp: social_wf_def GetNumberOfSocialsWithFlag_count Let_def)

lemma social_limits_kept_witness:
  "social_wf PlayerSocial_new \<and>
   GetNumberOfSocialsWithFlag SOCIAL_FLAG_IGNORED
     (fold (social_step (\<lambda>s n. s)) [OpAdd 5 True, OpAdd 5 False, OpRemove 5 False] PlayerSocial_new)
     \<le> SOCIALMGR_IGNORE_LIMIT"
proof -
  have wf: "social_wf PlayerSocial_new"
    by (simp add: social_wf_def PlayerSocial_new_def flag_count_def map_count_def wf_intros container_simps)
  from social_limits_kept [OF wf, of "\<lambda>s n. s" "[OpAdd 5 True, OpAdd 5 False, OpRemove 5 False]"] wf
  show ?thesis by (simp only: Let_def simp_thms)
qed

text \<open>C9: memory and database agree: when the table holds exactly the list a player has in memory,
  it still does after any sequence of operations and of the statements they execute.\<close>

theorem social_table_mirrors_list:
  assumes "social_mirror db s"
  shows "let sd = fold (social_db_step utf8truncate) ops (s, db) in social_mirror (snd sd) (fst sd)"
  using social_db.run_inv [OF _ social_db.run_ok_always, of "(s, db)"] assms by (auto simp: Let_def)

lemma social_table_mirrors_list_witness:
  "social_mirror (\<lambda>_. None) PlayerSocial_new \<and>
   (let sd = fold (social_db_step (\<lambda>s n. take n s)) [OpAdd 5 False, OpNote 5 ''pal'', OpAdd 5 True, OpRemove 5 False]
      (PlayerSocial_new, \<lambda>_. None)
    in social_mirror (snd sd) (fst sd))"
proof -
  have m: "social_mirror (\<lambda>_. None) PlayerSocial_new"
    by (simp add: social_mirror_def PlayerSocial_new_def container_simps)
  from social_table_mirrors_list [OF m] m show ?thesis by (intro conjI)
qed



text \<open>The tests the chat relies on. An accepted addition makes exactly the added player a
  friend (an ignored player) and changes no other answer; a removal undoes it; a refused addition
  changes nothing and executes nothing, and it is refused exactly when the list is full.\<close>

theorem social_tests_after_change:
  "(fst (AddToSocialList g i s) \<longleftrightarrow>
     (if i then GetNumberOfSocialsWithFlag SOCIAL_FLAG_IGNORED s < SOCIALMGR_IGNORE_LIMIT
      else GetNumberOfSocialsWithFlag SOCIAL_FLAG_FRIEND s < SOCIALMGR_FRIEND_LIMIT))
   \<and> (if fst (AddToSocialList g i s)
      then (HasIgnore k (fst (snd (AddToSocialList g i s))) \<longleftrightarrow> k = g \<and> i \<or> HasIgnore k s)
         \<and> (HasFriend k (fst (snd (AddToSocialList g i s))) \<longleftrightarrow> k = g \<and> (if i then False else True) \<or> HasFriend k s)
      else snd (AddToSocialList g i s) = (s, []))
   \<and> (HasIgnore k (fst (RemoveFromSocialList g i s)) \<longleftrightarrow> (if k = g \<and> i then False else HasIgnore k s))
   \<and> (HasFriend k (fst (RemoveFromSocialList g i s)) \<longleftrightarrow> (if k = g \<and> \<not> i then False else HasFriend k s))"
  using AddToSocialList_tests [of g i s k] AddToSocialList_refused [of g i s] RemoveFromSocialList_tests [of k g i s]
  by (auto simp: AddToSocialList_accepts_iff)

end
