(* ===== verification/Util_Strings.thy ===== *)
theory Util_Strings
  imports Prelude
begin

text \<open>
  The text utilities of \<^verbatim>\<open>src/src/server/shared/Utilities/Util.cpp\<close>: the \<^verbatim>\<open>Tokenizer\<close>, the
  in-place \<^verbatim>\<open>stripLineInvisibleChars\<close>, the time and money formats and \<^verbatim>\<open>ByteArrayToHexStr\<close>,
  with the decimal conversions of the C library they rest on (\<^verbatim>\<open>ostream <<\<close>, \<^verbatim>\<open>strtol\<close>,
  \<^verbatim>\<open>atol\<close>, \<^verbatim>\<open>atoi\<close>). The lemmas show that splitting undoes joining, that printing and
  parsing of numbers and of durations undo each other, and that the in-place compaction
  computes the plain collapse of blanks.
\<close>

section \<open>Decimal numbers\<close>

definition digit_char :: "nat \<Rightarrow> char" where
  "digit_char d = char_of (48 + d)"

definition isdigit :: "char \<Rightarrow> bool" where
  "isdigit c \<longleftrightarrow> 48 \<le> (of_char c :: nat) \<and> (of_char c :: nat) \<le> 57"

definition digit_val :: "char \<Rightarrow> nat" where
  "digit_val c = of_char c - 48"

fun decimal :: "nat \<Rightarrow> string" where
  "decimal n = (if n < 10 then [digit_char n] else decimal (n div 10) @ [digit_char (n mod 10)])"

declare decimal.simps [simp del]

definition digits_val :: "nat \<Rightarrow> string \<Rightarrow> nat" where
  "digits_val acc s = foldl (\<lambda>a c. a * 10 + digit_val c) acc s"

lemma isdigit_digit_char [simp]: "d < 10 \<Longrightarrow> isdigit (digit_char d)"
  by (simp add: isdigit_def digit_char_def)

lemma digit_val_digit_char [simp]: "d < 10 \<Longrightarrow> digit_val (digit_char d) = d"
  by (simp add: digit_val_def digit_char_def)

lemma decimal_isdigit: "c \<in> set (decimal n) \<Longrightarrow> isdigit c"
proof (induction n arbitrary: c rule: decimal.induct)
  case (1 n)
  then show ?case by (subst (asm) (2) decimal.simps) (auto split: if_splits)
qed

lemma decimal_not_Nil [simp]: "decimal n \<noteq> []"
  by (subst decimal.simps) simp

lemma digits_val_decimal: "digits_val 0 (decimal n) = n"
proof (induction n rule: decimal.induct)
  case (1 n)
  show ?case
  proof (cases "n < 10")
    case True
    then show ?thesis by (subst decimal.simps) (simp add: digits_val_def)
  next
    case False
    with "1" show ?thesis by (subst decimal.simps) (simp add: digits_val_def)
  qed
qed

subsection \<open>\<^verbatim>\<open>strtol\<close>, \<^verbatim>\<open>atol\<close>, \<^verbatim>\<open>atoi\<close>\<close>

definition isspace :: "char \<Rightarrow> bool" where
  "isspace c \<longleftrightarrow> (of_char c :: nat) = 32 \<or> (9 \<le> (of_char c :: nat) \<and> (of_char c :: nat) \<le> 13)"

definition LONG_MAX :: int where "LONG_MAX = 9223372036854775807"
definition LONG_MIN :: int where "LONG_MIN = - 9223372036854775808"

definition strtol :: "string \<Rightarrow> int" where
  "strtol s =
     (let s1 = dropWhile isspace s;
          (neg, s2) = (case s1 of
              [] \<Rightarrow> (False, [])
            | c # r \<Rightarrow> if c = CHR ''-'' then (True, r) else if c = CHR ''+'' then (False, r) else (False, s1));
          v = int (digits_val 0 (takeWhile isdigit s2))
      in if neg then max LONG_MIN (- v) else min LONG_MAX v)"

definition atol :: "string \<Rightarrow> int" where
  "atol s = strtol s"

definition atoi :: "string \<Rightarrow> int" where
  "atoi s = int32 (strtol s)"

lemma isdigit_not_special:
  "isdigit c \<Longrightarrow> \<not> isspace c \<and> c \<noteq> CHR ''-'' \<and> c \<noteq> CHR ''+'' \<and> c \<noteq> CHR '' '' \<and> c \<noteq> CHR 0x00
     \<and> c \<noteq> CHR ''d'' \<and> c \<noteq> CHR ''h'' \<and> c \<noteq> CHR ''m'' \<and> c \<noteq> CHR ''s'' \<and> c \<noteq> CHR ''g'' \<and> c \<noteq> CHR ''c''"
  by (auto simp: isdigit_def isspace_def)

lemma strtol_decimal:
  assumes "\<And>c. c \<in> set (take 1 rest) \<Longrightarrow> \<not> isdigit c"
  shows "strtol (decimal n @ rest) = min LONG_MAX (int n)"
proof -
  obtain c cs where c: "decimal n = c # cs" by (cases "decimal n") simp_all
  have d: "isdigit c" using decimal_isdigit [of c n] c by simp
  have dw: "dropWhile isspace (decimal n @ rest) = decimal n @ rest"
    using isdigit_not_special [OF d] by (simp add: c)
  have tw: "takeWhile isdigit (decimal n @ rest) = decimal n"
    using assms decimal_isdigit by (cases rest) (auto simp: takeWhile_append takeWhile_eq_all_conv)
  show ?thesis
    using isdigit_not_special [OF d] tw digits_val_decimal [of n]
    by (simp add: strtol_def dw Let_def c)
qed

lemma atol_decimal: "int n \<le> LONG_MAX \<Longrightarrow> atol (decimal n) = int n"
  using strtol_decimal [of "[]" n] by (simp add: atol_def)

section \<open>\<^verbatim>\<open>Tokenizer\<close>\<close>

text \<open>
  \<open>acc\<close> holds the characters between \<^verbatim>\<open>posold\<close> and \<^verbatim>\<open>posnew\<close>; the end of the list is the
  terminating NUL of the copied buffer, and a NUL inside the string ends the scan as well.
  The separator is never NUL.
\<close>

fun tokenize :: "char \<Rightarrow> string \<Rightarrow> string \<Rightarrow> string list" where
  "tokenize sep acc [] = (if acc = [] then [] else [acc])"
| "tokenize sep acc (c # cs) =
     (if c = sep then acc # tokenize sep [] cs
      else if c = CHR 0x00 then (if acc = [] then [] else [acc])
      else tokenize sep (acc @ [c]) cs)"

definition Tokenizer :: "string \<Rightarrow> char \<Rightarrow> string list" where
  "Tokenizer src sep = tokenize sep [] src"

lemma tokenize_word:
  assumes "sep \<notin> set w" "CHR 0x00 \<notin> set w"
  shows "tokenize sep acc (w @ rest) = tokenize sep (acc @ w) rest"
  using assms by (induction w arbitrary: acc) auto

lemma tokenize_word_sep:
  assumes "sep \<notin> set w" "CHR 0x00 \<notin> set w"
  shows "tokenize sep [] (w @ sep # rest) = w # tokenize sep [] rest"
    and "w \<noteq> [] \<Longrightarrow> tokenize sep [] w = [w]"
  using tokenize_word [OF assms, of "[]" "sep # rest"] tokenize_word [OF assms, of "[]" "[]"] by simp_all

text \<open>Words each followed by the separator, as \<^verbatim>\<open>out << w << sep\<close> writes them.\<close>

definition join_each :: "char \<Rightarrow> string list \<Rightarrow> string" where
  "join_each sep ws = concat (map (\<lambda>w. w @ [sep]) ws)"

lemma Tokenizer_join_each:
  assumes "\<forall>w \<in> set ws. sep \<notin> set w \<and> CHR 0x00 \<notin> set w"
  shows "Tokenizer (join_each sep ws) sep = ws"
proof -
  have "tokenize sep [] (join_each sep ws @ []) = ws"
    using assms by (induction ws) (auto simp: join_each_def tokenize_word)
  then show ?thesis by (simp add: Tokenizer_def)
qed

lemma tokenize_no_sep:
  "sep \<notin> set acc \<Longrightarrow> t \<in> set (tokenize sep acc s) \<Longrightarrow> sep \<notin> set t"
  by (induction sep acc s rule: tokenize.induct) (auto split: if_splits)

section \<open>\<^verbatim>\<open>stripLineInvisibleChars\<close>\<close>

definition is_inv_char :: "char \<Rightarrow> bool" where
  "is_inv_char c \<longleftrightarrow> c = CHR '' '' \<or> c = CHR 0x09 \<or> c = CHR 0x07 \<or> c = CHR 0x0A"

text \<open>One pass over \<^verbatim>\<open>pos\<close>; the string is overwritten in place at \<^verbatim>\<open>wpos\<close>.\<close>

function strip_loop :: "nat \<Rightarrow> nat \<Rightarrow> bool \<Rightarrow> string \<Rightarrow> nat \<times> string" where
  "strip_loop pos wpos space str =
     (if pos < length str then
        (if is_inv_char (str ! pos) then
           (if \<not> space then strip_loop (Suc pos) (Suc wpos) True (str[wpos := CHR '' ''])
            else strip_loop (Suc pos) wpos True str)
         else if wpos \<noteq> pos then strip_loop (Suc pos) (Suc wpos) False (str[wpos := str ! pos])
         else strip_loop (Suc pos) (Suc wpos) False str)
      else (wpos, str))"
  by pat_completeness auto
termination
  by (relation "measure (\<lambda>(pos, wpos, space, str). length str - pos)") auto

declare strip_loop.simps [simp del]

fun str_contains :: "string \<Rightarrow> string \<Rightarrow> bool" where
  "str_contains pat [] = (pat = [])"
| "str_contains pat (c # cs) = (take (length pat) (c # cs) = pat \<or> str_contains pat cs)"

definition stripLineInvisibleChars :: "string \<Rightarrow> string" where
  "stripLineInvisibleChars str =
     (let (wpos, str1) = strip_loop 0 0 False str;
          str2 = (if wpos < length str1 then take wpos str1 else str1)
      in if str_contains ''|TInterface'' str2 then [] else str2)"

text \<open>The specification: every maximal run of invisible characters becomes one blank.\<close>

fun collapse :: "bool \<Rightarrow> string \<Rightarrow> string" where
  "collapse space [] = []"
| "collapse space (c # cs) =
     (if is_inv_char c then (if space then collapse True cs else CHR '' '' # collapse True cs)
      else c # collapse False cs)"

lemma strip_loop_collapse:
  assumes "wpos \<le> pos" "pos \<le> length str"
  shows "case strip_loop pos wpos space str of (w, s) \<Rightarrow>
           w \<le> length s \<and> take w s = take wpos str @ collapse space (drop pos str)"
  using assms
proof (induction pos wpos space str rule: strip_loop.induct)
  case (1 pos wpos space str)
  show ?case
  proof (cases "pos < length str")
    case False
    with "1.prems" show ?thesis by (subst strip_loop.simps) simp
  next
    case True
    have d: "drop pos str = str ! pos # drop (Suc pos) str"
      using True by (simp add: Cons_nth_drop_Suc)
    have t: "take (Suc wpos) (str[wpos := x]) = take wpos str @ [x]" for x
      using True "1.prems" by (simp add: take_Suc_conv_app_nth)
    have t': "wpos = pos \<Longrightarrow> take (Suc wpos) str = take wpos str @ [str ! pos]"
      using True by (simp add: take_Suc_conv_app_nth)
    have r: "drop (Suc pos) (str[wpos := x]) = drop (Suc pos) str" for x
      using "1.prems" by simp
    show ?thesis
      using "1.IH" [OF True] "1.prems" True t t'
      by (subst strip_loop.simps) (auto simp: d r split: if_splits)
  qed
qed

lemma stripLineInvisibleChars_collapse:
  "stripLineInvisibleChars str =
     (if str_contains ''|TInterface'' (collapse False str) then [] else collapse False str)"
proof -
  obtain w s where ws: "strip_loop 0 0 False str = (w, s)" by fastforce
  have "w \<le> length s" "take w s = collapse False str"
    using strip_loop_collapse [of 0 0 str False] by (simp_all add: ws)
  moreover from this have "(if w < length s then take w s else s) = collapse False str"
    by auto
  ultimately show ?thesis by (simp add: stripLineInvisibleChars_def ws Let_def)
qed

lemma collapse_no_double:
  "Suc i < length (collapse sp s) \<Longrightarrow> is_inv_char (collapse sp s ! i) \<Longrightarrow> \<not> is_inv_char (collapse sp s ! Suc i)"
proof (induction sp s arbitrary: i rule: collapse.induct)
  case (2 space c cs)
  have hd: "collapse True cs \<noteq> [] \<Longrightarrow> \<not> is_inv_char (hd (collapse True cs))" for cs
    by (induction cs) auto
  have nz: "is_inv_char (CHR '' '')" by (simp add: is_inv_char_def)
  show ?case
  proof (cases i)
    case 0
    then show ?thesis using "2.prems" hd [of cs] by (cases "collapse True cs") (auto split: if_splits)
  next
    case (Suc j)
    then show ?thesis using "2.prems" "2.IH" by (auto split: if_splits)
  qed
qed simp

section \<open>Durations\<close>

definition MINUTE :: nat where "MINUTE = 60"
definition HOUR :: nat where "HOUR = MINUTE * 60"
definition DAY :: nat where "DAY = HOUR * 24"

lemmas time_units = MINUTE_def HOUR_def DAY_def

definition secsToTimeString :: "u64 \<Rightarrow> bool \<Rightarrow> bool \<Rightarrow> string" where
  "secsToTimeString timeInSecs shortText hoursOnly =
     (let t = unat timeInSecs;
          secs = t mod MINUTE;
          minutes = t mod HOUR div MINUTE;
          hours = t mod DAY div HOUR;
          days = t div DAY
      in (if days \<noteq> 0 then decimal days @ (if shortText then ''d'' else '' Day(s) '') else [])
         @ (if hours \<noteq> 0 \<or> hoursOnly then decimal hours @ (if shortText then ''h'' else '' Hour(s) '') else [])
         @ (if \<not> hoursOnly
            then (if minutes \<noteq> 0 then decimal minutes @ (if shortText then ''m'' else '' Minute(s) '') else [])
                 @ (if secs \<noteq> 0 \<or> (days = 0 \<and> hours = 0 \<and> minutes = 0)
                    then decimal secs @ (if shortText then ''s'' else '' Second(s).'') else [])
            else []))"

fun TimeString_loop :: "u32 \<Rightarrow> u32 \<Rightarrow> string \<Rightarrow> u32" where
  "TimeString_loop secs buffer [] = secs"
| "TimeString_loop secs buffer (c # cs) =
     (if isdigit c then TimeString_loop secs (buffer * 10 + of_nat (digit_val c)) cs
      else if c = CHR ''d'' then TimeString_loop (secs + buffer * of_nat DAY) 0 cs
      else if c = CHR ''h'' then TimeString_loop (secs + buffer * of_nat HOUR) 0 cs
      else if c = CHR ''m'' then TimeString_loop (secs + buffer * of_nat MINUTE) 0 cs
      else if c = CHR ''s'' then TimeString_loop (secs + buffer * 1) 0 cs
      else 0)"

definition TimeStringToSecs :: "string \<Rightarrow> u32" where
  "TimeStringToSecs timestring = TimeString_loop 0 0 timestring"

lemma TimeString_loop_digits:
  assumes "\<forall>c \<in> set w. isdigit c"
  shows "TimeString_loop secs (of_nat b) (w @ rest) = TimeString_loop secs (of_nat (digits_val b w)) rest"
  using assms
proof (induction w arbitrary: b)
  case (Cons c w)
  then show ?case using Cons.IH [of "b * 10 + digit_val c"] by (simp add: digits_val_def)
qed (simp add: digits_val_def)

lemma TimeString_loop_decimal:
  "TimeString_loop secs 0 (decimal n @ rest) = TimeString_loop secs (of_nat n) rest"
  using TimeString_loop_digits [of "decimal n" secs 0 rest] digits_val_decimal [of n] decimal_isdigit
  by auto

lemma unit_letters [simp]:
  "\<not> isdigit (CHR ''d'')" "\<not> isdigit (CHR ''h'')" "\<not> isdigit (CHR ''m'')" "\<not> isdigit (CHR ''s'')"
  "\<not> isdigit (CHR ''g'')" "\<not> isdigit (CHR ''c'')" "\<not> isdigit (CHR '' '')"
  by (simp_all add: isdigit_def)

lemma duration_parts:
  "t div DAY * DAY + (t mod DAY div HOUR) * HOUR + (t mod HOUR div MINUTE) * MINUTE + t mod MINUTE = (t::nat)"
proof -
  have "t mod DAY mod HOUR = t mod HOUR" "t mod HOUR mod MINUTE = t mod MINUTE"
    by (simp_all add: time_units mod_mod_cancel)
  then have "(t mod DAY div HOUR) * HOUR + (t mod HOUR div MINUTE) * MINUTE + t mod MINUTE = t mod DAY"
    using div_mult_mod_eq [of "t mod DAY" HOUR] div_mult_mod_eq [of "t mod HOUR" MINUTE] by simp
  then show ?thesis
    using div_mult_mod_eq [of t DAY] by linarith
qed

fun unit_secs :: "char \<Rightarrow> nat" where
  "unit_secs c = (if c = CHR ''d'' then DAY else if c = CHR ''h'' then HOUR
                  else if c = CHR ''m'' then MINUTE else 1)"

lemma TimeString_loop_unit:
  assumes "u \<in> {CHR ''d'', CHR ''h'', CHR ''m'', CHR ''s''}"
  shows "TimeString_loop secs 0 ((if n \<noteq> 0 \<or> z then decimal n @ [u] else []) @ rest)
     = TimeString_loop (secs + of_nat (n * unit_secs u)) 0 rest"
  using assms by (cases "n = 0 \<and> \<not> z") (auto simp: TimeString_loop_decimal)

lemma TimeString_loop_duration:
  assumes "t = d * DAY + h * HOUR + m * MINUTE + s"
  shows "TimeString_loop 0 0
      ((if d \<noteq> 0 then decimal d @ ''d'' else []) @ (if h \<noteq> 0 then decimal h @ ''h'' else [])
       @ (if m \<noteq> 0 then decimal m @ ''m'' else []) @ (if s \<noteq> 0 \<or> z then decimal s @ ''s'' else []))
     = of_nat t"
proof -
  note step = TimeString_loop_unit [where z = False, simplified]
  note last = TimeString_loop_unit [where u = "CHR ''s''" and rest = "[]", simplified]
  show ?thesis unfolding assms
    by (simp add: step last del: of_nat_mult of_nat_add TimeString_loop.simps)
      (simp add: time_units)
qed

section \<open>Money\<close>

definition count_char :: "string \<Rightarrow> char \<Rightarrow> nat" where
  "count_char s c = count_list s c"

fun Money_loop :: "u32 \<Rightarrow> string list \<Rightarrow> u32" where
  "Money_loop money [] = money"
| "Money_loop money (tok # toks) =
     (let gCount = count_char tok (CHR ''g'');
          sCount = count_char tok (CHR ''s'');
          cCount = count_char tok (CHR ''c'');
          amount = word_of_int (atoi tok) :: u32
      in if gCount + sCount + cCount \<noteq> 1 then 0
         else if gCount = 1 then Money_loop (money + amount * 100 * 100) toks
         else if sCount = 1 then Money_loop (money + amount * 100) toks
         else if cCount = 1 then Money_loop (money + amount) toks
         else Money_loop money toks)"

definition MoneyStringToMoney :: "string \<Rightarrow> int" where
  "MoneyStringToMoney moneyString =
     (if \<not> (count_char moneyString (CHR ''g'') = 1 \<or> count_char moneyString (CHR ''s'') = 1
             \<or> count_char moneyString (CHR ''c'') = 1)
      then 0
      else sint (Money_loop 0 (Tokenizer moneyString (CHR '' ''))))"

lemma count_char_simps [simp]:
  "count_char [] c = 0"
  "count_char (x # s) c = (if x = c then Suc (count_char s c) else count_char s c)"
  "count_char (s @ t) c = count_char s c + count_char t c"
  by (simp_all add: count_char_def)

lemma count_decimal:
  "\<not> isdigit c \<Longrightarrow> count_char (decimal n) c = 0"
  using decimal_isdigit by (auto simp: count_char_def count_list_0_iff)

lemma atoi_decimal_unit:
  "n < 2147483648 \<Longrightarrow> \<not> isdigit u \<Longrightarrow> atoi (decimal n @ [u]) = int n"
  using strtol_decimal [of "[u]" n] by (simp add: atoi_def LONG_MAX_def int32_id)

section \<open>\<^verbatim>\<open>ByteArrayToHexStr\<close>\<close>

definition hex_digit :: "nat \<Rightarrow> char" where
  "hex_digit d = (if d < 10 then char_of (48 + d) else char_of (55 + d))"

definition byte_hex :: "u8 \<Rightarrow> string" where
  "byte_hex b = [hex_digit (unat b div 16), hex_digit (unat b mod 16)]"

definition ByteArrayToHexStr :: "u8 list \<Rightarrow> bool \<Rightarrow> string" where
  "ByteArrayToHexStr bytes reverse =
     (let idx = (if reverse then rev [0..<length bytes] else [0..<length bytes])
      in concat (map (\<lambda>i. byte_hex (bytes ! i)) idx))"

lemma ByteArrayToHexStr_eq:
  "ByteArrayToHexStr bytes reverse = concat (map byte_hex (if reverse then rev bytes else bytes))"
proof -
  have "map (\<lambda>i. byte_hex (bytes ! i)) [0..<length bytes] = map byte_hex bytes"
    by (rule nth_equalityI) auto
  then show ?thesis
    by (simp add: ByteArrayToHexStr_def Let_def flip: rev_map)
qed

lemma byte_hex_inj:
  assumes "byte_hex a = byte_hex b"
  shows "a = b"
proof -
  have inj: "x < 16 \<Longrightarrow> y < 16 \<Longrightarrow> hex_digit x = hex_digit y \<Longrightarrow> x = y" for x y
    by (auto simp: hex_digit_def split: if_splits dest: arg_cong [where f = "of_char :: char \<Rightarrow> nat"])
  have bound: "unat (x :: u8) div 16 < 16" for x
    using unsigned_less [of x, where ?'a = nat] by (simp add: less_mult_imp_div_less)
  from assms have "unat a div 16 = unat b div 16" "unat a mod 16 = unat b mod 16"
    using bound [of a] bound [of b] by (auto simp: byte_hex_def intro: inj)
  then have "unat a = unat b" by (metis div_mult_mod_eq)
  then show ?thesis by (simp add: word_unat_eq_iff)
qed

lemma concat_byte_hex_inj:
  "concat (map byte_hex xs) = concat (map byte_hex ys) \<Longrightarrow> xs = ys"
proof (induction xs arbitrary: ys)
  case Nil
  then show ?case by (cases ys) (auto simp: byte_hex_def)
next
  case (Cons x xs)
  then obtain y ys' where ys: "ys = y # ys'" by (cases ys) (auto simp: byte_hex_def)
  have len: "length (byte_hex x) = length (byte_hex y)" by (simp add: byte_hex_def)
  with Cons.prems ys have "byte_hex x = byte_hex y" "concat (map byte_hex xs) = concat (map byte_hex ys')"
    by simp_all
  with Cons.IH byte_hex_inj ys show ?case by blast
qed

section \<open>Properties\<close>

text \<open>
  For every number of seconds, parsing the short text that \<^verbatim>\<open>secsToTimeString\<close> prints
  (days, hours, minutes, seconds, zero parts left out) with \<^verbatim>\<open>TimeStringToSecs\<close> gives the
  number back, reduced to the parser's 32 bits.
\<close>

theorem time_string_round_trip:
  "TimeStringToSecs (secsToTimeString t True False) = ucast t"
proof -
  let ?t = "unat t"
  have "TimeStringToSecs (secsToTimeString t True False) = of_nat ?t"
    unfolding TimeStringToSecs_def secsToTimeString_def Let_def if_True not_False_eq_True simp_thms
    by (rule TimeString_loop_duration [OF duration_parts [of ?t, symmetric]])
  then show ?thesis by simp
qed

text \<open>
  C31: the in-place loop of \<^verbatim>\<open>stripLineInvisibleChars\<close> returns the text with every run of
  blanks, tabs, bells and newlines replaced by one blank, or nothing when that text holds the
  texture escape \<^verbatim>\<open>|TInterface\<close>; so two invisible characters never stand side by side.
\<close>

theorem strip_invisible_correct:
  "stripLineInvisibleChars str =
     (if str_contains ''|TInterface'' (collapse False str) then [] else collapse False str)
   \<and> (\<forall>i. Suc i < length (stripLineInvisibleChars str) \<longrightarrow>
        \<not> (is_inv_char (stripLineInvisibleChars str ! i) \<and> is_inv_char (stripLineInvisibleChars str ! Suc i)))"
  using collapse_no_double [of _ False str] by (auto simp: stripLineInvisibleChars_collapse)

theorem strip_invisible_correct_witness:
  "stripLineInvisibleChars ''a  b'' = ''a b'' \<and> \<not> (is_inv_char (''a b'' ! 1) \<and> is_inv_char (''a b'' ! 2))"
proof -
  have e: "stripLineInvisibleChars ''a  b'' = ''a b''"
    using strip_invisible_correct [of "''a  b''"] by (simp add: is_inv_char_def)
  show ?thesis using strip_invisible_correct [of "''a  b''"] unfolding e by (simp add: is_inv_char_def)
qed

text \<open>
  A price written as gold, silver and copper in the console syntax is read back by
  \<^verbatim>\<open>MoneyStringToMoney\<close> as its value in copper, whenever that value fits the 32-bit result.
\<close>

theorem money_string_round_trip:
  assumes "g * 10000 + s * 100 + c < 2147483648"
  shows "MoneyStringToMoney (decimal g @ ''g '' @ decimal s @ ''s '' @ decimal c @ ''c'') =
           int (g * 10000 + s * 100 + c)"
proof -
  have bounds: "g < 2147483648" "s < 2147483648" "c < 2147483648" using assms by auto
  have word: "CHR '' '' \<notin> set (decimal n @ u) \<and> CHR 0x00 \<notin> set (decimal n @ u)"
    if "u \<in> {''g'', ''s'', ''c''}" for n u
    using that decimal_isdigit [of _ n] isdigit_not_special by fastforce
  have toks: "Tokenizer (w1 @ CHR '' '' # w2 @ CHR '' '' # w3) (CHR '' '') = [w1, w2, w3]"
    if "w1 = decimal g @ ''g''" "w2 = decimal s @ ''s''" "w3 = decimal c @ ''c''" for w1 w2 w3
  proof -
    have "CHR '' '' \<notin> set w \<and> CHR 0x00 \<notin> set w" if "w \<in> {w1, w2, w3}" for w
      using that word [of "''g''" g] word [of "''s''" s] word [of "''c''" c]
        \<open>w1 = _\<close> \<open>w2 = _\<close> \<open>w3 = _\<close> by blast
    moreover have "w3 \<noteq> []" using that by simp
    ultimately show ?thesis by (simp add: Tokenizer_def tokenize_word_sep)
  qed
  have "Money_loop 0 [decimal g @ ''g'', decimal s @ ''s'', decimal c @ ''c''] =
      (of_nat (g * 10000 + s * 100 + c) :: u32)"
    using bounds by (simp add: count_decimal atoi_decimal_unit algebra_simps)
  moreover have "sint (of_nat (g * 10000 + s * 100 + c) :: u32) = int (g * 10000 + s * 100 + c)"
    using assms by (rule sint_of_nat_u32)
  ultimately show ?thesis
    using toks [OF refl refl refl] by (simp add: MoneyStringToMoney_def count_decimal)
qed

theorem money_string_round_trip_witness:
  "MoneyStringToMoney ''12g 34s 56c'' = 123456"
proof -
  have "(12::nat) * 10000 + 34 * 100 + 56 < 2147483648" by simp
  moreover have "decimal 12 = ''12''" "decimal 34 = ''34''" "decimal 56 = ''56''" by code_simp+
  ultimately show ?thesis using money_string_round_trip [of 12 34 56] by simp
qed

text \<open>
  the hexadecimal dump of a byte array determines the array, in either direction, and the
  reversed dump is the dump of the reversed array.
\<close>

theorem hex_dump_injective:
  "(ByteArrayToHexStr xs r = ByteArrayToHexStr ys r) = (xs = ys)
   \<and> ByteArrayToHexStr xs True = ByteArrayToHexStr (rev xs) False"
  by (auto simp: ByteArrayToHexStr_eq dest!: concat_byte_hex_inj split: if_splits)

end
