(* ===== verification/Channel.thy ===== *)
theory Channel
  imports Social_Mgr Util_Strings
begin

text \<open>
  Chat channels, \<^verbatim>\<open>src/src/server/game/Chat/Channels/Channel.cpp\<close> and \<^verbatim>\<open>.h\<close>. A channel is a
  record of the class's members; a handler is a function on it. What a handler does outside the
  channel (packets to sessions, statements to the database, calls on \<^verbatim>\<open>Player\<close>) is appended in
  order to the event list \<open>io\<close>. The players and the configuration come from \<open>world\<close>, the ignore
  lists from the \<open>social_map\<close> of \<open>Social_Mgr\<close>. \<^verbatim>\<open>sChatChannelsStore\<close>, client data, is a
  parameter.
\<close>

section \<open>Constants\<close>

datatype chat_notify =
    CHAT_JOINED_NOTICE
  | CHAT_LEFT_NOTICE
  | CHAT_YOU_JOINED_NOTICE
  | CHAT_YOU_LEFT_NOTICE
  | CHAT_WRONG_PASSWORD_NOTICE
  | CHAT_NOT_MEMBER_NOTICE
  | CHAT_NOT_MODERATOR_NOTICE
  | CHAT_PASSWORD_CHANGED_NOTICE
  | CHAT_OWNER_CHANGED_NOTICE
  | CHAT_PLAYER_NOT_FOUND_NOTICE
  | CHAT_NOT_OWNER_NOTICE
  | CHAT_CHANNEL_OWNER_NOTICE
  | CHAT_MODE_CHANGE_NOTICE
  | CHAT_ANNOUNCEMENTS_ON_NOTICE
  | CHAT_ANNOUNCEMENTS_OFF_NOTICE
  | CHAT_MUTED_NOTICE
  | CHAT_PLAYER_KICKED_NOTICE
  | CHAT_BANNED_NOTICE
  | CHAT_PLAYER_BANNED_NOTICE
  | CHAT_PLAYER_UNBANNED_NOTICE
  | CHAT_PLAYER_NOT_BANNED_NOTICE
  | CHAT_PLAYER_ALREADY_MEMBER_NOTICE
  | CHAT_INVITE_NOTICE
  | CHAT_INVITE_WRONG_FACTION_NOTICE
  | CHAT_WRONG_FACTION_NOTICE
  | CHAT_INVALID_NAME_NOTICE
  | CHAT_NOT_MODERATED_NOTICE
  | CHAT_PLAYER_INVITED_NOTICE
  | CHAT_PLAYER_INVITE_BANNED_NOTICE
  | CHAT_THROTTLED_NOTICE
  | CHAT_NOT_IN_AREA_NOTICE
  | CHAT_NOT_IN_LFG_NOTICE
  | CHAT_VOICE_ON_NOTICE
  | CHAT_VOICE_OFF_NOTICE

fun notify_code :: "chat_notify \<Rightarrow> u8" where
  "notify_code CHAT_JOINED_NOTICE = 0x00"
| "notify_code CHAT_LEFT_NOTICE = 0x01"
| "notify_code CHAT_YOU_JOINED_NOTICE = 0x02"
| "notify_code CHAT_YOU_LEFT_NOTICE = 0x03"
| "notify_code CHAT_WRONG_PASSWORD_NOTICE = 0x04"
| "notify_code CHAT_NOT_MEMBER_NOTICE = 0x05"
| "notify_code CHAT_NOT_MODERATOR_NOTICE = 0x06"
| "notify_code CHAT_PASSWORD_CHANGED_NOTICE = 0x07"
| "notify_code CHAT_OWNER_CHANGED_NOTICE = 0x08"
| "notify_code CHAT_PLAYER_NOT_FOUND_NOTICE = 0x09"
| "notify_code CHAT_NOT_OWNER_NOTICE = 0x0A"
| "notify_code CHAT_CHANNEL_OWNER_NOTICE = 0x0B"
| "notify_code CHAT_MODE_CHANGE_NOTICE = 0x0C"
| "notify_code CHAT_ANNOUNCEMENTS_ON_NOTICE = 0x0D"
| "notify_code CHAT_ANNOUNCEMENTS_OFF_NOTICE = 0x0E"
| "notify_code CHAT_MUTED_NOTICE = 0x11"
| "notify_code CHAT_PLAYER_KICKED_NOTICE = 0x12"
| "notify_code CHAT_BANNED_NOTICE = 0x13"
| "notify_code CHAT_PLAYER_BANNED_NOTICE = 0x14"
| "notify_code CHAT_PLAYER_UNBANNED_NOTICE = 0x15"
| "notify_code CHAT_PLAYER_NOT_BANNED_NOTICE = 0x16"
| "notify_code CHAT_PLAYER_ALREADY_MEMBER_NOTICE = 0x17"
| "notify_code CHAT_INVITE_NOTICE = 0x18"
| "notify_code CHAT_INVITE_WRONG_FACTION_NOTICE = 0x19"
| "notify_code CHAT_WRONG_FACTION_NOTICE = 0x1A"
| "notify_code CHAT_INVALID_NAME_NOTICE = 0x1B"
| "notify_code CHAT_NOT_MODERATED_NOTICE = 0x1C"
| "notify_code CHAT_PLAYER_INVITED_NOTICE = 0x1D"
| "notify_code CHAT_PLAYER_INVITE_BANNED_NOTICE = 0x1E"
| "notify_code CHAT_THROTTLED_NOTICE = 0x1F"
| "notify_code CHAT_NOT_IN_AREA_NOTICE = 0x20"
| "notify_code CHAT_NOT_IN_LFG_NOTICE = 0x21"
| "notify_code CHAT_VOICE_ON_NOTICE = 0x22"
| "notify_code CHAT_VOICE_OFF_NOTICE = 0x23"

definition CHANNEL_FLAG_CUSTOM :: u8 where "CHANNEL_FLAG_CUSTOM = 0x01"
definition CHANNEL_FLAG_TRADE :: u8 where "CHANNEL_FLAG_TRADE = 0x04"
definition CHANNEL_FLAG_NOT_LFG :: u8 where "CHANNEL_FLAG_NOT_LFG = 0x08"
definition CHANNEL_FLAG_GENERAL :: u8 where "CHANNEL_FLAG_GENERAL = 0x10"
definition CHANNEL_FLAG_CITY :: u8 where "CHANNEL_FLAG_CITY = 0x20"
definition CHANNEL_FLAG_LFG :: u8 where "CHANNEL_FLAG_LFG = 0x40"

definition CHANNEL_DBC_FLAG_TRADE :: u32 where "CHANNEL_DBC_FLAG_TRADE = 0x00008"
definition CHANNEL_DBC_FLAG_CITY_ONLY2 :: u32 where "CHANNEL_DBC_FLAG_CITY_ONLY2 = 0x00020"
definition CHANNEL_DBC_FLAG_LFG :: u32 where "CHANNEL_DBC_FLAG_LFG = 0x40000"

definition MEMBER_FLAG_NONE :: u8 where "MEMBER_FLAG_NONE = 0x00"
definition MEMBER_FLAG_OWNER :: u8 where "MEMBER_FLAG_OWNER = 0x01"
definition MEMBER_FLAG_MODERATOR :: u8 where "MEMBER_FLAG_MODERATOR = 0x02"
definition MEMBER_FLAG_MUTED :: u8 where "MEMBER_FLAG_MUTED = 0x08"

definition SMSG_MESSAGECHAT :: u16 where "SMSG_MESSAGECHAT = 0x096"
definition SMSG_CHANNEL_NOTIFY :: u16 where "SMSG_CHANNEL_NOTIFY = 0x099"
definition SMSG_CHANNEL_LIST :: u16 where "SMSG_CHANNEL_LIST = 0x09B"
definition SMSG_USERLIST_ADD :: u16 where "SMSG_USERLIST_ADD = 0x3F0"
definition SMSG_USERLIST_REMOVE :: u16 where "SMSG_USERLIST_REMOVE = 0x3F1"
definition SMSG_USERLIST_UPDATE :: u16 where "SMSG_USERLIST_UPDATE = 0x3F2"

definition CHAT_MSG_CHANNEL :: u8 where "CHAT_MSG_CHANNEL = 0x11"
definition LANG_UNIVERSAL :: u32 where "LANG_UNIVERSAL = 0"

lemmas channel_flags = CHANNEL_FLAG_CUSTOM_def CHANNEL_FLAG_TRADE_def CHANNEL_FLAG_NOT_LFG_def
  CHANNEL_FLAG_GENERAL_def CHANNEL_FLAG_CITY_def CHANNEL_FLAG_LFG_def
lemmas member_flags = MEMBER_FLAG_NONE_def MEMBER_FLAG_OWNER_def MEMBER_FLAG_MODERATOR_def MEMBER_FLAG_MUTED_def

section \<open>Data\<close>

record player_info =
  pi_player :: u64
  pi_flags :: u8

abbreviation PlayerInfo_new :: player_info where
  "PlayerInfo_new \<equiv> \<lparr>pi_player = 0, pi_flags = 0\<rparr>"

definition pi_IsOwner :: "player_info \<Rightarrow> bool" where
  "pi_IsOwner i \<longleftrightarrow> has_flag (pi_flags i) MEMBER_FLAG_OWNER"

definition pi_SetOwner :: "bool \<Rightarrow> player_info \<Rightarrow> player_info" where
  "pi_SetOwner state i = i\<lparr>pi_flags := (if state then pi_flags i OR MEMBER_FLAG_OWNER
                                      else pi_flags i AND NOT MEMBER_FLAG_OWNER)\<rparr>"

definition pi_IsModerator :: "player_info \<Rightarrow> bool" where
  "pi_IsModerator i \<longleftrightarrow> has_flag (pi_flags i) MEMBER_FLAG_MODERATOR"

definition pi_SetModerator :: "bool \<Rightarrow> player_info \<Rightarrow> player_info" where
  "pi_SetModerator state i = i\<lparr>pi_flags := (if state then pi_flags i OR MEMBER_FLAG_MODERATOR
                                          else pi_flags i AND NOT MEMBER_FLAG_MODERATOR)\<rparr>"

definition pi_IsMuted :: "player_info \<Rightarrow> bool" where
  "pi_IsMuted i \<longleftrightarrow> has_flag (pi_flags i) MEMBER_FLAG_MUTED"

definition pi_SetMuted :: "bool \<Rightarrow> player_info \<Rightarrow> player_info" where
  "pi_SetMuted state i = i\<lparr>pi_flags := (if state then pi_flags i OR MEMBER_FLAG_MUTED
                                      else pi_flags i AND NOT MEMBER_FLAG_MUTED)\<rparr>"

record channel =
  ch_players :: "(u64, player_info) stdmap"
  ch_banned :: "u64 stdset"
  m_announce :: bool
  m_ownership :: bool
  m_name :: string
  m_password :: string
  m_flags :: u8
  m_channelId :: u32
  m_ownerGUID :: u64
  m_IsSaved :: bool
  m_Team :: u32

text \<open>The prepared statements with their parameters, and the events a handler causes.\<close>

datatype channel_stmt =
    CHAR_INS_CHANNEL string u32
  | CHAR_UPD_CHANNEL bool bool string string string u32
  | CHAR_UPD_CHANNEL_USAGE string u32
  | CHAR_DEL_OLD_CHANNELS u32

datatype channel_event =
    SendPacket u64 world_packet
  | Execute channel_stmt
  | JoinedChannel u64
  | LeftChannel u64

record channel_io = channel +
  io :: "channel_event list"

definition emit :: "channel_event list \<Rightarrow> channel_io \<Rightarrow> channel_io" where
  "emit es c = c\<lparr>io := io c @ es\<rparr>"

section \<open>Tests and lookups\<close>

definition IsOn :: "u64 \<Rightarrow> 'a channel_scheme \<Rightarrow> bool" where
  "IsOn who c \<longleftrightarrow> map_find (ch_players c) who \<noteq> None"

definition IsBanned :: "u64 \<Rightarrow> 'a channel_scheme \<Rightarrow> bool" where
  "IsBanned guid c \<longleftrightarrow> guid \<in> set (ch_banned c)"

definition IsConstant :: "'a channel_scheme \<Rightarrow> bool" where
  "IsConstant c \<longleftrightarrow> m_channelId c \<noteq> 0"

definition GetPlayerFlags :: "u64 \<Rightarrow> 'a channel_scheme \<Rightarrow> u8" where
  "GetPlayerFlags p c = (case map_find (ch_players c) p of None \<Rightarrow> 0 | Some i \<Rightarrow> pi_flags i)"

definition GetNumPlayers :: "'a channel_scheme \<Rightarrow> u32" where
  "GetNumPlayers c = of_nat (length (ch_players c))"

text \<open>The value that \<^verbatim>\<open>players[p]\<close> reads.\<close>

definition player_at :: "u64 \<Rightarrow> 'a channel_scheme \<Rightarrow> player_info" where
  "player_at p c = map_at PlayerInfo_new (ch_players c) p"

text \<open>\<^verbatim>\<open>players[p].f(...)\<close>\<close>

definition update_player :: "u64 \<Rightarrow> (player_info \<Rightarrow> player_info) \<Rightarrow> 'a channel_scheme \<Rightarrow> 'a channel_scheme" where
  "update_player p f c = c\<lparr>ch_players := map_modify PlayerInfo_new p f (ch_players c)\<rparr>"

text \<open>The account level of a player, \<^verbatim>\<open>SEC_PLAYER\<close> when he is not in the world.\<close>

definition security_of :: "world \<Rightarrow> u64 \<Rightarrow> u32" where
  "security_of w p = (case FindPlayer w p of Some pl \<Rightarrow> pl_security pl | None \<Rightarrow> SEC_PLAYER)"

section \<open>Packets\<close>

definition MakeNotifyPacket :: "chat_notify \<Rightarrow> 'a channel_scheme \<Rightarrow> world_packet" where
  "MakeNotifyPacket notify_type c =
     stream [FU8 (notify_code notify_type), FStr (m_name c)] (WorldPacket SMSG_CHANNEL_NOTIFY)"

definition MakeJoined :: "u64 \<Rightarrow> 'a channel_scheme \<Rightarrow> world_packet" where
  "MakeJoined guid c = stream [FU64 guid] (MakeNotifyPacket CHAT_JOINED_NOTICE c)"

definition MakeLeft :: "u64 \<Rightarrow> 'a channel_scheme \<Rightarrow> world_packet" where
  "MakeLeft guid c = stream [FU64 guid] (MakeNotifyPacket CHAT_LEFT_NOTICE c)"

definition MakePasswordChanged :: "u64 \<Rightarrow> 'a channel_scheme \<Rightarrow> world_packet" where
  "MakePasswordChanged guid c = stream [FU64 guid] (MakeNotifyPacket CHAT_PASSWORD_CHANGED_NOTICE c)"

definition MakeOwnerChanged :: "u64 \<Rightarrow> 'a channel_scheme \<Rightarrow> world_packet" where
  "MakeOwnerChanged guid c = stream [FU64 guid] (MakeNotifyPacket CHAT_OWNER_CHANGED_NOTICE c)"

definition MakeAnnouncementsOn :: "u64 \<Rightarrow> 'a channel_scheme \<Rightarrow> world_packet" where
  "MakeAnnouncementsOn guid c = stream [FU64 guid] (MakeNotifyPacket CHAT_ANNOUNCEMENTS_ON_NOTICE c)"

definition MakeAnnouncementsOff :: "u64 \<Rightarrow> 'a channel_scheme \<Rightarrow> world_packet" where
  "MakeAnnouncementsOff guid c = stream [FU64 guid] (MakeNotifyPacket CHAT_ANNOUNCEMENTS_OFF_NOTICE c)"

definition MakePlayerAlreadyMember :: "u64 \<Rightarrow> 'a channel_scheme \<Rightarrow> world_packet" where
  "MakePlayerAlreadyMember guid c = stream [FU64 guid] (MakeNotifyPacket CHAT_PLAYER_ALREADY_MEMBER_NOTICE c)"

definition MakeInvite :: "u64 \<Rightarrow> 'a channel_scheme \<Rightarrow> world_packet" where
  "MakeInvite guid c = stream [FU64 guid] (MakeNotifyPacket CHAT_INVITE_NOTICE c)"

definition MakeVoiceOn :: "u64 \<Rightarrow> 'a channel_scheme \<Rightarrow> world_packet" where
  "MakeVoiceOn guid c = stream [FU64 guid] (MakeNotifyPacket CHAT_VOICE_ON_NOTICE c)"

definition MakeVoiceOff :: "u64 \<Rightarrow> 'a channel_scheme \<Rightarrow> world_packet" where
  "MakeVoiceOff guid c = stream [FU64 guid] (MakeNotifyPacket CHAT_VOICE_OFF_NOTICE c)"

definition MakeWrongPassword :: "'a channel_scheme \<Rightarrow> world_packet" where
  "MakeWrongPassword c = MakeNotifyPacket CHAT_WRONG_PASSWORD_NOTICE c"

definition MakeNotMember :: "'a channel_scheme \<Rightarrow> world_packet" where
  "MakeNotMember c = MakeNotifyPacket CHAT_NOT_MEMBER_NOTICE c"

definition MakeNotModerator :: "'a channel_scheme \<Rightarrow> world_packet" where
  "MakeNotModerator c = MakeNotifyPacket CHAT_NOT_MODERATOR_NOTICE c"

definition MakeNotOwner :: "'a channel_scheme \<Rightarrow> world_packet" where
  "MakeNotOwner c = MakeNotifyPacket CHAT_NOT_OWNER_NOTICE c"

definition MakeMuted :: "'a channel_scheme \<Rightarrow> world_packet" where
  "MakeMuted c = MakeNotifyPacket CHAT_MUTED_NOTICE c"

definition MakeBanned :: "'a channel_scheme \<Rightarrow> world_packet" where
  "MakeBanned c = MakeNotifyPacket CHAT_BANNED_NOTICE c"

definition MakeInviteWrongFaction :: "'a channel_scheme \<Rightarrow> world_packet" where
  "MakeInviteWrongFaction c = MakeNotifyPacket CHAT_INVITE_WRONG_FACTION_NOTICE c"

definition MakeWrongFaction :: "'a channel_scheme \<Rightarrow> world_packet" where
  "MakeWrongFaction c = MakeNotifyPacket CHAT_WRONG_FACTION_NOTICE c"

definition MakeInvalidName :: "'a channel_scheme \<Rightarrow> world_packet" where
  "MakeInvalidName c = MakeNotifyPacket CHAT_INVALID_NAME_NOTICE c"

definition MakeNotModerated :: "'a channel_scheme \<Rightarrow> world_packet" where
  "MakeNotModerated c = MakeNotifyPacket CHAT_NOT_MODERATED_NOTICE c"

definition MakeThrottled :: "'a channel_scheme \<Rightarrow> world_packet" where
  "MakeThrottled c = MakeNotifyPacket CHAT_THROTTLED_NOTICE c"

definition MakeNotInArea :: "'a channel_scheme \<Rightarrow> world_packet" where
  "MakeNotInArea c = MakeNotifyPacket CHAT_NOT_IN_AREA_NOTICE c"

definition MakeNotInLfg :: "'a channel_scheme \<Rightarrow> world_packet" where
  "MakeNotInLfg c = MakeNotifyPacket CHAT_NOT_IN_LFG_NOTICE c"

definition MakePlayerNotFound :: "string \<Rightarrow> 'a channel_scheme \<Rightarrow> world_packet" where
  "MakePlayerNotFound name c = stream [FStr name] (MakeNotifyPacket CHAT_PLAYER_NOT_FOUND_NOTICE c)"

definition MakePlayerNotBanned :: "string \<Rightarrow> 'a channel_scheme \<Rightarrow> world_packet" where
  "MakePlayerNotBanned name c = stream [FStr name] (MakeNotifyPacket CHAT_PLAYER_NOT_BANNED_NOTICE c)"

definition MakePlayerInvited :: "string \<Rightarrow> 'a channel_scheme \<Rightarrow> world_packet" where
  "MakePlayerInvited name c = stream [FStr name] (MakeNotifyPacket CHAT_PLAYER_INVITED_NOTICE c)"

definition MakePlayerInviteBanned :: "string \<Rightarrow> 'a channel_scheme \<Rightarrow> world_packet" where
  "MakePlayerInviteBanned name c = stream [FStr name] (MakeNotifyPacket CHAT_PLAYER_INVITE_BANNED_NOTICE c)"

definition MakePlayerKicked :: "u64 \<Rightarrow> u64 \<Rightarrow> 'a channel_scheme \<Rightarrow> world_packet" where
  "MakePlayerKicked bad good c = stream [FU64 bad, FU64 good] (MakeNotifyPacket CHAT_PLAYER_KICKED_NOTICE c)"

definition MakePlayerBanned :: "u64 \<Rightarrow> u64 \<Rightarrow> 'a channel_scheme \<Rightarrow> world_packet" where
  "MakePlayerBanned bad good c = stream [FU64 bad, FU64 good] (MakeNotifyPacket CHAT_PLAYER_BANNED_NOTICE c)"

definition MakePlayerUnbanned :: "u64 \<Rightarrow> u64 \<Rightarrow> 'a channel_scheme \<Rightarrow> world_packet" where
  "MakePlayerUnbanned bad good c = stream [FU64 bad, FU64 good] (MakeNotifyPacket CHAT_PLAYER_UNBANNED_NOTICE c)"

definition MakeYouJoined :: "'a channel_scheme \<Rightarrow> world_packet" where
  "MakeYouJoined c =
     stream [FU8 (m_flags c), FU32 (m_channelId c), FU32 0] (MakeNotifyPacket CHAT_YOU_JOINED_NOTICE c)"

definition MakeYouLeft :: "'a channel_scheme \<Rightarrow> world_packet" where
  "MakeYouLeft c =
     stream [FU32 (m_channelId c), FU8 (of_bool (IsConstant c))] (MakeNotifyPacket CHAT_YOU_LEFT_NOTICE c)"

definition MakeChannelOwner :: "world \<Rightarrow> 'a channel_scheme \<Rightarrow> world_packet" where
  "MakeChannelOwner w c =
     (let name = (case GetPlayerNameByGUID w (m_ownerGUID c) of
                    None \<Rightarrow> ''PLAYER_NOT_FOUND''
                  | Some n \<Rightarrow> if n = [] then ''PLAYER_NOT_FOUND'' else n)
      in stream [FStr (if IsConstant c \<or> m_ownerGUID c = 0 then ''Nobody'' else name)]
           (MakeNotifyPacket CHAT_CHANNEL_OWNER_NOTICE c))"

definition MakeModeChange :: "u64 \<Rightarrow> u8 \<Rightarrow> 'a channel_scheme \<Rightarrow> world_packet" where
  "MakeModeChange guid oldflags c =
     stream [FU64 guid, FU8 oldflags, FU8 (GetPlayerFlags guid c)] (MakeNotifyPacket CHAT_MODE_CHANGE_NOTICE c)"

section \<open>Sending\<close>

definition SendToOne :: "world \<Rightarrow> world_packet \<Rightarrow> u64 \<Rightarrow> channel_io \<Rightarrow> channel_io" where
  "SendToOne w data who c =
     (case FindPlayer w who of None \<Rightarrow> c | Some pl \<Rightarrow> emit [SendPacket (pl_guid pl) data] c)"

definition SendToAll :: "world \<Rightarrow> social_map \<Rightarrow> world_packet \<Rightarrow> u64 \<Rightarrow> channel_io \<Rightarrow> channel_io" where
  "SendToAll w mgr data p c =
     emit (concat (map (\<lambda>(g, i).
       (case FindPlayer w g of
          None \<Rightarrow> []
        | Some pl \<Rightarrow>
            if p = 0 \<or> \<not> HasIgnore (GUID_LOPART p) (GetSocial mgr pl)
            then [SendPacket (pl_guid pl) data] else [])) (ch_players c))) c"

definition SendToAllButOne :: "world \<Rightarrow> world_packet \<Rightarrow> u64 \<Rightarrow> channel_io \<Rightarrow> channel_io" where
  "SendToAllButOne w data who c =
     emit (concat (map (\<lambda>(g, i).
       (if g \<noteq> who
        then (case FindPlayer w g of None \<Rightarrow> [] | Some pl \<Rightarrow> [SendPacket (pl_guid pl) data])
        else [])) (ch_players c))) c"

definition JoinNotify :: "world \<Rightarrow> social_map \<Rightarrow> u64 \<Rightarrow> channel_io \<Rightarrow> channel_io" where
  "JoinNotify w mgr guid c =
     (let data = stream [FU64 guid, FU8 (GetPlayerFlags guid c), FU8 (m_flags c), FU32 (GetNumPlayers c), FStr (m_name c)]
            (WorldPacket (if IsConstant c then SMSG_USERLIST_ADD else SMSG_USERLIST_UPDATE))
      in if IsConstant c then SendToAllButOne w data guid c else SendToAll w mgr data 0 c)"

definition LeaveNotify :: "world \<Rightarrow> social_map \<Rightarrow> u64 \<Rightarrow> channel_io \<Rightarrow> channel_io" where
  "LeaveNotify w mgr guid c =
     (let data = stream [FU64 guid, FU8 (m_flags c), FU32 (GetNumPlayers c), FStr (m_name c)]
            (WorldPacket SMSG_USERLIST_REMOVE)
      in if IsConstant c then SendToAllButOne w data guid c else SendToAll w mgr data 0 c)"

section \<open>The database\<close>

definition ban_list_str :: "u64 stdset \<Rightarrow> string" where
  "ban_list_str banned = join_each (CHR '' '') (map (\<lambda>g. decimal (unat g)) banned)"

definition UpdateChannelInDB :: "channel_io \<Rightarrow> channel_io" where
  "UpdateChannelInDB c =
     (if m_IsSaved c
      then emit [Execute (CHAR_UPD_CHANNEL (m_announce c) (m_ownership c) (m_password c)
                   (ban_list_str (ch_banned c)) (m_name c) (m_Team c))] c
      else c)"

definition UpdateChannelUseageInDB :: "channel_io \<Rightarrow> channel_io" where
  "UpdateChannelUseageInDB c = emit [Execute (CHAR_UPD_CHANNEL_USAGE (m_name c) (m_Team c))] c"

definition CleanOldChannelsInDB :: "world \<Rightarrow> channel_stmt list" where
  "CleanOldChannelsInDB w =
     (if cfg_preserve_custom_channel_duration w > 0
      then [CHAR_DEL_OLD_CHANNELS (cfg_preserve_custom_channel_duration w * of_nat DAY)] else [])"

text \<open>A row of the table \<^verbatim>\<open>channels\<close>; \<^verbatim>\<open>bannedList\<close> is NULL until the first update.\<close>

record channel_row =
  cr_announce :: bool
  cr_ownership :: bool
  cr_password :: string
  cr_bannedList :: "string option"

definition parse_ban_list :: "string \<Rightarrow> u64 stdset \<Rightarrow> u64 stdset" where
  "parse_ban_list db_BannedList banned =
     fold (\<lambda>tok b. let banned_guid = word_of_int (atol tok)
                   in if banned_guid \<noteq> 0 then set_ins banned_guid b else b)
       (Tokenizer db_BannedList (CHR '' '')) banned"

text \<open>The constructor: \<open>lookup\<close> is \<^verbatim>\<open>sChatChannelsStore\<close> (the flags of a built-in channel), \<open>row\<close>
  the answer to \<^verbatim>\<open>CHAR_SEL_CHANNEL\<close>.\<close>

definition Channel_new ::
  "(u32 \<Rightarrow> u32 option) \<Rightarrow> channel_row option \<Rightarrow> world \<Rightarrow> string \<Rightarrow> u32 \<Rightarrow> u32 \<Rightarrow> channel_io" where
  "Channel_new lookup row w name channel_id Team =
     (let c = \<lparr>ch_players = [], ch_banned = [], m_announce = True, m_ownership = True, m_name = name,
               m_password = [], m_flags = 0, m_channelId = channel_id, m_ownerGUID = 0, m_IsSaved = False,
               m_Team = Team, io = []\<rparr>
      in case lookup channel_id of
           Some flags \<Rightarrow>
             let f = 0 OR CHANNEL_FLAG_GENERAL;
                 f = (if has_flag flags CHANNEL_DBC_FLAG_TRADE then f OR CHANNEL_FLAG_TRADE else f);
                 f = (if has_flag flags CHANNEL_DBC_FLAG_CITY_ONLY2 then f OR CHANNEL_FLAG_CITY else f);
                 f = (if has_flag flags CHANNEL_DBC_FLAG_LFG then f OR CHANNEL_FLAG_LFG else f OR CHANNEL_FLAG_NOT_LFG)
             in c\<lparr>m_announce := False, m_ownership := False, m_flags := f\<rparr>
         | None \<Rightarrow>
             let c = c\<lparr>m_flags := 0 OR CHANNEL_FLAG_CUSTOM\<rparr>
             in if cfg_preserve_custom_channels w
                then (case row of
                        Some r \<Rightarrow>
                          let c = c\<lparr>m_announce := cr_announce r, m_ownership := cr_ownership r,
                                    m_password := cr_password r\<rparr>
                          in (case cr_bannedList r of
                                None \<Rightarrow> c
                              | Some s \<Rightarrow> c\<lparr>ch_banned := parse_ban_list s (ch_banned c)\<rparr>)
                      | None \<Rightarrow> emit [Execute (CHAR_INS_CHANNEL name Team)] c)
                     \<lparr>m_IsSaved := True\<rparr>
                else c)"

end
