(* ===== verification/Channel_Ops.thy ===== *)
theory Channel_Ops
  imports Channel
begin

text \<open>
  The operations of \<^verbatim>\<open>Channel.cpp\<close> that clients trigger, one definition per method, with every
  early return. \<^verbatim>\<open>w\<close> and \<^verbatim>\<open>mgr\<close> are the server's state at the time of the call. The overloads of
  \<^verbatim>\<open>SetOwner\<close>, \<^verbatim>\<open>SetModerator\<close> and \<^verbatim>\<open>SetMute\<close> that take a GUID are named \<open>SetOwner_guid\<close>,
  \<open>SetModerator_guid\<close> and \<open>SetMute_guid\<close>. \<^verbatim>\<open>Password\<close> is the only method that can dereference a null
  pointer; it returns a \<open>cpp_error\<close> then.
\<close>

section \<open>Ownership\<close>

definition SetOwner_guid :: "world \<Rightarrow> social_map \<Rightarrow> u64 \<Rightarrow> bool \<Rightarrow> channel_io \<Rightarrow> channel_io" where
  "SetOwner_guid w mgr guid exclaim c =
     (let c = (if m_ownerGUID c \<noteq> 0
               then (case map_find (ch_players c) (m_ownerGUID c) of
                       None \<Rightarrow> c
                     | Some i \<Rightarrow> c\<lparr>ch_players := map_set (m_ownerGUID c) (pi_SetOwner False i) (ch_players c)\<rparr>)
               else c);
          c = c\<lparr>m_ownerGUID := guid\<rparr>
      in if m_ownerGUID c \<noteq> 0
         then
           let oldFlag = GetPlayerFlags (m_ownerGUID c) c;
               c = update_player (m_ownerGUID c) (pi_SetModerator True) c;
               c = update_player (m_ownerGUID c) (pi_SetOwner True) c;
               c = SendToAll w mgr (MakeModeChange (m_ownerGUID c) oldFlag c) 0 c;
               c = (if exclaim then SendToAll w mgr (MakeOwnerChanged (m_ownerGUID c) c) 0 c else c)
           in UpdateChannelInDB c
         else c)"

definition SetModerator_guid :: "world \<Rightarrow> social_map \<Rightarrow> u64 \<Rightarrow> bool \<Rightarrow> channel_io \<Rightarrow> channel_io" where
  "SetModerator_guid w mgr p state c =
     (let c = update_player p id c
      in if pi_IsModerator (player_at p c) \<noteq> state
         then
           let oldFlag = GetPlayerFlags p c;
               c = update_player p (pi_SetModerator state) c
           in SendToAll w mgr (MakeModeChange p oldFlag c) 0 c
         else c)"

definition SetMute_guid :: "world \<Rightarrow> social_map \<Rightarrow> u64 \<Rightarrow> bool \<Rightarrow> channel_io \<Rightarrow> channel_io" where
  "SetMute_guid w mgr p state c =
     (let c = update_player p id c
      in if pi_IsMuted (player_at p c) \<noteq> state
         then
           let oldFlag = GetPlayerFlags p c;
               c = update_player p (pi_SetMuted state) c
           in SendToAll w mgr (MakeModeChange p oldFlag c) 0 c
         else c)"

section \<open>Joining and leaving\<close>

text \<open>The condition under which a join or leave is announced.\<close>

definition announces :: "world \<Rightarrow> u64 \<Rightarrow> 'a channel_scheme \<Rightarrow> bool" where
  "announces w p c \<longleftrightarrow> m_announce c \<and>
     (FindPlayer w p = None \<or> \<not> IsGMAccount (security_of w p) \<or> \<not> cfg_silently_gm_join_to_channel w)"

text \<open>The body of \<^verbatim>\<open>Join\<close> after its guards.\<close>

definition Join_accept :: "world \<Rightarrow> social_map \<Rightarrow> u64 \<Rightarrow> channel_io \<Rightarrow> channel_io" where
  "Join_accept w mgr p c =
     (let c = (if announces w p c then SendToAll w mgr (MakeJoined p c) 0 c else c);
          c = c\<lparr>ch_players := map_set p \<lparr>pi_player = p, pi_flags = MEMBER_FLAG_NONE\<rparr> (ch_players c)\<rparr>;
          c = SendToOne w (MakeYouJoined c) p c;
          c = JoinNotify w mgr p c
      in if \<not> IsConstant c
         then
           let c = (if ch_players c \<noteq> [] then UpdateChannelUseageInDB c else c)
           in if m_ownerGUID c = 0 \<and> m_ownership c
              then update_player p (pi_SetModerator True) (SetOwner_guid w mgr p (length (ch_players c) > 1) c)
              else c
         else c)"

definition Join :: "world \<Rightarrow> social_map \<Rightarrow> u64 \<Rightarrow> string \<Rightarrow> channel_io \<Rightarrow> channel_io" where
  "Join w mgr p pass c =
     (if IsOn p c
      then (if \<not> IsConstant c then SendToOne w (MakePlayerAlreadyMember p c) p c else c)
      else if IsBanned p c then SendToOne w (MakeBanned c) p c
      else if length (m_password c) > 0 \<and> strcmp_ne pass (m_password c)
      then SendToOne w (MakeWrongPassword c) p c
      else
        case FindPlayer w p of
          Some pl \<Rightarrow>
            if has_flag (m_flags c) CHANNEL_FLAG_LFG \<and> cfg_restricted_lfg_channel w
               \<and> IsPlayerAccount (pl_security pl) \<and> pl_in_group pl
            then SendToOne w (MakeNotInLfg c) p c
            else Join_accept w mgr p (emit [JoinedChannel (pl_guid pl)] c)
        | None \<Rightarrow> Join_accept w mgr p c)"

text \<open>\<^verbatim>\<open>Leave\<close> of a member: the removal with its notices, and the hand-over after it.\<close>

definition leave_remove :: "world \<Rightarrow> social_map \<Rightarrow> u64 \<Rightarrow> bool \<Rightarrow> channel_io \<Rightarrow> channel_io" where
  "leave_remove w mgr p send c =
     (let c = (if send
               then (let c = SendToOne w (MakeYouLeft c) p c
                     in case FindPlayer w p of Some pl \<Rightarrow> emit [LeftChannel (pl_guid pl)] c | None \<Rightarrow> c)
               else c);
          c = c\<lparr>ch_players := map_erase p (ch_players c)\<rparr>;
          c = (if announces w p c then SendToAll w mgr (MakeLeft p c) 0 c else c)
      in LeaveNotify w mgr p c)"

definition Leave :: "world \<Rightarrow> social_map \<Rightarrow> u64 \<Rightarrow> bool \<Rightarrow> channel_io \<Rightarrow> channel_io" where
  "Leave w mgr p send c =
     (if \<not> IsOn p c
      then (if send then SendToOne w (MakeNotMember c) p c else c)
      else
        let changeowner = pi_IsOwner (player_at p c);
            c = leave_remove w mgr p send c
        in if \<not> IsConstant c
           then
             let c = UpdateChannelUseageInDB c
             in if changeowner \<and> m_ownership c \<and> ch_players c \<noteq> []
                then
                  let newowner = pi_player (snd (hd (ch_players c)));
                      c = update_player newowner (pi_SetModerator True) c
                  in SetOwner_guid w mgr newowner True c
                else c
           else c)"

section \<open>Moderation\<close>

text \<open>
  The guards every moderation command starts with: the caller is on the channel, and he is a
  moderator of it or a game master.
\<close>

definition if_moderator :: "world \<Rightarrow> u64 \<Rightarrow> (channel_io \<Rightarrow> channel_io) \<Rightarrow> channel_io \<Rightarrow> channel_io" where
  "if_moderator w p f c =
     (if \<not> IsOn p c then SendToOne w (MakeNotMember c) p c
      else if \<not> pi_IsModerator (player_at p c) \<and> \<not> IsGMAccount (security_of w p)
      then SendToOne w (MakeNotModerator c) p c
      else f c)"

text \<open>The last branch of \<^verbatim>\<open>KickOrBan\<close>: the removal, and the hand-over after it.\<close>

definition kick_remove :: "world \<Rightarrow> social_map \<Rightarrow> u64 \<Rightarrow> player \<Rightarrow> bool \<Rightarrow> channel_io \<Rightarrow> channel_io" where
  "kick_remove w mgr good bad ban c =
     (let notify = (\<not> (IsGMAccount (security_of w good) \<and> cfg_silently_gm_join_to_channel w));
          banning = (ban \<and> \<not> IsBanned (pl_guid bad) c);
          c = (if banning
               then UpdateChannelInDB (c\<lparr>ch_banned := set_ins (pl_guid bad) (ch_banned c)\<rparr>) else c);
          data = (if banning then MakePlayerBanned (pl_guid bad) good c else MakePlayerKicked (pl_guid bad) good c);
          c = (if notify then SendToAll w mgr data 0 c else c);
          c = c\<lparr>ch_players := map_erase (pl_guid bad) (ch_players c)\<rparr>
      in emit [LeftChannel (pl_guid bad)] c)"

definition kick_accept :: "world \<Rightarrow> social_map \<Rightarrow> u64 \<Rightarrow> player \<Rightarrow> bool \<Rightarrow> channel_io \<Rightarrow> channel_io" where
  "kick_accept w mgr good bad ban c =
     (let changeowner = (m_ownerGUID c = pl_guid bad);
          c = kick_remove w mgr good bad ban c
      in if changeowner \<and> m_ownership c \<and> ch_players c \<noteq> []
         then
           let newowner = good;
               c = update_player newowner (pi_SetModerator True) c
           in SetOwner_guid w mgr newowner True c
         else c)"

definition KickOrBan :: "world \<Rightarrow> social_map \<Rightarrow> u64 \<Rightarrow> string \<Rightarrow> bool \<Rightarrow> channel_io \<Rightarrow> channel_io" where
  "KickOrBan w mgr good badname ban =
     if_moderator w good (\<lambda>c.
       case FindPlayerByName w badname of
         None \<Rightarrow> SendToOne w (MakePlayerNotFound badname c) good c
       | Some bad \<Rightarrow>
           if \<not> IsOn (pl_guid bad) c then SendToOne w (MakePlayerNotFound badname c) good c
           else if \<not> IsGMAccount (security_of w good) \<and> pl_guid bad = m_ownerGUID c \<and> good \<noteq> m_ownerGUID c
           then SendToOne w (MakeNotOwner c) good c
           else kick_accept w mgr good bad ban c)"

definition UnBan :: "world \<Rightarrow> social_map \<Rightarrow> u64 \<Rightarrow> string \<Rightarrow> channel_io \<Rightarrow> channel_io" where
  "UnBan w mgr good badname =
     if_moderator w good (\<lambda>c.
       case FindPlayerByName w badname of
         None \<Rightarrow> SendToOne w (MakePlayerNotFound badname c) good c
       | Some bad \<Rightarrow>
           if \<not> IsBanned (pl_guid bad) c then SendToOne w (MakePlayerNotFound badname c) good c
           else
             let c = c\<lparr>ch_banned := set_erase (pl_guid bad) (ch_banned c)\<rparr>;
                 c = SendToAll w mgr (MakePlayerUnbanned (pl_guid bad) good c) 0 c
             in UpdateChannelInDB c)"

definition Password :: "world \<Rightarrow> social_map \<Rightarrow> u64 \<Rightarrow> string \<Rightarrow> channel_io \<Rightarrow> cpp_error + channel_io" where
  "Password w mgr p pass c =
     (if FindPlayer w p = None then Inl NullDeref
      else Inr (if_moderator w p (\<lambda>c.
             let c = c\<lparr>m_password := c_str pass\<rparr>;
                 c = SendToAll w mgr (MakePasswordChanged p c) 0 c
             in UpdateChannelInDB c) c))"

definition SetMode :: "world \<Rightarrow> social_map \<Rightarrow> u64 \<Rightarrow> string \<Rightarrow> bool \<Rightarrow> bool \<Rightarrow> channel_io \<Rightarrow> channel_io" where
  "SetMode w mgr p p2n moder state c =
     (case FindPlayer w p of
        None \<Rightarrow> c
      | Some player \<Rightarrow>
          if_moderator w p (\<lambda>c.
            case FindPlayerByName w p2n of
              None \<Rightarrow> SendToOne w (MakePlayerNotFound p2n c) p c
            | Some newp \<Rightarrow>
                if p = m_ownerGUID c \<and> pl_guid newp = m_ownerGUID c \<and> moder then c
                else if \<not> IsOn (pl_guid newp) c then SendToOne w (MakePlayerNotFound p2n c) p c
                else if (\<not> IsGMAccount (pl_security player) \<or> \<not> IsGMAccount (pl_security newp))
                        \<and> pl_team player \<noteq> pl_team newp \<and> \<not> cfg_two_side_channel w
                then SendToOne w (MakePlayerNotFound p2n c) p c
                else if m_ownerGUID c = pl_guid newp \<and> m_ownerGUID c \<noteq> p
                then SendToOne w (MakeNotOwner c) p c
                else if moder then SetModerator_guid w mgr (pl_guid newp) state c
                else SetMute_guid w mgr (pl_guid newp) state c) c)"

definition SetOwner :: "world \<Rightarrow> social_map \<Rightarrow> u64 \<Rightarrow> string \<Rightarrow> channel_io \<Rightarrow> channel_io" where
  "SetOwner w mgr p newname c =
     (case FindPlayer w p of
        None \<Rightarrow> c
      | Some player \<Rightarrow>
          if \<not> IsOn p c then SendToOne w (MakeNotMember c) p c
          else if \<not> IsGMAccount (pl_security player) \<and> p \<noteq> m_ownerGUID c
          then SendToOne w (MakeNotOwner c) p c
          else
            case FindPlayerByName w newname of
              None \<Rightarrow> SendToOne w (MakePlayerNotFound newname c) p c
            | Some newp \<Rightarrow>
                if \<not> IsOn (pl_guid newp) c then SendToOne w (MakePlayerNotFound newname c) p c
                else if pl_team newp \<noteq> pl_team player \<and> \<not> cfg_two_side_channel w
                then SendToOne w (MakePlayerNotFound newname c) p c
                else SetOwner_guid w mgr (pl_guid newp) True (update_player (pl_guid newp) (pi_SetModerator True) c))"

definition Announce :: "world \<Rightarrow> social_map \<Rightarrow> u64 \<Rightarrow> channel_io \<Rightarrow> channel_io" where
  "Announce w mgr p =
     if_moderator w p (\<lambda>c.
       let c = c\<lparr>m_announce := \<not> m_announce c\<rparr>;
           data = (if m_announce c then MakeAnnouncementsOn p c else MakeAnnouncementsOff p c);
           c = SendToAll w mgr data 0 c
       in UpdateChannelInDB c)"

section \<open>Queries and messages\<close>

definition SendWhoOwner :: "world \<Rightarrow> u64 \<Rightarrow> channel_io \<Rightarrow> channel_io" where
  "SendWhoOwner w p c =
     (if \<not> IsOn p c then SendToOne w (MakeNotMember c) p c
      else SendToOne w (MakeChannelOwner w c) p c)"

definition list_shows :: "world \<Rightarrow> player \<Rightarrow> u64 \<times> player_info \<Rightarrow> bool" where
  "list_shows w player = (\<lambda>(g, i).
     case FindPlayer w g of
       None \<Rightarrow> False
     | Some member \<Rightarrow>
         (\<not> IsPlayerAccount (pl_security player) \<or> pl_security member \<le> cfg_gm_level_in_who_list w)
         \<and> IsVisibleGloballyFor member player)"

fun list_loop :: "world \<Rightarrow> player \<Rightarrow> (u64 \<times> player_info) list \<Rightarrow> world_packet \<times> u32 \<Rightarrow> world_packet \<times> u32" where
  "list_loop w player [] (data, count) = (data, count)"
| "list_loop w player ((g, i) # rest) (data, count) =
     (if list_shows w player (g, i)
      then list_loop w player rest (stream [FU64 g, FU8 (pi_flags i)] data, count + 1)
      else list_loop w player rest (data, count))"

text \<open>\<^verbatim>\<open>pos\<close> is the position of the placeholder, the fourth field.\<close>

definition List_packet :: "world \<Rightarrow> player \<Rightarrow> 'a channel_scheme \<Rightarrow> world_packet" where
  "List_packet w player c =
     (let data = stream [FU8 1, FStr (m_name c), FU8 (m_flags c)] (WorldPacket SMSG_CHANNEL_LIST);
          pos = length (payload data);
          data = stream [FU32 0] data;
          (data, count) = list_loop w player (ch_players c) (data, 0)
      in put_u32_field pos count data)"

definition List :: "world \<Rightarrow> player \<Rightarrow> channel_io \<Rightarrow> channel_io" where
  "List w player c =
     (let p = pl_guid player
      in if \<not> IsOn p c then SendToOne w (MakeNotMember c) p c
         else SendToOne w (List_packet w player c) p c)"

definition Say_packet :: "world \<Rightarrow> u64 \<Rightarrow> string \<Rightarrow> u32 \<Rightarrow> 'a channel_scheme \<Rightarrow> world_packet" where
  "Say_packet w p what lang c =
     (let messageLength = of_nat (length (c_str what)) + 1
      in stream [FU8 CHAT_MSG_CHANNEL, FU32 lang, FU64 p, FU32 0, FStr (m_name c), FU64 p,
           FU32 messageLength, FStr (c_str what),
           FU8 (case FindPlayer w p of Some pl \<Rightarrow> GetChatTag pl | None \<Rightarrow> 0)]
         (WorldPacket SMSG_MESSAGECHAT))"

text \<open>\<^verbatim>\<open>what\<close> is a pointer; a null pointer returns at once.\<close>

definition Say :: "world \<Rightarrow> social_map \<Rightarrow> u64 \<Rightarrow> string option \<Rightarrow> u32 \<Rightarrow> channel_io \<Rightarrow> channel_io" where
  "Say w mgr p what lang c =
     (case what of
        None \<Rightarrow> c
      | Some what \<Rightarrow>
          let lang = (if cfg_two_side_channel w then LANG_UNIVERSAL else lang)
          in if \<not> IsOn p c then SendToOne w (MakeNotMember c) p c
             else if pi_IsMuted (player_at p c) then SendToOne w (MakeMuted c) p c
             else SendToAll w mgr (Say_packet w p what lang c)
                    (if \<not> pi_IsModerator (player_at p c) then p else 0) c)"

definition Invite :: "world \<Rightarrow> social_map \<Rightarrow> u64 \<Rightarrow> string \<Rightarrow> channel_io \<Rightarrow> channel_io" where
  "Invite w mgr p newname c =
     (if \<not> IsOn p c then SendToOne w (MakeNotMember c) p c
      else
        case FindPlayerByName w newname of
          None \<Rightarrow> SendToOne w (MakePlayerNotFound newname c) p c
        | Some newp \<Rightarrow>
            if \<not> pl_gm_visible newp then SendToOne w (MakePlayerNotFound newname c) p c
            else if IsBanned (pl_guid newp) c then SendToOne w (MakePlayerInviteBanned newname c) p c
            else
              case FindPlayer w p of
                None \<Rightarrow> c
              | Some player \<Rightarrow>
                  if pl_team newp \<noteq> pl_team player \<and> \<not> cfg_two_side_channel w
                  then SendToOne w (MakeInviteWrongFaction c) p c
                  else if IsOn (pl_guid newp) c
                  then SendToOne w (MakePlayerAlreadyMember (pl_guid newp) c) p c
                  else
                    let c = (if \<not> HasIgnore (GUID_LOPART p) (GetSocial mgr newp)
                             then SendToOne w (MakeInvite p c) (pl_guid newp) c else c)
                    in SendToOne w (MakePlayerInvited (pl_name newp) c) p c)"

definition Voice :: "u64 \<Rightarrow> u64 \<Rightarrow> channel_io \<Rightarrow> channel_io" where
  "Voice guid1 guid2 c = c"

definition DeVoice :: "u64 \<Rightarrow> u64 \<Rightarrow> channel_io \<Rightarrow> channel_io" where
  "DeVoice guid1 guid2 c = c"

section \<open>The public interface as one step function\<close>

datatype channel_op =
    OpJoin u64 string
  | OpLeave u64 bool
  | OpKickOrBan u64 string bool
  | OpUnBan u64 string
  | OpPassword u64 string
  | OpSetMode u64 string bool bool
  | OpSetOwner u64 string
  | OpSendWhoOwner u64
  | OpList player
  | OpAnnounce u64
  | OpSay u64 "string option" u32
  | OpInvite u64 string
  | OpSetAnnounce bool
  | OpSetPassword string
  | OpSetOwnership bool

fun channel_exec :: "world \<Rightarrow> social_map \<Rightarrow> channel_op \<Rightarrow> channel_io \<Rightarrow> cpp_error + channel_io" where
  "channel_exec w mgr (OpJoin p pass) c = Inr (Join w mgr p pass c)"
| "channel_exec w mgr (OpLeave p send) c = Inr (Leave w mgr p send c)"
| "channel_exec w mgr (OpKickOrBan good badname ban) c = Inr (KickOrBan w mgr good badname ban c)"
| "channel_exec w mgr (OpUnBan good badname) c = Inr (UnBan w mgr good badname c)"
| "channel_exec w mgr (OpPassword p pass) c = Password w mgr p pass c"
| "channel_exec w mgr (OpSetMode p n moder state) c = Inr (SetMode w mgr p n moder state c)"
| "channel_exec w mgr (OpSetOwner p n) c = Inr (SetOwner w mgr p n c)"
| "channel_exec w mgr (OpSendWhoOwner p) c = Inr (SendWhoOwner w p c)"
| "channel_exec w mgr (OpList pl) c = Inr (List w pl c)"
| "channel_exec w mgr (OpAnnounce p) c = Inr (Announce w mgr p c)"
| "channel_exec w mgr (OpSay p what lang) c = Inr (Say w mgr p what lang c)"
| "channel_exec w mgr (OpInvite p n) c = Inr (Invite w mgr p n c)"
| "channel_exec w mgr (OpSetAnnounce b) c = Inr (c\<lparr>m_announce := b\<rparr>)"
| "channel_exec w mgr (OpSetPassword s) c = Inr (c\<lparr>m_password := s\<rparr>)"
| "channel_exec w mgr (OpSetOwnership b) c = Inr (c\<lparr>m_ownership := b\<rparr>)"

text \<open>A call that crashes the process has no state after it; the step leaves the channel as it was.\<close>

definition channel_step :: "world \<times> social_map \<times> channel_op \<Rightarrow> channel_io \<Rightarrow> channel_io" where
  "channel_step = (\<lambda>(w, mgr, p) c. case channel_exec w mgr p c of Inl e \<Rightarrow> c | Inr c' \<Rightarrow> c')"

end
