(* ===== verification/Channel_Inv.thy ===== *)
theory Channel_Inv
  imports Channel_Ops
begin

text \<open>
  Invariants of a channel. Every sending operation is brought into the form \<open>emit es c\<close>, which
  changes no member of the class, so the proofs see only the state changes. \<open>channel_wf\<close> (sorted
  containers, one owner who is a moderator) is kept by every operation; \<open>channel_keyed\<close> (each
  \<^verbatim>\<open>PlayerInfo\<close> names the player it is stored under) by every operation except an owner's kick of
  himself. Both are instances of \<open>step_system\<close>.
\<close>

named_theorems channel_simps \<open>effects as emitted events, and what they leave unchanged\<close>

section \<open>Effects as events\<close>

definition to_one :: "world \<Rightarrow> world_packet \<Rightarrow> u64 \<Rightarrow> channel_event list" where
  "to_one w data who = (case FindPlayer w who of None \<Rightarrow> [] | Some pl \<Rightarrow> [SendPacket who data])"

definition to_members ::
  "world \<Rightarrow> (u64 \<Rightarrow> player \<Rightarrow> bool) \<Rightarrow> world_packet \<Rightarrow> 'a channel_scheme \<Rightarrow> channel_event list" where
  "to_members w P data c =
     map (\<lambda>g. SendPacket g data) (filter (\<lambda>g. \<exists>pl. FindPlayer w g = Some pl \<and> P g pl) (map fst (ch_players c)))"

lemma emit_emit [simp]: "emit es (emit ds c) = emit (ds @ es) c"
  by (simp add: emit_def)

lemma emit_Nil [simp]: "emit [] c = c"
  by (simp add: emit_def)

lemma emit_fields [channel_simps]:
  "ch_players (emit es c) = ch_players c" "ch_banned (emit es c) = ch_banned c"
  "m_announce (emit es c) = m_announce c" "m_ownership (emit es c) = m_ownership c"
  "m_name (emit es c) = m_name c" "m_password (emit es c) = m_password c"
  "m_flags (emit es c) = m_flags c" "m_channelId (emit es c) = m_channelId c"
  "m_ownerGUID (emit es c) = m_ownerGUID c" "m_IsSaved (emit es c) = m_IsSaved c"
  "m_Team (emit es c) = m_Team c" "io (emit es c) = io c @ es"
  by (simp_all add: emit_def)

lemma emit_update [channel_simps]:
  "(emit es c)\<lparr>ch_players := m\<rparr> = emit es (c\<lparr>ch_players := m\<rparr>)"
  "(emit es c)\<lparr>ch_banned := b\<rparr> = emit es (c\<lparr>ch_banned := b\<rparr>)"
  "(emit es c)\<lparr>m_announce := a\<rparr> = emit es (c\<lparr>m_announce := a\<rparr>)"
  "(emit es c)\<lparr>m_password := pw\<rparr> = emit es (c\<lparr>m_password := pw\<rparr>)"
  "update_player p f (emit es c) = emit es (update_player p f c)"
  by (simp_all add: emit_def update_player_def)

lemma truncate_emit [channel_simps]: "channel.truncate (emit es c) = channel.truncate c"
  by (simp add: emit_def channel.truncate_def)

lemma tests_emit [channel_simps]:
  "IsOn p (emit es c) = IsOn p c" "IsBanned p (emit es c) = IsBanned p c" "IsConstant (emit es c) = IsConstant c"
  "player_at p (emit es c) = player_at p c" "announces w p (emit es c) = announces w p c"
  by (simp_all add: IsOn_def IsBanned_def IsConstant_def player_at_def announces_def channel_simps)

lemma IsConstant_update [channel_simps]:
  "IsConstant (c\<lparr>ch_players := m\<rparr>) = IsConstant c" "IsConstant (update_player p f c) = IsConstant c"
  by (simp_all add: IsConstant_def update_player_def)

lemma SendToOne_emit [channel_simps]: "SendToOne w data who c = emit (to_one w data who) c"
  using FindPlayer_guid by (auto simp: SendToOne_def to_one_def split: option.split)

lemma SendToAll_emit [channel_simps]:
  "SendToAll w mgr data p c =
     emit (to_members w (\<lambda>g pl. p = 0 \<or> \<not> HasIgnore (GUID_LOPART p) (GetSocial mgr pl)) data c) c"
proof -
  have "concat (map (\<lambda>(g, i). (case FindPlayer w g of None \<Rightarrow> []
        | Some pl \<Rightarrow> if P pl then [SendPacket (pl_guid pl) data] else [])) ps) =
      map (\<lambda>g. SendPacket g data) (filter (\<lambda>g. \<exists>pl. FindPlayer w g = Some pl \<and> P pl) (map fst ps))"
    for P and ps :: "(u64 \<times> player_info) list"
    using FindPlayer_guid by (induction ps) (force split: option.split)+
  then show ?thesis by (simp only: SendToAll_def to_members_def)
qed

lemma SendToAllButOne_emit [channel_simps]:
  "SendToAllButOne w data who c = emit (to_members w (\<lambda>g pl. g \<noteq> who) data c) c"
proof -
  have "concat (map (\<lambda>(g, i). (if g \<noteq> who then (case FindPlayer w g of None \<Rightarrow> []
        | Some pl \<Rightarrow> [SendPacket (pl_guid pl) data]) else [])) ps) =
      map (\<lambda>g. SendPacket g data) (filter (\<lambda>g. \<exists>pl. FindPlayer w g = Some pl \<and> g \<noteq> who) (map fst ps))"
    for ps :: "(u64 \<times> player_info) list"
    using FindPlayer_guid by (induction ps) (force split: option.split)+
  then show ?thesis by (simp only: SendToAllButOne_def to_members_def)
qed

definition JoinNotify_events :: "world \<Rightarrow> u64 \<Rightarrow> 'a channel_scheme \<Rightarrow> channel_event list" where
  "JoinNotify_events w guid c =
     to_members w (\<lambda>g pl. g \<noteq> guid \<or> \<not> IsConstant c)
       (stream [FU64 guid, FU8 (GetPlayerFlags guid c), FU8 (m_flags c), FU32 (GetNumPlayers c), FStr (m_name c)]
         (WorldPacket (if IsConstant c then SMSG_USERLIST_ADD else SMSG_USERLIST_UPDATE))) c"

lemma JoinNotify_emit [channel_simps]: "JoinNotify w mgr guid c = emit (JoinNotify_events w guid c) c"
  by (simp add: JoinNotify_def JoinNotify_events_def channel_simps Let_def)

definition LeaveNotify_events :: "world \<Rightarrow> u64 \<Rightarrow> 'a channel_scheme \<Rightarrow> channel_event list" where
  "LeaveNotify_events w guid c =
     to_members w (\<lambda>g pl. g \<noteq> guid \<or> \<not> IsConstant c)
       (stream [FU64 guid, FU8 (m_flags c), FU32 (GetNumPlayers c), FStr (m_name c)]
         (WorldPacket SMSG_USERLIST_REMOVE)) c"

lemma LeaveNotify_emit [channel_simps]: "LeaveNotify w mgr guid c = emit (LeaveNotify_events w guid c) c"
  by (simp add: LeaveNotify_def LeaveNotify_events_def channel_simps Let_def)

definition UpdateChannelInDB_events :: "'a channel_scheme \<Rightarrow> channel_event list" where
  "UpdateChannelInDB_events c =
     (if m_IsSaved c
      then [Execute (CHAR_UPD_CHANNEL (m_announce c) (m_ownership c) (m_password c)
              (ban_list_str (ch_banned c)) (m_name c) (m_Team c))] else [])"

lemma UpdateChannelInDB_emit [channel_simps]: "UpdateChannelInDB c = emit (UpdateChannelInDB_events c) c"
  by (simp add: UpdateChannelInDB_def UpdateChannelInDB_events_def)

lemmas UpdateChannelUseageInDB_emit [channel_simps] = UpdateChannelUseageInDB_def

section \<open>Member flags\<close>

lemma member_flags_disjoint:
  "MEMBER_FLAG_OWNER AND MEMBER_FLAG_MODERATOR = 0" "MEMBER_FLAG_MODERATOR AND MEMBER_FLAG_OWNER = 0"
  "MEMBER_FLAG_OWNER AND MEMBER_FLAG_MUTED = 0" "MEMBER_FLAG_MUTED AND MEMBER_FLAG_OWNER = 0"
  "MEMBER_FLAG_MODERATOR AND MEMBER_FLAG_MUTED = 0" "MEMBER_FLAG_MUTED AND MEMBER_FLAG_MODERATOR = 0"
  "MEMBER_FLAG_OWNER \<noteq> 0" "MEMBER_FLAG_MODERATOR \<noteq> 0" "MEMBER_FLAG_MUTED \<noteq> 0"
  by (simp_all add: member_flags)

lemma member_flag_simps [simp]:
  "pi_IsOwner (pi_SetOwner b i) = b" "pi_IsModerator (pi_SetOwner b i) = pi_IsModerator i"
  "pi_IsMuted (pi_SetOwner b i) = pi_IsMuted i"
  "pi_IsOwner (pi_SetModerator b i) = pi_IsOwner i" "pi_IsModerator (pi_SetModerator b i) = b"
  "pi_IsMuted (pi_SetModerator b i) = pi_IsMuted i"
  "pi_IsOwner (pi_SetMuted b i) = pi_IsOwner i" "pi_IsModerator (pi_SetMuted b i) = pi_IsModerator i"
  "pi_IsMuted (pi_SetMuted b i) = b"
  unfolding pi_IsOwner_def pi_IsModerator_def pi_IsMuted_def pi_SetOwner_def pi_SetModerator_def pi_SetMuted_def
    player_info.select_convs player_info.update_convs
  by (cases b; simp add: flag_simps member_flags_disjoint)+

lemma pi_player_simps [simp]:
  "pi_player (pi_SetOwner b i) = pi_player i" "pi_player (pi_SetModerator b i) = pi_player i"
  "pi_player (pi_SetMuted b i) = pi_player i"
  by (simp_all add: pi_SetOwner_def pi_SetModerator_def pi_SetMuted_def)

lemma new_member_flags [simp]:
  "\<not> pi_IsOwner \<lparr>pi_player = p, pi_flags = 0\<rparr>" "\<not> pi_IsModerator \<lparr>pi_player = p, pi_flags = 0\<rparr>"
  "\<not> pi_IsMuted \<lparr>pi_player = p, pi_flags = 0\<rparr>"
  by (simp_all add: pi_IsOwner_def pi_IsModerator_def pi_IsMuted_def)

section \<open>The member table\<close>

lemma update_player_fields [channel_simps]:
  "ch_players (update_player p f c) = map_modify PlayerInfo_new p f (ch_players c)"
  "ch_banned (update_player p f c) = ch_banned c" "m_announce (update_player p f c) = m_announce c"
  "m_ownership (update_player p f c) = m_ownership c" "m_name (update_player p f c) = m_name c"
  "m_password (update_player p f c) = m_password c" "m_flags (update_player p f c) = m_flags c"
  "m_channelId (update_player p f c) = m_channelId c" "m_ownerGUID (update_player p f c) = m_ownerGUID c"
  "m_IsSaved (update_player p f c) = m_IsSaved c" "m_Team (update_player p f c) = m_Team c"
  by (simp_all add: update_player_def)

text \<open>The state after \<^verbatim>\<open>SetOwner(guid, exclaim)\<close>: the old owner's flag goes, the new owner gets both flags.\<close>

definition drop_owner :: "u64 \<Rightarrow> (u64, player_info) stdmap \<Rightarrow> (u64, player_info) stdmap" where
  "drop_owner g m = (if g = 0 then m else case map_find m g of None \<Rightarrow> m | Some i \<Rightarrow> map_set g (pi_SetOwner False i) m)"

lemma map_find_drop_owner [container_simps]:
  "map_find (drop_owner g m) k =
     (if k = g \<and> g \<noteq> 0 then map_option (pi_SetOwner False) (map_find m k) else map_find m k)"
  by (auto simp: drop_owner_def container_simps split: option.split)

lemma map_wf_drop_owner [wf_intros]: "map_wf m \<Longrightarrow> map_wf (drop_owner g m)"
  by (auto simp: drop_owner_def wf_intros split: option.split)

lemma SetOwner_guid_players:
  "ch_players (SetOwner_guid w mgr g e c) =
     (if g = 0 then drop_owner (m_ownerGUID c) (ch_players c)
      else map_modify PlayerInfo_new g (pi_SetOwner True)
             (map_modify PlayerInfo_new g (pi_SetModerator True) (drop_owner (m_ownerGUID c) (ch_players c))))"
  by (simp add: SetOwner_guid_def drop_owner_def channel_simps Let_def split: option.split)

lemma SetOwner_guid_fields [channel_simps]:
  "ch_banned (SetOwner_guid w mgr g e c) = ch_banned c" "m_announce (SetOwner_guid w mgr g e c) = m_announce c"
  "m_ownership (SetOwner_guid w mgr g e c) = m_ownership c" "m_name (SetOwner_guid w mgr g e c) = m_name c"
  "m_password (SetOwner_guid w mgr g e c) = m_password c" "m_flags (SetOwner_guid w mgr g e c) = m_flags c"
  "m_channelId (SetOwner_guid w mgr g e c) = m_channelId c" "m_ownerGUID (SetOwner_guid w mgr g e c) = g"
  "m_IsSaved (SetOwner_guid w mgr g e c) = m_IsSaved c" "m_Team (SetOwner_guid w mgr g e c) = m_Team c"
  by (simp_all add: SetOwner_guid_def channel_simps Let_def split: option.split)

lemma SetOwner_guid_find:
  "map_find (ch_players (SetOwner_guid w mgr g e c)) k =
     (if k = g \<and> g \<noteq> 0
      then Some (pi_SetOwner True (pi_SetModerator True
             (map_at PlayerInfo_new (drop_owner (m_ownerGUID c) (ch_players c)) g)))
      else map_find (drop_owner (m_ownerGUID c) (ch_players c)) k)"
  by (auto simp: SetOwner_guid_players container_simps)

section \<open>One owner, who is a moderator\<close>

definition channel_wf :: "'a channel_scheme \<Rightarrow> bool" where
  "channel_wf c \<longleftrightarrow> map_wf (ch_players c) \<and> set_wf (ch_banned c) \<and>
     (\<forall>g i. map_find (ch_players c) g = Some i \<and> pi_IsOwner i \<longrightarrow> g = m_ownerGUID c \<and> g \<noteq> 0 \<and> pi_IsModerator i)"

lemma channel_wf_cong:
  "ch_players c = ch_players c' \<Longrightarrow> ch_banned c = ch_banned c' \<Longrightarrow> m_ownerGUID c = m_ownerGUID c' \<Longrightarrow>
     channel_wf c = channel_wf c'"
  by (simp add: channel_wf_def)

lemma channel_wf_emit [channel_simps]: "channel_wf (emit es c) = channel_wf c"
  by (simp add: channel_wf_def channel_simps)

lemma channel_wf_other_fields [channel_simps]:
  "channel_wf (c\<lparr>m_announce := b\<rparr>) = channel_wf c" "channel_wf (c\<lparr>m_password := pw\<rparr>) = channel_wf c"
  "channel_wf (c\<lparr>m_ownership := b\<rparr>) = channel_wf c"
  by (simp_all add: channel_wf_def)

lemma channel_wf_map: "channel_wf c \<Longrightarrow> map_wf (ch_players c)"
  by (simp add: channel_wf_def)

lemma channel_wf_banned:
  "channel_wf c \<Longrightarrow> channel_wf (c\<lparr>ch_banned := set_ins g (ch_banned c)\<rparr>)"
  "channel_wf c \<Longrightarrow> channel_wf (c\<lparr>ch_banned := set_erase g (ch_banned c)\<rparr>)"
  by (auto simp: channel_wf_def wf_intros)

lemma channel_wf_erase: "channel_wf c \<Longrightarrow> channel_wf (c\<lparr>ch_players := map_erase g (ch_players c)\<rparr>)"
  by (auto simp: channel_wf_def wf_intros container_simps split: if_splits)

lemma channel_wf_join:
  "channel_wf c \<Longrightarrow> channel_wf (c\<lparr>ch_players := map_set g \<lparr>pi_player = g, pi_flags = MEMBER_FLAG_NONE\<rparr> (ch_players c)\<rparr>)"
  by (auto simp: channel_wf_def wf_intros container_simps MEMBER_FLAG_NONE_def split: if_splits)

lemma channel_wf_update:
  assumes "channel_wf c"
    and "\<And>i. pi_IsOwner (f i) \<Longrightarrow> pi_IsOwner i" "\<And>i. map_find (ch_players c) g = Some i \<Longrightarrow> pi_IsOwner i \<Longrightarrow> pi_IsModerator i \<Longrightarrow> pi_IsModerator (f i)"
  shows "channel_wf (update_player g f c)"
  using assms assms(2) [of PlayerInfo_new]
  by (cases "map_find (ch_players c) g") (auto simp: channel_wf_def channel_simps wf_intros container_simps split: if_splits)

lemma channel_wf_member_flags:
  assumes "channel_wf c"
  shows "channel_wf (update_player g (pi_SetModerator True) c)"
    and "channel_wf (update_player g (pi_SetMuted b) c)"
    and "channel_wf (update_player g id c)"
  by (rule channel_wf_update [OF assms]; simp)+

lemma channel_wf_unmoderate:
  assumes "channel_wf c" "g \<noteq> m_ownerGUID c"
  shows "channel_wf (update_player g (pi_SetModerator b) c)"
  using assms(2) by (intro channel_wf_update [OF assms(1)]) (use assms(1) in \<open>auto simp: channel_wf_def\<close>)

lemma channel_wf_SetOwner_guid: "channel_wf c \<Longrightarrow> channel_wf (SetOwner_guid w mgr g e c)"
  unfolding channel_wf_def
  by (auto simp: SetOwner_guid_find channel_simps container_simps SetOwner_guid_players wf_intros split: if_splits)

lemma channel_wf_SetModerator_guid:
  assumes "channel_wf c" "state \<or> g \<noteq> m_ownerGUID c"
  shows "channel_wf (SetModerator_guid w mgr g state c)"
  using assms channel_wf_unmoderate [OF channel_wf_member_flags(3) [OF assms(1), of g], of g state]
  by (cases state) (simp_all add: SetModerator_guid_def Let_def channel_simps channel_wf_member_flags)

lemma channel_wf_SetMute_guid: "channel_wf c \<Longrightarrow> channel_wf (SetMute_guid w mgr g state c)"
  by (simp add: SetMute_guid_def Let_def channel_simps channel_wf_member_flags)

lemmas channel_wf_intros = channel_wf_banned channel_wf_erase channel_wf_join channel_wf_member_flags
  channel_wf_SetOwner_guid channel_wf_SetMute_guid

lemma channel_wf_Join_accept: "channel_wf c \<Longrightarrow> channel_wf (Join_accept w mgr p c)"
  by (simp add: Join_accept_def Let_def channel_simps channel_wf_intros)

lemma channel_wf_Join: "channel_wf c \<Longrightarrow> channel_wf (Join w mgr p pass c)"
  by (simp add: Join_def channel_simps channel_wf_Join_accept split: option.split)

lemma leave_remove_shape: "\<exists>es. leave_remove w mgr p send c = emit es (c\<lparr>ch_players := map_erase p (ch_players c)\<rparr>)"
  by (cases "FindPlayer w p") (auto simp: leave_remove_def Let_def channel_simps)

lemma Leave_shape:
  "\<exists>es. Leave w mgr p send c =
     (if \<not> IsOn p c then emit es c
      else if \<not> IsConstant c \<and> pi_IsOwner (player_at p c) \<and> m_ownership c \<and> map_erase p (ch_players c) \<noteq> []
      then SetOwner_guid w mgr (pi_player (snd (hd (map_erase p (ch_players c))))) True
             (emit es (update_player (pi_player (snd (hd (map_erase p (ch_players c))))) (pi_SetModerator True)
                (c\<lparr>ch_players := map_erase p (ch_players c)\<rparr>)))
      else emit es (c\<lparr>ch_players := map_erase p (ch_players c)\<rparr>))"
proof -
  obtain es where "leave_remove w mgr p send c = emit es (c\<lparr>ch_players := map_erase p (ch_players c)\<rparr>)"
    using leave_remove_shape [of w mgr p send c] by blast
  then show ?thesis
    by (intro exI [of _ "if IsOn p c
        then es @ (if IsConstant c then [] else [Execute (CHAR_UPD_CHANNEL_USAGE (m_name c) (m_Team c))])
        else if send then to_one w (MakeNotMember c) p else []"])
      (simp add: Leave_def Let_def channel_simps)
qed

lemma channel_wf_Leave: "channel_wf c \<Longrightarrow> channel_wf (Leave w mgr p send c)"
  using Leave_shape [of w mgr p send c] by (auto simp: channel_simps channel_wf_intros)

lemma if_moderator_wf:
  assumes "channel_wf c" "channel_wf c \<Longrightarrow> channel_wf (f c)"
  shows "channel_wf (if_moderator w p f c)"
  using assms by (simp add: if_moderator_def channel_simps)

lemma channel_wf_kick_accept: "channel_wf c \<Longrightarrow> channel_wf (kick_accept w mgr good bad ban c)"
  by (simp add: kick_accept_def kick_remove_def Let_def channel_simps channel_wf_intros)

lemma channel_wf_KickOrBan: "channel_wf c \<Longrightarrow> channel_wf (KickOrBan w mgr good badname ban c)"
  unfolding KickOrBan_def
  by (erule if_moderator_wf) (simp add: channel_simps channel_wf_kick_accept split: option.split)

lemma channel_wf_UnBan: "channel_wf c \<Longrightarrow> channel_wf (UnBan w mgr good badname c)"
  unfolding UnBan_def
  by (erule if_moderator_wf) (simp add: channel_simps Let_def channel_wf_intros split: option.split)

lemma channel_wf_Announce: "channel_wf c \<Longrightarrow> channel_wf (Announce w mgr p c)"
  unfolding Announce_def
  by (erule if_moderator_wf) (simp add: channel_simps Let_def)

lemma channel_wf_Password: "channel_wf c \<Longrightarrow> Password w mgr p pass c = Inr c' \<Longrightarrow> channel_wf c'"
  unfolding Password_def
  by (auto simp: channel_simps Let_def split: if_splits intro!: if_moderator_wf)

lemma channel_wf_SetMode: "channel_wf c \<Longrightarrow> channel_wf (SetMode w mgr p n moder state c)"
  unfolding SetMode_def
  by (auto split: option.split intro!: if_moderator_wf)
    (auto simp: channel_simps intro!: channel_wf_SetModerator_guid channel_wf_SetMute_guid)

lemma channel_wf_SetOwner: "channel_wf c \<Longrightarrow> channel_wf (SetOwner w mgr p n c)"
  by (simp add: SetOwner_def channel_simps channel_wf_intros split: option.split)

text \<open>The remaining operations only send.\<close>

lemma queries_only_emit:
  "\<exists>es. SendWhoOwner w p c = emit es c" "\<exists>es. List w pl c = emit es c"
  "\<exists>es. Say w mgr p what lang c = emit es c" "\<exists>es. Invite w mgr p n c = emit es c"
proof -
  have nil: "\<exists>es. c = emit es c" by (rule exI [of _ "[]"]) simp
  show "\<exists>es. SendWhoOwner w p c = emit es c" by (auto simp: SendWhoOwner_def channel_simps)
  show "\<exists>es. List w pl c = emit es c" by (auto simp: List_def Let_def channel_simps)
  show "\<exists>es. Say w mgr p what lang c = emit es c"
    using nil by (cases what) (auto simp: Say_def Let_def channel_simps)
  show "\<exists>es. Invite w mgr p n c = emit es c"
    using nil by (auto simp: Invite_def Let_def channel_simps split: option.split)
qed

lemma channel_wf_queries:
  assumes "channel_wf c"
  shows "channel_wf (SendWhoOwner w p c)" "channel_wf (List w pl c)" "channel_wf (Say w mgr p what lang c)"
    "channel_wf (Invite w mgr p n c)"
  using assms queries_only_emit by (metis channel_wf_emit)+

lemma channel_wf_step:
  assumes "channel_wf c"
  shows "channel_wf (channel_step wop c)"
proof -
  obtain w mgr p where "wop = (w, mgr, p)" by (cases wop)
  with assms show ?thesis
    by (cases p)
      (auto simp: channel_step_def channel_wf_Join channel_wf_Leave channel_wf_KickOrBan channel_wf_UnBan
        channel_wf_SetMode channel_wf_SetOwner channel_wf_Announce channel_wf_queries channel_wf_other_fields
        intro: channel_wf_Password split: sum.split)
qed

interpretation chan: step_system channel_step "\<lambda>_ _. True" channel_wf
  by unfold_locales (rule channel_wf_step)

section \<open>Entries stored under their own player\<close>

definition channel_keyed :: "'a channel_scheme \<Rightarrow> bool" where
  "channel_keyed c \<longleftrightarrow> (\<forall>g i. map_find (ch_players c) g = Some i \<longrightarrow> pi_player i = g)"

lemma channel_keyed_emit [channel_simps]: "channel_keyed (emit es c) = channel_keyed c"
  by (simp add: channel_keyed_def channel_simps)

lemma channel_keyed_other_fields [channel_simps]:
  "channel_keyed (c\<lparr>m_announce := b\<rparr>) = channel_keyed c" "channel_keyed (c\<lparr>m_password := pw\<rparr>) = channel_keyed c"
  "channel_keyed (c\<lparr>m_ownership := b\<rparr>) = channel_keyed c" "channel_keyed (c\<lparr>ch_banned := l\<rparr>) = channel_keyed c"
  by (simp_all add: channel_keyed_def)

lemma channel_keyed_erase: "channel_keyed c \<Longrightarrow> channel_keyed (c\<lparr>ch_players := map_erase g (ch_players c)\<rparr>)"
  by (simp add: channel_keyed_def container_simps)

lemma channel_keyed_join:
  "channel_keyed c \<Longrightarrow> channel_keyed (c\<lparr>ch_players := map_set g \<lparr>pi_player = g, pi_flags = f\<rparr> (ch_players c)\<rparr>)"
  by (simp add: channel_keyed_def container_simps)

lemma channel_keyed_update:
  assumes "channel_keyed c" "IsOn g c" "\<And>i. pi_player (f i) = pi_player i"
  shows "channel_keyed (update_player g f c)"
  using assms by (auto simp: channel_keyed_def IsOn_def channel_simps container_simps)

lemma channel_keyed_member_flags:
  assumes "channel_keyed c" "IsOn g c"
  shows "channel_keyed (update_player g (pi_SetModerator b) c)"
    and "channel_keyed (update_player g (pi_SetMuted b) c)"
    and "channel_keyed (update_player g id c)"
  by (rule channel_keyed_update [OF assms]; simp)+

lemma IsOn_update_player [channel_simps]: "IsOn g (update_player h f c) \<longleftrightarrow> g = h \<or> IsOn g c"
  by (simp add: IsOn_def channel_simps container_simps)

lemma IsOn_set [channel_simps]:
  "IsOn g (c\<lparr>ch_players := map_set h i (ch_players c)\<rparr>) \<longleftrightarrow> g = h \<or> IsOn g c"
  "IsOn g (c\<lparr>ch_players := map_erase h (ch_players c)\<rparr>) \<longleftrightarrow> g \<noteq> h \<and> IsOn g c"
  "IsOn g (c\<lparr>ch_banned := b\<rparr>) \<longleftrightarrow> IsOn g c" "IsOn g (c\<lparr>m_announce := a\<rparr>) \<longleftrightarrow> IsOn g c"
  "IsOn g (c\<lparr>m_password := pw\<rparr>) \<longleftrightarrow> IsOn g c"
  by (simp_all add: IsOn_def container_simps)

lemma IsOn_SetOwner_guid [channel_simps]: "IsOn k (SetOwner_guid w mgr g e c) \<longleftrightarrow> k = g \<and> g \<noteq> 0 \<or> IsOn k c"
  by (auto simp: IsOn_def SetOwner_guid_find container_simps)

lemma channel_keyed_SetOwner_guid:
  assumes "channel_keyed c" "IsOn g c"
  shows "channel_keyed (SetOwner_guid w mgr g e c)"
  using assms unfolding channel_keyed_def
  by (auto simp: IsOn_def SetOwner_guid_find container_simps map_at_def split: if_splits option.splits)

lemmas channel_keyed_intros = channel_keyed_erase channel_keyed_join channel_keyed_member_flags
  channel_keyed_SetOwner_guid

lemma channel_keyed_SetModerator_guid:
  "channel_keyed c \<Longrightarrow> IsOn g c \<Longrightarrow> channel_keyed (SetModerator_guid w mgr g state c)"
  by (simp add: SetModerator_guid_def Let_def channel_simps channel_keyed_intros)

lemma channel_keyed_SetMute_guid:
  "channel_keyed c \<Longrightarrow> IsOn g c \<Longrightarrow> channel_keyed (SetMute_guid w mgr g state c)"
  by (simp add: SetMute_guid_def Let_def channel_simps channel_keyed_intros)

lemma channel_keyed_Join: "channel_keyed c \<Longrightarrow> channel_keyed (Join w mgr p pass c)"
  by (simp add: Join_def Join_accept_def Let_def channel_simps channel_keyed_intros split: option.split)

text \<open>The first entry of a keyed table is stored under its own player: the successor on leave is a member.\<close>

lemma channel_keyed_hd:
  assumes "channel_keyed c" "ch_players c \<noteq> []"
  shows "pi_player (snd (hd (ch_players c))) = fst (hd (ch_players c))" "IsOn (fst (hd (ch_players c))) c"
  using assms map_find_hd [OF assms(2)] by (auto simp: channel_keyed_def IsOn_def)

lemma channel_keyed_Leave:
  assumes "channel_keyed c"
  shows "channel_keyed (Leave w mgr p send c)"
proof -
  let ?c = "c\<lparr>ch_players := map_erase p (ch_players c)\<rparr>"
  have keyed: "channel_keyed ?c" using assms by (rule channel_keyed_erase)
  have "IsOn (pi_player (snd (hd (map_erase p (ch_players c))))) ?c" if "map_erase p (ch_players c) \<noteq> []"
    using channel_keyed_hd [OF keyed] that by simp
  then show ?thesis
    using assms keyed Leave_shape [of w mgr p send c] by (auto simp: channel_simps channel_keyed_intros)
qed

lemma channel_keyed_kick_accept:
  assumes "channel_keyed c" "IsOn good c" "pl_guid bad \<noteq> good"
  shows "channel_keyed (kick_accept w mgr good bad ban c)"
proof -
  have "channel_keyed (c\<lparr>ch_banned := b, ch_players := map_erase (pl_guid bad) (ch_players c)\<rparr>)" for b
    using assms(1) by (simp add: channel_keyed_def container_simps)
  moreover have "IsOn good (c\<lparr>ch_banned := b, ch_players := map_erase (pl_guid bad) (ch_players c)\<rparr>)" for b
    using assms(2,3) by (simp add: IsOn_def container_simps)
  ultimately show ?thesis
    using assms channel_keyed_erase [OF assms(1), of "pl_guid bad"]
    by (simp add: kick_accept_def kick_remove_def Let_def channel_simps channel_keyed_intros)
qed

text \<open>The exception: a kick or ban whose target is the caller.\<close>

fun no_self_kick :: "world \<times> social_map \<times> channel_op \<Rightarrow> channel_io \<Rightarrow> bool" where
  "no_self_kick (w, mgr, OpKickOrBan good badname ban) c =
     (case FindPlayerByName w badname of None \<Rightarrow> True | Some bad \<Rightarrow> pl_guid bad \<noteq> good)"
| "no_self_kick _ c = True"

lemma if_moderator_keyed:
  assumes "channel_keyed c" "IsOn p c \<Longrightarrow> channel_keyed (f c)"
  shows "channel_keyed (if_moderator w p f c)"
  using assms by (simp add: if_moderator_def channel_simps)

lemma channel_keyed_KickOrBan:
  assumes "channel_keyed c" "no_self_kick (w, mgr, OpKickOrBan good badname ban) c"
  shows "channel_keyed (KickOrBan w mgr good badname ban c)"
  unfolding KickOrBan_def
  by (rule if_moderator_keyed [OF assms(1)])
    (use assms in \<open>auto simp: channel_simps split: option.splits intro!: channel_keyed_kick_accept\<close>)

lemma channel_keyed_moderation:
  assumes "channel_keyed c"
  shows "channel_keyed (UnBan w mgr p n c)" "channel_keyed (Announce w mgr p c)"
    "channel_keyed (SetMode w mgr p n moder state c)" "channel_keyed (SetOwner w mgr p n c)"
    "Password w mgr p pass c = Inr c' \<Longrightarrow> channel_keyed c'"
proof -
  show "channel_keyed (UnBan w mgr p n c)"
    unfolding UnBan_def by (rule if_moderator_keyed [OF assms]) (use assms in \<open>simp add: channel_simps Let_def split: option.split\<close>)
  show "channel_keyed (Announce w mgr p c)"
    unfolding Announce_def by (rule if_moderator_keyed [OF assms]) (use assms in \<open>simp add: channel_simps Let_def\<close>)
  show "channel_keyed (SetMode w mgr p n moder state c)"
    unfolding SetMode_def using assms
    by (auto split: option.split intro!: if_moderator_keyed)
      (auto simp: channel_simps intro!: channel_keyed_SetModerator_guid channel_keyed_SetMute_guid)
  show "channel_keyed (SetOwner w mgr p n c)"
    using assms by (simp add: SetOwner_def channel_simps channel_keyed_intros split: option.split)
  show "Password w mgr p pass c = Inr c' \<Longrightarrow> channel_keyed c'"
    using assms unfolding Password_def
    by (auto simp: channel_simps Let_def split: if_splits intro!: if_moderator_keyed)
qed

lemma channel_keyed_queries:
  assumes "channel_keyed c"
  shows "channel_keyed (SendWhoOwner w p c)" "channel_keyed (List w pl c)" "channel_keyed (Say w mgr p what lang c)"
    "channel_keyed (Invite w mgr p n c)"
  using assms queries_only_emit by (metis channel_keyed_emit)+

lemma channel_keyed_step:
  assumes "channel_keyed c" "no_self_kick wop c"
  shows "channel_keyed (channel_step wop c)"
proof -
  obtain w mgr p where "wop = (w, mgr, p)" by (cases wop)
  with assms show ?thesis
    by (cases p)
      (auto simp: channel_step_def channel_keyed_Join channel_keyed_Leave channel_keyed_KickOrBan
        channel_keyed_moderation channel_keyed_queries channel_keyed_other_fields split: sum.split)
qed

interpretation keyed: step_system channel_step no_self_kick channel_keyed
  by unfold_locales (rule channel_keyed_step)

end
