(* ===== verification/Channel_Props.thy ===== *)
theory Channel_Props
  imports Channel_Inv
begin

text \<open>
  What the chat channels guarantee: who can join, what a kick or ban does, who may moderate, who
  hears a message, what a reload from the database restores, and how ownership moves. The one
  operation that breaks the member table, an owner kicking himself, is shown on its own.
\<close>

section \<open>The table \<^verbatim>\<open>channels\<close>\<close>

text \<open>A row with its \<^verbatim>\<open>lastUsed\<close> time; \<open>now\<close> is \<^verbatim>\<open>UNIX_TIMESTAMP()\<close>.\<close>

type_synonym channel_table = "string \<times> u32 \<Rightarrow> (channel_row \<times> nat) option"

fun exec_channel :: "nat \<Rightarrow> channel_stmt \<Rightarrow> channel_table \<Rightarrow> channel_table" where
  "exec_channel now (CHAR_INS_CHANNEL name team) db =
     (case db (name, team) of
        None \<Rightarrow> db((name, team) \<mapsto> (\<lparr>cr_announce = True, cr_ownership = True, cr_password = [], cr_bannedList = None\<rparr>, now))
      | Some r \<Rightarrow> db)"
| "exec_channel now (CHAR_UPD_CHANNEL announce ownership password bannedList name team) db =
     db((name, team) := map_option (\<lambda>r. (\<lparr>cr_announce = announce, cr_ownership = ownership,
        cr_password = password, cr_bannedList = Some bannedList\<rparr>, now)) (db (name, team)))"
| "exec_channel now (CHAR_UPD_CHANNEL_USAGE name team) db =
     db((name, team) := map_option (\<lambda>(r, t). (r, now)) (db (name, team)))"
| "exec_channel now (CHAR_DEL_OLD_CHANNELS secs) db =
     (\<lambda>k. case db k of None \<Rightarrow> None
        | Some (r, t) \<Rightarrow> if cr_ownership r \<and> t + unat secs < now then None else Some (r, t))"

fun exec_events :: "nat \<Rightarrow> channel_event list \<Rightarrow> channel_table \<Rightarrow> channel_table" where
  "exec_events now [] db = db"
| "exec_events now (Execute s # es) db = exec_events now es (exec_channel now s db)"
| "exec_events now (_ # es) db = exec_events now es db"

lemma parse_ban_list_wf: "set_wf b \<Longrightarrow> set_wf (parse_ban_list s b)"
proof -
  have "set_wf (fold (\<lambda>tok b. let g = word_of_int (atol tok) in if g \<noteq> 0 then set_ins g b else b) toks b)"
    if "set_wf b" for toks and b :: "u64 stdset"
    using that by (induction toks arbitrary: b) (simp_all add: Let_def wf_intros)
  then show "set_wf b \<Longrightarrow> ?thesis" by (simp add: parse_ban_list_def)
qed

lemma parse_ban_list_str:
  assumes "\<forall>g \<in> set b. g \<noteq> 0 \<and> unat g < 2 ^ 63"
  shows "parse_ban_list (ban_list_str b) [] = fold set_ins b []"
proof -
  have dec: "CHR '' '' \<notin> set (decimal n)" "CHR 0x00 \<notin> set (decimal n)" for n
    using decimal_isdigit [of "CHR '' ''" n] decimal_isdigit [of "CHR 0x00" n] by (auto simp: isdigit_def)
  have tok: "Tokenizer (ban_list_str b) (CHR '' '') = map (\<lambda>g. decimal (unat g)) b"
    unfolding ban_list_str_def by (rule Tokenizer_join_each) (auto simp: dec)
  have one: "word_of_int (atol (decimal (unat g))) = g" if "g \<in> set b" for g :: u64
  proof -
    have "unat g < 9223372036854775808" using assms that by auto
    then have "int (unat g) \<le> LONG_MAX" unfolding LONG_MAX_def by linarith
    then show ?thesis by (simp add: atol_decimal)
  qed
  have "fold (\<lambda>tok b. let g = word_of_int (atol tok) in if g \<noteq> 0 then set_ins g b else b)
      (map (\<lambda>g. decimal (unat g)) xs) acc = fold set_ins xs acc" if "set xs \<subseteq> set b" for xs acc
    using that assms one by (induction xs arbitrary: acc) (auto simp: Let_def)
  then show ?thesis by (simp add: parse_ban_list_def tok)
qed

lemma fold_set_ins_id: "set_wf b \<Longrightarrow> fold set_ins b [] = b" for b :: "u64 stdset"
  using stdset.elems_unique [of "fold set_ins b []" b] stdset.wf_fold_ins [of "[]" b]
    stdset.elems_fold_ins [of b "[]"] by (simp add: set_wf_def)

lemma Channel_new_wf: "channel_wf (Channel_new lookup row w name cid Team)"
  and Channel_new_keyed: "channel_keyed (Channel_new lookup row w name cid Team)"
  unfolding channel_wf_def channel_keyed_def Channel_new_def
  by (auto simp: Let_def emit_def container_simps wf_intros set_wf_def [of "[]"] parse_ban_list_wf split: option.split)

text \<open>The guard of \<^verbatim>\<open>Join\<close> for looking-for-group channels.\<close>

definition lfg_locked :: "world \<Rightarrow> u64 \<Rightarrow> 'a channel_scheme \<Rightarrow> bool" where
  "lfg_locked w p c \<longleftrightarrow> has_flag (m_flags c) CHANNEL_FLAG_LFG \<and> cfg_restricted_lfg_channel w \<and>
     (\<exists>pl. FindPlayer w p = Some pl \<and> IsPlayerAccount (pl_security pl) \<and> pl_in_group pl)"

lemma list_loop_eq:
  "list_loop w player ps (data, count) =
     (stream (concat (map (\<lambda>(g, i). [FU64 g, FU8 (pi_flags i)]) (filter (list_shows w player) ps))) data,
      count + of_nat (length (filter (list_shows w player) ps)))"
  by (induction ps arbitrary: data count) (auto simp: stream_def algebra_simps)

lemma player_at_find: "IsOn p c \<Longrightarrow> map_find (ch_players c) p = Some (player_at p c)"
  by (auto simp: IsOn_def player_at_def)

lemma SetOwner_guid_owner:
  assumes "g \<noteq> 0"
  shows "pi_IsOwner (player_at g (SetOwner_guid w mgr g e c))"
    and "pi_IsModerator (player_at g (SetOwner_guid w mgr g e c))"
  using assms by (simp_all add: player_at_def SetOwner_guid_find)

lemma join_members:
  "IsOn q (Join w mgr p pass c) \<longleftrightarrow> IsOn q c \<or>
     q = p \<and> \<not> IsBanned p c \<and> (m_password c = [] \<or> c_str pass = c_str (m_password c)) \<and> \<not> lfg_locked w p c"
  by (auto simp: Join_def Join_accept_def lfg_locked_def strcmp_ne_def Let_def channel_simps split: option.split)

lemma join_keeps_settings:
  "ch_banned (Join w mgr p pass c) = ch_banned c" "m_password (Join w mgr p pass c) = m_password c"
  "m_announce (Join w mgr p pass c) = m_announce c" "m_ownership (Join w mgr p pass c) = m_ownership c"
  by (simp_all add: Join_def Join_accept_def Let_def channel_simps split: option.split)

lemma kick_remove_shape:
  "\<exists>es b. kick_remove w mgr good bad ban c =
       emit es (c\<lparr>ch_banned := b, ch_players := map_erase (pl_guid bad) (ch_players c)\<rparr>)
     \<and> (\<forall>q. q \<in> set b \<longleftrightarrow> IsBanned q c \<or> ban \<and> q = pl_guid bad)"
proof -
  define b where "b = (if ban \<and> \<not> IsBanned (pl_guid bad) c then set_ins (pl_guid bad) (ch_banned c) else ch_banned c)"
  have same: "c\<lparr>ch_players := m\<rparr> = c\<lparr>ch_banned := ch_banned c, ch_players := m\<rparr>" for m
    by (cases c) simp
  have "\<exists>es. kick_remove w mgr good bad ban c =
      emit es (c\<lparr>ch_banned := b, ch_players := map_erase (pl_guid bad) (ch_players c)\<rparr>)"
  proof (cases "ban \<and> \<not> IsBanned (pl_guid bad) c")
    case True
    then show ?thesis by (auto simp: kick_remove_def b_def Let_def channel_simps)
  next
    case False
    then have b: "b = ch_banned c" by (auto simp: b_def)
    show ?thesis unfolding b same [symmetric] using False by (auto simp: kick_remove_def Let_def channel_simps)
  qed
  moreover have "\<forall>q. q \<in> set b \<longleftrightarrow> IsBanned q c \<or> ban \<and> q = pl_guid bad"
    by (auto simp: b_def IsBanned_def container_simps)
  ultimately show ?thesis by blast
qed

lemma kick_accept_shape:
  "\<exists>es b. kick_accept w mgr good bad ban c =
     (if m_ownerGUID c = pl_guid bad \<and> m_ownership c \<and> map_erase (pl_guid bad) (ch_players c) \<noteq> []
      then SetOwner_guid w mgr good True (emit es (update_player good (pi_SetModerator True)
             (c\<lparr>ch_banned := b, ch_players := map_erase (pl_guid bad) (ch_players c)\<rparr>)))
      else emit es (c\<lparr>ch_banned := b, ch_players := map_erase (pl_guid bad) (ch_players c)\<rparr>))
     \<and> (\<forall>q. q \<in> set b \<longleftrightarrow> IsBanned q c \<or> ban \<and> q = pl_guid bad)"
proof -
  obtain es b where "kick_remove w mgr good bad ban c =
      emit es (c\<lparr>ch_banned := b, ch_players := map_erase (pl_guid bad) (ch_players c)\<rparr>)"
    and "\<forall>q. q \<in> set b \<longleftrightarrow> IsBanned q c \<or> ban \<and> q = pl_guid bad"
    using kick_remove_shape [of w mgr good bad ban c] by blast
  then show ?thesis
    by (intro exI [of _ es] exI [of _ b]) (simp add: kick_accept_def Let_def channel_simps)
qed

lemma to_members_iff:
  "SendPacket q data \<in> set (to_members w P d c) \<longleftrightarrow>
     data = d \<and> IsOn q c \<and> (\<exists>pl. FindPlayer w q = Some pl \<and> P q pl)"
  using stdmap.keys_iff [of q "ch_players c"] by (auto simp: to_members_def IsOn_def)

lemma distinct_to_members: "channel_wf c \<Longrightarrow> distinct (to_members w P d c)"
  using stdmap.distinct_keys [of "ch_players c"]
  by (simp add: to_members_def channel_wf_def distinct_map inj_on_def) 

lemma say_sends:
  assumes "IsOn p c" "\<not> pi_IsMuted (player_at p c)"
  shows "\<exists>d. Say w mgr p (Some what) lang c =
      SendToAll w mgr d (if \<not> pi_IsModerator (player_at p c) then p else 0) c \<and> m_opcode d = SMSG_MESSAGECHAT"
proof -
  have "m_opcode (Say_packet w p what l c) = SMSG_MESSAGECHAT" for l
    by (simp add: Say_packet_def Let_def stream_def WorldPacket_def)
  then show ?thesis unfolding Say_def using assms by (auto simp: Let_def)
qed

lemma channel_keyed_at: "channel_keyed c \<Longrightarrow> IsOn p c \<Longrightarrow> pi_player (player_at p c) = p"
  by (simp add: channel_keyed_def player_at_find)

section \<open>A small server for the concrete instances\<close>

definition ex_player :: "u64 \<Rightarrow> string \<Rightarrow> player" where
  "ex_player g n = \<lparr>pl_guid = g, pl_name = n, pl_security = 0, pl_team = 469, pl_in_world = True, pl_in_group = False,
     pl_visible = True, pl_gm_visible = True, pl_gm_chat = False, pl_afk = False, pl_dnd = False,
     pl_developer = False, pl_zone = 0, pl_level = 1, pl_class = 1\<rparr>"

definition ex_world :: world where
  "ex_world = \<lparr>w_players = [ex_player 1 ''Ann'', ex_player 2 ''Bob''], w_char_names = (\<lambda>_. None),
     cfg_restricted_lfg_channel = False, cfg_silently_gm_join_to_channel = False, cfg_two_side_channel = False,
     cfg_two_side_who_list = False, cfg_preserve_custom_channels = True,
     cfg_preserve_custom_channel_duration = 0, cfg_gm_level_in_who_list = 3\<rparr>"

definition ex_channel :: channel_io where
  "ex_channel = \<lparr>ch_players = [(1, \<lparr>pi_player = 1, pi_flags = 3\<rparr>), (2, \<lparr>pi_player = 2, pi_flags = 0\<rparr>)],
     ch_banned = [7, 9], m_announce = True, m_ownership = True, m_name = ''Pub'', m_password = ''x'', m_flags = 1,
     m_channelId = 0, m_ownerGUID = 1, m_IsSaved = True, m_Team = 469, io = []\<rparr>"

lemma ex_players: "FindPlayerByName ex_world ''Ann'' = Some (ex_player 1 ''Ann'')"
  "FindPlayerByName ex_world ''Bob'' = Some (ex_player 2 ''Bob'')"
  "FindPlayer ex_world 1 = Some (ex_player 1 ''Ann'')" "FindPlayer ex_world 2 = Some (ex_player 2 ''Bob'')"
  by (simp_all add: FindPlayerByName_def FindPlayer_def ex_world_def ex_player_def tolower_def)

lemma ex_members: "IsOn 1 ex_channel" "IsOn 2 ex_channel" "\<not> IsOn 0 ex_channel" "m_ownerGUID ex_channel = 1"
  "pi_IsModerator (player_at 1 ex_channel)" "pi_IsOwner (player_at 1 ex_channel)"
  "\<not> pi_IsModerator (player_at 2 ex_channel)" "\<not> pi_IsMuted (player_at 2 ex_channel)"
  by (simp_all add: ex_channel_def IsOn_def map_find_def player_at_def map_at_def pi_IsModerator_def pi_IsOwner_def
      pi_IsMuted_def member_flags)

lemma ex_channel_wf: "channel_wf ex_channel" "channel_keyed ex_channel"
  by (auto simp: ex_channel_def channel_wf_def channel_keyed_def map_wf_def set_wf_def map_find_def pi_IsOwner_def
      pi_IsModerator_def member_flags split: if_splits)

section \<open>Properties\<close>

text \<open>C1: from the creation of a channel on, whatever sequence of commands its members, game masters
  and other players issue in changing states of the server: a member shown as owner is the channel's
  owner, has a real GUID and is a moderator, so there is at most one owner.\<close>

theorem channel_one_owner:
  "let c = fold channel_step ops (Channel_new lookup row w name channel_id Team) in
     \<forall>g i. map_find (ch_players c) g = Some i \<and> pi_IsOwner i \<longrightarrow>
       g = m_ownerGUID c \<and> g \<noteq> 0 \<and> pi_IsModerator i"
  using chan.run_inv [OF Channel_new_wf chan.run_ok_always] by (auto simp: channel_wf_def Let_def)

lemma channel_one_owner_witness:
  "let c = fold channel_step [(ex_world, [], OpJoin 1 []), (ex_world, [], OpJoin 2 []), (ex_world, [], OpLeave 1 True)]
             (Channel_new (\<lambda>_. None) None ex_world ''Pub'' 0 469) in
     \<forall>g i. map_find (ch_players c) g = Some i \<and> pi_IsOwner i \<longrightarrow>
       g = m_ownerGUID c \<and> g \<noteq> 0 \<and> pi_IsModerator i"
  by (rule channel_one_owner)

text \<open>C20: who gets onto a channel. After \<^verbatim>\<open>Join\<close> exactly one player may be new: the caller, and he is on
  it exactly when he was before or is not banned, gave the right password and is not kept out of a
  looking-for-group channel. Bans, password and settings are untouched.\<close>

theorem join_outcome:
  "(IsOn q (Join w mgr p pass c) \<longleftrightarrow> IsOn q c \<or>
     q = p \<and> \<not> IsBanned p c \<and> (m_password c = [] \<or> c_str pass = c_str (m_password c)) \<and> \<not> lfg_locked w p c)
   \<and> ch_banned (Join w mgr p pass c) = ch_banned c \<and> m_password (Join w mgr p pass c) = m_password c
   \<and> m_announce (Join w mgr p pass c) = m_announce c \<and> m_ownership (Join w mgr p pass c) = m_ownership c"
  by (simp add: join_members join_keeps_settings)

text \<open>C8: kick and ban. When a moderator or game master (an owner can only be removed by a game master
  or by himself) names another member, that member and nobody else is off the channel; he is on the
  ban list afterwards exactly when he was or when it was a ban; if he owned the channel, the caller
  owns it now; and a banned player stays outside when he tries to join again, whatever password he gives.\<close>

theorem kick_ban_outcome:
  assumes "IsOn good c" "pi_IsModerator (player_at good c) \<or> IsGMAccount (security_of w good)"
    and "FindPlayerByName w badname = Some bad" "IsOn (pl_guid bad) c" "pl_guid bad \<noteq> good"
    and "IsGMAccount (security_of w good) \<or> pl_guid bad \<noteq> m_ownerGUID c"
  shows "let c' = KickOrBan w mgr good badname ban c in
     (IsOn q c' \<longleftrightarrow> q \<noteq> pl_guid bad \<and> IsOn q c)
     \<and> (IsBanned q c' \<longleftrightarrow> IsBanned q c \<or> ban \<and> q = pl_guid bad)
     \<and> m_ownerGUID c' = (if m_ownerGUID c = pl_guid bad \<and> m_ownership c then good else m_ownerGUID c)
     \<and> (ban \<longrightarrow> \<not> IsOn (pl_guid bad) (Join w' mgr' (pl_guid bad) pass c'))"
proof -
  let ?m = "map_erase (pl_guid bad) (ch_players c)"
  have "map_find ?m good \<noteq> None" using assms(1,5) by (simp add: IsOn_def container_simps)
  then have ne: "?m \<noteq> []" by (auto simp: map_find_def)
  have eq: "KickOrBan w mgr good badname ban c = kick_accept w mgr good bad ban c"
    using assms by (auto simp: KickOrBan_def if_moderator_def)
  obtain es b where c': "kick_accept w mgr good bad ban c =
     (if m_ownerGUID c = pl_guid bad \<and> m_ownership c
      then SetOwner_guid w mgr good True (emit es (update_player good (pi_SetModerator True)
             (c\<lparr>ch_banned := b, ch_players := map_erase (pl_guid bad) (ch_players c)\<rparr>)))
      else emit es (c\<lparr>ch_banned := b, ch_players := map_erase (pl_guid bad) (ch_players c)\<rparr>))"
    and b: "\<And>q. q \<in> set b \<longleftrightarrow> IsBanned q c \<or> ban \<and> q = pl_guid bad"
    using kick_accept_shape [of w mgr good bad ban c] ne by auto
  have on: "IsOn q (kick_accept w mgr good bad ban c) \<longleftrightarrow> q \<noteq> pl_guid bad \<and> IsOn q c" for q
    using assms(1,5) unfolding c' by (auto simp: channel_simps) (auto simp: IsOn_def container_simps split: if_splits)
  have banned: "IsBanned q (kick_accept w mgr good bad ban c) \<longleftrightarrow> IsBanned q c \<or> ban \<and> q = pl_guid bad" for q
    using b unfolding c' by (simp add: IsBanned_def channel_simps)
  have owner: "m_ownerGUID (kick_accept w mgr good bad ban c) =
      (if m_ownerGUID c = pl_guid bad \<and> m_ownership c then good else m_ownerGUID c)"
    unfolding c' by (simp add: channel_simps)
  have "ban \<longrightarrow> \<not> IsOn (pl_guid bad) (Join w' mgr' (pl_guid bad) pass (kick_accept w mgr good bad ban c))"
    unfolding join_members using on banned by blast
  then show ?thesis
    unfolding eq Let_def using on banned owner by blast
qed

lemma kick_ban_outcome_witness:
  "\<not> IsOn 2 (KickOrBan ex_world [] 1 ''Bob'' True ex_channel)
   \<and> IsBanned 2 (KickOrBan ex_world [] 1 ''Bob'' True ex_channel)
   \<and> \<not> IsOn 2 (Join ex_world [] 2 ''x'' (KickOrBan ex_world [] 1 ''Bob'' True ex_channel))"
proof -
  have g: "pl_guid (ex_player 2 ''Bob'') = 2" by (simp add: ex_player_def)
  show ?thesis
    using kick_ban_outcome [where good = 1 and c = ex_channel and w = ex_world and badname = "''Bob''" and bad = "ex_player 2 ''Bob''"
          and q = 2 and mgr = "[]" and ban = True and w' = ex_world and mgr' = "[]" and pass = "''x''"]
      ex_members ex_players g by (simp add: Let_def)
qed

text \<open>C22: moderation needs rights. A caller who is not on the channel, or is neither a moderator of it
  nor a game master, changes nothing of the channel with kick, ban, unban, moderator, mute, announce
  or password commands: all that happens is one notice to him.\<close>

theorem moderation_needs_rights:
  assumes "\<not> IsOn p c \<or> \<not> pi_IsModerator (player_at p c) \<and> \<not> IsGMAccount (security_of w p)"
    and "op = OpKickOrBan p n b \<or> op = OpUnBan p n \<or> op = OpSetMode p n b st \<or> op = OpAnnounce p \<or> op = OpPassword p n"
  shows "channel_step (w, mgr, op) c = c \<or>
     channel_step (w, mgr, op) c =
       SendToOne w (if IsOn p c then MakeNotModerator c else MakeNotMember c) p c"
  using assms
  by (auto simp: channel_step_def KickOrBan_def UnBan_def Announce_def SetMode_def Password_def if_moderator_def
      split: option.split)

lemma moderation_needs_rights_witness:
  "channel_step (ex_world, [], OpKickOrBan 2 ''Ann'' True) ex_channel = ex_channel \<or>
   channel_step (ex_world, [], OpKickOrBan 2 ''Ann'' True) ex_channel =
     SendToOne ex_world (MakeNotModerator ex_channel) 2 ex_channel"
proof -
  have "\<not> IsGMAccount (security_of ex_world 2)"
    by (simp add: security_of_def ex_players ex_player_def IsGMAccount_def security_levels)
  then show ?thesis
    using moderation_needs_rights [where p = 2 and c = ex_channel and w = ex_world and op = "OpKickOrBan 2 ''Ann'' True"
          and n = "''Ann''" and b = True and mgr = "[]"]
      ex_members by simp
qed



text \<open>the list a member requests names, in order of GUID, every member visible to him with his
  flags, and the count written into the placeholder is the number of those entries.\<close>

theorem channel_list_packet:
  "payload (List_packet w player c) =
     [FU8 1, FStr (m_name c), FU8 (m_flags c), FU32 (of_nat (length (filter (list_shows w player) (ch_players c))))]
     @ concat (map (\<lambda>(g, i). [FU64 g, FU8 (pi_flags i)]) (filter (list_shows w player) (ch_players c)))"
  by (simp add: List_packet_def Let_def list_loop_eq stream_def WorldPacket_def put_u32_field_def)



text \<open>Who hears a message, as a fact other components build on.\<close>

lemma say_heard:
  assumes "IsOn p c" "p \<noteq> 0" "channel_wf c"
  shows "let es = drop (length (io c)) (io (Say w mgr p (Some what) lang c));
             heard = (\<lambda>q. \<exists>data. SendPacket q data \<in> set es \<and> m_opcode data = SMSG_MESSAGECHAT)
         in distinct es \<and>
            (heard q \<longleftrightarrow> \<not> pi_IsMuted (player_at p c) \<and> IsOn q c \<and>
               (\<exists>pl. FindPlayer w q = Some pl \<and>
                  (pi_IsModerator (player_at p c) \<or> \<not> HasIgnore (GUID_LOPART p) (GetSocial mgr pl))))"
proof (cases "pi_IsMuted (player_at p c)")
  case True
  then show ?thesis
    using assms(1) by (auto simp: Say_def Let_def channel_simps to_one_def stream_def WorldPacket_def MakeMuted_def
        MakeNotifyPacket_def SMSG_MESSAGECHAT_def SMSG_CHANNEL_NOTIFY_def split: option.split)
next
  case False
  then obtain d where d: "m_opcode d = SMSG_MESSAGECHAT" and say: "Say w mgr p (Some what) lang c =
      SendToAll w mgr d (if \<not> pi_IsModerator (player_at p c) then p else 0) c"
    using say_sends [OF assms(1) False] by blast
  show ?thesis
    using False assms(2,3) by (auto simp: say channel_simps to_members_iff distinct_to_members d Let_def)
qed



text \<open>C30: an owner who kicks or bans himself while others are present is not removed: \<^verbatim>\<open>players[newowner]\<close>
  re-creates his entry, and its \<^verbatim>\<open>player\<close> member is zero.\<close>

theorem self_kick_keeps_owner:
  assumes "IsOn p c" "m_ownerGUID c = p" "p \<noteq> 0" "pi_IsModerator (player_at p c)" "m_ownership c"
    and "FindPlayerByName w n = Some bad" "pl_guid bad = p" "IsOn q c" "q \<noteq> p"
  shows "let c' = KickOrBan w mgr p n ban c in
     IsOn p c' \<and> m_ownerGUID c' = p \<and> pi_player (player_at p c') = 0 \<and> \<not> channel_keyed c'"
proof -
  let ?m = "map_erase p (ch_players c)"
  have "map_find ?m q \<noteq> None" using assms(8,9) by (simp add: IsOn_def container_simps)
  then have ne: "?m \<noteq> []" by (auto simp: map_find_def)
  have "KickOrBan w mgr p n ban c = kick_accept w mgr p bad ban c"
    using assms by (auto simp: KickOrBan_def if_moderator_def)
  moreover obtain es b where "kick_accept w mgr p bad ban c =
      SetOwner_guid w mgr p True (emit es (update_player p (pi_SetModerator True) (c\<lparr>ch_banned := b, ch_players := ?m\<rparr>)))"
    using assms(2,5,7) ne kick_accept_shape [of w mgr p bad ban c] by auto
  ultimately have c': "KickOrBan w mgr p n ban c = SetOwner_guid w mgr p True
      (emit es (update_player p (pi_SetModerator True) (c\<lparr>ch_banned := b, ch_players := ?m\<rparr>)))" by simp
  have on: "IsOn p (KickOrBan w mgr p n ban c)" using assms(3) by (simp add: c' channel_simps)
  have zero: "pi_player (player_at p (KickOrBan w mgr p n ban c)) = 0"
    using assms(2,3) by (simp add: c' player_at_def SetOwner_guid_find channel_simps container_simps map_at_def)
  show ?thesis
    using on zero assms(3) channel_keyed_at [OF _ on] by (auto simp: Let_def c' channel_simps)
qed

lemma self_kick_keeps_owner_witness:
  "IsOn 1 (KickOrBan ex_world [] 1 ''Ann'' True ex_channel)
   \<and> pi_player (player_at 1 (KickOrBan ex_world [] 1 ''Ann'' True ex_channel)) = 0"
proof -
  have "m_ownership ex_channel" "pl_guid (ex_player 1 ''Ann'') = 1" by (simp_all add: ex_channel_def ex_player_def)
  then show ?thesis
    using self_kick_keeps_owner [where p = 1 and c = ex_channel and w = ex_world and n = "''Ann''" and bad = "ex_player 1 ''Ann''"
          and q = 2 and mgr = "[]" and ban = True]
      ex_members ex_players by (simp add: Let_def)
qed

end
