(* ===== verification/Util_Chars.thy ===== *)
theory Util_Chars
  imports Prelude
begin

text \<open>
  Character classes, case mapping and the 96-bit flag set of
  \<^verbatim>\<open>src/src/server/shared/Utilities/Util.h\<close>. A \<^verbatim>\<open>wchar_t\<close> is its code (a natural number), a
  \<^verbatim>\<open>std::wstring\<close> a list of codes. The lemmas show that the two case maps are idempotent and agree
  with each other, so lowered names identify exactly the names equal up to case, that a player
  name can belong to one script only, and that \<^verbatim>\<open>flag96\<close> implements bit operations and order of a
  single 96-bit number; its \<^verbatim>\<open>operator<\<close> makes it an instance of \<open>linorder\<close>.
\<close>

type_synonym wchar = nat
type_synonym wstring = "wchar list"

section \<open>Character classes\<close>

definition isBasicLatinCharacter :: "wchar \<Rightarrow> bool" where
  "isBasicLatinCharacter c \<longleftrightarrow>
     (if c \<ge> 97 \<and> c \<le> 122 then True else if c \<ge> 65 \<and> c \<le> 90 then True else False)"

definition isExtendedLatinCharacter :: "wchar \<Rightarrow> bool" where
  "isExtendedLatinCharacter c \<longleftrightarrow>
     (if isBasicLatinCharacter c then True
      else if c \<ge> 0x00C0 \<and> c \<le> 0x00D6 then True
      else if c \<ge> 0x00D8 \<and> c \<le> 0x00DF then True
      else if c = 0x00DF then True
      else if c \<ge> 0x00E0 \<and> c \<le> 0x00F6 then True
      else if c \<ge> 0x00F8 \<and> c \<le> 0x00FE then True
      else if c \<ge> 0x0100 \<and> c \<le> 0x012F then True
      else if c = 0x1E9E then True
      else False)"

definition isCyrillicCharacter :: "wchar \<Rightarrow> bool" where
  "isCyrillicCharacter c \<longleftrightarrow>
     (if c \<ge> 0x0410 \<and> c \<le> 0x044F then True else if c = 0x0401 \<or> c = 0x0451 then True else False)"

definition isEastAsianCharacter :: "wchar \<Rightarrow> bool" where
  "isEastAsianCharacter c \<longleftrightarrow>
     (if c \<ge> 0x1100 \<and> c \<le> 0x11F9 then True
      else if c \<ge> 0x3041 \<and> c \<le> 0x30FF then True
      else if c \<ge> 0x3131 \<and> c \<le> 0x318E then True
      else if c \<ge> 0x31F0 \<and> c \<le> 0x31FF then True
      else if c \<ge> 0x3400 \<and> c \<le> 0x4DB5 then True
      else if c \<ge> 0x4E00 \<and> c \<le> 0x9FC3 then True
      else if c \<ge> 0xAC00 \<and> c \<le> 0xD7A3 then True
      else if c \<ge> 0xFF01 \<and> c \<le> 0xFFEE then True
      else False)"

definition isNumeric :: "wchar \<Rightarrow> bool" where
  "isNumeric c \<longleftrightarrow> c \<ge> 48 \<and> c \<le> 57"

text \<open>\<^verbatim>\<open>isNumeric(char const*)\<close>: up to the terminating NUL.\<close>

fun isNumeric_str :: "string \<Rightarrow> bool" where
  "isNumeric_str [] = True"
| "isNumeric_str (c # cs) =
     (if c = CHR 0x00 then True else if \<not> isNumeric (of_char c) then False else isNumeric_str cs)"

definition isNumericOrSpace :: "wchar \<Rightarrow> bool" where
  "isNumericOrSpace c \<longleftrightarrow> isNumeric c \<or> c = 32"

fun isStringOf :: "(wchar \<Rightarrow> bool) \<Rightarrow> wstring \<Rightarrow> bool \<Rightarrow> bool" where
  "isStringOf P [] numericOrSpace = True"
| "isStringOf P (c # cs) numericOrSpace =
     (if \<not> P c \<and> (\<not> numericOrSpace \<or> \<not> isNumericOrSpace c) then False else isStringOf P cs numericOrSpace)"

definition isBasicLatinString :: "wstring \<Rightarrow> bool \<Rightarrow> bool" where
  "isBasicLatinString = isStringOf isBasicLatinCharacter"

definition isExtendedLatinString :: "wstring \<Rightarrow> bool \<Rightarrow> bool" where
  "isExtendedLatinString = isStringOf isExtendedLatinCharacter"

definition isCyrillicString :: "wstring \<Rightarrow> bool \<Rightarrow> bool" where
  "isCyrillicString = isStringOf isCyrillicCharacter"

definition isEastAsianString :: "wstring \<Rightarrow> bool \<Rightarrow> bool" where
  "isEastAsianString = isStringOf isEastAsianCharacter"

section \<open>Case\<close>

abbreviation uint16 :: "wchar \<Rightarrow> nat" where
  "uint16 c \<equiv> c mod 65536"

definition wcharToUpper :: "wchar \<Rightarrow> wchar" where
  "wcharToUpper c =
     (if c \<ge> 97 \<and> c \<le> 122 then uint16 c - 0x0020
      else if c = 0x00DF then 0x1E9E
      else if c \<ge> 0x00E0 \<and> c \<le> 0x00F6 then uint16 c - 0x0020
      else if c \<ge> 0x00F8 \<and> c \<le> 0x00FE then uint16 c - 0x0020
      else if c \<ge> 0x0101 \<and> c \<le> 0x012F \<and> c mod 2 = 1 then uint16 c - 0x0001
      else if c \<ge> 0x0430 \<and> c \<le> 0x044F then uint16 c - 0x0020
      else if c = 0x0451 then 0x0401
      else c)"

definition wcharToUpperOnlyLatin :: "wchar \<Rightarrow> wchar" where
  "wcharToUpperOnlyLatin c = (if isBasicLatinCharacter c then wcharToUpper c else c)"

definition wcharToLower :: "wchar \<Rightarrow> wchar" where
  "wcharToLower c =
     (if c \<ge> 65 \<and> c \<le> 90 then uint16 c + 0x0020
      else if c \<ge> 0x00C0 \<and> c \<le> 0x00D6 then uint16 c + 0x0020
      else if c \<ge> 0x00D8 \<and> c \<le> 0x00DE then uint16 c + 0x0020
      else if c \<ge> 0x0100 \<and> c \<le> 0x012E \<and> c mod 2 = 0 then uint16 c + 0x0001
      else if c = 0x1E9E then 0x00DF
      else if c = 0x0401 then 0x0451
      else if c \<ge> 0x0410 \<and> c \<le> 0x042F then uint16 c + 0x0020
      else c)"

definition wstrToUpper :: "wstring \<Rightarrow> wstring" where
  "wstrToUpper s = map wcharToUpper s"

definition wstrToLower :: "wstring \<Rightarrow> wstring" where
  "wstrToLower s = map wcharToLower s"

section \<open>\<^verbatim>\<open>flag96\<close>\<close>

datatype flag96 = Flag96 (part0: u32) (part1: u32) (part2: u32)

definition flag96_64 :: "u64 \<Rightarrow> u32 \<Rightarrow> flag96" where
  "flag96_64 p1 p2 = Flag96 (ucast (p1 AND 0x00000000FFFFFFFF)) (ucast (drop_bit 32 p1 AND 0x00000000FFFFFFFF)) p2"

fun flag96_IsEqual :: "u32 \<Rightarrow> u32 \<Rightarrow> u32 \<Rightarrow> flag96 \<Rightarrow> bool" where
  "flag96_IsEqual p1 p2 p3 (Flag96 a b c) \<longleftrightarrow> a = p1 \<and> b = p2 \<and> c = p3"

fun flag96_HasFlag :: "u32 \<Rightarrow> u32 \<Rightarrow> u32 \<Rightarrow> flag96 \<Rightarrow> bool" where
  "flag96_HasFlag p1 p2 p3 (Flag96 a b c) \<longleftrightarrow> has_flag a p1 \<or> has_flag b p2 \<or> has_flag c p3"

fun flag96_Set :: "u32 \<Rightarrow> u32 \<Rightarrow> u32 \<Rightarrow> flag96 \<Rightarrow> flag96" where
  "flag96_Set p1 p2 p3 f = Flag96 p1 p2 p3"

definition flag96_part :: "flag96 \<Rightarrow> nat \<Rightarrow> u32" where
  "flag96_part f i = (if i = 0 then part0 f else if i = 1 then part1 f else part2 f)"

text \<open>The loop of \<^verbatim>\<open>operator<\<close>, from the highest part down.\<close>

fun flag96_less_loop :: "nat \<Rightarrow> flag96 \<Rightarrow> flag96 \<Rightarrow> bool" where
  "flag96_less_loop 0 f g = False"
| "flag96_less_loop (Suc i) f g =
     (if flag96_part f i < flag96_part g i then True
      else if flag96_part f i > flag96_part g i then False
      else flag96_less_loop i f g)"

fun flag96_eq :: "flag96 \<Rightarrow> flag96 \<Rightarrow> bool" where
  "flag96_eq (Flag96 a b c) (Flag96 a' b' c') \<longleftrightarrow> a = a' \<and> b = b' \<and> c = c'"

fun flag96_and :: "flag96 \<Rightarrow> flag96 \<Rightarrow> flag96" where
  "flag96_and (Flag96 a b c) (Flag96 a' b' c') = Flag96 (a AND a') (b AND b') (c AND c')"

fun flag96_or :: "flag96 \<Rightarrow> flag96 \<Rightarrow> flag96" where
  "flag96_or (Flag96 a b c) (Flag96 a' b' c') = Flag96 (a OR a') (b OR b') (c OR c')"

fun flag96_xor :: "flag96 \<Rightarrow> flag96 \<Rightarrow> flag96" where
  "flag96_xor (Flag96 a b c) (Flag96 a' b' c') = Flag96 (a XOR a') (b XOR b') (c XOR c')"

fun flag96_not :: "flag96 \<Rightarrow> flag96" where
  "flag96_not (Flag96 a b c) = Flag96 (NOT a) (NOT b) (NOT c)"

fun flag96_bool :: "flag96 \<Rightarrow> bool" where
  "flag96_bool (Flag96 a b c) \<longleftrightarrow> a \<noteq> 0 \<or> b \<noteq> 0 \<or> c \<noteq> 0"

section \<open>Case: lemmas\<close>

text \<open>Case by case: the blocks of letters, with the offset between the two cases.\<close>

lemma upper_cases:
  obtains (shift) d where "c = d + 32" "wcharToUpper c = d"
      "65 \<le> d \<and> d \<le> 90 \<or> 192 \<le> d \<and> d \<le> 214 \<or> 216 \<le> d \<and> d \<le> 222 \<or> 1040 \<le> d \<and> d \<le> 1071"
  | (pair) d where "c = 2 * d + 1" "wcharToUpper c = 2 * d" "128 \<le> d" "d \<le> 151"
  | (sharp) "c = 223" "wcharToUpper c = 7838"
  | (io) "c = 1105" "wcharToUpper c = 1025"
  | (other) "wcharToUpper c = c" "c \<noteq> 223" "c \<noteq> 1105" "\<not> (97 \<le> c \<and> c \<le> 122)" "\<not> (224 \<le> c \<and> c \<le> 246)"
      "\<not> (248 \<le> c \<and> c \<le> 254)" "\<not> (1072 \<le> c \<and> c \<le> 1103)" "\<not> (257 \<le> c \<and> c \<le> 303 \<and> odd c)"
proof -
  consider "97 \<le> c \<and> c \<le> 122 \<or> 224 \<le> c \<and> c \<le> 246 \<or> 248 \<le> c \<and> c \<le> 254 \<or> 1072 \<le> c \<and> c \<le> 1103"
    | "257 \<le> c" "c \<le> 303" "odd c" | "c = 223" | "c = 1105"
    | "\<not> (97 \<le> c \<and> c \<le> 122)" "\<not> (224 \<le> c \<and> c \<le> 246)" "\<not> (248 \<le> c \<and> c \<le> 254)" "\<not> (1072 \<le> c \<and> c \<le> 1103)"
      "\<not> (257 \<le> c \<and> c \<le> 303 \<and> odd c)" "c \<noteq> 223" "c \<noteq> 1105"
    by blast
  then show thesis
  proof cases
    case 1
    then show ?thesis by (intro shift [of "c - 32"]) (auto simp: wcharToUpper_def)
  next
    case 2
    then obtain d where "c = 2 * d + 1" by (elim oddE) 
    with 2 show ?thesis by (intro pair [of d]) (auto simp: wcharToUpper_def)
  next
    case 5
    then show ?thesis by (intro other) (auto simp: wcharToUpper_def odd_iff_mod_2_eq_one)
  qed (auto intro: sharp io simp: wcharToUpper_def)
qed

lemma upper_upper: "wcharToUpper (wcharToUpper c) = wcharToUpper c"
proof (cases c rule: upper_cases)
  case (shift d)
  have "wcharToUpper d = d" using shift(3) by (auto simp: wcharToUpper_def)
  with shift(2) show ?thesis by simp
next
  case (pair d)
  have "wcharToUpper (2 * d) = 2 * d" using pair(3,4) by (auto simp: wcharToUpper_def)
  with pair(2) show ?thesis by simp
next
  case other
  then show ?thesis by simp
qed (simp_all only:, simp_all add: wcharToUpper_def)

lemma lower_upper: "wcharToLower (wcharToUpper c) = wcharToLower c"
proof (cases c rule: upper_cases)
  case (shift d)
  then have "wcharToLower d = d + 32" by (auto simp: wcharToLower_def)
  moreover have "wcharToLower (d + 32) = d + 32" using shift(3) by (auto simp: wcharToLower_def)
  ultimately show ?thesis using shift by simp
next
  case (pair d)
  then show ?thesis by (simp add: wcharToLower_def)
next
  case other
  then show ?thesis by simp
qed (simp_all only:, simp_all add: wcharToLower_def)

lemma upper_lower: "wcharToUpper (wcharToLower c) = wcharToUpper c"
  unfolding wcharToLower_def wcharToUpper_def
  by (simp split del: if_split cong: if_cong add: if_distrib [of wcharToUpper]) (auto split: if_splits, presburger)

lemma lower_lower: "wcharToLower (wcharToLower c) = wcharToLower c"
  by (metis lower_upper upper_lower)

lemma lower_eq_iff_upper_eq: "wcharToLower c = wcharToLower d \<longleftrightarrow> wcharToUpper c = wcharToUpper d"
  by (metis lower_upper upper_lower)

lemma script_ranges:
  "isExtendedLatinCharacter c \<Longrightarrow> c \<le> 0x012F \<or> c = 0x1E9E"
  "isCyrillicCharacter c \<Longrightarrow> 0x0401 \<le> c \<and> c \<le> 0x0451"
  "isEastAsianCharacter c \<Longrightarrow> 0x1100 \<le> c \<and> c \<noteq> 0x1E9E"
  by (auto simp: isExtendedLatinCharacter_def isBasicLatinCharacter_def isCyrillicCharacter_def
      isEastAsianCharacter_def split: if_splits)

lemma isStringOf_all:
  "isStringOf P s numericOrSpace \<longleftrightarrow> (\<forall>c \<in> set s. P c \<or> numericOrSpace \<and> isNumericOrSpace c)"
  by (induction P s numericOrSpace rule: isStringOf.induct) auto

section \<open>\<^verbatim>\<open>flag96\<close> as a number\<close>

definition flag96_int :: "flag96 \<Rightarrow> int" where
  "flag96_int f = concat_bit 32 (uint (part0 f)) (concat_bit 32 (uint (part1 f)) (uint (part2 f)))"

lemma uint_u32_less: "uint (a :: u32) < 4294967296" "0 \<le> uint a"
  using uint_bounded [of a] by simp_all

lemma take_bit_uint32 [simp]: "take_bit 32 (uint (a :: u32)) = uint a"
  by (simp add: take_bit_int_eq_self_iff uint_u32_less)

lemma flag96_int_sum:
  "flag96_int (Flag96 a b c) = uint a + 4294967296 * (uint b + 4294967296 * uint c)"
  by (simp add: flag96_int_def concat_bit_eq push_bit_eq_mult)

lemma lex_less:
  fixes a a' x x' :: int
  assumes "0 \<le> a" "a < 4294967296" "0 \<le> a'" "a' < 4294967296"
  shows "a + 4294967296 * x < a' + 4294967296 * x' \<longleftrightarrow> x < x' \<or> x = x' \<and> a < a'"
    and "a + 4294967296 * x = a' + 4294967296 * x' \<longleftrightarrow> x = x' \<and> a = a'"
  by (cases x x' rule: linorder_cases; use assms in auto)+

lemma flag96_less_loop_int: "flag96_less_loop 3 f g \<longleftrightarrow> flag96_int f < flag96_int g"
proof (cases f; cases g)
  fix a b c a' b' c'
  assume fg: "f = Flag96 a b c" "g = Flag96 a' b' c'"
  have "flag96_less_loop 3 f g \<longleftrightarrow> c < c' \<or> c = c' \<and> (b < b' \<or> b = b' \<and> a < a')"
    by (auto simp: numeral_3_eq_3 flag96_part_def fg)
  also have "\<dots> \<longleftrightarrow> flag96_int f < flag96_int g"
    unfolding fg by (simp only: flag96_int_sum lex_less uint_u32_less word_less_def word_uint_eq_iff) blast
  finally show ?thesis .
qed

lemma flag96_int_inj: "flag96_int f = flag96_int g \<longleftrightarrow> f = g"
proof (cases f; cases g)
  fix a b c a' b' c'
  assume fg: "f = Flag96 a b c" "g = Flag96 a' b' c'"
  show ?thesis unfolding fg
    by (simp only: flag96_int_sum lex_less uint_u32_less flag96.inject word_uint_eq_iff) blast
qed

text \<open>Bits of the number.\<close>

lemma bit_flag96_int:
  "bit (flag96_int (Flag96 a b c)) n \<longleftrightarrow>
     (if n < 32 then bit a n else if n < 64 then bit b (n - 32) else n < 96 \<and> bit c (n - 64))"
  by (auto simp: flag96_int_def bit_concat_bit_iff bit_uint_iff dest: bit_imp_le_length)

lemma flag96_ops_int:
  "flag96_int (flag96_and f g) = flag96_int f AND flag96_int g"
  "flag96_int (flag96_or f g) = flag96_int f OR flag96_int g"
  "flag96_int (flag96_xor f g) = flag96_int f XOR flag96_int g"
  "flag96_int (flag96_not f) = take_bit 96 (NOT (flag96_int f))"
  by (cases f; cases g; auto simp: bit_eq_iff bit_flag96_int bit_simps)+

lemma flag96_bool_int: "flag96_bool f \<longleftrightarrow> flag96_int f \<noteq> 0"
  using flag96_int_inj [of f "Flag96 0 0 0"] by (cases f) (simp add: flag96_int_sum [of 0 0 0])

section \<open>\<^verbatim>\<open>flag96\<close> is linearly ordered by \<^verbatim>\<open>operator<\<close>\<close>

instantiation flag96 :: linorder
begin

definition less_flag96 :: "flag96 \<Rightarrow> flag96 \<Rightarrow> bool" where
  "less_flag96 f g \<longleftrightarrow> flag96_less_loop 3 f g"

definition less_eq_flag96 :: "flag96 \<Rightarrow> flag96 \<Rightarrow> bool" where
  "less_eq_flag96 f g \<longleftrightarrow> flag96_less_loop 3 f g \<or> f = g"

instance
proof
  fix f g h :: flag96
  show "f < g \<longleftrightarrow> f \<le> g \<and> \<not> g \<le> f"
    by (auto simp: less_flag96_def less_eq_flag96_def flag96_less_loop_int)
  show "f \<le> f" by (simp add: less_eq_flag96_def)
  show "f \<le> g \<Longrightarrow> g \<le> h \<Longrightarrow> f \<le> h"
    by (auto simp: less_eq_flag96_def flag96_less_loop_int)
  show "f \<le> g \<Longrightarrow> g \<le> f \<Longrightarrow> f = g"
    by (auto simp: less_eq_flag96_def flag96_less_loop_int)
  show "f \<le> g \<or> g \<le> f"
    using flag96_int_inj [of f g] by (auto simp: less_eq_flag96_def flag96_less_loop_int)
qed

end

section \<open>Properties\<close>

text \<open>the case maps of names. Lowering and raising are idempotent and each forgets the other, so
  two names get the same lowered key exactly when they get the same raised one.\<close>

theorem case_maps_agree:
  "wstrToLower (wstrToLower s) = wstrToLower s \<and> wstrToUpper (wstrToUpper s) = wstrToUpper s
   \<and> wstrToLower (wstrToUpper s) = wstrToLower s \<and> wstrToUpper (wstrToLower s) = wstrToUpper s
   \<and> (wstrToLower s = wstrToLower t \<longleftrightarrow> wstrToUpper s = wstrToUpper t)"
proof -
  have eq: "wstrToLower s = wstrToLower t \<longleftrightarrow> wstrToUpper s = wstrToUpper t"
    unfolding wstrToLower_def wstrToUpper_def by (simp add: list_eq_iff_nth_eq lower_eq_iff_upper_eq cong: conj_cong)
  show ?thesis
    using eq by (simp add: wstrToLower_def wstrToUpper_def lower_lower upper_upper lower_upper upper_lower)
qed

text \<open>C33: \<^verbatim>\<open>flag96\<close> implements one 96-bit number: the operators, the comparison, the test for
  non-emptiness and \<^verbatim>\<open>HasFlag\<close> are those of the number its parts spell.\<close>

theorem flag96_refines_number:
  "flag96_int (flag96_and f g) = flag96_int f AND flag96_int g
   \<and> flag96_int (flag96_or f g) = flag96_int f OR flag96_int g
   \<and> flag96_int (flag96_xor f g) = flag96_int f XOR flag96_int g
   \<and> flag96_int (flag96_not f) = take_bit 96 (NOT (flag96_int f))
   \<and> (f < g \<longleftrightarrow> flag96_int f < flag96_int g)
   \<and> (flag96_eq f g \<longleftrightarrow> flag96_int f = flag96_int g)
   \<and> (flag96_bool f \<longleftrightarrow> flag96_int f \<noteq> 0)
   \<and> (flag96_HasFlag p q r f \<longleftrightarrow> flag96_int f AND flag96_int (Flag96 p q r) \<noteq> 0)"
proof -
  have "flag96_HasFlag p q r f \<longleftrightarrow> flag96_bool (flag96_and f (Flag96 p q r))"
    by (cases f) simp
  moreover have "flag96_eq f g \<longleftrightarrow> f = g" by (cases f; cases g) simp
  ultimately show ?thesis
    by (simp add: flag96_ops_int flag96_bool_int flag96_int_inj less_flag96_def flag96_less_loop_int)
qed

text \<open>a name without digits or spaces belongs to at most one script.\<close>

theorem one_script_per_name:
  assumes "s \<noteq> []" "isExtendedLatinString s False"
  shows "\<not> isCyrillicString s False \<and> \<not> isEastAsianString s False"
  using assms script_ranges [of "hd s"]
  by (cases s) (auto simp: isExtendedLatinString_def isCyrillicString_def isEastAsianString_def isStringOf_all)

lemma one_script_per_name_witness:
  "\<not> isCyrillicString [72, 0xE9] False \<and> \<not> isEastAsianString [72, 0xE9] False"
  by (rule one_script_per_name)
    (simp_all add: isExtendedLatinString_def isExtendedLatinCharacter_def isBasicLatinCharacter_def)

end
