(* ===== verification/Channel_Mgr.thy ===== *)
theory Channel_Mgr
  imports Channel_Props Util_Chars "HOL-Library.List_Lexorder"
begin

text \<open>
  The channel registries of the two factions, \<^verbatim>\<open>src/src/server/game/Chat/Channels/ChannelMgr.cpp\<close>,
  the packet handlers of \<^verbatim>\<open>src/src/server/game/Handlers/ChannelHandler.cpp\<close> that read a client's
  packet and call a channel, and \<^verbatim>\<open>Player::CleanupChannels\<close>. A \<^verbatim>\<open>Channel*\<close> is the key of the
  channel in its registry. What the handlers send is collected in \<open>cs_log\<close>. The UTF-8 conversions,
  the client's channel and area stores and the guild of a player are parameters (\<open>chat_env\<close>).
\<close>

section \<open>State\<close>

record channel_mgr =
  cm_channels :: "(wstring, channel_io) stdmap"
  cm_team :: u32

datatype mgr_id = AllianceChannelMgr | HordeChannelMgr

record chat =
  cs_alliance :: channel_mgr
  cs_horde :: channel_mgr
  cs_log :: "channel_event list"

record chat_env =
  e_world :: world
  e_social :: social_map
  e_chat_channels :: "u32 \<Rightarrow> u32 option"
  e_area_flags :: "u32 \<Rightarrow> u32 option"
  e_guild :: "u64 \<Rightarrow> u32"
  e_table :: channel_table
  e_Utf8toWStr :: "string \<Rightarrow> wstring"
  e_Utf8toWStr_buf :: "string \<Rightarrow> nat \<Rightarrow> wstring option"
  e_WStrToUtf8 :: "wstring \<Rightarrow> string option"

definition ChannelMgr_new :: channel_mgr where
  "ChannelMgr_new = \<lparr>cm_channels = [], cm_team = 0\<rparr>"

fun get_mgr :: "mgr_id \<Rightarrow> chat \<Rightarrow> channel_mgr" where
  "get_mgr AllianceChannelMgr s = cs_alliance s"
| "get_mgr HordeChannelMgr s = cs_horde s"

fun set_mgr :: "mgr_id \<Rightarrow> channel_mgr \<Rightarrow> chat \<Rightarrow> chat" where
  "set_mgr AllianceChannelMgr m s = s\<lparr>cs_alliance := m\<rparr>"
| "set_mgr HordeChannelMgr m s = s\<lparr>cs_horde := m\<rparr>"

definition log_events :: "channel_event list \<Rightarrow> chat \<Rightarrow> chat" where
  "log_events es s = s\<lparr>cs_log := cs_log s @ es\<rparr>"

text \<open>A call on the channel behind a pointer: its events go to the log.\<close>

definition call_channel :: "mgr_id \<Rightarrow> wstring \<Rightarrow> (channel_io \<Rightarrow> cpp_error + channel_io) \<Rightarrow> chat \<Rightarrow> cpp_error + chat" where
  "call_channel i k f s =
     (case map_find (cm_channels (get_mgr i s)) k of
        None \<Rightarrow> Inl NullDeref
      | Some c \<Rightarrow>
          (case f c of
             Inl e \<Rightarrow> Inl e
           | Inr c' \<Rightarrow> Inr (log_events (io c')
               (set_mgr i ((get_mgr i s)\<lparr>cm_channels := map_set k (c'\<lparr>io := []\<rparr>) (cm_channels (get_mgr i s))\<rparr>) s))))"

section \<open>\<^verbatim>\<open>ChannelMgr\<close>\<close>

definition forTeam :: "world \<Rightarrow> u32 \<Rightarrow> mgr_id option" where
  "forTeam w team =
     (if cfg_two_side_channel w then Some AllianceChannelMgr
      else if team = ALLIANCE then Some AllianceChannelMgr
      else if team = HORDE then Some HordeChannelMgr
      else None)"

definition channel_key :: "chat_env \<Rightarrow> string \<Rightarrow> wstring" where
  "channel_key e name = wstrToLower (e_Utf8toWStr e name)"

definition setTeam :: "u32 \<Rightarrow> channel_mgr \<Rightarrow> channel_mgr" where
  "setTeam newTeam m = m\<lparr>cm_team := newTeam\<rparr>"

definition GetJoinChannel :: "chat_env \<Rightarrow> mgr_id \<Rightarrow> string \<Rightarrow> u32 \<Rightarrow> chat \<Rightarrow> wstring \<times> chat" where
  "GetJoinChannel e i name channel_id s =
     (let wname = channel_key e name; m = get_mgr i s
      in case map_find (cm_channels m) wname of
           None \<Rightarrow>
             let nchan = Channel_new (e_chat_channels e) (map_option fst (e_table e (name, cm_team m)))
                           (e_world e) name channel_id (cm_team m)
             in (wname, log_events (io nchan)
                   (set_mgr i (m\<lparr>cm_channels := map_set wname (nchan\<lparr>io := []\<rparr>) (cm_channels m)\<rparr>) s))
         | Some c \<Rightarrow> (wname, s))"

definition MakeNotOnPacket :: "string \<Rightarrow> world_packet" where
  "MakeNotOnPacket name = stream [FU8 0x05, FStr name] (WorldPacket SMSG_CHANNEL_NOTIFY)"

definition GetChannel :: "chat_env \<Rightarrow> mgr_id \<Rightarrow> string \<Rightarrow> player \<Rightarrow> bool \<Rightarrow> chat \<Rightarrow> wstring option \<times> chat" where
  "GetChannel e i name player pkt s =
     (case map_find (cm_channels (get_mgr i s)) (channel_key e name) of
        None \<Rightarrow> (None, if pkt then log_events [SendPacket (pl_guid player) (MakeNotOnPacket name)] s else s)
      | Some c \<Rightarrow> (Some (channel_key e name), s))"

definition LeftChannel_mgr :: "chat_env \<Rightarrow> mgr_id \<Rightarrow> string \<Rightarrow> chat \<Rightarrow> chat" where
  "LeftChannel_mgr e i name s =
     (let wname = channel_key e name; m = get_mgr i s
      in case map_find (cm_channels m) wname of
           None \<Rightarrow> s
         | Some c \<Rightarrow>
             if GetNumPlayers c = 0 \<and> \<not> IsConstant c
             then set_mgr i (m\<lparr>cm_channels := map_erase wname (cm_channels m)\<rparr>) s
             else s)"

section \<open>Handlers\<close>

definition CHANNEL_DBC_FLAG_ZONE_DEP :: u32 where "CHANNEL_DBC_FLAG_ZONE_DEP = 0x00002"
definition CHANNEL_DBC_FLAG_CITY_ONLY :: u32 where "CHANNEL_DBC_FLAG_CITY_ONLY = 0x00010"
definition CHANNEL_DBC_FLAG_GUILD_REQ :: u32 where "CHANNEL_DBC_FLAG_GUILD_REQ = 0x20000"
definition AREA_FLAG_SLAVE_CAPITAL :: u32 where "AREA_FLAG_SLAVE_CAPITAL = 0x00000008"
definition AREA_FLAG_ARENA_INSTANCE :: u32 where "AREA_FLAG_ARENA_INSTANCE = 0x00010000"
definition SMSG_CHANNEL_MEMBER_COUNT :: u16 where "SMSG_CHANNEL_MEMBER_COUNT = 0x3D5"
definition MAX_INTERNAL_PLAYER_NAME :: nat where "MAX_INTERNAL_PLAYER_NAME = 15"

definition CanJoinConstantChannelInZone :: "chat_env \<Rightarrow> player \<Rightarrow> u32 \<Rightarrow> u32 \<Rightarrow> bool" where
  "CanJoinConstantChannelInZone e pl channel_flags zone_flags =
     (if has_flag channel_flags CHANNEL_DBC_FLAG_ZONE_DEP \<and> has_flag zone_flags AREA_FLAG_ARENA_INSTANCE then False
      else if has_flag channel_flags CHANNEL_DBC_FLAG_CITY_ONLY \<and> \<not> has_flag zone_flags AREA_FLAG_SLAVE_CAPITAL then False
      else if has_flag channel_flags CHANNEL_DBC_FLAG_GUILD_REQ \<and> e_guild e (pl_guid pl) \<noteq> 0 then False
      else True)"

definition normalizePlayerName :: "chat_env \<Rightarrow> string \<Rightarrow> string option" where
  "normalizePlayerName e name =
     (if name = [] then None
      else case e_Utf8toWStr_buf e name MAX_INTERNAL_PLAYER_NAME of
             None \<Rightarrow> None
           | Some buf \<Rightarrow>
               e_WStrToUtf8 e (case buf of [] \<Rightarrow> [] | c # cs \<Rightarrow> wcharToUpper c # map wcharToLower cs))"

text \<open>The errors a handler can end with: a short packet throws, a null pointer crashes.\<close>

datatype handler_error = PacketError bb_error | Crash cpp_error

definition crash :: "cpp_error + 'a \<Rightarrow> handler_error + 'a" where
  "crash r = (case r of Inl e \<Rightarrow> Inl (Crash e) | Inr x \<Rightarrow> Inr x)"

text \<open>The guard of \<^verbatim>\<open>HandleJoinChannel\<close> for built-in channels.\<close>

definition may_join_builtin :: "chat_env \<Rightarrow> player \<Rightarrow> u32 \<Rightarrow> bool" where
  "may_join_builtin e pl channel_id =
     (if channel_id \<noteq> 0
      then (case e_chat_channels e channel_id of
              None \<Rightarrow> False
            | Some channel \<Rightarrow>
                (case e_area_flags e (pl_zone pl) of
                   None \<Rightarrow> False
                 | Some current_zone \<Rightarrow> CanJoinConstantChannelInZone e pl channel current_zone))
      else True)"

definition do_join :: "chat_env \<Rightarrow> player \<Rightarrow> u32 \<Rightarrow> string \<Rightarrow> string \<Rightarrow> chat \<Rightarrow> cpp_error + chat" where
  "do_join e pl channel_id channelname pass s =
     (if \<not> may_join_builtin e pl channel_id then Inr s
      else if channelname = [] then Inr s
      else case forTeam (e_world e) (pl_team pl) of
             None \<Rightarrow> Inr s
           | Some i \<Rightarrow>
               let s = set_mgr i (setTeam (pl_team pl) (get_mgr i s)) s;
                   (chn, s) = GetJoinChannel e i channelname channel_id s
               in call_channel i chn (\<lambda>c. Inr (Join (e_world e) (e_social e) (pl_guid pl) pass c)) s)"

definition HandleJoinChannel :: "chat_env \<Rightarrow> player \<Rightarrow> byte_buffer \<Rightarrow> chat \<Rightarrow> handler_error + chat" where
  "HandleJoinChannel e pl b s =
     (case (bb_read b :: bb_error + (u32 \<times> byte_buffer)) of
        Inl err \<Rightarrow> Inl (PacketError err)
      | Inr (channel_id, b) \<Rightarrow>
          (case (bb_read b :: bb_error + (u8 \<times> byte_buffer)) of
             Inl err \<Rightarrow> Inl (PacketError err)
           | Inr (unknown1, b) \<Rightarrow>
               (case (bb_read b :: bb_error + (u8 \<times> byte_buffer)) of
                  Inl err \<Rightarrow> Inl (PacketError err)
                | Inr (unknown2, b) \<Rightarrow>
                    let (channelname, b) = get_string b; (pass, b) = get_string b
                    in crash (do_join e pl channel_id channelname pass s))))"

definition do_leave :: "chat_env \<Rightarrow> player \<Rightarrow> string \<Rightarrow> chat \<Rightarrow> cpp_error + chat" where
  "do_leave e pl channelname s =
     (if channelname = [] then Inr s
      else case forTeam (e_world e) (pl_team pl) of
             None \<Rightarrow> Inr s
           | Some i \<Rightarrow>
               (case GetChannel e i channelname pl True s of
                  (None, s) \<Rightarrow> Inr (LeftChannel_mgr e i channelname s)
                | (Some chn, s) \<Rightarrow>
                    (case call_channel i chn (\<lambda>c. Inr (Leave (e_world e) (e_social e) (pl_guid pl) True c)) s of
                       Inl err \<Rightarrow> Inl err
                     | Inr s \<Rightarrow> Inr (LeftChannel_mgr e i channelname s))))"

definition HandleLeaveChannel :: "chat_env \<Rightarrow> player \<Rightarrow> byte_buffer \<Rightarrow> chat \<Rightarrow> handler_error + chat" where
  "HandleLeaveChannel e pl b s =
     (case (bb_read b :: bb_error + (u32 \<times> byte_buffer)) of
        Inl err \<Rightarrow> Inl (PacketError err)
      | Inr (unk, b) \<Rightarrow> let (channelname, b) = get_string b in crash (do_leave e pl channelname s))"

text \<open>The shape shared by the other handlers: find the channel for the player's faction, call it.\<close>

definition on_channel ::
  "chat_env \<Rightarrow> player \<Rightarrow> string \<Rightarrow> (channel_io \<Rightarrow> cpp_error + channel_io) \<Rightarrow> chat \<Rightarrow> handler_error + chat" where
  "on_channel e pl channelname f s =
     (case forTeam (e_world e) (pl_team pl) of
        None \<Rightarrow> Inr s
      | Some i \<Rightarrow>
          (case GetChannel e i channelname pl True s of
             (None, s) \<Rightarrow> Inr s
           | (Some chn, s) \<Rightarrow> crash (call_channel i chn f s)))"

definition HandleChannelList :: "chat_env \<Rightarrow> player \<Rightarrow> byte_buffer \<Rightarrow> chat \<Rightarrow> handler_error + chat" where
  "HandleChannelList e pl b s =
     (let (channelname, b) = get_string b
      in on_channel e pl channelname (\<lambda>c. Inr (List (e_world e) pl c)) s)"

definition HandleChannelPassword :: "chat_env \<Rightarrow> player \<Rightarrow> byte_buffer \<Rightarrow> chat \<Rightarrow> handler_error + chat" where
  "HandleChannelPassword e pl b s =
     (let (channelname, b) = get_string b; (pass, b) = get_string b
      in on_channel e pl channelname (Password (e_world e) (e_social e) (pl_guid pl) pass) s)"

text \<open>Handlers that name another player normalise the name first.\<close>

definition with_name ::
  "chat_env \<Rightarrow> player \<Rightarrow> byte_buffer \<Rightarrow> (string \<Rightarrow> channel_io \<Rightarrow> channel_io) \<Rightarrow> chat \<Rightarrow> handler_error + chat" where
  "with_name e pl b f s =
     (let (channelname, b) = get_string b; (otp, b) = get_string b
      in case normalizePlayerName e otp of
           None \<Rightarrow> Inr s
         | Some otp \<Rightarrow> on_channel e pl channelname (\<lambda>c. Inr (f otp c)) s)"

definition HandleChannelSetOwner :: "chat_env \<Rightarrow> player \<Rightarrow> byte_buffer \<Rightarrow> chat \<Rightarrow> handler_error + chat" where
  "HandleChannelSetOwner e pl b = with_name e pl b (SetOwner (e_world e) (e_social e) (pl_guid pl))"

definition HandleChannelOwner :: "chat_env \<Rightarrow> player \<Rightarrow> byte_buffer \<Rightarrow> chat \<Rightarrow> handler_error + chat" where
  "HandleChannelOwner e pl b s =
     (let (channelname, b) = get_string b
      in on_channel e pl channelname (\<lambda>c. Inr (SendWhoOwner (e_world e) (pl_guid pl) c)) s)"

definition HandleChannelModerator :: "chat_env \<Rightarrow> player \<Rightarrow> byte_buffer \<Rightarrow> chat \<Rightarrow> handler_error + chat" where
  "HandleChannelModerator e pl b =
     with_name e pl b (\<lambda>otp. SetMode (e_world e) (e_social e) (pl_guid pl) otp True True)"

definition HandleChannelUnmoderator :: "chat_env \<Rightarrow> player \<Rightarrow> byte_buffer \<Rightarrow> chat \<Rightarrow> handler_error + chat" where
  "HandleChannelUnmoderator e pl b =
     with_name e pl b (\<lambda>otp. SetMode (e_world e) (e_social e) (pl_guid pl) otp True False)"

definition HandleChannelMute :: "chat_env \<Rightarrow> player \<Rightarrow> byte_buffer \<Rightarrow> chat \<Rightarrow> handler_error + chat" where
  "HandleChannelMute e pl b =
     with_name e pl b (\<lambda>otp. SetMode (e_world e) (e_social e) (pl_guid pl) otp False True)"

definition HandleChannelUnmute :: "chat_env \<Rightarrow> player \<Rightarrow> byte_buffer \<Rightarrow> chat \<Rightarrow> handler_error + chat" where
  "HandleChannelUnmute e pl b =
     with_name e pl b (\<lambda>otp. SetMode (e_world e) (e_social e) (pl_guid pl) otp False False)"

definition HandleChannelInvite :: "chat_env \<Rightarrow> player \<Rightarrow> byte_buffer \<Rightarrow> chat \<Rightarrow> handler_error + chat" where
  "HandleChannelInvite e pl b = with_name e pl b (Invite (e_world e) (e_social e) (pl_guid pl))"

definition HandleChannelKick :: "chat_env \<Rightarrow> player \<Rightarrow> byte_buffer \<Rightarrow> chat \<Rightarrow> handler_error + chat" where
  "HandleChannelKick e pl b =
     with_name e pl b (\<lambda>otp. KickOrBan (e_world e) (e_social e) (pl_guid pl) otp False)"

definition HandleChannelBan :: "chat_env \<Rightarrow> player \<Rightarrow> byte_buffer \<Rightarrow> chat \<Rightarrow> handler_error + chat" where
  "HandleChannelBan e pl b =
     with_name e pl b (\<lambda>otp. KickOrBan (e_world e) (e_social e) (pl_guid pl) otp True)"

definition HandleChannelUnban :: "chat_env \<Rightarrow> player \<Rightarrow> byte_buffer \<Rightarrow> chat \<Rightarrow> handler_error + chat" where
  "HandleChannelUnban e pl b = with_name e pl b (UnBan (e_world e) (e_social e) (pl_guid pl))"

definition HandleChannelAnnouncements :: "chat_env \<Rightarrow> player \<Rightarrow> byte_buffer \<Rightarrow> chat \<Rightarrow> handler_error + chat" where
  "HandleChannelAnnouncements e pl b s =
     (let (channelname, b) = get_string b
      in on_channel e pl channelname (\<lambda>c. Inr (Announce (e_world e) (e_social e) (pl_guid pl) c)) s)"

definition HandleChannelDisplayListQuery :: "chat_env \<Rightarrow> player \<Rightarrow> byte_buffer \<Rightarrow> chat \<Rightarrow> handler_error + chat" where
  "HandleChannelDisplayListQuery e pl b = HandleChannelList e pl b"

text \<open>The session's own \<^verbatim>\<open>SendPacket\<close> answers the member count.\<close>

definition HandleGetChannelMemberCount :: "chat_env \<Rightarrow> player \<Rightarrow> byte_buffer \<Rightarrow> chat \<Rightarrow> handler_error + chat" where
  "HandleGetChannelMemberCount e pl b s =
     (let (channelname, b) = get_string b
      in on_channel e pl channelname (\<lambda>c. Inr (emit [SendPacket (pl_guid pl)
           (stream [FStr (m_name c), FU8 (m_flags c), FU32 (GetNumPlayers c)]
             (WorldPacket SMSG_CHANNEL_MEMBER_COUNT))] c)) s)"

definition HandleSetChannelWatch :: "chat_env \<Rightarrow> player \<Rightarrow> byte_buffer \<Rightarrow> chat \<Rightarrow> handler_error + chat" where
  "HandleSetChannelWatch e pl b s = (let (channelname, b) = get_string b in Inr s)"

section \<open>\<^verbatim>\<open>Player::CleanupChannels\<close>\<close>

text \<open>The player's list \<^verbatim>\<open>m_channels\<close> as registry keys. The name passed on is that of the channel.\<close>

fun CleanupChannels :: "chat_env \<Rightarrow> player \<Rightarrow> (mgr_id \<times> wstring) list \<Rightarrow> chat \<Rightarrow> cpp_error + chat" where
  "CleanupChannels e pl [] s = Inr s"
| "CleanupChannels e pl ((i, k) # rest) s =
     (case map_find (cm_channels (get_mgr i s)) k of
        None \<Rightarrow> Inl NullDeref
      | Some c \<Rightarrow>
          (case call_channel i k (\<lambda>c. Inr (Leave (e_world e) (e_social e) (pl_guid pl) False c)) s of
             Inl err \<Rightarrow> Inl err
           | Inr s' \<Rightarrow>
               CleanupChannels e pl rest
                 (case forTeam (e_world e) (pl_team pl) of
                    Some j \<Rightarrow> LeftChannel_mgr e j (m_name c) s'
                  | None \<Rightarrow> s')))"

section \<open>The handlers as one step function\<close>

datatype chat_handler =
    JoinChannel | LeaveChannel | ChannelList | ChannelPassword | ChannelSetOwner | ChannelOwner
  | ChannelModerator | ChannelUnmoderator | ChannelMute | ChannelUnmute | ChannelInvite | ChannelKick
  | ChannelBan | ChannelUnban | ChannelAnnouncements | ChannelDisplayListQuery | GetChannelMemberCount
  | SetChannelWatch

fun handle_chat :: "chat_handler \<Rightarrow> chat_env \<Rightarrow> player \<Rightarrow> byte_buffer \<Rightarrow> chat \<Rightarrow> handler_error + chat" where
  "handle_chat JoinChannel = HandleJoinChannel"
| "handle_chat LeaveChannel = HandleLeaveChannel"
| "handle_chat ChannelList = HandleChannelList"
| "handle_chat ChannelPassword = HandleChannelPassword"
| "handle_chat ChannelSetOwner = HandleChannelSetOwner"
| "handle_chat ChannelOwner = HandleChannelOwner"
| "handle_chat ChannelModerator = HandleChannelModerator"
| "handle_chat ChannelUnmoderator = HandleChannelUnmoderator"
| "handle_chat ChannelMute = HandleChannelMute"
| "handle_chat ChannelUnmute = HandleChannelUnmute"
| "handle_chat ChannelInvite = HandleChannelInvite"
| "handle_chat ChannelKick = HandleChannelKick"
| "handle_chat ChannelBan = HandleChannelBan"
| "handle_chat ChannelUnban = HandleChannelUnban"
| "handle_chat ChannelAnnouncements = HandleChannelAnnouncements"
| "handle_chat ChannelDisplayListQuery = HandleChannelDisplayListQuery"
| "handle_chat GetChannelMemberCount = HandleGetChannelMemberCount"
| "handle_chat SetChannelWatch = HandleSetChannelWatch"

text \<open>A packet that throws is dropped by the session; the state stays.\<close>

definition chat_step :: "chat_env \<times> player \<times> chat_handler \<times> byte_buffer \<Rightarrow> chat \<Rightarrow> chat" where
  "chat_step = (\<lambda>(e, pl, h, b) s. case handle_chat h e pl b s of Inl err \<Rightarrow> s | Inr s' \<Rightarrow> s')"

end
