(* ===== verification/Channel_Mgr_Props.thy ===== *)
theory Channel_Mgr_Props
  imports Channel_Mgr
begin

text \<open>
  The registries stay consistent under every packet a client can send: each channel is filed under
  its lowered name and satisfies the channel invariant. Names that differ in case reach the same
  channel, and a custom channel disappears with its last member.
\<close>

section \<open>Names of channels never change\<close>

lemma kick_accept_name: "m_name (kick_accept w mgr good bad ban c) = m_name c"
  by (simp add: kick_accept_def kick_remove_def Let_def channel_simps)

lemma channel_exec_name:
  "channel_exec w mgr op c = Inr c' \<Longrightarrow> m_name c' = m_name c"
proof (cases op)
  case (OpLeave p send)
  then show "channel_exec w mgr op c = Inr c' \<Longrightarrow> m_name c' = m_name c"
    using Leave_shape [of w mgr p send c] by (auto simp: channel_simps)
next
  case (OpKickOrBan p n b)
  then show "channel_exec w mgr op c = Inr c' \<Longrightarrow> m_name c' = m_name c"
    by (auto simp: KickOrBan_def if_moderator_def kick_accept_name channel_simps split: option.splits if_splits)
qed (auto simp: Join_def Join_accept_def UnBan_def Password_def SetMode_def SetOwner_def SendWhoOwner_def List_def
      Announce_def Say_def Invite_def if_moderator_def SetModerator_guid_def SetMute_guid_def Let_def channel_simps
      split: option.splits if_splits)

lemma channel_exec_wf:
  assumes "channel_wf c" "channel_exec w mgr op c = Inr c'"
  shows "channel_wf c'"
  using channel_wf_step [OF assms(1), of "(w, mgr, op)"] assms(2) by (simp add: channel_step_def)

lemma channel_exec_fun:
  "(\<lambda>c. Inr (Join w mgr p pw c)) = channel_exec w mgr (OpJoin p pw)"
  "(\<lambda>c. Inr (Leave w mgr p b c)) = channel_exec w mgr (OpLeave p b)"
  by (simp_all add: fun_eq_iff)

section \<open>The registry invariant\<close>

definition mgr_wf :: "(string \<Rightarrow> wstring) \<Rightarrow> channel_mgr \<Rightarrow> bool" where
  "mgr_wf u m \<longleftrightarrow> map_wf (cm_channels m) \<and>
     (\<forall>k c. map_find (cm_channels m) k = Some c \<longrightarrow> channel_wf c \<and> k = wstrToLower (u (m_name c)))"

definition chat_wf :: "(string \<Rightarrow> wstring) \<Rightarrow> chat \<Rightarrow> bool" where
  "chat_wf u s \<longleftrightarrow> (\<forall>i. mgr_wf u (get_mgr i s))"

lemma get_set_mgr [simp]: "get_mgr j (set_mgr i m s) = (if j = i then m else get_mgr j s)"
  by (cases i; cases j) simp_all

lemma get_mgr_log [simp]: "get_mgr i (log_events es s) = get_mgr i s"
  by (cases i) (simp_all add: log_events_def)

lemma chat_wf_log [simp]: "chat_wf u (log_events es s) = chat_wf u s"
  by (simp add: chat_wf_def)

lemma chat_wf_set: "chat_wf u s \<Longrightarrow> mgr_wf u m \<Longrightarrow> chat_wf u (set_mgr i m s)"
  by (simp add: chat_wf_def)

lemma chat_wf_get: "chat_wf u s \<Longrightarrow> mgr_wf u (get_mgr i s)"
  by (simp add: chat_wf_def)

lemma channel_wf_io [simp]: "channel_wf (c\<lparr>io := es\<rparr>) = channel_wf c"
  by (simp add: channel_wf_def)

lemma mgr_wf_put:
  assumes "mgr_wf u m" "channel_wf c" "k = wstrToLower (u (m_name c))"
  shows "mgr_wf u (m\<lparr>cm_channels := map_set k (c\<lparr>io := []\<rparr>) (cm_channels m)\<rparr>)"
  using assms by (auto simp: mgr_wf_def container_simps wf_intros)

lemma mgr_wf_erase: "mgr_wf u m \<Longrightarrow> mgr_wf u (m\<lparr>cm_channels := map_erase k (cm_channels m)\<rparr>)"
  by (auto simp: mgr_wf_def container_simps wf_intros split: if_splits)

lemma call_channel_wf:
  assumes "chat_wf u s" "call_channel i k f s = Inr s'"
    and "\<And>c c'. f c = Inr c' \<Longrightarrow> channel_wf c \<Longrightarrow> channel_wf c' \<and> m_name c' = m_name c"
  shows "chat_wf u s'"
proof -
  obtain c c' where c: "map_find (cm_channels (get_mgr i s)) k = Some c" "f c = Inr c'"
    and s': "s' = log_events (io c') (set_mgr i ((get_mgr i s)\<lparr>cm_channels :=
        map_set k (c'\<lparr>io := []\<rparr>) (cm_channels (get_mgr i s))\<rparr>) s)"
    using assms(2) by (auto simp: call_channel_def split: option.splits sum.splits)
  have "channel_wf c" "k = wstrToLower (u (m_name c))"
    using chat_wf_get [OF assms(1), of i] c(1) by (auto simp: mgr_wf_def)
  with assms(3) [OF c(2)] have "channel_wf c'" "k = wstrToLower (u (m_name c'))" by auto
  then show ?thesis
    using chat_wf_set [OF assms(1) mgr_wf_put [OF chat_wf_get [OF assms(1)]]] s' by auto
qed

lemma call_channel_exec_wf:
  assumes "chat_wf u s" "call_channel i k (channel_exec w mgr op) s = Inr s'"
  shows "chat_wf u s'"
  using assms by (rule call_channel_wf) (simp add: channel_exec_wf channel_exec_name)

lemma GetJoinChannel_wf:
  assumes "chat_wf (e_Utf8toWStr e) s"
  shows "chat_wf (e_Utf8toWStr e) (snd (GetJoinChannel e i name cid s))"
proof -
  have "m_name (Channel_new l r w name cid t) = name" for l r w t
    by (simp add: Channel_new_def Let_def emit_def split: option.split)
  then show ?thesis
    using assms chat_wf_get [OF assms, of i]
    by (auto simp: GetJoinChannel_def Let_def channel_key_def Channel_new_wf split: option.split
        intro!: chat_wf_set mgr_wf_put)
qed

lemma LeftChannel_mgr_wf: "chat_wf u s \<Longrightarrow> chat_wf u (LeftChannel_mgr e i name s)"
  by (auto simp: LeftChannel_mgr_def Let_def split: option.split intro!: chat_wf_set mgr_wf_erase chat_wf_get)

lemma GetChannel_cases:
  assumes "chat_wf u s" "GetChannel e i name pl pkt s = (k, s')"
  shows "chat_wf u s'"
  using assms by (auto simp: GetChannel_def split: option.splits if_splits)

lemma do_join_wf:
  assumes "chat_wf (e_Utf8toWStr e) s" "do_join e pl cid name pass s = Inr s'"
  shows "chat_wf (e_Utf8toWStr e) s'"
proof -
  have team: "chat_wf (e_Utf8toWStr e) (set_mgr i (setTeam t (get_mgr i s)) s)" for i t
    using chat_wf_get [OF assms(1), of i] by (intro chat_wf_set [OF assms(1)]) (simp add: setTeam_def mgr_wf_def)
  have join: "chat_wf (e_Utf8toWStr e) s2"
    if "GetJoinChannel e i name cid (set_mgr i (setTeam t (get_mgr i s)) s) = (k, s1)"
      "call_channel i k (\<lambda>c. Inr (Join w mgr p pw c)) s1 = Inr s2" for i t k s1 w mgr p pw s2
    using GetJoinChannel_wf [OF team, of i name cid i t] that
      call_channel_exec_wf [of _ s1 i k w mgr "OpJoin p pw" s2] by (simp add: channel_exec_fun)
  show ?thesis
    using assms by (auto simp: do_join_def Let_def split: if_splits option.splits prod.splits intro: join)
qed

lemma do_leave_wf:
  assumes "chat_wf u s" "do_leave e pl name s = Inr s'"
  shows "chat_wf u s'"
proof -
  have "chat_wf u s2" if "GetChannel e i name pl True s = (Some k, s1)"
    "call_channel i k (\<lambda>c. Inr (Leave w mgr p b c)) s1 = Inr s2" for i k s1 w mgr p b s2
    using GetChannel_cases [OF assms(1) that(1)] that(2)
      call_channel_exec_wf [of u s1 i k w mgr "OpLeave p b" s2] by (simp add: channel_exec_fun)
  then show ?thesis
    using assms GetChannel_cases [OF assms(1)]
    by (auto simp: do_leave_def split: if_splits option.splits prod.splits sum.splits intro!: LeftChannel_mgr_wf)
qed

lemma on_channel_wf:
  assumes "chat_wf u s" "on_channel e pl name f s = Inr s'"
    and "\<And>c c'. f c = Inr c' \<Longrightarrow> channel_wf c \<Longrightarrow> channel_wf c' \<and> m_name c' = m_name c"
  shows "chat_wf u s'"
proof -
  have "chat_wf u s2" if "GetChannel e i name pl True s = (Some k, s1)" "call_channel i k f s1 = Inr s2" for i k s1 s2
    using call_channel_wf [OF GetChannel_cases [OF assms(1) that(1)] that(2)] assms(3) by blast
  then show ?thesis
    using assms(1,2) GetChannel_cases [OF assms(1)]
    by (auto simp: on_channel_def crash_def split: option.splits prod.splits sum.splits)
qed

lemma channel_exec_op:
  "channel_exec w mgr op c = Inr c' \<Longrightarrow> channel_wf c \<Longrightarrow> channel_wf c' \<and> m_name c' = m_name c"
  by (simp add: channel_exec_wf channel_exec_name)

lemma with_name_wf:
  assumes "chat_wf u s" "with_name e pl b f s = Inr s'"
    and "\<And>n c c'. Inr (f n c) = Inr c' \<Longrightarrow> channel_wf c \<Longrightarrow> channel_wf c' \<and> m_name c' = m_name c"
  shows "chat_wf u s'"
proof -
  have "chat_wf u s2" if "on_channel e pl k (\<lambda>c. Inr (f n c)) s = Inr s2" for k n s2
    using on_channel_wf [OF assms(1) that] assms(3) [of n] by blast
  then show ?thesis
    using assms(1,2) by (auto simp: with_name_def Let_def split: prod.splits option.splits)
qed

text \<open>The handlers that name a player.\<close>

lemma handle_named_wf:
  assumes wf: "chat_wf u s"
  shows "HandleChannelSetOwner e pl b s = Inr s' \<Longrightarrow> chat_wf u s'"
    and "HandleChannelModerator e pl b s = Inr s' \<Longrightarrow> chat_wf u s'"
    and "HandleChannelUnmoderator e pl b s = Inr s' \<Longrightarrow> chat_wf u s'"
    and "HandleChannelMute e pl b s = Inr s' \<Longrightarrow> chat_wf u s'"
    and "HandleChannelUnmute e pl b s = Inr s' \<Longrightarrow> chat_wf u s'"
    and "HandleChannelInvite e pl b s = Inr s' \<Longrightarrow> chat_wf u s'"
    and "HandleChannelKick e pl b s = Inr s' \<Longrightarrow> chat_wf u s'"
    and "HandleChannelBan e pl b s = Inr s' \<Longrightarrow> chat_wf u s'"
    and "HandleChannelUnban e pl b s = Inr s' \<Longrightarrow> chat_wf u s'"
proof -
  note op = channel_exec_op [of "e_world e" "e_social e"] and name = with_name_wf [OF wf]
  let ?p = "pl_guid pl"
  show "HandleChannelSetOwner e pl b s = Inr s' \<Longrightarrow> chat_wf u s'"
    using op [of "OpSetOwner ?p _", simplified] by (auto simp: HandleChannelSetOwner_def elim!: name)
  show "HandleChannelModerator e pl b s = Inr s' \<Longrightarrow> chat_wf u s'"
    using op [of "OpSetMode ?p _ True True", simplified] by (auto simp: HandleChannelModerator_def elim!: name)
  show "HandleChannelUnmoderator e pl b s = Inr s' \<Longrightarrow> chat_wf u s'"
    using op [of "OpSetMode ?p _ True False", simplified] by (auto simp: HandleChannelUnmoderator_def elim!: name)
  show "HandleChannelMute e pl b s = Inr s' \<Longrightarrow> chat_wf u s'"
    using op [of "OpSetMode ?p _ False True", simplified] by (auto simp: HandleChannelMute_def elim!: name)
  show "HandleChannelUnmute e pl b s = Inr s' \<Longrightarrow> chat_wf u s'"
    using op [of "OpSetMode ?p _ False False", simplified] by (auto simp: HandleChannelUnmute_def elim!: name)
  show "HandleChannelInvite e pl b s = Inr s' \<Longrightarrow> chat_wf u s'"
    using op [of "OpInvite ?p _", simplified] by (auto simp: HandleChannelInvite_def elim!: name)
  show "HandleChannelKick e pl b s = Inr s' \<Longrightarrow> chat_wf u s'"
    using op [of "OpKickOrBan ?p _ False", simplified] by (auto simp: HandleChannelKick_def elim!: name)
  show "HandleChannelBan e pl b s = Inr s' \<Longrightarrow> chat_wf u s'"
    using op [of "OpKickOrBan ?p _ True", simplified] by (auto simp: HandleChannelBan_def elim!: name)
  show "HandleChannelUnban e pl b s = Inr s' \<Longrightarrow> chat_wf u s'"
    using op [of "OpUnBan ?p _", simplified] by (auto simp: HandleChannelUnban_def elim!: name)
qed

lemma handle_chat_wf:
  assumes wf: "chat_wf (e_Utf8toWStr e) s" and h: "handle_chat h e pl b s = Inr s'"
  shows "chat_wf (e_Utf8toWStr e) s'"
proof -
  note op = channel_exec_op [of "e_world e" "e_social e"] and on = on_channel_wf [OF wf]
  let ?p = "pl_guid pl"
  show ?thesis
  proof (cases h)
    case JoinChannel
    with h show ?thesis
      by (auto simp: HandleJoinChannel_def crash_def Let_def split: sum.splits prod.splits intro: do_join_wf [OF wf])
  next
    case LeaveChannel
    with h show ?thesis
      by (auto simp: HandleLeaveChannel_def crash_def Let_def split: sum.splits prod.splits intro: do_leave_wf [OF wf])
  next
    case ChannelPassword
    with h show ?thesis
      by (auto simp: HandleChannelPassword_def Let_def split: prod.splits elim!: on dest: op [of "OpPassword ?p _", simplified])
  next
    case GetChannelMemberCount
    with h show ?thesis
      by (auto simp: HandleGetChannelMemberCount_def Let_def channel_simps split: prod.splits elim!: on)
  next
    case SetChannelWatch
    with h wf show ?thesis by (auto simp: HandleSetChannelWatch_def Let_def split: prod.splits)
  qed (use h op [of "OpList pl", simplified] op [of "OpSendWhoOwner ?p", simplified] op [of "OpAnnounce ?p", simplified] in
      \<open>auto simp: HandleChannelList_def HandleChannelOwner_def HandleChannelAnnouncements_def
        HandleChannelDisplayListQuery_def Let_def split: prod.splits elim!: on dest: handle_named_wf [OF wf]\<close>)
qed

text \<open>One UTF-8 conversion for all packets: that of the server.\<close>

interpretation chat: step_system chat_step "\<lambda>(e, pl, h, b) s. e_Utf8toWStr e = u" "chat_wf u" for u
  by unfold_locales (auto simp: chat_step_def split: sum.split intro: handle_chat_wf)

definition chat_new :: chat where
  "chat_new = \<lparr>cs_alliance = ChannelMgr_new, cs_horde = ChannelMgr_new, cs_log = []\<rparr>"

lemma chat_new_wf: "chat_wf u chat_new"
proof -
  have "get_mgr i chat_new = ChannelMgr_new" for i by (cases i) (simp_all add: chat_new_def)
  then show ?thesis by (simp add: chat_wf_def mgr_wf_def ChannelMgr_new_def container_simps wf_intros)
qed

section \<open>A small server for the concrete instances\<close>

definition ex_env :: chat_env where
  "ex_env = \<lparr>e_world = ex_world, e_social = [], e_chat_channels = (\<lambda>_. None), e_area_flags = (\<lambda>_. None),
     e_guild = (\<lambda>_. 0), e_table = (\<lambda>_. None), e_Utf8toWStr = map of_char,
     e_Utf8toWStr_buf = (\<lambda>s n. Some (map of_char s)), e_WStrToUtf8 = (\<lambda>s. Some (map char_of s))\<rparr>"

text \<open>The packet that joins the custom channel ``Pub'' without a password.\<close>

definition ex_join_packet :: byte_buffer where
  "ex_join_packet = \<lparr>rpos = 0, wpos = 11, storage = [0, 0, 0, 0, 0, 0, 80, 117, 98, 0, 0]\<rparr>"

lemma ex_join_packet_read:
  "HandleJoinChannel e pl ex_join_packet s = crash (do_join e pl 0 ''Pub'' [] s)"
proof -
  note read = bb_read_def read_at_def size_t_id bb_size_def ex_join_packet_def bytes_word_def
  have "bb_read ex_join_packet = (Inr (0, ex_join_packet\<lparr>rpos := 4\<rparr>) :: bb_error + (u32 \<times> byte_buffer))"
    "bb_read (ex_join_packet\<lparr>rpos := 4\<rparr>) = (Inr (0, ex_join_packet\<lparr>rpos := 5\<rparr>) :: bb_error + (u8 \<times> byte_buffer))"
    "bb_read (ex_join_packet\<lparr>rpos := 5\<rparr>) = (Inr (0, ex_join_packet\<lparr>rpos := 6\<rparr>) :: bb_error + (u8 \<times> byte_buffer))"
    by (simp_all add: read)
  moreover have "get_string (ex_join_packet\<lparr>rpos := 6\<rparr>) = (''Pub'', ex_join_packet\<lparr>rpos := 10\<rparr>)" by code_simp
  moreover have "get_string (ex_join_packet\<lparr>rpos := 10\<rparr>) = ([], ex_join_packet\<lparr>rpos := 11\<rparr>)" by code_simp
  ultimately show ?thesis by (simp add: HandleJoinChannel_def Let_def)
qed

lemma ex_join:
  "\<exists>c. map_find (cm_channels (get_mgr AllianceChannelMgr
      (fold chat_step [(ex_env, ex_player 1 ''Ann'', JoinChannel, ex_join_packet)] chat_new))) [112, 117, 98] = Some c"
proof -
  have "forTeam ex_world 469 = Some AllianceChannelMgr" by (simp add: forTeam_def ALLIANCE_def)
  moreover have "wstrToLower [80, 117, 98] = [112, 117, 98]" by (simp add: wstrToLower_def wcharToLower_def)
  ultimately show ?thesis
    by (simp add: chat_step_def ex_join_packet_read crash_def do_join_def may_join_builtin_def GetJoinChannel_def
        call_channel_def ex_env_def ex_player_def chat_new_def ChannelMgr_new_def setTeam_def channel_key_def
        Let_def container_simps map_find_Cons)
qed

section \<open>Properties\<close>

text \<open>C18: whatever packets clients of both factions send to the channel handlers, from an empty server
  on, every registered channel is filed under its own lowered name and has at most one owner, who is a
  moderator.\<close>

theorem registries_consistent:
  assumes "\<forall>(e, pl, h, b) \<in> set packets. e_Utf8toWStr e = u"
    and "map_find (cm_channels (get_mgr i (fold chat_step packets chat_new))) k = Some c"
  shows "k = wstrToLower (u (m_name c)) \<and>
     (\<forall>g pinfo. map_find (ch_players c) g = Some pinfo \<and> pi_IsOwner pinfo \<longrightarrow>
        g = m_ownerGUID c \<and> g \<noteq> 0 \<and> pi_IsModerator pinfo)"
proof -
  have "chat_wf u (fold chat_step packets chat_new)"
    using assms(1) by (intro chat.run_inv chat_new_wf chat.run_ok_all) auto
  then have "mgr_wf u (get_mgr i (fold chat_step packets chat_new))" by (rule chat_wf_get)
  with assms(2) show ?thesis by (auto simp: mgr_wf_def channel_wf_def)
qed

lemma registries_consistent_witness:
  "\<exists>c. map_find (cm_channels (get_mgr AllianceChannelMgr
      (fold chat_step [(ex_env, ex_player 1 ''Ann'', JoinChannel, ex_join_packet)] chat_new))) [112, 117, 98] = Some c
     \<and> [112, 117, 98] = wstrToLower (map of_char (m_name c))"
proof -
  let ?p = "[(ex_env, ex_player 1 ''Ann'', JoinChannel, ex_join_packet)]"
  obtain c where c: "map_find (cm_channels (get_mgr AllianceChannelMgr (fold chat_step ?p chat_new))) [112, 117, 98] = Some c"
    using ex_join by blast
  have "\<forall>(e, pl, h, b) \<in> set ?p. e_Utf8toWStr e = map of_char" by (simp add: ex_env_def)
  from registries_consistent [OF this c] c show ?thesis by auto
qed

text \<open>Names that differ only in case are one channel: after a join under one spelling, a join under
  the other finds the same channel and creates none.\<close>

theorem same_channel_up_to_case:
  assumes "wstrToUpper (e_Utf8toWStr e name) = wstrToUpper (e_Utf8toWStr e name')"
  shows "GetJoinChannel e i name' cid' (snd (GetJoinChannel e i name cid s)) =
     (fst (GetJoinChannel e i name cid s), snd (GetJoinChannel e i name cid s))"
proof -
  have "channel_key e name = channel_key e name'"
    using assms unfolding channel_key_def wstrToLower_def wstrToUpper_def
    by (simp add: list_eq_iff_nth_eq lower_eq_iff_upper_eq cong: conj_cong)
  then show ?thesis
    by (auto simp: GetJoinChannel_def Let_def container_simps split: option.split)
qed

lemma same_channel_up_to_case_witness:
  "GetJoinChannel ex_env AllianceChannelMgr ''PUB'' 0 (snd (GetJoinChannel ex_env AllianceChannelMgr ''Pub'' 0 chat_new)) =
     GetJoinChannel ex_env AllianceChannelMgr ''Pub'' 0 chat_new"
proof -
  have "wstrToUpper (e_Utf8toWStr ex_env ''Pub'') = wstrToUpper (e_Utf8toWStr ex_env ''PUB'')"
    by (simp add: ex_env_def wstrToUpper_def wcharToUpper_def)
  from same_channel_up_to_case [OF this] show ?thesis by simp
qed

text \<open>C32: when the last member of a custom channel leaves it by name, the channel is deleted, and no
  other channel of either faction changes.\<close>

theorem last_leave_deletes_channel:
  assumes "forTeam (e_world e) (pl_team pl) = Some i" "name \<noteq> []"
    and "map_find (cm_channels (get_mgr i s)) (channel_key e name) = Some c"
    and "ch_players c = [(pl_guid pl, pinfo)]" "\<not> IsConstant c"
  shows "\<exists>s'. do_leave e pl name s = Inr s' \<and>
     (\<forall>j k. map_find (cm_channels (get_mgr j s')) k =
        (if j = i \<and> k = channel_key e name then None else map_find (cm_channels (get_mgr j s)) k))"
proof -
  have "map_erase (pl_guid pl) (ch_players c) = []" using assms(4) by (simp add: map_erase_def)
  moreover have "IsOn (pl_guid pl) c" using assms(4) by (simp add: IsOn_def map_find_def)
  ultimately obtain es where "Leave (e_world e) (e_social e) (pl_guid pl) True c = emit es (c\<lparr>ch_players := []\<rparr>)"
    using Leave_shape [of "e_world e" "e_social e" "pl_guid pl" True c] by auto
  then show ?thesis
    using assms
    by (auto simp: do_leave_def GetChannel_def call_channel_def LeftChannel_mgr_def Let_def container_simps
        GetNumPlayers_def channel_simps IsConstant_def)
qed

lemma last_leave_deletes_channel_witness:
  "\<exists>s'. do_leave ex_env (ex_player 1 ''Ann'') ''Pub''
       (chat_new\<lparr>cs_alliance := \<lparr>cm_channels = [([112, 117, 98], ex_channel\<lparr>ch_players := [(1, PlayerInfo_new)]\<rparr>)], cm_team = 469\<rparr>\<rparr>) = Inr s'
     \<and> map_find (cm_channels (get_mgr AllianceChannelMgr s')) [112, 117, 98] = None"
proof -
  let ?c = "ex_channel\<lparr>ch_players := [(1, PlayerInfo_new)]\<rparr>"
  let ?s = "chat_new\<lparr>cs_alliance := \<lparr>cm_channels = [([112, 117, 98], ?c)], cm_team = 469\<rparr>\<rparr>"
  have key: "channel_key ex_env ''Pub'' = [112, 117, 98]"
    by (simp add: channel_key_def ex_env_def wstrToLower_def wcharToLower_def)
  have team: "forTeam (e_world ex_env) (pl_team (ex_player 1 ''Ann'')) = Some AllianceChannelMgr"
    by (simp add: forTeam_def ALLIANCE_def ex_player_def ex_env_def)
  have "map_find (cm_channels (get_mgr AllianceChannelMgr ?s)) (channel_key ex_env ''Pub'') = Some ?c"
    by (simp add: key map_find_def)
  moreover have "ch_players ?c = [(pl_guid (ex_player 1 ''Ann''), PlayerInfo_new)]" "\<not> IsConstant ?c"
    by (simp_all add: ex_player_def IsConstant_def ex_channel_def)
  ultimately show ?thesis
    using last_leave_deletes_channel [OF team, of "''Pub''" ?s ?c PlayerInfo_new] key by (auto simp del: get_mgr.simps)
qed

end
