(* ===== verification/Timers.thy ===== *)
theory Timers
  imports Prelude
begin

text \<open>
  The timers of \<^verbatim>\<open>src/src/server/shared/Utilities/Timer.h\<close>. Signed members are integers with the
  wrap-around of their width written out (\<open>int32\<close>, \<open>int64\<close>); \<^verbatim>\<open>uint32\<close> times are words. The lemmas give
  the elapsed time \<^verbatim>\<open>getMSTimeDiff\<close> computes, also across an overflow of the clock, and show that an
  interval timer loses no time however the updates fall.
\<close>

definition int64 :: "int \<Rightarrow> int" where
  "int64 x = signed_take_bit 63 x"

lemma int64_id: "- (2 ^ 63) \<le> x \<Longrightarrow> x < 2 ^ 63 \<Longrightarrow> int64 x = x"
  unfolding int64_def by (rule signed_take_bit_int_eq_self) simp_all

section \<open>Clock differences\<close>

definition getMSTimeDiff :: "u32 \<Rightarrow> u32 \<Rightarrow> u32" where
  "getMSTimeDiff oldMSTime newMSTime =
     (if oldMSTime > newMSTime then (0xFFFFFFFF - oldMSTime) + newMSTime else newMSTime - oldMSTime)"

text \<open>\<open>now\<close> is \<^verbatim>\<open>getMSTime()\<close>.\<close>

definition GetMSTimeDiffToNow :: "u32 \<Rightarrow> u32 \<Rightarrow> u32" where
  "GetMSTimeDiffToNow now oldMSTime = getMSTimeDiff oldMSTime now"

section \<open>\<^verbatim>\<open>IntervalTimer\<close>\<close>

record interval_timer =
  it_interval :: int
  it_current :: int

definition IntervalTimer_new :: interval_timer where
  "IntervalTimer_new = \<lparr>it_interval = 0, it_current = 0\<rparr>"

definition it_Update :: "int \<Rightarrow> interval_timer \<Rightarrow> interval_timer" where
  "it_Update diff t =
     (let t = t\<lparr>it_current := int64 (it_current t + diff)\<rparr>
      in if it_current t < 0 then t\<lparr>it_current := 0\<rparr> else t)"

definition it_Passed :: "interval_timer \<Rightarrow> bool" where
  "it_Passed t \<longleftrightarrow> it_current t \<ge> it_interval t"

definition it_Reset :: "interval_timer \<Rightarrow> interval_timer" where
  "it_Reset t = (if it_current t \<ge> it_interval t then t\<lparr>it_current := int64 (it_current t - it_interval t)\<rparr> else t)"

definition it_SetCurrent :: "int \<Rightarrow> interval_timer \<Rightarrow> interval_timer" where
  "it_SetCurrent current t = t\<lparr>it_current := current\<rparr>"

definition it_SetInterval :: "int \<Rightarrow> interval_timer \<Rightarrow> interval_timer" where
  "it_SetInterval interval t = t\<lparr>it_interval := interval\<rparr>"

section \<open>\<^verbatim>\<open>TimeTracker\<close> and \<^verbatim>\<open>TimeTrackerSmall\<close>\<close>

record time_tracker =
  i_expiryTime :: int

definition TimeTracker_new :: "int \<Rightarrow> time_tracker" where
  "TimeTracker_new expiry = \<lparr>i_expiryTime = expiry\<rparr>"

definition tt_Update :: "int \<Rightarrow> time_tracker \<Rightarrow> time_tracker" where
  "tt_Update diff t = t\<lparr>i_expiryTime := int64 (i_expiryTime t - diff)\<rparr>"

definition tt_Passed :: "time_tracker \<Rightarrow> bool" where
  "tt_Passed t \<longleftrightarrow> i_expiryTime t \<le> 0"

definition tt_Reset :: "int \<Rightarrow> time_tracker \<Rightarrow> time_tracker" where
  "tt_Reset interval t = t\<lparr>i_expiryTime := interval\<rparr>"

definition TimeTrackerSmall_new :: "u32 \<Rightarrow> time_tracker" where
  "TimeTrackerSmall_new expiry = \<lparr>i_expiryTime = sint expiry\<rparr>"

definition tts_Update :: "int \<Rightarrow> time_tracker \<Rightarrow> time_tracker" where
  "tts_Update diff t = t\<lparr>i_expiryTime := int32 (i_expiryTime t - diff)\<rparr>"

definition tts_Reset :: "u32 \<Rightarrow> time_tracker \<Rightarrow> time_tracker" where
  "tts_Reset interval t = t\<lparr>i_expiryTime := sint interval\<rparr>"

section \<open>\<^verbatim>\<open>PeriodicTimer\<close>\<close>

record periodic_timer =
  i_period :: int
  i_expireTime :: int

definition PeriodicTimer_new :: "int \<Rightarrow> int \<Rightarrow> periodic_timer" where
  "PeriodicTimer_new period start_time = \<lparr>i_period = period, i_expireTime = start_time\<rparr>"

text \<open>\<^verbatim>\<open>i_period\<close> and \<^verbatim>\<open>diff\<close> are compared as signed numbers; the chosen one is added in unsigned
  arithmetic, which wraps to the same \<^verbatim>\<open>int32\<close>.\<close>

definition pt_Update :: "u32 \<Rightarrow> periodic_timer \<Rightarrow> bool \<times> periodic_timer" where
  "pt_Update diff t =
     (let t = t\<lparr>i_expireTime := int32 (i_expireTime t - uint diff)\<rparr>
      in if i_expireTime t > 0 then (False, t)
         else (True, t\<lparr>i_expireTime :=
                int32 (i_expireTime t + (if i_period t > sint diff then i_period t else uint diff))\<rparr>))"

definition pt_SetPeriodic :: "int \<Rightarrow> int \<Rightarrow> periodic_timer \<Rightarrow> periodic_timer" where
  "pt_SetPeriodic period start_time t = t\<lparr>i_expireTime := start_time, i_period := period\<rparr>"

definition pt_TUpdate :: "int \<Rightarrow> periodic_timer \<Rightarrow> periodic_timer" where
  "pt_TUpdate diff t = t\<lparr>i_expireTime := int32 (i_expireTime t - diff)\<rparr>"

definition pt_TPassed :: "periodic_timer \<Rightarrow> bool" where
  "pt_TPassed t \<longleftrightarrow> i_expireTime t \<le> 0"

definition pt_TReset :: "int \<Rightarrow> int \<Rightarrow> periodic_timer \<Rightarrow> periodic_timer" where
  "pt_TReset diff period t = t\<lparr>i_expireTime := int32 (i_expireTime t + (if period > diff then period else diff))\<rparr>"

text \<open>The way the world loop drives an interval timer: update, and reset when the interval has passed.
  The counter says how often it fired.\<close>

fun it_run :: "int list \<Rightarrow> interval_timer \<times> nat \<Rightarrow> interval_timer \<times> nat" where
  "it_run [] tn = tn"
| "it_run (d # ds) (t, n) =
     (let t = it_Update d t
      in if it_Passed t then it_run ds (it_Reset t, Suc n) else it_run ds (t, n))"

section \<open>Lemmas\<close>

text \<open>The difference modulo \<open>2^32\<close> is one short when the clock wrapped in between.\<close>

lemma getMSTimeDiff_eq:
  "getMSTimeDiff old new = (if old > new then new - old - 1 else new - old)"
proof -
  have "(0xFFFFFFFF :: u32) = - 1" by simp
  then show ?thesis unfolding getMSTimeDiff_def by (simp only: algebra_simps) simp
qed

lemma it_run_conserves:
  assumes "0 \<le> it_interval t" "0 \<le> it_current t" "\<forall>d \<in> set ds. 0 \<le> d"
    and "it_current t + sum_list ds < 2 ^ 63" "it_run ds (t, n) = (t', n')"
  shows "n \<le> n' \<and> it_interval t' = it_interval t \<and> 0 \<le> it_current t'
     \<and> it_current t' + int (n' - n) * it_interval t = it_current t + sum_list ds"
  using assms
proof (induction ds arbitrary: t n)
  case (Cons d ds)
  let ?t = "it_Update d t"
  have "0 \<le> sum_list ds" using Cons.prems(3) by (induction ds) auto
  then have cur: "it_current ?t = it_current t + d" "it_interval ?t = it_interval t"
    using Cons.prems(2,3,4) by (simp_all add: it_Update_def Let_def int64_id)
  show ?case
  proof (cases "it_Passed ?t")
    case True
    then have r: "it_current (it_Reset ?t) = it_current t + d - it_interval t" "it_interval (it_Reset ?t) = it_interval t"
      using Cons.prems(1-4) cur \<open>0 \<le> sum_list ds\<close> by (simp_all add: it_Reset_def it_Passed_def int64_id)
    have "Suc n \<le> n' \<and> it_interval t' = it_interval (it_Reset ?t) \<and> 0 \<le> it_current t'
        \<and> it_current t' + int (n' - Suc n) * it_interval (it_Reset ?t) = it_current (it_Reset ?t) + sum_list ds"
      by (rule Cons.IH) (use Cons.prems True r cur in \<open>auto simp: it_Passed_def Let_def\<close>)
    then show ?thesis using r by (auto simp: algebra_simps of_nat_diff)
  next
    case False
    have "n \<le> n' \<and> it_interval t' = it_interval ?t \<and> 0 \<le> it_current t'
        \<and> it_current t' + int (n' - n) * it_interval ?t = it_current ?t + sum_list ds"
      by (rule Cons.IH) (use Cons.prems False cur in \<open>auto simp: Let_def\<close>)
    then show ?thesis using cur by auto
  qed
qed auto

section \<open>Properties\<close>

text \<open>\<^verbatim>\<open>getMSTimeDiff\<close> returns the elapsed milliseconds modulo \<open>2^32\<close> while the clock does not
  overflow between the two readings, and one millisecond less when it does.\<close>

theorem ms_time_diff:
  "getMSTimeDiff (of_nat a) (of_nat (a + e)) =
     (if (of_nat a :: u32) > of_nat (a + e) then of_nat e - 1 else of_nat e)"
  by (simp add: getMSTimeDiff_eq)

text \<open>C34: an interval timer loses no time: whatever the updates are, the time they bring equals the
  intervals that fired plus what is left in the timer.\<close>

theorem interval_timer_conserves_time:
  assumes "0 \<le> interval" "\<forall>d \<in> set ds. 0 \<le> d" "sum_list ds < 2 ^ 63"
  shows "let (t, fired) = it_run ds (it_SetInterval interval IntervalTimer_new, 0)
     in 0 \<le> it_current t \<and> it_current t + int fired * interval = sum_list ds"
  using it_run_conserves [of "it_SetInterval interval IntervalTimer_new" ds 0] assms
  by (auto simp: it_SetInterval_def IntervalTimer_new_def split: prod.split)

lemma interval_timer_conserves_time_witness:
  "let (t, fired) = it_run [40, 70, 15] (it_SetInterval 50 IntervalTimer_new, 0)
     in 0 \<le> it_current t \<and> it_current t + int fired * 50 = 125"
  using interval_timer_conserves_time [of 50 "[40, 70, 15]"] by simp

end
