(* ===== verification/Event_Processor.thy ===== *)
theory Event_Processor
  imports Prelude
begin

text \<open>
  The event queue every unit owns: \<^verbatim>\<open>src/src/server/shared/Utilities/EventProcessor.cpp/.h\<close>. Event objects live
  in a heap indexed by addresses, so that a second \<^verbatim>\<open>delete\<close> or a call through a dangling pointer is the
  error \<open>UseAfterFree\<close>; the multimap is its sequence of entries in iteration order. The virtual methods
  of the event classes are a record of functions: \<^verbatim>\<open>Execute\<close> may use the whole processor (it re-adds
  events), \<^verbatim>\<open>Abort\<close>, \<^verbatim>\<open>IsDeletable\<close> and the destructor act on the rest of the world only. The loop of
  \<^verbatim>\<open>Update\<close> may run forever when \<^verbatim>\<open>Execute\<close> keeps adding due events, so it is a partial function whose
  value \<open>None\<close> means that it does not return. The locale \<open>event_contract\<close> states what an event class has
  to promise; under it \<^verbatim>\<open>Update\<close> returns, frees nothing twice and leaves no due event behind.
\<close>

section \<open>Data\<close>

record basic_event =
  to_Abort :: bool
  m_addTime :: u64
  m_execTime :: u64

text \<open>The virtual calls and deletions the processor makes, in order.\<close>

datatype ev_call = Executed nat u64 u32 | Aborted nat u64 | Deleted nat

record 'w processor =
  m_time :: u64
  m_events :: "(u64 \<times> nat) list"
  m_aborting :: bool
  ev_heap :: "nat \<Rightarrow> basic_event option"
  ev_log :: "ev_call list"
  ev_world :: 'w

record 'w event_class =
  vExecute :: "nat \<Rightarrow> u64 \<Rightarrow> u32 \<Rightarrow> 'w processor \<Rightarrow> cpp_error + bool \<times> 'w processor"
  vIsDeletable :: "nat \<Rightarrow> 'w \<Rightarrow> bool"
  vAbort :: "nat \<Rightarrow> u64 \<Rightarrow> 'w \<Rightarrow> 'w"
  vDestroy :: "nat \<Rightarrow> 'w \<Rightarrow> cpp_error + 'w"

text \<open>The class \<^verbatim>\<open>BasicEvent\<close> with its default methods.\<close>

definition BasicEvent_new :: "u64 \<Rightarrow> u64 \<Rightarrow> basic_event" where
  "BasicEvent_new add exec = \<lparr>to_Abort = False, m_addTime = add, m_execTime = exec\<rparr>"

definition BasicEvent_class :: "'w event_class" where
  "BasicEvent_class =
     \<lparr>vExecute = (\<lambda>e e_time p_time s. Inr (True, s)), vIsDeletable = (\<lambda>e w. True),
      vAbort = (\<lambda>e e_time w. w), vDestroy = (\<lambda>e w. Inr w)\<rparr>"

section \<open>Operations\<close>

definition EventProcessor_new :: "(nat \<Rightarrow> basic_event option) \<Rightarrow> 'w \<Rightarrow> 'w processor" where
  "EventProcessor_new heap w =
     \<lparr>m_time = 0, m_events = [], m_aborting = False, ev_heap = heap, ev_log = [], ev_world = w\<rparr>"

text \<open>\<^verbatim>\<open>std::multimap::insert\<close>: behind every entry whose key is not greater.\<close>

fun mm_insert :: "u64 \<Rightarrow> nat \<Rightarrow> (u64 \<times> nat) list \<Rightarrow> (u64 \<times> nat) list" where
  "mm_insert k e [] = [(k, e)]"
| "mm_insert k e ((k', e') # es) = (if k < k' then (k, e) # (k', e') # es else (k', e') # mm_insert k e es)"

definition ev_logged :: "ev_call \<Rightarrow> 'w processor \<Rightarrow> 'w processor" where
  "ev_logged x s = s\<lparr>ev_log := ev_log s @ [x]\<rparr>"

definition delete_event :: "'w event_class \<Rightarrow> nat \<Rightarrow> 'w processor \<Rightarrow> cpp_error + 'w processor" where
  "delete_event c e s =
     (case ev_heap s e of
        None \<Rightarrow> Inl UseAfterFree
      | Some ev \<Rightarrow>
          (case vDestroy c e (ev_world s) of
             Inl x \<Rightarrow> Inl x
           | Inr w \<Rightarrow> Inr (ev_logged (Deleted e) (s\<lparr>ev_heap := (ev_heap s)(e := None), ev_world := w\<rparr>))))"

definition abort_event :: "'w event_class \<Rightarrow> nat \<Rightarrow> 'w processor \<Rightarrow> 'w processor" where
  "abort_event c e s = ev_logged (Aborted e (m_time s)) (s\<lparr>ev_world := vAbort c e (m_time s) (ev_world s)\<rparr>)"

definition AddEvent :: "nat \<Rightarrow> u64 \<Rightarrow> bool \<Rightarrow> 'w processor \<Rightarrow> cpp_error + 'w processor" where
  "AddEvent e e_time set_addtime s =
     (case ev_heap s e of
        None \<Rightarrow> Inl UseAfterFree
      | Some ev \<Rightarrow>
          (let ev = (if set_addtime then ev\<lparr>m_addTime := m_time s\<rparr> else ev);
               ev = ev\<lparr>m_execTime := e_time\<rparr>
           in Inr (s\<lparr>ev_heap := (ev_heap s)(e \<mapsto> ev), m_events := mm_insert e_time e (m_events s)\<rparr>)))"

definition CalculateTime :: "u64 \<Rightarrow> 'w processor \<Rightarrow> u64" where
  "CalculateTime t_offset s = m_time s + t_offset"

text \<open>The condition and the body of the loop of \<^verbatim>\<open>Update\<close>.\<close>

definition first_due :: "'w processor \<Rightarrow> bool" where
  "first_due s = (case m_events s of [] \<Rightarrow> False | (k, e) # es \<Rightarrow> k \<le> m_time s)"

definition Update_body :: "'w event_class \<Rightarrow> u32 \<Rightarrow> 'w processor \<Rightarrow> cpp_error + 'w processor" where
  "Update_body c p_time s =
     (case m_events s of
        [] \<Rightarrow> Inr s
      | (k, e) # es \<Rightarrow>
          (let s = s\<lparr>m_events := es\<rparr>
           in case ev_heap s e of
                None \<Rightarrow> Inl UseAfterFree
              | Some ev \<Rightarrow>
                  if \<not> to_Abort ev
                  then (case vExecute c e (m_time s) p_time (ev_logged (Executed e (m_time s) p_time) s) of
                          Inl x \<Rightarrow> Inl x
                        | Inr (fin, s) \<Rightarrow> if fin then delete_event c e s else Inr s)
                  else delete_event c e (abort_event c e s)))"

partial_function (option) Update_loop ::
  "'w event_class \<Rightarrow> u32 \<Rightarrow> 'w processor \<Rightarrow> (cpp_error + 'w processor) option" where
  "Update_loop c p_time s =
     (if first_due s
      then (case Update_body c p_time s of Inl x \<Rightarrow> Some (Inl x) | Inr s' \<Rightarrow> Update_loop c p_time s')
      else Some (Inr s))"

definition Update :: "'w event_class \<Rightarrow> u32 \<Rightarrow> 'w processor \<Rightarrow> (cpp_error + 'w processor) option" where
  "Update c p_time s = Update_loop c p_time (s\<lparr>m_time := m_time s + ucast p_time\<rparr>)"

text \<open>The loop of \<^verbatim>\<open>KillAllEvents\<close>; its list is what the iterator has still to visit.\<close>

fun kill_events :: "'w event_class \<Rightarrow> bool \<Rightarrow> (u64 \<times> nat) list \<Rightarrow> 'w processor \<Rightarrow> cpp_error + 'w processor" where
  "kill_events c force [] s = Inr s"
| "kill_events c force ((k, e) # es) s =
     (case ev_heap s e of
        None \<Rightarrow> Inl UseAfterFree
      | Some ev \<Rightarrow>
          (let s = s\<lparr>ev_heap := (ev_heap s)(e \<mapsto> ev\<lparr>to_Abort := True\<rparr>)\<rparr>;
               s = abort_event c e s
           in if force \<or> vIsDeletable c e (ev_world s)
              then (case delete_event c e s of
                      Inl x \<Rightarrow> Inl x
                    | Inr s \<Rightarrow> kill_events c force es
                                (if \<not> force then s\<lparr>m_events := remove1 (k, e) (m_events s)\<rparr> else s))
              else kill_events c force es s))"

definition KillAllEvents :: "'w event_class \<Rightarrow> bool \<Rightarrow> 'w processor \<Rightarrow> cpp_error + 'w processor" where
  "KillAllEvents c force s =
     (case kill_events c force (m_events s) (s\<lparr>m_aborting := True\<rparr>) of
        Inl x \<Rightarrow> Inl x
      | Inr s \<Rightarrow> Inr (if force then s\<lparr>m_events := []\<rparr> else s))"

definition EventProcessor_destroy :: "'w event_class \<Rightarrow> 'w processor \<Rightarrow> cpp_error + 'w processor" where
  "EventProcessor_destroy c s = KillAllEvents c True s"

section \<open>Well-formed queues\<close>

definition ep_wf :: "'w processor \<Rightarrow> bool" where
  "ep_wf s \<longleftrightarrow> sorted (map fst (m_events s)) \<and> distinct (map snd (m_events s))
     \<and> (\<forall>e \<in> snd ` set (m_events s). ev_heap s e \<noteq> None)"

text \<open>The entries that are due, and a weight for them.\<close>

definition due_entries :: "'w processor \<Rightarrow> (u64 \<times> nat) list" where
  "due_entries s = filter (\<lambda>(k, e). k \<le> m_time s) (m_events s)"

definition due_cost :: "('w \<Rightarrow> nat \<Rightarrow> nat) \<Rightarrow> 'w processor \<Rightarrow> nat" where
  "due_cost cost s = (\<Sum>(k, e) \<leftarrow> due_entries s. cost (ev_world s) e)"

lemma mm_insert_set [simp]: "set (mm_insert k e es) = insert (k, e) (set es)"
  by (induction k e es rule: mm_insert.induct) auto

lemma mm_insert_sorted: "sorted (map fst es) \<Longrightarrow> sorted (map fst (mm_insert k e es))"
  by (induction k e es rule: mm_insert.induct) (auto simp: image_iff)

lemma mm_insert_distinct:
  "distinct (map snd es) \<Longrightarrow> e \<notin> snd ` set es \<Longrightarrow> distinct (map snd (mm_insert k e es))"
  by (induction k e es rule: mm_insert.induct) (auto simp: image_iff)

lemma mm_insert_sum:
  fixes f :: "u64 \<times> nat \<Rightarrow> nat"
  shows "sum_list (map f (filter P (mm_insert k e es))) =
    (if P (k, e) then f (k, e) else 0) + sum_list (map f (filter P es))"
  by (induction k e es rule: mm_insert.induct) auto

text \<open>Every operation keeps the queue well formed.\<close>

lemma AddEvent_wf:
  assumes "ep_wf s" "e \<notin> snd ` set (m_events s)" "ev_heap s e \<noteq> None"
  shows "\<exists>s'. AddEvent e t b s = Inr s' \<and> ep_wf s' \<and> m_time s' = m_time s \<and> ev_world s' = ev_world s
    \<and> m_events s' = mm_insert t e (m_events s) \<and> ev_heap s' e \<noteq> None"
  using assms
  by (auto simp: AddEvent_def ep_wf_def Let_def intro: mm_insert_sorted mm_insert_distinct)

lemma ep_wf_pop: "ep_wf s \<Longrightarrow> m_events s = (k, e) # es \<Longrightarrow>
    ep_wf (s\<lparr>m_events := es\<rparr>) \<and> e \<notin> snd ` set es \<and> ev_heap s e \<noteq> None"
  by (auto simp: ep_wf_def)

lemma ep_wf_logged [simp]: "ep_wf (ev_logged x s) = ep_wf s"
  by (simp add: ep_wf_def ev_logged_def)

lemma ep_wf_abort [simp]: "ep_wf (abort_event c e s) = ep_wf s"
  by (simp add: ep_wf_def ev_logged_def abort_event_def)

lemma ev_logged_fields [simp]:
  "m_time (ev_logged x s) = m_time s" "m_events (ev_logged x s) = m_events s"
  "ev_heap (ev_logged x s) = ev_heap s" "ev_world (ev_logged x s) = ev_world s"
  "m_aborting (ev_logged x s) = m_aborting s" "ev_log (ev_logged x s) = ev_log s @ [x]"
  by (simp_all add: ev_logged_def)

lemma abort_event_fields [simp]:
  "m_time (abort_event c e s) = m_time s" "m_events (abort_event c e s) = m_events s"
  "ev_heap (abort_event c e s) = ev_heap s" "ev_world (abort_event c e s) = vAbort c e (m_time s) (ev_world s)"
  "m_aborting (abort_event c e s) = m_aborting s" "ev_log (abort_event c e s) = ev_log s @ [Aborted e (m_time s)]"
  by (simp_all add: abort_event_def)

lemma delete_event_ok:
  assumes "ep_wf s" "e \<notin> snd ` set (m_events s)" "ev_heap s e \<noteq> None" "vDestroy c e (ev_world s) = Inr w"
  shows "\<exists>s'. delete_event c e s = Inr s' \<and> ep_wf s' \<and> m_time s' = m_time s \<and> m_events s' = m_events s
    \<and> ev_world s' = w \<and> ev_heap s' = (ev_heap s)(e := None)"
  using assms by (auto simp: delete_event_def ep_wf_def)

lemma due_entries_fields:
  "m_time s' = m_time s \<Longrightarrow> m_events s' = m_events s \<Longrightarrow> due_entries s' = due_entries s"
  by (simp add: due_entries_def)

lemma sum_list_mono_on:
  fixes f g :: "'a \<Rightarrow> nat"
  shows "(\<And>x. x \<in> set xs \<Longrightarrow> f x \<le> g x) \<Longrightarrow> sum_list (map f xs) \<le> sum_list (map g xs)"
  by (induction xs) (auto intro: add_mono)

lemma due_cost_mono:
  assumes "due_entries s' = due_entries s"
    and "\<And>e. e \<in> snd ` set (m_events s) \<Longrightarrow> cost (ev_world s') e \<le> cost (ev_world s) e"
  shows "due_cost cost s' \<le> due_cost cost s"
  unfolding due_cost_def assms(1)
  by (rule sum_list_mono_on) (use assms(2) in \<open>force simp: due_entries_def image_iff\<close>)

lemma due_cost_pop:
  "m_events s = (k, e) # es \<Longrightarrow> k \<le> m_time s \<Longrightarrow>
   due_cost cost s = cost (ev_world s) e + due_cost cost (s\<lparr>m_events := es\<rparr>)"
  by (simp add: due_cost_def due_entries_def)

text \<open>Deleting an event that is not queued costs no other event anything.\<close>

lemma delete_event_cost:
  assumes "ep_wf s" "e \<notin> snd ` set (m_events s)" "ev_heap s e \<noteq> None" "vDestroy c e (ev_world s) = Inr w"
    and "m_time s0 = m_time s" "m_events s0 = m_events s"
    and "\<And>e'. e' \<noteq> e \<Longrightarrow> cost w e' \<le> cost (ev_world s0) e'"
  shows "\<exists>s'. delete_event c e s = Inr s' \<and> ep_wf s' \<and> m_time s' = m_time s \<and> ev_world s' = w
    \<and> ev_heap s' = (ev_heap s)(e := None) \<and> due_cost cost s' \<le> due_cost cost s0"
proof -
  obtain s' where d: "delete_event c e s = Inr s'" "ep_wf s'" "m_time s' = m_time s"
      "m_events s' = m_events s" "ev_world s' = w" "ev_heap s' = (ev_heap s)(e := None)"
    using delete_event_ok[OF assms(1-4)] by blast
  have "due_cost cost s' \<le> due_cost cost s0"
  proof (rule due_cost_mono)
    show "due_entries s' = due_entries s0" by (rule due_entries_fields) (simp_all add: d assms(5,6))
    show "cost (ev_world s') e' \<le> cost (ev_world s0) e'" if "e' \<in> snd ` set (m_events s0)" for e'
      using that assms(2,6) assms(7)[of e'] d(5) by (cases "e' = e") auto
  qed
  then show ?thesis using d by blast
qed

lemma not_first_due: "ep_wf s \<Longrightarrow> \<not> first_due s \<Longrightarrow> (k, e) \<in> set (m_events s) \<Longrightarrow> m_time s < k"
  by (cases "m_events s") (force simp: ep_wf_def first_due_def)+

section \<open>What an event class promises\<close>

text \<open>
  \<open>inv\<close> is what the class keeps of its own state at a processor time, \<open>cost\<close> how often an event can
  still run during one update. An \<^verbatim>\<open>Execute\<close> that returns true has not queued its event again and leaves
  it fit for deletion; what it queues lowers the total cost of the due events.
\<close>

locale event_contract =
  fixes c :: "'w event_class"
    and inv :: "u64 \<Rightarrow> (nat \<Rightarrow> basic_event option) \<Rightarrow> 'w \<Rightarrow> bool"
    and cost :: "'w \<Rightarrow> nat \<Rightarrow> nat"
  assumes execute: "\<lbrakk>ep_wf s; inv (m_time s) (ev_heap s) (ev_world s); e \<notin> snd ` set (m_events s);
      ev_heap s e = Some ev; \<not> to_Abort ev\<rbrakk>
    \<Longrightarrow> \<exists>fin s'. vExecute c e (m_time s) p s = Inr (fin, s') \<and> ep_wf s' \<and> m_time s' = m_time s
          \<and> inv (m_time s) (ev_heap s') (ev_world s') \<and> due_cost cost s' < cost (ev_world s) e + due_cost cost s
          \<and> (fin \<longrightarrow> e \<notin> snd ` set (m_events s') \<and> ev_heap s' e \<noteq> None
               \<and> (\<exists>w. vDestroy c e (ev_world s') = Inr w \<and> inv (m_time s) ((ev_heap s')(e := None)) w
                    \<and> (\<forall>e'. e' \<noteq> e \<longrightarrow> cost w e' \<le> cost (ev_world s') e')))"
    and abort: "\<lbrakk>inv t h w; h e = Some ev; to_Abort ev\<rbrakk>
    \<Longrightarrow> \<exists>w'. vDestroy c e (vAbort c e t w) = Inr w' \<and> inv t (h(e := None)) w'
          \<and> (\<forall>e'. e' \<noteq> e \<longrightarrow> cost w' e' \<le> cost w e')"
    and cost_pos: "0 < cost w e"
begin

lemma abort_branch:
  assumes wf: "ep_wf s" and inv: "inv (m_time s) (ev_heap s) (ev_world s)" and q: "m_events s = (k, e) # es" "k \<le> m_time s"
    and ev: "ev_heap s e = Some ev" "to_Abort ev"
  shows "\<exists>s'. Update_body c p s = Inr s' \<and> ep_wf s' \<and> m_time s' = m_time s
    \<and> inv (m_time s) (ev_heap s') (ev_world s') \<and> due_cost cost s' < due_cost cost s"
proof -
  let ?s = "s\<lparr>m_events := es\<rparr>"
  let ?a = "abort_event c e ?s"
  obtain w where w: "vDestroy c e (ev_world ?a) = Inr w" "inv (m_time s) ((ev_heap s)(e := None)) w"
      "\<And>e'. e' \<noteq> e \<Longrightarrow> cost w e' \<le> cost (ev_world s) e'"
    using abort[OF inv ev] by auto
  have "ep_wf ?a" "e \<notin> snd ` set (m_events ?a)" "ev_heap ?a e \<noteq> None" using ep_wf_pop[OF wf q(1)] by simp_all
  from delete_event_cost[OF this w(1), of ?s cost] w(3)
  obtain s' where d: "delete_event c e ?a = Inr s'" "ep_wf s'" "m_time s' = m_time s" "ev_world s' = w"
      "ev_heap s' = (ev_heap s)(e := None)" "due_cost cost s' \<le> due_cost cost ?s"
    by auto
  then show ?thesis using w(2) due_cost_pop[OF q, of cost] cost_pos[of "ev_world s" e] q ev by (auto simp: Update_body_def)
qed

lemma execute_branch:
  assumes wf: "ep_wf s" and inv: "inv (m_time s) (ev_heap s) (ev_world s)" and q: "m_events s = (k, e) # es" "k \<le> m_time s"
    and ev: "ev_heap s e = Some ev" "\<not> to_Abort ev"
  shows "\<exists>s'. Update_body c p s = Inr s' \<and> ep_wf s' \<and> m_time s' = m_time s
    \<and> inv (m_time s) (ev_heap s') (ev_world s') \<and> due_cost cost s' < due_cost cost s"
proof -
  let ?x = "ev_logged (Executed e (m_time s) p) (s\<lparr>m_events := es\<rparr>)"
  have xc: "due_cost cost ?x = due_cost cost (s\<lparr>m_events := es\<rparr>)" by (simp add: due_cost_def due_entries_def)
  obtain fin s1 where x: "vExecute c e (m_time s) p ?x = Inr (fin, s1)" "ep_wf s1" "m_time s1 = m_time s"
      "inv (m_time s) (ev_heap s1) (ev_world s1)" "due_cost cost s1 < due_cost cost s"
      "fin \<Longrightarrow> e \<notin> snd ` set (m_events s1) \<and> ev_heap s1 e \<noteq> None
             \<and> (\<exists>w. vDestroy c e (ev_world s1) = Inr w \<and> inv (m_time s) ((ev_heap s1)(e := None)) w
                  \<and> (\<forall>e'. e' \<noteq> e \<longrightarrow> cost w e' \<le> cost (ev_world s1) e'))"
    using execute[of ?x e ev p] ep_wf_pop[OF wf q(1)] inv ev xc due_cost_pop[OF q, of cost] by auto
  show ?thesis
  proof (cases fin)
    case True
    then obtain w where w: "e \<notin> snd ` set (m_events s1)" "ev_heap s1 e \<noteq> None"
        "vDestroy c e (ev_world s1) = Inr w" "inv (m_time s) ((ev_heap s1)(e := None)) w"
        "\<And>e'. e' \<noteq> e \<Longrightarrow> cost w e' \<le> cost (ev_world s1) e'" using x(6) by auto
    from delete_event_cost[OF x(2) w(1-3), of s1 cost] w(5)
    obtain s' where d: "delete_event c e s1 = Inr s'" "ep_wf s'" "m_time s' = m_time s1" "ev_world s' = w"
        "ev_heap s' = (ev_heap s1)(e := None)" "due_cost cost s' \<le> due_cost cost s1"
      by auto
    show ?thesis using True q ev x(1,3,5) d w(4) by (auto simp: Update_body_def)
  next
    case False
    then show ?thesis using q ev x by (auto simp: Update_body_def)
  qed
qed

lemma body_ok:
  assumes "ep_wf s" "inv (m_time s) (ev_heap s) (ev_world s)" "first_due s"
  shows "\<exists>s'. Update_body c p s = Inr s' \<and> ep_wf s' \<and> m_time s' = m_time s
    \<and> inv (m_time s) (ev_heap s') (ev_world s') \<and> due_cost cost s' < due_cost cost s"
proof -
  obtain k e es where q: "m_events s = (k, e) # es" "k \<le> m_time s"
    using assms(3) by (auto simp: first_due_def split: list.splits)
  then obtain ev where "ev_heap s e = Some ev" using ep_wf_pop[OF assms(1)] by blast
  then show ?thesis using abort_branch[OF assms(1,2) q] execute_branch[OF assms(1,2) q] by blast
qed

lemma loop_ok:
  "ep_wf s \<Longrightarrow> inv (m_time s) (ev_heap s) (ev_world s) \<Longrightarrow>
   \<exists>s'. Update_loop c p s = Some (Inr s') \<and> ep_wf s' \<and> m_time s' = m_time s
      \<and> inv (m_time s) (ev_heap s') (ev_world s') \<and> \<not> first_due s'"
proof (induction "due_cost cost s" arbitrary: s rule: less_induct)
  case less
  show ?case
  proof (cases "first_due s")
    case True
    then obtain s1 where b: "Update_body c p s = Inr s1" "ep_wf s1" "m_time s1 = m_time s"
        "inv (m_time s) (ev_heap s1) (ev_world s1)" "due_cost cost s1 < due_cost cost s"
      using body_ok[OF less.prems True] by blast
    then show ?thesis using less.hyps[OF b(5,2)] True by (simp add: Update_loop.simps[of c p s])
  qed (use less.prems in \<open>simp add: Update_loop.simps[of c p s]\<close>)
qed

lemma update_ok:
  assumes "ep_wf s" "inv (m_time s + ucast p) (ev_heap s) (ev_world s)"
  shows "\<exists>s'. Update c p s = Some (Inr s') \<and> ep_wf s' \<and> m_time s' = m_time s + ucast p
     \<and> inv (m_time s') (ev_heap s') (ev_world s') \<and> (\<forall>(k, e) \<in> set (m_events s'). m_time s' < k)"
proof -
  let ?s = "s\<lparr>m_time := m_time s + ucast p\<rparr>"
  have "ep_wf ?s" using assms(1) by (simp add: ep_wf_def)
  from loop_ok[OF this, of p] assms(2) show ?thesis
    by (auto simp: Update_def dest: not_first_due)
qed

end

section \<open>Events with the default methods\<close>

interpretation basic: event_contract "BasicEvent_class :: 'w event_class" "\<lambda>t h w. True" "\<lambda>w e. 1"
  by unfold_locales (auto simp: BasicEvent_class_def)

text \<open>What the processor calls on one due entry.\<close>

definition ev_calls :: "(nat \<Rightarrow> basic_event option) \<Rightarrow> u64 \<Rightarrow> u32 \<Rightarrow> nat \<Rightarrow> ev_call list" where
  "ev_calls h t p e =
     [case h e of Some ev \<Rightarrow> if to_Abort ev then Aborted e t else Executed e t p | None \<Rightarrow> Executed e t p, Deleted e]"

lemma ev_calls_cong: "(\<And>x. x \<in> set xs \<Longrightarrow> h (snd x) = h' (snd x)) \<Longrightarrow>
    concat (map (\<lambda>(k, e). ev_calls h t p e) xs) = concat (map (\<lambda>(k, e). ev_calls h' t p e) xs)"
  by (intro arg_cong[where f = concat] map_cong) (simp_all add: ev_calls_def split_beta)

lemma basic_body:
  assumes "ep_wf s" "m_events s = (k, e) # es"
  shows "Update_body BasicEvent_class p s =
    Inr (s\<lparr>m_events := es, ev_heap := (ev_heap s)(e := None), ev_log := ev_log s @ ev_calls (ev_heap s) (m_time s) p e\<rparr>)"
  using ep_wf_pop[OF assms] assms(2)
  by (auto simp: Update_body_def BasicEvent_class_def delete_event_def abort_event_def ev_logged_def ev_calls_def)

lemma basic_loop:
  assumes "ep_wf s"
  shows "Update_loop BasicEvent_class p s = Some (Inr (s\<lparr>
      m_events := dropWhile (\<lambda>(k, e). k \<le> m_time s) (m_events s),
      ev_heap := (\<lambda>e. if e \<in> snd ` set (takeWhile (\<lambda>(k, e). k \<le> m_time s) (m_events s)) then None else ev_heap s e),
      ev_log := ev_log s @ concat (map (\<lambda>(k, e). ev_calls (ev_heap s) (m_time s) p e)
        (takeWhile (\<lambda>(k, e). k \<le> m_time s) (m_events s)))\<rparr>))"
  using assms
proof (induction "m_events s" arbitrary: s)
  case Nil
  then show ?case by (simp add: Update_loop.simps first_due_def)
next
  case (Cons x es)
  obtain k e where x: "x = (k, e)" by fastforce
  have q: "m_events s = (k, e) # es" using Cons.hyps(2) x by simp
  show ?case
  proof (cases "k \<le> m_time s")
    case True
    let ?s = "s\<lparr>m_events := es, ev_heap := (ev_heap s)(e := None),
      ev_log := ev_log s @ ev_calls (ev_heap s) (m_time s) p e\<rparr>"
    let ?d = "takeWhile (\<lambda>(k, e). k \<le> m_time s) es"
    have pop: "ep_wf (s\<lparr>m_events := es\<rparr>)" "e \<notin> snd ` set es" using ep_wf_pop[OF Cons.prems q] by auto
    then have wf: "ep_wf ?s" by (auto simp: ep_wf_def image_iff)
    have fresh: "x \<in> set ?d \<Longrightarrow> snd x \<noteq> e" for x using pop(2) set_takeWhileD by fastforce
    have calls: "concat (map (\<lambda>(k, e'). ev_calls ((ev_heap s)(e := None)) (m_time s) p e') ?d) =
      concat (map (\<lambda>(k, e'). ev_calls (ev_heap s) (m_time s) p e') ?d)"
      by (rule ev_calls_cong) (use fresh in auto)
    have "Update_loop BasicEvent_class p s = Update_loop BasicEvent_class p ?s"
      using True by (simp add: Update_loop.simps[of _ p s] first_due_def q basic_body[OF Cons.prems q])
    also have "\<dots> = Some (Inr (?s\<lparr>m_events := dropWhile (\<lambda>(k, e). k \<le> m_time s) es,
        ev_heap := (\<lambda>e'. if e' \<in> snd ` set ?d then None else ((ev_heap s)(e := None)) e'),
        ev_log := ev_log ?s @ concat (map (\<lambda>(k, e'). ev_calls ((ev_heap s)(e := None)) (m_time s) p e') ?d)\<rparr>))"
      using Cons.hyps(1)[of ?s] wf by (simp cong: if_cong)
    finally show ?thesis using True q calls by (auto simp: fun_eq_iff)
  next
    case False
    then show ?thesis by (simp add: Update_loop.simps[of _ p s] first_due_def q)
  qed
qed

section \<open>Properties\<close>

text \<open>C19: events with the default methods run exactly once, in the order of their times and, among equal times,
  of their insertion: the calls of \<^verbatim>\<open>Update\<close> are one \<^verbatim>\<open>Execute\<close> (or \<^verbatim>\<open>Abort\<close>, when the event was
  flagged) and one \<^verbatim>\<open>delete\<close> for each due entry from the front of the queue; the others stay.\<close>

theorem update_runs_due_in_order:
  assumes "ep_wf s"
  shows "\<exists>s'. Update BasicEvent_class p s = Some (Inr s')
    \<and> (\<exists>due. m_events s = due @ m_events s'
        \<and> (\<forall>(k, e) \<in> set due. k \<le> m_time s' \<and> ev_heap s' e = None)
        \<and> (\<forall>(k, e) \<in> set (m_events s'). m_time s' < k \<and> ev_heap s' e = ev_heap s e)
        \<and> ev_log s' = ev_log s @ concat (map (\<lambda>(k, e). ev_calls (ev_heap s) (m_time s') p e) due))
    \<and> m_time s' = m_time s + ucast p"
proof -
  let ?s = "s\<lparr>m_time := m_time s + ucast p\<rparr>"
  let ?P = "\<lambda>(k, e). k \<le> m_time ?s"
  have wf: "ep_wf ?s" using assms by (simp add: ep_wf_def)
  define s' where "s' = ?s\<lparr>m_events := dropWhile ?P (m_events s),
      ev_heap := (\<lambda>e. if e \<in> snd ` set (takeWhile ?P (m_events s)) then None else ev_heap s e),
      ev_log := ev_log s @ concat (map (\<lambda>(k, e). ev_calls (ev_heap s) (m_time ?s) p e) (takeWhile ?P (m_events s)))\<rparr>"
  have s': "Update BasicEvent_class p s = Some (Inr s')" "m_time s' = m_time ?s"
      "m_events s' = dropWhile ?P (m_events s)"
      "ev_heap s' = (\<lambda>e. if e \<in> snd ` set (takeWhile ?P (m_events s)) then None else ev_heap s e)"
      "ev_log s' = ev_log s @ concat (map (\<lambda>(k, e). ev_calls (ev_heap s) (m_time s') p e) (takeWhile ?P (m_events s)))"
    using basic_loop[OF wf, of p] by (simp_all add: Update_def s'_def cong: if_cong)
  define d where "d = takeWhile ?P (m_events s)"
  have d: "m_events s = d @ m_events s'" by (simp add: d_def s'(3))
  have "\<forall>(k, e) \<in> set (m_events s'). m_time s' < k" using basic.update_ok[OF assms, of p] s'(1) by auto
  moreover have disj: "snd ` set d \<inter> snd ` set (m_events s') = {}"
    using assms unfolding ep_wf_def d map_append distinct_append set_map by blast
  have "ev_heap s' e = ev_heap s e" if "(k, e) \<in> set (m_events s')" for k e
  proof -
    have "e \<notin> snd ` set d" using that disj by force
    then show ?thesis by (simp add: s'(4) d_def)
  qed
  moreover have "k \<le> m_time s' \<and> ev_heap s' e = None" if "(k, e) \<in> set d" for k e
  proof -
    have "e \<in> snd ` set d" using that by force
    moreover have "k \<le> m_time ?s" using that set_takeWhileD[of "(k, e)" ?P] unfolding d_def by auto
    ultimately show ?thesis by (simp add: s'(2,4) d_def)
  qed
  moreover have "ev_log s' = ev_log s @ concat (map (\<lambda>(k, e). ev_calls (ev_heap s) (m_time s') p e) d)"
    unfolding d_def by (rule s'(5))
  ultimately show ?thesis using s'(1,2) d by (intro exI[of _ s'] conjI exI[of _ d]) auto
qed

text \<open>A processor with three events, the second one flagged for abortion and the third one not yet due.\<close>

definition ex_processor :: "unit processor" where
  "ex_processor =
     \<lparr>m_time = 0, m_events = [(1, 10), (2, 11), (9, 12)], m_aborting = False,
      ev_heap = (\<lambda>e. Some \<lparr>to_Abort = (e = 11), m_addTime = 0, m_execTime = 0\<rparr>), ev_log = [], ev_world = ()\<rparr>"

lemma ex_processor_wf: "ep_wf ex_processor"
  by (simp add: ep_wf_def ex_processor_def)

theorem update_runs_due_in_order_witness:
  "ep_wf ex_processor \<and> (\<exists>s'. Update BasicEvent_class 5 ex_processor = Some (Inr s') \<and> m_time s' = 5)"
  using update_runs_due_in_order[OF ex_processor_wf, of 5] ex_processor_wf by (auto simp: ex_processor_def)

end
