(* ===== verification/Spell_Event.thy ===== *)
theory Spell_Event
  imports Event_Processor
begin

text \<open>
  The event class the spell system puts into the queue of a caster: \<^verbatim>\<open>SpellEvent\<close> of
  \<^verbatim>\<open>src/src/server/game/Spells/Spell.cpp\<close>, with the part of \<^verbatim>\<open>Spell\<close> it schedules on: the state machine
  of \<^verbatim>\<open>update\<close>, the target scan of \<^verbatim>\<open>handle_delayed\<close>, \<^verbatim>\<open>cancel\<close> and \<^verbatim>\<open>finish\<close>. The members that drive the
  queue (state, timer, delay times, reference flags, targets) are modelled; what these functions do to
  the caster, the targets and the client is recorded as a list of actions in the order of the calls. What
  the spell asks of the world, and \<^verbatim>\<open>Spell::cast\<close>, are the fields of \<open>spell_env\<close>. The world of the processor
  maps the address of an event to its spell. The lemmas show that the class keeps the contract of the
  event processor, so that one \<^verbatim>\<open>Update\<close> runs a spell at most twice and returns, and what
  \<^verbatim>\<open>KillAllEvents\<close> does with spells that are being executed.
\<close>

section \<open>Data\<close>

datatype SpellState = SPELL_STATE_NULL | SPELL_STATE_PREPARING | SPELL_STATE_CASTING
  | SPELL_STATE_FINISHED | SPELL_STATE_IDLE | SPELL_STATE_DELAYED

text \<open>Calls into the caster, the targets and the client.\<close>

datatype spell_action = UpdatePointers | CancelGlobalCooldown | RestoreSpellMods | RemoveSpellMods | ClearAppliedMods
  | SendInterrupted | SendCastResult | SendChannelUpdate | RemoveTargetAuras | LeaveSelfContainer | RemoveDynObject
  | RemoveGameObject | FinishEffects bool | QuestCredit | SetSpellModTakingSpell bool | PrepareTargetProcessing
  | FinishTargetProcessing | HandleImmediatePhase | HandleFinishPhase | DoAllEffectOnTarget u64

record target_info =
  ti_targetGUID :: u64
  ti_processed :: bool
  ti_timeDelay :: u64

record spell =
  m_spellState :: SpellState
  m_timer :: int
  m_casttime :: int
  m_autoRepeat :: bool
  m_delayStart :: u64
  m_delayMoment :: u64
  m_referencedFromCurrentSpell :: bool
  m_executedCurrently :: bool
  m_immediateHandled :: bool
  m_UniqueTargetInfo :: "target_info list"
  m_UniqueGOTargetInfo :: "target_info list"
  m_hasDst :: bool
  sp_actions :: "spell_action list"

text \<open>
  \<open>se_cast\<close> is \<^verbatim>\<open>cast(skipCheck)\<close>. The others are the conditions of \<^verbatim>\<open>update\<close> on the world: the explicit
  unit target is gone, the caster is a player, the caster moves and the spell is interrupted by that,
  a channelled spell has targets left, the caster or its owner is a player, and the kind of the spell.
\<close>

record spell_env =
  se_cast :: "bool \<Rightarrow> spell \<Rightarrow> spell"
  se_target_removed :: "spell \<Rightarrow> bool"
  se_caster_player :: "spell \<Rightarrow> bool"
  se_movement_interrupts :: "spell \<Rightarrow> bool"
  se_channel_targets :: "spell \<Rightarrow> bool"
  se_next_melee :: "spell \<Rightarrow> bool"
  se_triggered :: "spell \<Rightarrow> bool"
  se_channeled :: "spell \<Rightarrow> bool"
  se_player_credit :: "spell \<Rightarrow> bool"

section \<open>The spell\<close>

definition Spell_IsDeletable :: "spell \<Rightarrow> bool" where
  "Spell_IsDeletable sp \<longleftrightarrow> \<not> m_referencedFromCurrentSpell sp \<and> \<not> m_executedCurrently sp"

definition act :: "spell_action list \<Rightarrow> spell \<Rightarrow> spell" where
  "act as sp = sp\<lparr>sp_actions := sp_actions sp @ as\<rparr>"

text \<open>\<open>FinishEffects\<close> stands for what \<^verbatim>\<open>finish\<close> does to the caster once the state is set.\<close>

definition Spell_finish :: "bool \<Rightarrow> spell \<Rightarrow> spell" where
  "Spell_finish ok sp =
     (if m_spellState sp = SPELL_STATE_FINISHED then sp
      else act [FinishEffects ok] (sp\<lparr>m_spellState := SPELL_STATE_FINISHED\<rparr>))"

definition cancel_actions :: "spell_env \<Rightarrow> SpellState \<Rightarrow> spell \<Rightarrow> spell_action list" where
  "cancel_actions E oldState sp =
     (case oldState of
        SPELL_STATE_PREPARING \<Rightarrow>
          [CancelGlobalCooldown] @ (if se_caster_player E sp then [RestoreSpellMods] else []) @ [SendInterrupted, SendCastResult]
      | SPELL_STATE_DELAYED \<Rightarrow> [SendInterrupted, SendCastResult]
      | SPELL_STATE_CASTING \<Rightarrow>
          [RemoveTargetAuras, SendChannelUpdate, SendInterrupted, SendCastResult]
          @ (if se_caster_player E sp then [RemoveSpellMods] else []) @ [ClearAppliedMods]
      | _ \<Rightarrow> [])"

definition Spell_cancel :: "spell_env \<Rightarrow> spell \<Rightarrow> spell" where
  "Spell_cancel E sp =
     (if m_spellState sp = SPELL_STATE_FINISHED then sp
      else (let oldState = m_spellState sp;
                sp = sp\<lparr>m_spellState := SPELL_STATE_FINISHED\<rparr>;
                sp = sp\<lparr>m_autoRepeat := False\<rparr>;
                sp = act (cancel_actions E oldState sp) sp;
                sp = sp\<lparr>m_referencedFromCurrentSpell := False\<rparr>;
                sp = act ([LeaveSelfContainer, RemoveDynObject] @ (if se_channeled E sp then [RemoveGameObject] else [])) sp;
                sp = sp\<lparr>m_spellState := oldState\<rparr>
            in Spell_finish False sp))"

text \<open>The count-down both branches of \<^verbatim>\<open>update\<close> share.\<close>

definition Spell_tick :: "u32 \<Rightarrow> spell \<Rightarrow> spell" where
  "Spell_tick difftime sp =
     (if m_timer sp > 0
      then (if uint difftime \<ge> m_timer sp then sp\<lparr>m_timer := 0\<rparr> else sp\<lparr>m_timer := m_timer sp - uint difftime\<rparr>)
      else sp)"

definition Spell_update :: "spell_env \<Rightarrow> u32 \<Rightarrow> spell \<Rightarrow> spell" where
  "Spell_update E difftime sp =
     (let sp = act [UpdatePointers] sp
      in if se_target_removed E sp then Spell_cancel E sp
         else (let sp = (if se_caster_player E sp \<and> m_timer sp \<noteq> 0 \<and> se_movement_interrupts E sp
                            \<and> \<not> se_next_melee E sp \<and> \<not> m_autoRepeat sp \<and> \<not> se_triggered E sp
                         then Spell_cancel E sp else sp)
               in case m_spellState sp of
                    SPELL_STATE_PREPARING \<Rightarrow>
                      (let sp = Spell_tick difftime sp
                       in if m_timer sp = 0 \<and> \<not> se_next_melee E sp \<and> \<not> m_autoRepeat sp
                          then se_cast E (m_casttime sp = 0) sp else sp)
                  | SPELL_STATE_CASTING \<Rightarrow>
                      (let sp = (if m_timer sp \<noteq> 0
                                 then Spell_tick difftime
                                   (if \<not> se_channel_targets E sp then Spell_finish True (act [SendChannelUpdate] sp) else sp)
                                 else sp)
                       in if m_timer sp = 0
                          then (let sp = act [SendChannelUpdate] sp;
                                    sp = (if \<not> m_autoRepeat sp \<and> \<not> se_next_melee E sp \<and> se_player_credit E sp
                                          then act [QuestCredit] sp else sp)
                                in Spell_finish True sp)
                          else sp)
                  | _ \<Rightarrow> sp))"

text \<open>The loops of \<^verbatim>\<open>handle_delayed\<close> over the unit and the game object targets; they differ in what they do
  to a target that is hit now. The result has the next time, the targets and the targets hit.\<close>

definition scan_target ::
  "(target_info \<Rightarrow> target_info) \<Rightarrow> bool \<Rightarrow> u64 \<Rightarrow> u64 \<Rightarrow> target_info \<Rightarrow> u64 \<times> target_info \<times> spell_action list" where
  "scan_target hit single t_offset next_time h =
     (if \<not> ti_processed h
      then (if single \<or> ti_timeDelay h \<le> t_offset then (next_time, hit h, [DoAllEffectOnTarget (ti_targetGUID h)])
            else if next_time = 0 \<or> ti_timeDelay h < next_time then (ti_timeDelay h, h, []) else (next_time, h, []))
      else (next_time, h, []))"

fun scan_targets ::
  "(target_info \<Rightarrow> target_info) \<Rightarrow> bool \<Rightarrow> u64 \<Rightarrow> u64 \<Rightarrow> target_info list \<Rightarrow> u64 \<times> target_info list \<times> spell_action list" where
  "scan_targets hit single t_offset next_time [] = (next_time, [], [])"
| "scan_targets hit single t_offset next_time (h # hs) =
     (let (n, h, as) = scan_target hit single t_offset next_time h;
          (n, hs, as') = scan_targets hit single t_offset n hs
      in (n, h # hs, as @ as'))"

text \<open>\<^verbatim>\<open>DoAllEffectOnTarget\<close> marks its target as processed; a unit's hit is moved to the present first.\<close>

definition hit_unit :: "u64 \<Rightarrow> target_info \<Rightarrow> target_info" where
  "hit_unit t_offset h = h\<lparr>ti_timeDelay := t_offset, ti_processed := True\<rparr>"

definition hit_go :: "target_info \<Rightarrow> target_info" where
  "hit_go h = h\<lparr>ti_processed := True\<rparr>"

definition Spell_handle_delayed :: "spell_env \<Rightarrow> u64 \<Rightarrow> spell \<Rightarrow> u64 \<times> spell" where
  "Spell_handle_delayed E t_offset sp =
     (let mods = (\<lambda>b. if se_caster_player E sp then [SetSpellModTakingSpell b] else []);
          sp = act ([UpdatePointers] @ mods True @ [PrepareTargetProcessing]) sp;
          sp = (if \<not> m_immediateHandled sp then (act [HandleImmediatePhase] sp)\<lparr>m_immediateHandled := True\<rparr> else sp);
          single = m_hasDst sp;
          (next_time, us, as) = scan_targets (hit_unit t_offset) single t_offset 0 (m_UniqueTargetInfo sp);
          (next_time, gs, as') = scan_targets hit_go single t_offset next_time (m_UniqueGOTargetInfo sp);
          sp = act (as @ as') (sp\<lparr>m_UniqueTargetInfo := us, m_UniqueGOTargetInfo := gs\<rparr>);
          sp = act ([FinishTargetProcessing] @ mods False) sp
      in if next_time = 0 then (0, Spell_finish True (act [HandleFinishPhase] sp)) else (next_time, sp))"

section \<open>The event class\<close>

type_synonym spells = "nat \<Rightarrow> spell"

definition SpellEvent_readd :: "nat \<Rightarrow> u64 \<Rightarrow> spells processor \<Rightarrow> cpp_error + bool \<times> spells processor" where
  "SpellEvent_readd e t s = (case AddEvent e t False s of Inl x \<Rightarrow> Inl x | Inr s \<Rightarrow> Inr (False, s))"

definition SpellEvent_Execute ::
  "spell_env \<Rightarrow> nat \<Rightarrow> u64 \<Rightarrow> u32 \<Rightarrow> spells processor \<Rightarrow> cpp_error + bool \<times> spells processor" where
  "SpellEvent_Execute E e e_time p_time s =
     (let put = (\<lambda>sp. s\<lparr>ev_world := (ev_world s)(e := sp)\<rparr>);
          sp = ev_world s e;
          sp = (if m_spellState sp \<noteq> SPELL_STATE_FINISHED then Spell_update E p_time sp else sp)
      in case m_spellState sp of
           SPELL_STATE_FINISHED \<Rightarrow>
             if Spell_IsDeletable sp then Inr (True, put sp) else SpellEvent_readd e (e_time + 1) (put sp)
         | SPELL_STATE_DELAYED \<Rightarrow>
             if m_delayStart sp \<noteq> 0
             then (let t_offset = e_time - m_delayStart sp;
                       (n_offset, sp) = Spell_handle_delayed E t_offset sp
                   in if n_offset \<noteq> 0 then SpellEvent_readd e (m_delayStart sp + n_offset) (put sp)
                      else SpellEvent_readd e (e_time + 1) (put sp))
             else SpellEvent_readd e (e_time + m_delayMoment sp) (put (sp\<lparr>m_delayStart := e_time\<rparr>))
         | _ \<Rightarrow> SpellEvent_readd e (e_time + 1) (put sp))"

definition SpellEvent_Abort :: "spell_env \<Rightarrow> nat \<Rightarrow> u64 \<Rightarrow> spells \<Rightarrow> spells" where
  "SpellEvent_Abort E e e_time w =
     (if m_spellState (w e) \<noteq> SPELL_STATE_FINISHED then w(e := Spell_cancel E (w e)) else w)"

definition SpellEvent_IsDeletable :: "nat \<Rightarrow> spells \<Rightarrow> bool" where
  "SpellEvent_IsDeletable e w = Spell_IsDeletable (w e)"

text \<open>The destructor cancels the spell, then deletes it or fails on its assertion.\<close>

definition SpellEvent_destroy :: "spell_env \<Rightarrow> nat \<Rightarrow> spells \<Rightarrow> cpp_error + spells" where
  "SpellEvent_destroy E e w =
     (let w = (if m_spellState (w e) \<noteq> SPELL_STATE_FINISHED then w(e := Spell_cancel E (w e)) else w)
      in if Spell_IsDeletable (w e) then Inr w else Inl AssertFailure)"

definition SpellEvent_class :: "spell_env \<Rightarrow> spells event_class" where
  "SpellEvent_class E =
     \<lparr>vExecute = SpellEvent_Execute E, vIsDeletable = SpellEvent_IsDeletable,
      vAbort = SpellEvent_Abort E, vDestroy = SpellEvent_destroy E\<rparr>"

section \<open>Lemmas on the spell\<close>

text \<open>
  What holds of a spell whose event is queued, at processor time \<open>t\<close>: it is not being cast right now, a
  running delay has started in the past, and no flight time is as long as the clock can count.
\<close>

definition delays_ok :: "target_info list \<Rightarrow> bool" where
  "delays_ok hs \<longleftrightarrow> (\<forall>h \<in> set hs. \<not> ti_processed h \<longrightarrow> ti_timeDelay h < 2 ^ 62)"

definition spell_ok :: "u64 \<Rightarrow> spell \<Rightarrow> bool" where
  "spell_ok t sp \<longleftrightarrow> \<not> m_executedCurrently sp \<and> m_delayMoment sp < 2 ^ 62
     \<and> (m_spellState sp = SPELL_STATE_DELAYED \<longrightarrow> m_delayStart sp \<le> t)
     \<and> delays_ok (m_UniqueTargetInfo sp) \<and> delays_ok (m_UniqueGOTargetInfo sp)"

text \<open>A spell whose delay is running can be executed once per update, any other one twice.\<close>

definition spell_cost :: "spells \<Rightarrow> nat \<Rightarrow> nat" where
  "spell_cost w e = (if m_spellState (w e) = SPELL_STATE_DELAYED \<and> m_delayStart (w e) \<noteq> 0 then 1 else 2)"

text \<open>Of a flagged event, the destructor also needs that its spell is not referenced once it is finished.\<close>

definition spells_inv :: "u64 \<Rightarrow> (nat \<Rightarrow> basic_event option) \<Rightarrow> spells \<Rightarrow> bool" where
  "spells_inv t h w \<longleftrightarrow> 0 < t \<and> t < 2 ^ 63 \<and> (\<forall>e. h e \<noteq> None \<longrightarrow> spell_ok t (w e))
     \<and> (\<forall>e ev. h e = Some ev \<and> to_Abort ev \<and> m_spellState (w e) = SPELL_STATE_FINISHED
          \<longrightarrow> \<not> m_referencedFromCurrentSpell (w e))"

lemma Spell_cancel_finished [simp]: "m_spellState (Spell_cancel E sp) = SPELL_STATE_FINISHED"
  by (simp add: Spell_cancel_def Spell_finish_def act_def Let_def)

lemma Spell_cancel_flags [simp]:
  "m_executedCurrently (Spell_cancel E sp) = m_executedCurrently sp"
  "m_spellState sp \<noteq> SPELL_STATE_FINISHED \<Longrightarrow> \<not> m_referencedFromCurrentSpell (Spell_cancel E sp)"
  by (simp_all add: Spell_cancel_def Spell_finish_def act_def Let_def)

lemma Spell_cancel_ok: "spell_ok t sp \<Longrightarrow> spell_ok t (Spell_cancel E sp)"
  by (simp add: spell_ok_def Spell_cancel_def Spell_finish_def act_def Let_def)

lemma Spell_finish_ok: "spell_ok t sp \<Longrightarrow> spell_ok t (Spell_finish ok sp)"
  by (simp add: spell_ok_def Spell_finish_def act_def)

lemma Spell_tick_ok: "spell_ok t sp \<Longrightarrow> spell_ok t (Spell_tick d sp)"
  by (simp add: spell_ok_def Spell_tick_def)

text \<open>The scan reports the first hit that is still ahead, or zero when there is none.\<close>

definition scan_next_ok :: "u64 \<Rightarrow> u64 \<Rightarrow> bool" where
  "scan_next_ok t n \<longleftrightarrow> n = 0 \<or> t < n \<and> n < 2 ^ 62"

lemma scan_target_ok:
  assumes "\<And>h. ti_processed (hit h)" "\<not> ti_processed h \<Longrightarrow> ti_timeDelay h < 2 ^ 62" "scan_next_ok t n"
    "scan_target hit sg t n h = (n', h', as)"
  shows "scan_next_ok t n' \<and> (\<not> ti_processed h' \<longrightarrow> ti_timeDelay h' < 2 ^ 62)"
  using assms by (auto simp: scan_target_def scan_next_ok_def split: if_splits)

lemma scan_targets_ok:
  assumes "\<And>h. ti_processed (hit h)" "delays_ok hs" "scan_next_ok t n" "scan_targets hit sg t n hs = (n', hs', as)"
  shows "scan_next_ok t n' \<and> delays_ok hs'"
  using assms(2-4)
proof (induction hs arbitrary: n n' hs' as)
  case (Cons h hs)
  obtain n1 h1 as1 where h: "scan_target hit sg t n h = (n1, h1, as1)" by (rule prod_cases3)
  obtain n2 hs2 as2 where hs: "scan_targets hit sg t n1 hs = (n2, hs2, as2)" by (rule prod_cases3)
  have "scan_next_ok t n1 \<and> (\<not> ti_processed h1 \<longrightarrow> ti_timeDelay h1 < 2 ^ 62)"
    using scan_target_ok[OF assms(1) _ Cons.prems(2) h] Cons.prems(1) by (simp add: delays_ok_def)
  with Cons.IH[OF _ _ hs] Cons.prems h hs show ?case by (auto simp: delays_ok_def)
qed simp

lemma act_fields [simp]:
  "m_spellState (act as sp) = m_spellState sp" "m_timer (act as sp) = m_timer sp" "m_delayStart (act as sp) = m_delayStart sp"
  "m_hasDst (act as sp) = m_hasDst sp" "m_immediateHandled (act as sp) = m_immediateHandled sp"
  "m_UniqueTargetInfo (act as sp) = m_UniqueTargetInfo sp" "m_UniqueGOTargetInfo (act as sp) = m_UniqueGOTargetInfo sp"
  "m_executedCurrently (act as sp) = m_executedCurrently sp" "m_delayMoment (act as sp) = m_delayMoment sp"
  "m_referencedFromCurrentSpell (act as sp) = m_referencedFromCurrentSpell sp" "m_autoRepeat (act as sp) = m_autoRepeat sp"
  "spell_ok t (act as sp) = spell_ok t sp"
  by (simp_all add: act_def spell_ok_def)

lemma handle_delayed_ok:
  assumes "spell_ok t sp" "Spell_handle_delayed E off sp = (n, sp')"
  shows "spell_ok t sp'" "scan_next_ok off n" "m_delayStart sp' = m_delayStart sp"
proof -
  obtain n1 us as1 where us: "scan_targets (hit_unit off) (m_hasDst sp) off 0 (m_UniqueTargetInfo sp) = (n1, us, as1)" by (rule prod_cases3)
  obtain n2 gs as2 where gs: "scan_targets hit_go (m_hasDst sp) off n1 (m_UniqueGOTargetInfo sp) = (n2, gs, as2)" by (rule prod_cases3)
  have 1: "scan_next_ok off n1 \<and> delays_ok us"
    by (rule scan_targets_ok[OF _ _ _ us]) (use assms(1) in \<open>auto simp: hit_unit_def spell_ok_def scan_next_ok_def\<close>)
  have 2: "scan_next_ok off n2 \<and> delays_ok gs"
    by (rule scan_targets_ok[OF _ _ _ gs]) (use assms(1) 1 in \<open>auto simp: hit_go_def spell_ok_def\<close>)
  have n: "n = n2" using assms(2) us gs by (auto simp: Spell_handle_delayed_def Let_def split: if_splits)
  show "spell_ok t sp'" "m_delayStart sp' = m_delayStart sp"
    using assms us gs 1 2 by (auto simp: Spell_handle_delayed_def Let_def Spell_finish_def spell_ok_def split: if_splits)
  show "scan_next_ok off n" using 2 n by simp
qed

section \<open>The class keeps the contract of the processor\<close>

text \<open>What \<^verbatim>\<open>Spell::cast\<close> is relied on for: it returns with the spell not executed any more, and a delay it
  starts has not begun or begins in the past.\<close>

locale spell_casting =
  fixes E :: spell_env
  assumes cast_ok: "spell_ok t sp \<Longrightarrow> spell_ok t (se_cast E skip sp)"
begin

lemma update_ok: "spell_ok t sp \<Longrightarrow> spell_ok t (Spell_update E d sp)"
  by (simp add: Spell_update_def Let_def Spell_cancel_ok Spell_finish_ok Spell_tick_ok cast_ok split: SpellState.split)

lemma update_delayed:
  assumes "m_spellState sp = SPELL_STATE_DELAYED" "m_spellState (Spell_update E d sp) = SPELL_STATE_DELAYED"
  shows "m_delayStart (Spell_update E d sp) = m_delayStart sp"
  using assms by (auto simp: Spell_update_def Let_def split: if_splits)

end

text \<open>Queueing an executed event again: the cost of the queue rises by the cost of the event if it is due.\<close>

lemma due_sum_other:
  assumes "e \<notin> snd ` set (m_events s)"
  shows "(\<Sum>(k, x) \<leftarrow> due_entries s. spell_cost ((ev_world s)(e := sp)) x) = due_cost spell_cost s"
proof -
  have "spell_cost ((ev_world s)(e := sp)) (snd x) = spell_cost (ev_world s) (snd x)" if "x \<in> set (due_entries s)" for x
  proof -
    have "snd x \<in> snd ` set (m_events s)" using that by (auto simp: due_entries_def)
    then have "snd x \<noteq> e" using assms by auto
    then show ?thesis by (simp add: spell_cost_def)
  qed
  then show ?thesis unfolding due_cost_def by (intro arg_cong[where f = sum_list] map_cong) (simp_all add: split_beta)
qed

lemma due_cost_readd:
  assumes "ep_wf s" "e \<notin> snd ` set (m_events s)" "ev_heap s e = Some ev"
    and "s1 = s\<lparr>ev_world := (ev_world s)(e := sp)\<rparr>"
  shows "\<exists>s'. SpellEvent_readd e k s1 = Inr (False, s') \<and> ep_wf s' \<and> m_time s' = m_time s
    \<and> ev_world s' = (ev_world s)(e := sp) \<and> (\<exists>ev'. ev_heap s' = (ev_heap s)(e \<mapsto> ev') \<and> to_Abort ev' = to_Abort ev)
    \<and> due_cost spell_cost s' = (if k \<le> m_time s then spell_cost (ev_world s') e else 0) + due_cost spell_cost s"
proof -
  have wf: "ep_wf s1" using assms(1,4) by (simp add: ep_wf_def)
  obtain s' where s': "AddEvent e k False s1 = Inr s'" "ep_wf s'" "m_time s' = m_time s" "ev_world s' = (ev_world s)(e := sp)"
      "m_events s' = mm_insert k e (m_events s)"
    using AddEvent_wf[OF wf, of e k False] assms by auto
  have h: "ev_heap s' = (ev_heap s)(e \<mapsto> ev\<lparr>m_execTime := k\<rparr>)" using s'(1) assms(3,4) by (auto simp: AddEvent_def Let_def)
  note other = due_sum_other[OF assms(2), of sp]
  have "due_cost spell_cost s' = (if k \<le> m_time s then spell_cost (ev_world s') e else 0)
      + sum_list (map (\<lambda>(k, x). spell_cost (ev_world s') x) (due_entries s))"
    by (simp add: due_cost_def due_entries_def s'(3,5) mm_insert_sum)
  then show ?thesis using s' h other by (auto simp: SpellEvent_readd_def due_cost_def)
qed

lemma uint_add_u64: "uint a + uint b < 2 ^ 64 \<Longrightarrow> uint (a + b :: u64) = uint a + uint b"
  by (simp add: uint_word_ariths)

lemma next_tick:
  fixes t :: u64
  assumes "t < 2 ^ 63"
  shows "t < t + 1"
proof -
  have "uint t < 2 ^ 63" using assms by (simp add: word_less_def)
  then show ?thesis using uint_add_u64[of t 1] by (simp add: word_less_def)
qed

lemma next_hit:
  fixes t ds n :: u64
  assumes "ds \<le> t" "t < 2 ^ 63" "t - ds < n" "n < 2 ^ 62"
  shows "t < ds + n"
proof -
  have le: "uint ds \<le> uint t" using assms(1) by (simp add: word_le_def)
  then have "uint t - uint ds < uint n" using assms(3) uint_sub_lem[of ds t] by (simp add: word_less_def)
  moreover have "uint t < 2 ^ 63" "uint n < 2 ^ 62" using assms(2,4) by (simp_all add: word_less_def)
  ultimately show ?thesis using le uint_add_u64[of ds n] by (simp add: word_less_def)
qed

context spell_casting
begin

text \<open>An execution either ends the event with a spell fit for deletion, or queues it again: ahead of the
  clock, or once more at the present when its delay has just begun.\<close>

lemma execute_shape:
  assumes ok: "spell_ok t (ev_world s e)" and t: "0 < t" "t < 2 ^ 63"
  obtains (fin) sp where "SpellEvent_Execute E e t p s = Inr (True, s\<lparr>ev_world := (ev_world s)(e := sp)\<rparr>)"
      "spell_ok t sp" "m_spellState sp = SPELL_STATE_FINISHED" "Spell_IsDeletable sp"
  | (again) sp k where "SpellEvent_Execute E e t p s = SpellEvent_readd e k (s\<lparr>ev_world := (ev_world s)(e := sp)\<rparr>)"
      "spell_ok t sp" "t < k \<or> spell_cost (ev_world s) e = 2 \<and> m_spellState sp = SPELL_STATE_DELAYED \<and> m_delayStart sp \<noteq> 0"
proof -
  let ?w = "ev_world s e"
  define sp where "sp = (if m_spellState ?w \<noteq> SPELL_STATE_FINISHED then Spell_update E p ?w else ?w)"
  have sp: "spell_ok t sp" using ok update_ok by (simp add: sp_def)
  show thesis
  proof (cases "m_spellState sp")
    case SPELL_STATE_FINISHED
    then show ?thesis using fin[of sp] again[of "t + 1" sp] sp next_tick[OF t(2)]
      by (cases "Spell_IsDeletable sp") (auto simp: SpellEvent_Execute_def sp_def[symmetric])
  next
    case SPELL_STATE_DELAYED
    show ?thesis
    proof (cases "m_delayStart sp = 0")
      case True
      have "spell_cost (ev_world s) e = 2"
        using update_delayed[of ?w p] SPELL_STATE_DELAYED True by (auto simp: spell_cost_def sp_def split: if_splits)
      moreover have "spell_ok t (sp\<lparr>m_delayStart := t\<rparr>)" using sp by (simp add: spell_ok_def)
      ultimately show ?thesis using again[of "t + m_delayMoment sp" "sp\<lparr>m_delayStart := t\<rparr>"] True SPELL_STATE_DELAYED t(1)
        by (auto simp: SpellEvent_Execute_def sp_def[symmetric])
    next
      case False
      obtain n sp' where hd: "Spell_handle_delayed E (t - m_delayStart sp) sp = (n, sp')" by fastforce
      note h = handle_delayed_ok[OF sp hd]
      have "n \<noteq> 0 \<Longrightarrow> t < m_delayStart sp' + n"
        using next_hit[OF _ t(2)] h(2,3) sp SPELL_STATE_DELAYED by (auto simp: scan_next_ok_def spell_ok_def)
      then show ?thesis
        using again[of "t + 1" sp'] again[of "m_delayStart sp' + n" sp'] h(1) hd False SPELL_STATE_DELAYED next_tick[OF t(2)]
        by (cases "n = 0") (auto simp: SpellEvent_Execute_def sp_def[symmetric])
    qed
  qed (use again[of "t + 1" sp] sp next_tick[OF t(2)] in \<open>auto simp: SpellEvent_Execute_def sp_def[symmetric]\<close>)
qed

lemma execute_contract:
  assumes wf: "ep_wf s" and inv: "spells_inv (m_time s) (ev_heap s) (ev_world s)" and e: "e \<notin> snd ` set (m_events s)"
    and ev: "ev_heap s e = Some ev" "\<not> to_Abort ev"
  shows "\<exists>fin s'. SpellEvent_Execute E e (m_time s) p s = Inr (fin, s') \<and> ep_wf s' \<and> m_time s' = m_time s
    \<and> spells_inv (m_time s) (ev_heap s') (ev_world s')
    \<and> due_cost spell_cost s' < spell_cost (ev_world s) e + due_cost spell_cost s
    \<and> (fin \<longrightarrow> e \<notin> snd ` set (m_events s') \<and> ev_heap s' e \<noteq> None
         \<and> (\<exists>w. SpellEvent_destroy E e (ev_world s') = Inr w \<and> spells_inv (m_time s) ((ev_heap s')(e := None)) w
              \<and> (\<forall>e'. e' \<noteq> e \<longrightarrow> spell_cost w e' \<le> spell_cost (ev_world s') e')))"
proof -
  have ok: "spell_ok (m_time s) (ev_world s e)" and t: "0 < m_time s" "m_time s < 2 ^ 63"
    using inv ev(1) by (auto simp: spells_inv_def)
  show ?thesis
    using ok t
  proof (cases rule: execute_shape[where p = p])
    case (fin sp)
    let ?s = "s\<lparr>ev_world := (ev_world s)(e := sp)\<rparr>"
    have "due_cost spell_cost ?s = due_cost spell_cost s"
      using due_sum_other[OF e, of sp] by (simp add: due_cost_def due_entries_def)
    moreover have "0 < spell_cost (ev_world s) e" by (simp add: spell_cost_def)
    moreover have "spells_inv (m_time s) (ev_heap s) (ev_world ?s)" "spells_inv (m_time s) ((ev_heap s)(e := None)) (ev_world ?s)"
      using inv fin(2) ev by (auto simp: spells_inv_def)
    moreover have "SpellEvent_destroy E e (ev_world ?s) = Inr (ev_world ?s)" using fin(3,4) by (simp add: SpellEvent_destroy_def)
    moreover have "ep_wf ?s" using wf by (simp add: ep_wf_def)
    ultimately show ?thesis using fin(1) e ev by (intro exI[of _ True] exI[of _ ?s]) simp
  next
    case (again sp k)
    obtain s' ev' where s': "SpellEvent_readd e k (s\<lparr>ev_world := (ev_world s)(e := sp)\<rparr>) = Inr (False, s')" "ep_wf s'"
        "m_time s' = m_time s" "ev_world s' = (ev_world s)(e := sp)"
        "ev_heap s' = (ev_heap s)(e \<mapsto> ev')" "to_Abort ev' = to_Abort ev"
        "due_cost spell_cost s' = (if k \<le> m_time s then spell_cost (ev_world s') e else 0) + due_cost spell_cost s"
      using due_cost_readd[OF wf e ev(1) refl, of k sp] by auto
    have "spells_inv (m_time s) (ev_heap s') (ev_world s')"
      using inv again(2) ev s'(6) unfolding s'(4,5) by (auto simp: spells_inv_def)
    moreover have "due_cost spell_cost s' < spell_cost (ev_world s) e + due_cost spell_cost s"
      using again(3) s'(4,7) by (auto simp: spell_cost_def split: if_splits)
    ultimately show ?thesis using again(1) s'(1-3) by auto
  qed
qed

lemma abort_contract:
  assumes "spells_inv t h w" "h e = Some ev" "to_Abort ev"
  shows "\<exists>w'. SpellEvent_destroy E e (SpellEvent_Abort E e t w) = Inr w' \<and> spells_inv t (h(e := None)) w'
    \<and> (\<forall>e'. e' \<noteq> e \<longrightarrow> spell_cost w' e' \<le> spell_cost w e')"
  using assms
  by (auto simp: SpellEvent_destroy_def SpellEvent_Abort_def Spell_IsDeletable_def spells_inv_def spell_ok_def spell_cost_def)

end

sublocale spell_casting \<subseteq> spells: event_contract "SpellEvent_class E" spells_inv spell_cost
proof
  show "0 < spell_cost w e" for w e by (simp add: spell_cost_def)
qed (use execute_contract abort_contract in \<open>simp_all add: SpellEvent_class_def\<close>)

context spell_casting
begin

lemma spells_update:
  assumes "ep_wf s" "spells_inv (m_time s + ucast p) (ev_heap s) (ev_world s)"
  shows "\<exists>s'. Update (SpellEvent_class E) p s = Some (Inr s') \<and> ep_wf s' \<and> m_time s' = m_time s + ucast p
    \<and> spells_inv (m_time s') (ev_heap s') (ev_world s') \<and> (\<forall>(k, e) \<in> set (m_events s'). m_time s' < k)"
  by (rule spells.update_ok[OF assms])

end

section \<open>Aborting all spells\<close>

text \<open>A spell that an abort leaves undeletable: it is being executed, or finished but still referenced.\<close>

definition spell_pinned :: "spells \<Rightarrow> nat \<Rightarrow> bool" where
  "spell_pinned w e \<longleftrightarrow> m_executedCurrently (w e)
     \<or> m_spellState (w e) = SPELL_STATE_FINISHED \<and> m_referencedFromCurrentSpell (w e)"

lemma aborted_deletable: "SpellEvent_IsDeletable e (SpellEvent_Abort E e t w) \<longleftrightarrow> \<not> spell_pinned w e"
  by (auto simp: SpellEvent_IsDeletable_def SpellEvent_Abort_def Spell_IsDeletable_def spell_pinned_def)

lemma aborted_destroy:
  "SpellEvent_destroy E e (SpellEvent_Abort E e t w) = (if spell_pinned w e then Inl AssertFailure else Inr (SpellEvent_Abort E e t w))"
  by (auto simp: SpellEvent_destroy_def SpellEvent_Abort_def Spell_IsDeletable_def spell_pinned_def)

lemma aborted_other: "e' \<noteq> e \<Longrightarrow> spell_pinned (SpellEvent_Abort E e t w) e' = spell_pinned w e'"
  by (simp add: SpellEvent_Abort_def spell_pinned_def)

definition flagged :: "basic_event option \<Rightarrow> basic_event option" where
  "flagged = map_option (to_Abort_update (\<lambda>_. True))"

lemma kill_one:
  assumes "ev_heap s e = Some ev"
  shows "kill_events (SpellEvent_class E) force ((k, e) # es) s =
    (let s1 = abort_event (SpellEvent_class E) e (s\<lparr>ev_heap := (ev_heap s)(e := flagged (ev_heap s e))\<rparr>)
     in if spell_pinned (ev_world s) e
        then (if force then Inl AssertFailure else kill_events (SpellEvent_class E) force es s1)
        else let s2 = ev_logged (Deleted e) (s1\<lparr>ev_heap := (ev_heap s)(e := None)\<rparr>)
             in kill_events (SpellEvent_class E) force es
                  (if \<not> force then s2\<lparr>m_events := remove1 (k, e) (m_events s2)\<rparr> else s2))"
  using assms
  by (cases s) (auto simp: Let_def SpellEvent_class_def aborted_deletable aborted_destroy delete_event_def flagged_def
      abort_event_def ev_logged_def)

lemma kill_keep:
  assumes "distinct (map snd es)" "\<forall>x \<in> set es. ev_heap s (snd x) \<noteq> None" "distinct (m_events s)"
  shows "\<exists>s'. kill_events (SpellEvent_class E) False es s = Inr s' \<and> m_aborting s' = m_aborting s
    \<and> m_events s' = filter (\<lambda>x. x \<in> set es \<longrightarrow> spell_pinned (ev_world s) (snd x)) (m_events s)
    \<and> (\<forall>e. ev_heap s' e = (if e \<in> snd ` set es then if spell_pinned (ev_world s) e then flagged (ev_heap s e) else None
                           else ev_heap s e))"
  using assms
proof (induction es arbitrary: s)
  case (Cons x es)
  obtain k e where x: "x = (k, e)" by fastforce
  obtain ev where ev: "ev_heap s e = Some ev" using Cons.prems(2) x by auto
  have fresh: "e \<notin> snd ` set es" "(k, e) \<notin> set es" using Cons.prems(1) x by (auto simp: image_iff)
  let ?a = "abort_event (SpellEvent_class E) e (s\<lparr>ev_heap := (ev_heap s)(e := flagged (ev_heap s e))\<rparr>)"
  let ?d = "ev_logged (Deleted e) (?a\<lparr>ev_heap := (ev_heap s)(e := None)\<rparr>)"
  define r where "r = (if spell_pinned (ev_world s) e then ?a else ?d\<lparr>m_events := remove1 (k, e) (m_events s)\<rparr>)"
  have step: "kill_events (SpellEvent_class E) False (x # es) s = kill_events (SpellEvent_class E) False es r"
    using kill_one[OF ev, of E False k es] x by (simp add: Let_def r_def)
  have r: "m_events r = filter (\<lambda>y. y = x \<longrightarrow> spell_pinned (ev_world s) e) (m_events s)"
      "ev_heap r = (ev_heap s)(e := if spell_pinned (ev_world s) e then flagged (ev_heap s e) else None)"
      "m_aborting r = m_aborting s" "ev_world r = SpellEvent_Abort E e (m_time s) (ev_world s)"
    using Cons.prems(3) x
    by (auto simp: r_def distinct_remove1_removeAll removeAll_filter_not_eq SpellEvent_class_def intro: filter_cong)
  have pin: "spell_pinned (ev_world r) (snd y) = spell_pinned (ev_world s) (snd y)" if "y \<in> set es" for y
    using that fresh(1) unfolding r(4) by (intro aborted_other) auto
  have ne: "\<forall>y \<in> set es. ev_heap r (snd y) \<noteq> None" using Cons.prems(2) fresh(1) unfolding r(2) by (auto simp: image_iff)
  have dr: "distinct (m_events r)" using Cons.prems(3) unfolding r(1) by simp
  have "distinct (map snd es)" using Cons.prems(1) by simp
  from Cons.IH[OF this ne dr]
  obtain s' where s': "kill_events (SpellEvent_class E) False es r = Inr s'" "m_aborting s' = m_aborting r"
      "m_events s' = filter (\<lambda>y. y \<in> set es \<longrightarrow> spell_pinned (ev_world r) (snd y)) (m_events r)"
      "\<And>e'. ev_heap s' e' = (if e' \<in> snd ` set es then if spell_pinned (ev_world r) e' then flagged (ev_heap r e') else None
                           else ev_heap r e')"
    by blast
  have "m_events s' = filter (\<lambda>y. y \<in> set (x # es) \<longrightarrow> spell_pinned (ev_world s) (snd y)) (m_events s)"
    unfolding s'(3) r(1) filter_filter by (rule filter_cong) (use pin fresh x in auto)
  moreover have "ev_heap s' e' = (if e' \<in> snd ` set (x # es) then if spell_pinned (ev_world s) e' then flagged (ev_heap s e') else None
                           else ev_heap s e')" for e'
    unfolding s'(4) r(2) using pin fresh x by auto
  ultimately show ?case using step s'(1,2) r(3) by auto
qed auto

lemma kill_force:
  assumes "distinct (map snd es)" "\<forall>x \<in> set es. ev_heap s (snd x) \<noteq> None"
  shows "if \<exists>x \<in> set es. spell_pinned (ev_world s) (snd x)
    then kill_events (SpellEvent_class E) True es s = Inl AssertFailure
    else \<exists>s'. kill_events (SpellEvent_class E) True es s = Inr s'
      \<and> (\<forall>e. ev_heap s' e = (if e \<in> snd ` set es then None else ev_heap s e))"
  using assms
proof (induction es arbitrary: s)
  case (Cons x es)
  obtain k e where x: "x = (k, e)" by fastforce
  obtain ev where ev: "ev_heap s e = Some ev" using Cons.prems(2) x by auto
  have fresh: "e \<notin> snd ` set es" using Cons.prems(1) x by (auto simp: image_iff)
  define r where "r = ev_logged (Deleted e) ((abort_event (SpellEvent_class E) e
    (s\<lparr>ev_heap := (ev_heap s)(e := flagged (ev_heap s e))\<rparr>))\<lparr>ev_heap := (ev_heap s)(e := None)\<rparr>)"
  have step: "kill_events (SpellEvent_class E) True (x # es) s =
      (if spell_pinned (ev_world s) e then Inl AssertFailure else kill_events (SpellEvent_class E) True es r)"
    using kill_one[OF ev, of E True k es] x by (simp add: Let_def r_def)
  have r: "ev_heap r = (ev_heap s)(e := None)" "ev_world r = SpellEvent_Abort E e (m_time s) (ev_world s)"
    by (simp_all add: r_def SpellEvent_class_def)
  have pin: "spell_pinned (ev_world r) (snd y) = spell_pinned (ev_world s) (snd y)" if "y \<in> set es" for y
    using that fresh unfolding r(2) by (intro aborted_other) auto
  have ne: "\<forall>y \<in> set es. ev_heap r (snd y) \<noteq> None" using Cons.prems(2) fresh unfolding r(1) by (auto simp: image_iff)
  have "distinct (map snd es)" using Cons.prems(1) by simp
  from Cons.IH[OF this ne] show ?case unfolding step using pin x r(1) by (auto split: if_splits)
qed auto

section \<open>A world for spells with a flight time\<close>

text \<open>The branch of \<^verbatim>\<open>Spell::cast\<close> for delayed spells, on the members of the model.\<close>

definition cast_delayed_branch :: "bool \<Rightarrow> spell \<Rightarrow> spell" where
  "cast_delayed_branch skipCheck sp =
     sp\<lparr>m_immediateHandled := False, m_spellState := SPELL_STATE_DELAYED, m_delayStart := 0, m_executedCurrently := False\<rparr>"

definition missile_env :: spell_env where
  "missile_env = \<lparr>se_cast = cast_delayed_branch, se_target_removed = (\<lambda>sp. False), se_caster_player = (\<lambda>sp. False),
     se_movement_interrupts = (\<lambda>sp. False), se_channel_targets = (\<lambda>sp. True), se_next_melee = (\<lambda>sp. False),
     se_triggered = (\<lambda>sp. False),
     se_channeled = (\<lambda>sp. False), se_player_credit = (\<lambda>sp. False)\<rparr>"

lemma cast_delayed_ok: "spell_ok t sp \<Longrightarrow> spell_ok t (se_cast missile_env skip sp)"
  by (simp add: missile_env_def cast_delayed_branch_def spell_ok_def)

interpretation missile: spell_casting missile_env
  by unfold_locales (rule cast_delayed_ok)

definition ex_missile :: "SpellState \<Rightarrow> bool \<Rightarrow> spell" where
  "ex_missile st executed =
     \<lparr>m_spellState = st, m_timer = 0, m_casttime = 0, m_autoRepeat = False, m_delayStart = 0, m_delayMoment = 0,
      m_referencedFromCurrentSpell = False, m_executedCurrently = executed, m_immediateHandled = False,
      m_UniqueTargetInfo = [\<lparr>ti_targetGUID = 9, ti_processed = False, ti_timeDelay = 700\<rparr>], m_UniqueGOTargetInfo = [],
      m_hasDst = False, sp_actions = []\<rparr>"

text \<open>Two queued events; the spell of the second one may be inside its own \<^verbatim>\<open>cast\<close>.\<close>

definition ex_spells :: "bool \<Rightarrow> spells processor" where
  "ex_spells executed =
     \<lparr>m_time = 0, m_events = [(1, 1), (1, 2)], m_aborting = False,
      ev_heap = (\<lambda>e. if e \<in> {1, 2} then Some (BasicEvent_new 0 1) else None), ev_log = [],
      ev_world = (\<lambda>e. ex_missile SPELL_STATE_PREPARING (executed \<and> e = 2))\<rparr>"

lemma ex_spells_wf: "ep_wf (ex_spells b)"
  by (auto simp: ex_spells_def ep_wf_def)

section \<open>Properties\<close>



text \<open>C17: \<^verbatim>\<open>KillAllEvents\<close> on spell events. Without force it never fails, deletes exactly the events whose
  spell can be deleted after the abort and keeps the others, flagged, so that they never execute again.
  With force it empties the queue and deletes every event, unless some spell is being executed (or is
  finished and still referenced): then the assertion of the destructor fails.\<close>

theorem kill_all_spell_events:
  assumes "ep_wf s"
  shows "if force \<and> (\<exists>e \<in> snd ` set (m_events s). spell_pinned (ev_world s) e)
    then KillAllEvents (SpellEvent_class E) force s = Inl AssertFailure
    else \<exists>s'. KillAllEvents (SpellEvent_class E) force s = Inr s'
      \<and> m_events s' = filter (\<lambda>(k, e). spell_pinned (ev_world s) e) (m_events s)
      \<and> (\<forall>e. ev_heap s' e = (if e \<in> snd ` set (m_events s)
            then if spell_pinned (ev_world s) e then map_option (to_Abort_update (\<lambda>_. True)) (ev_heap s e) else None
            else ev_heap s e))"
proof -
  let ?s = "s\<lparr>m_aborting := True\<rparr>"
  have d: "distinct (map snd (m_events s))" "\<forall>x \<in> set (m_events s). ev_heap ?s (snd x) \<noteq> None"
    "distinct (m_events ?s)" using assms by (auto simp: ep_wf_def distinct_map)
  show ?thesis
  proof (cases force)
    case True
    have "\<forall>x \<in> set (m_events s). \<not> spell_pinned (ev_world s) (snd x) \<Longrightarrow>
        filter (\<lambda>(k, e). spell_pinned (ev_world s) e) (m_events s) = []" by (auto simp: filter_empty_conv)
    then show ?thesis using kill_force[OF d(1,2), of E] True by (fastforce simp: KillAllEvents_def split: if_splits)
  next
    case False
    have "filter (\<lambda>x. x \<in> set (m_events s) \<longrightarrow> spell_pinned (ev_world s) (snd x)) (m_events s) =
        filter (\<lambda>(k, e). spell_pinned (ev_world s) e) (m_events s)" by (rule filter_cong) auto
    then show ?thesis using kill_keep[OF d, of E] False by (auto simp: KillAllEvents_def flagged_def)
  qed
qed

theorem kill_all_spell_events_witness:
  "KillAllEvents (SpellEvent_class missile_env) True (ex_spells True) = Inl AssertFailure
   \<and> (\<exists>s'. KillAllEvents (SpellEvent_class missile_env) False (ex_spells True) = Inr s' \<and> m_events s' = [(1, 2)])"
  using kill_all_spell_events[OF ex_spells_wf, of True True missile_env]
    kill_all_spell_events[OF ex_spells_wf, of False True missile_env]
  by (auto simp: ex_spells_def ex_missile_def spell_pinned_def)

end
