(* ===== verification/Reputation_Mgr.thy ===== *)
theory Reputation_Mgr
  imports World_Packet
begin

text \<open>
  The reputation of a player: \<^verbatim>\<open>src/src/server/game/Reputation/ReputationMgr.cpp/.h\<close>. Pointers to the
  states in \<^verbatim>\<open>_factions\<close> are their keys (nodes of a \<^verbatim>\<open>std::map\<close> do not move), \<^verbatim>\<open>int32\<close> values are
  integers with the wrap-around written out, the counters keep their eight bits. What the manager
  reads of the player, of the client data stores and of the world is the record \<open>rep_env\<close>; the
  arithmetic on \<^verbatim>\<open>float\<close> rates is part of it, on the 32 bits of the numbers. Packets, callbacks into the
  player and database statements are recorded in the order the code issues them.
\<close>

section \<open>Data\<close>

type_synonym fl = u32

record faction_entry =
  fe_ID :: u32
  reputationListID :: int
  BaseRepRaceMask :: "nat \<Rightarrow> u32"
  BaseRepClassMask :: "nat \<Rightarrow> u32"
  BaseRepValue :: "nat \<Rightarrow> int"
  ReputationFlags :: "nat \<Rightarrow> u32"
  fe_team :: u32
  spilloverRateIn :: fl
  spilloverRateOut :: fl
  spilloverMaxRankIn :: u32

record spillover_template =
  st_faction :: "nat \<Rightarrow> u32"
  st_faction_rate :: "nat \<Rightarrow> fl"
  st_faction_rank :: "nat \<Rightarrow> u32"

record faction_state =
  fs_ID :: u32
  ReputationListID :: u32
  Standing :: int
  Flags :: u8
  needSend :: bool
  needSave :: bool

text \<open>
  \<open>re_store\<close> and \<open>re_numRows\<close> are \<^verbatim>\<open>sFactionStore\<close>, \<open>re_teamList\<close> is \<^verbatim>\<open>GetFactionTeamList\<close>, \<open>re_template\<close>
  \<^verbatim>\<open>GetRepSpilloverTemplate\<close>, \<open>re_script\<close> what \<^verbatim>\<open>OnPlayerReputationChange\<close> leaves in its reference
  argument. \<open>re_float\<close>, \<open>re_mul\<close>, \<open>re_int32\<close>, \<open>re_round\<close> and \<open>re_nonzero\<close> are \<^verbatim>\<open>float(x)\<close>, \<^verbatim>\<open>x * y\<close>,
  \<^verbatim>\<open>int32(x)\<close>, \<^verbatim>\<open>int32(floor(x + 0.5f))\<close> and \<^verbatim>\<open>x != 0.0f\<close>.
\<close>

record rep_env =
  re_store :: "u32 \<Rightarrow> faction_entry option"
  re_numRows :: u32
  re_raceMask :: u32
  re_classMask :: u32
  re_guidLow :: u32
  re_loading :: bool
  re_template :: "u32 \<Rightarrow> spillover_template option"
  re_teamList :: "u32 \<Rightarrow> u32 list option"
  re_script :: "u32 \<Rightarrow> int \<Rightarrow> bool \<Rightarrow> int"
  re_gainRate :: fl
  re_float :: "int \<Rightarrow> fl"
  re_mul :: "fl \<Rightarrow> fl \<Rightarrow> fl"
  re_int32 :: "fl \<Rightarrow> int"
  re_round :: "fl \<Rightarrow> int"
  re_nonzero :: "fl \<Rightarrow> bool"

text \<open>What leaves the manager: packets to the player, quest and achievement updates.\<close>

datatype rep_event = RepPacket world_packet | RepChanged u32 | RepCriteria nat u32

datatype rep_stmt = DelReputation u32 u16 | InsReputation u32 u16 int u16

record reputation_mgr =
  rm_factions :: "(u32, faction_state) stdmap"
  rm_forcedReactions :: "(u32, nat) stdmap"
  rm_visibleFactionCount :: u8
  rm_honoredFactionCount :: u8
  rm_reveredFactionCount :: u8
  rm_exaltedFactionCount :: u8
  rm_sendFactionIncreased :: bool
  rm_out :: "rep_event list"

definition REP_HOSTILE :: nat where "REP_HOSTILE = 1"
definition REP_HONORED :: nat where "REP_HONORED = 5"
definition REP_REVERED :: nat where "REP_REVERED = 6"
definition REP_EXALTED :: nat where "REP_EXALTED = 7"
definition MAX_REPUTATION_RANK :: nat where "MAX_REPUTATION_RANK = 8"
definition MAX_SPILLOVER_FACTIONS :: nat where "MAX_SPILLOVER_FACTIONS = 4"

definition FACTION_FLAG_VISIBLE :: u8 where "FACTION_FLAG_VISIBLE = 0x01"
definition FACTION_FLAG_AT_WAR :: u8 where "FACTION_FLAG_AT_WAR = 0x02"
definition FACTION_FLAG_HIDDEN :: u8 where "FACTION_FLAG_HIDDEN = 0x04"
definition FACTION_FLAG_INVISIBLE_FORCED :: u8 where "FACTION_FLAG_INVISIBLE_FORCED = 0x08"
definition FACTION_FLAG_PEACE_FORCED :: u8 where "FACTION_FLAG_PEACE_FORCED = 0x10"
definition FACTION_FLAG_INACTIVE :: u8 where "FACTION_FLAG_INACTIVE = 0x20"
definition FACTION_FLAG_SPECIAL :: u8 where "FACTION_FLAG_SPECIAL = 0x80"

lemmas faction_flags = FACTION_FLAG_VISIBLE_def FACTION_FLAG_AT_WAR_def FACTION_FLAG_HIDDEN_def
  FACTION_FLAG_INVISIBLE_FORCED_def FACTION_FLAG_PEACE_FORCED_def FACTION_FLAG_INACTIVE_def FACTION_FLAG_SPECIAL_def

definition SMSG_INITIALIZE_FACTIONS :: u16 where "SMSG_INITIALIZE_FACTIONS = 0x122"
definition SMSG_SET_FACTION_VISIBLE :: u16 where "SMSG_SET_FACTION_VISIBLE = 0x123"
definition SMSG_SET_FACTION_STANDING :: u16 where "SMSG_SET_FACTION_STANDING = 0x124"
definition SMSG_SET_FORCED_REACTIONS :: u16 where "SMSG_SET_FORCED_REACTIONS = 0x2A5"

definition PointsInRank :: "int list" where
  "PointsInRank = [36000, 3000, 3000, 3000, 6000, 12000, 21000, 1000]"

definition Reputation_Cap :: int where "Reputation_Cap = 42999"
definition Reputation_Bottom :: int where "Reputation_Bottom = - 42000"

section \<open>Ranks and accessors\<close>

text \<open>The loop with \<open>i\<close> ranks left to try.\<close>

fun rank_loop :: "int \<Rightarrow> int \<Rightarrow> nat \<Rightarrow> nat" where
  "rank_loop standing limit 0 = 0"
| "rank_loop standing limit (Suc i) =
     (let limit = int32 (limit - PointsInRank ! i)
      in if standing \<ge> limit then i else rank_loop standing limit i)"

definition ReputationToRank :: "int \<Rightarrow> nat" where
  "ReputationToRank standing = rank_loop standing (Reputation_Cap + 1) MAX_REPUTATION_RANK"

definition ReputationMgr_new :: reputation_mgr where
  "ReputationMgr_new =
     \<lparr>rm_factions = [], rm_forcedReactions = [], rm_visibleFactionCount = 0, rm_honoredFactionCount = 0,
      rm_reveredFactionCount = 0, rm_exaltedFactionCount = 0, rm_sendFactionIncreased = False, rm_out = []\<rparr>"

definition CanHaveReputation :: "faction_entry \<Rightarrow> bool" where
  "CanHaveReputation fe \<longleftrightarrow> reputationListID fe \<ge> 0"

text \<open>The conversion of the signed list id to the key of the map.\<close>

definition rep_key :: "faction_entry \<Rightarrow> u32" where
  "rep_key fe = word_of_int (reputationListID fe)"

definition GetState_id :: "u32 \<Rightarrow> reputation_mgr \<Rightarrow> faction_state option" where
  "GetState_id k m = map_find (rm_factions m) k"

definition GetState :: "faction_entry \<Rightarrow> reputation_mgr \<Rightarrow> faction_state option" where
  "GetState fe m = (if CanHaveReputation fe then GetState_id (rep_key fe) m else None)"

definition base_match :: "rep_env \<Rightarrow> faction_entry \<Rightarrow> nat \<Rightarrow> bool" where
  "base_match E fe i \<longleftrightarrow>
     (has_flag (BaseRepRaceMask fe i) (re_raceMask E) \<or> BaseRepRaceMask fe i = 0 \<and> BaseRepClassMask fe i \<noteq> 0)
     \<and> (has_flag (BaseRepClassMask fe i) (re_classMask E) \<or> BaseRepClassMask fe i = 0)"

definition GetBaseReputation :: "rep_env \<Rightarrow> faction_entry option \<Rightarrow> int" where
  "GetBaseReputation E f =
     (case f of
        None \<Rightarrow> 0
      | Some fe \<Rightarrow> (case find (base_match E fe) [0, 1, 2, 3] of None \<Rightarrow> 0 | Some i \<Rightarrow> BaseRepValue fe i))"

definition GetDefaultStateFlags :: "rep_env \<Rightarrow> faction_entry option \<Rightarrow> u32" where
  "GetDefaultStateFlags E f =
     (case f of
        None \<Rightarrow> 0
      | Some fe \<Rightarrow> (case find (base_match E fe) [0, 1, 2, 3] of None \<Rightarrow> 0 | Some i \<Rightarrow> ReputationFlags fe i))"

definition IsAtWar :: "faction_entry option \<Rightarrow> reputation_mgr \<Rightarrow> bool" where
  "IsAtWar f m =
     (case f of
        None \<Rightarrow> False
      | Some fe \<Rightarrow> (case GetState fe m of None \<Rightarrow> False | Some fs \<Rightarrow> has_flag (Flags fs) FACTION_FLAG_AT_WAR))"

definition IsAtWar_id :: "rep_env \<Rightarrow> u32 \<Rightarrow> reputation_mgr \<Rightarrow> bool" where
  "IsAtWar_id E faction_id m =
     (case re_store E faction_id of None \<Rightarrow> False | Some fe \<Rightarrow> IsAtWar (Some fe) m)"

definition GetReputation :: "rep_env \<Rightarrow> faction_entry option \<Rightarrow> reputation_mgr \<Rightarrow> int" where
  "GetReputation E f m =
     (case f of
        None \<Rightarrow> 0
      | Some fe \<Rightarrow> (case GetState fe m of None \<Rightarrow> 0 | Some fs \<Rightarrow> int32 (GetBaseReputation E f + Standing fs)))"

definition GetReputation_id :: "rep_env \<Rightarrow> u32 \<Rightarrow> reputation_mgr \<Rightarrow> int" where
  "GetReputation_id E faction_id m =
     (case re_store E faction_id of None \<Rightarrow> 0 | Some fe \<Rightarrow> GetReputation E (Some fe) m)"

definition GetRank :: "rep_env \<Rightarrow> faction_entry option \<Rightarrow> reputation_mgr \<Rightarrow> nat" where
  "GetRank E f m = ReputationToRank (GetReputation E f m)"

definition GetBaseRank :: "rep_env \<Rightarrow> faction_entry option \<Rightarrow> nat" where
  "GetBaseRank E f = ReputationToRank (GetBaseReputation E f)"

text \<open>\<^verbatim>\<open>Player::GetReputationRank\<close>\<close>

definition Player_GetReputationRank :: "rep_env \<Rightarrow> u32 \<Rightarrow> reputation_mgr \<Rightarrow> nat" where
  "Player_GetReputationRank E faction m = GetRank E (re_store E faction) m"

definition GetForcedRankIfAny :: "u32 \<Rightarrow> reputation_mgr \<Rightarrow> nat option" where
  "GetForcedRankIfAny template_faction m = map_find (rm_forcedReactions m) template_faction"

definition ApplyForceReaction :: "u32 \<Rightarrow> nat \<Rightarrow> bool \<Rightarrow> reputation_mgr \<Rightarrow> reputation_mgr" where
  "ApplyForceReaction faction_id rank app m =
     (if app then m\<lparr>rm_forcedReactions := map_set faction_id rank (rm_forcedReactions m)\<rparr>
      else m\<lparr>rm_forcedReactions := map_erase faction_id (rm_forcedReactions m)\<rparr>)"

section \<open>Senders\<close>

definition rep_emit :: "rep_event \<Rightarrow> reputation_mgr \<Rightarrow> reputation_mgr" where
  "rep_emit ev m = m\<lparr>rm_out := rm_out m @ [ev]\<rparr>"

definition SendForceReactions :: "reputation_mgr \<Rightarrow> reputation_mgr" where
  "SendForceReactions m =
     (let data = Initialize_packet SMSG_SET_FORCED_REACTIONS (WorldPacket 0);
          data = stream [FU32 (of_nat (length (rm_forcedReactions m)))] data;
          data = stream (concat (map (\<lambda>(f, r). [FU32 f, FU32 (of_nat r)]) (rm_forcedReactions m))) data
      in rep_emit (RepPacket data) m)"

text \<open>\<open>fs\<close> is the state the pointer argument refers to; \<^verbatim>\<open>float(0)\<close> is four zero bytes.\<close>

definition SendState :: "faction_state \<Rightarrow> reputation_mgr \<Rightarrow> reputation_mgr" where
  "SendState fs m =
     (let data = WorldPacket SMSG_SET_FACTION_STANDING;
          data = stream [FU32 0, FU8 (of_bool (rm_sendFactionIncreased m))] data;
          m = m\<lparr>rm_sendFactionIncreased := False\<rparr>;
          p_count = length (payload data);
          data = stream [FU32 1] data;
          data = stream [FU32 (ReputationListID fs), FU32 (word_of_int (Standing fs))] data;
          others = filter (\<lambda>(k, f). needSend f \<and> ReputationListID f \<noteq> ReputationListID fs) (rm_factions m);
          data = stream (concat (map (\<lambda>(k, f). [FU32 (ReputationListID f), FU32 (word_of_int (Standing f))]) others)) data;
          m = m\<lparr>rm_factions := map (\<lambda>(k, f). (k, f\<lparr>needSend := False\<rparr>)) (rm_factions m)\<rparr>;
          data = put_u32_field p_count (1 + of_nat (length others)) data
      in rep_emit (RepPacket data) m)"

text \<open>The filling loops run from \<open>a\<close> up to \<open>b\<close> in 32-bit arithmetic.\<close>

function fill_absent :: "u32 \<Rightarrow> u32 \<Rightarrow> field list" where
  "fill_absent a b = (if a = b then [] else FU8 0 # FU32 0 # fill_absent (a + 1) b)"
  by auto

termination
proof (relation "measure (\<lambda>(a, b). unat (b - a))")
  fix a b :: u32
  assume "a \<noteq> b"
  then have "b - a \<noteq> 0" by simp
  then have "unat (b - a - 1) < unat (b - a)" by (metis measure_unat)
  then show "((a + 1, b), (a, b)) \<in> measure (\<lambda>(a, b). unat (b - a))" by (simp add: diff_diff_eq)
qed simp

declare fill_absent.simps [simp del]

fun initial_fields :: "u32 \<Rightarrow> (u32, faction_state) stdmap \<Rightarrow> field list" where
  "initial_fields a [] = fill_absent a 128"
| "initial_fields a ((k, f) # fs) =
     fill_absent a k @ FU8 (Flags f) # FU32 (word_of_int (Standing f)) # initial_fields (k + 1) fs"

definition SendInitialReputations :: "reputation_mgr \<Rightarrow> reputation_mgr" where
  "SendInitialReputations m =
     (let data = stream (FU32 0x80 # initial_fields 0 (rm_factions m)) (WorldPacket SMSG_INITIALIZE_FACTIONS)
      in rep_emit (RepPacket data)
           (m\<lparr>rm_factions := map (\<lambda>(k, f). (k, f\<lparr>needSend := False\<rparr>)) (rm_factions m)\<rparr>))"

text \<open>\<^verbatim>\<open>SendStates\<close> reads each state when its turn comes.\<close>

fun send_states :: "u32 list \<Rightarrow> reputation_mgr \<Rightarrow> reputation_mgr" where
  "send_states [] m = m"
| "send_states (k # ks) m =
     send_states ks (case map_find (rm_factions m) k of None \<Rightarrow> m | Some fs \<Rightarrow> SendState fs m)"

definition SendStates :: "reputation_mgr \<Rightarrow> reputation_mgr" where
  "SendStates m = send_states (map fst (rm_factions m)) m"

definition SendVisible :: "rep_env \<Rightarrow> faction_state \<Rightarrow> reputation_mgr \<Rightarrow> reputation_mgr" where
  "SendVisible E fs m =
     (if re_loading E then m
      else rep_emit (RepPacket (stream [FU32 (ReputationListID fs)] (WorldPacket SMSG_SET_FACTION_VISIBLE))) m)"

section \<open>Modifiers\<close>

definition UpdateRankCounters :: "nat \<Rightarrow> nat \<Rightarrow> reputation_mgr \<Rightarrow> reputation_mgr" where
  "UpdateRankCounters old_rank new_rank m =
     (let m = (if old_rank \<ge> REP_EXALTED then m\<lparr>rm_exaltedFactionCount := rm_exaltedFactionCount m - 1\<rparr> else m);
          m = (if old_rank \<ge> REP_REVERED then m\<lparr>rm_reveredFactionCount := rm_reveredFactionCount m - 1\<rparr> else m);
          m = (if old_rank \<ge> REP_HONORED then m\<lparr>rm_honoredFactionCount := rm_honoredFactionCount m - 1\<rparr> else m);
          m = (if new_rank \<ge> REP_EXALTED then m\<lparr>rm_exaltedFactionCount := rm_exaltedFactionCount m + 1\<rparr> else m);
          m = (if new_rank \<ge> REP_REVERED then m\<lparr>rm_reveredFactionCount := rm_reveredFactionCount m + 1\<rparr> else m);
          m = (if new_rank \<ge> REP_HONORED then m\<lparr>rm_honoredFactionCount := rm_honoredFactionCount m + 1\<rparr> else m)
      in m)"

definition put_state :: "u32 \<Rightarrow> faction_state \<Rightarrow> reputation_mgr \<Rightarrow> reputation_mgr" where
  "put_state k fs m = m\<lparr>rm_factions := map_set k fs (rm_factions m)\<rparr>"

definition new_state :: "rep_env \<Rightarrow> faction_entry \<Rightarrow> faction_state" where
  "new_state E fe =
     \<lparr>fs_ID = fe_ID fe, ReputationListID = rep_key fe, Standing = 0,
      Flags = ucast (GetDefaultStateFlags E (Some fe)), needSend = True, needSave = True\<rparr>"

definition init_row :: "rep_env \<Rightarrow> nat \<Rightarrow> reputation_mgr \<Rightarrow> reputation_mgr" where
  "init_row E i m =
     (case re_store E (of_nat i) of
        None \<Rightarrow> m
      | Some fe \<Rightarrow>
          if reputationListID fe \<ge> 0
          then (let newFaction = new_state E fe;
                    m = (if has_flag (Flags newFaction) FACTION_FLAG_VISIBLE
                         then m\<lparr>rm_visibleFactionCount := rm_visibleFactionCount m + 1\<rparr> else m);
                    m = UpdateRankCounters REP_HOSTILE (GetBaseRank E (Some fe)) m
                in put_state (ReputationListID newFaction) newFaction m)
          else m)"

definition Initialize :: "rep_env \<Rightarrow> reputation_mgr \<Rightarrow> reputation_mgr" where
  "Initialize E m =
     (let m = m\<lparr>rm_factions := [], rm_visibleFactionCount := 0, rm_honoredFactionCount := 0,
                rm_reveredFactionCount := 0, rm_exaltedFactionCount := 0, rm_sendFactionIncreased := False\<rparr>
      in fold (init_row E) [1..<unat (re_numRows E)] m)"

text \<open>The overloads that take a pointer to a state; \<open>k\<close> is the key of the node it points into.\<close>

definition SetVisible_state :: "rep_env \<Rightarrow> u32 \<Rightarrow> reputation_mgr \<Rightarrow> reputation_mgr" where
  "SetVisible_state E k m =
     (case map_find (rm_factions m) k of
        None \<Rightarrow> m
      | Some fs \<Rightarrow>
          if has_flag (Flags fs) (FACTION_FLAG_INVISIBLE_FORCED OR FACTION_FLAG_HIDDEN)
             \<and> \<not> has_flag (Flags fs) FACTION_FLAG_SPECIAL then m
          else if has_flag (Flags fs) FACTION_FLAG_VISIBLE then m
          else (let fs = fs\<lparr>Flags := Flags fs OR FACTION_FLAG_VISIBLE, needSend := True, needSave := True\<rparr>;
                    m = put_state k fs m;
                    m = m\<lparr>rm_visibleFactionCount := rm_visibleFactionCount m + 1\<rparr>
                in SendVisible E fs m))"

definition SetVisible_entry :: "rep_env \<Rightarrow> faction_entry \<Rightarrow> reputation_mgr \<Rightarrow> reputation_mgr" where
  "SetVisible_entry E fe m =
     (if reputationListID fe < 0 then m
      else (case map_find (rm_factions m) (rep_key fe) of None \<Rightarrow> m | Some fs \<Rightarrow> SetVisible_state E (rep_key fe) m))"

text \<open>The argument is the faction of the \<^verbatim>\<open>FactionTemplateEntry\<close>.\<close>

definition SetVisible_template :: "rep_env \<Rightarrow> u32 \<Rightarrow> reputation_mgr \<Rightarrow> reputation_mgr" where
  "SetVisible_template E template_faction m =
     (if template_faction = 0 then m
      else (case re_store E template_faction of
              None \<Rightarrow> m
            | Some fe \<Rightarrow>
                if \<not> (has_flag (BaseRepRaceMask fe 1) (re_raceMask E) \<and> BaseRepValue fe 1 = Reputation_Bottom)
                then SetVisible_entry E fe m else m))"

definition SetAtWar_flags :: "bool \<Rightarrow> faction_state \<Rightarrow> faction_state" where
  "SetAtWar_flags atWar fs =
     (if atWar \<and> has_flag (Flags fs) FACTION_FLAG_PEACE_FORCED then fs
      else if has_flag (Flags fs) FACTION_FLAG_AT_WAR = atWar then fs
      else (let fs = (if atWar then fs\<lparr>Flags := Flags fs OR FACTION_FLAG_AT_WAR\<rparr>
                      else fs\<lparr>Flags := Flags fs AND NOT FACTION_FLAG_AT_WAR\<rparr>)
            in fs\<lparr>needSend := True, needSave := True\<rparr>))"

definition SetAtWar_state :: "u32 \<Rightarrow> bool \<Rightarrow> reputation_mgr \<Rightarrow> reputation_mgr" where
  "SetAtWar_state k atWar m =
     (case map_find (rm_factions m) k of None \<Rightarrow> m | Some fs \<Rightarrow> put_state k (SetAtWar_flags atWar fs) m)"

definition SetAtWar :: "u32 \<Rightarrow> bool \<Rightarrow> reputation_mgr \<Rightarrow> reputation_mgr" where
  "SetAtWar repListID on m =
     (case map_find (rm_factions m) repListID of
        None \<Rightarrow> m
      | Some fs \<Rightarrow>
          if has_flag (Flags fs) (FACTION_FLAG_INVISIBLE_FORCED OR FACTION_FLAG_HIDDEN) then m
          else SetAtWar_state repListID on m)"

definition SetInactive_flags :: "bool \<Rightarrow> faction_state \<Rightarrow> faction_state" where
  "SetInactive_flags inactive fs =
     (if inactive \<and> (has_flag (Flags fs) (FACTION_FLAG_INVISIBLE_FORCED OR FACTION_FLAG_HIDDEN)
                      \<or> \<not> has_flag (Flags fs) FACTION_FLAG_VISIBLE) then fs
      else if has_flag (Flags fs) FACTION_FLAG_INACTIVE = inactive then fs
      else (let fs = (if inactive then fs\<lparr>Flags := Flags fs OR FACTION_FLAG_INACTIVE\<rparr>
                      else fs\<lparr>Flags := Flags fs AND NOT FACTION_FLAG_INACTIVE\<rparr>)
            in fs\<lparr>needSend := True, needSave := True\<rparr>))"

definition SetInactive_state :: "u32 \<Rightarrow> bool \<Rightarrow> reputation_mgr \<Rightarrow> reputation_mgr" where
  "SetInactive_state k inactive m =
     (case map_find (rm_factions m) k of None \<Rightarrow> m | Some fs \<Rightarrow> put_state k (SetInactive_flags inactive fs) m)"

definition SetInactive :: "u32 \<Rightarrow> bool \<Rightarrow> reputation_mgr \<Rightarrow> reputation_mgr" where
  "SetInactive repListID on m =
     (case map_find (rm_factions m) repListID of None \<Rightarrow> m | Some fs \<Rightarrow> SetInactive_state repListID on m)"

definition criteria_after_change :: "u32 \<Rightarrow> rep_event list" where
  "criteria_after_change fid =
     [RepChanged fid, RepCriteria 89 fid, RepCriteria 46 fid, RepCriteria 47 fid, RepCriteria 87 fid, RepCriteria 88 fid]"

definition clamp_standing :: "int \<Rightarrow> int" where
  "clamp_standing standing =
     (if standing > Reputation_Cap then Reputation_Cap
      else if standing < Reputation_Bottom then Reputation_Bottom else standing)"

text \<open>The reputation a change aims at, and its application to the state \<open>fs\<close> under the key of \<open>fe\<close>.\<close>

definition target_standing :: "rep_env \<Rightarrow> faction_entry \<Rightarrow> faction_state \<Rightarrow> int \<Rightarrow> bool \<Rightarrow> int" where
  "target_standing E fe fs standing incremental =
     clamp_standing
       (if incremental
        then int32 (int32 (re_round E (re_mul E (re_float E standing) (re_gainRate E)))
                    + int32 (Standing fs + GetBaseReputation E (Some fe)))
        else standing)"

definition apply_standing :: "rep_env \<Rightarrow> faction_entry \<Rightarrow> faction_state \<Rightarrow> int \<Rightarrow> reputation_mgr \<Rightarrow> reputation_mgr" where
  "apply_standing E fe fs standing m =
     (let k = rep_key fe;
          BaseRep = GetBaseReputation E (Some fe);
          old_rank = ReputationToRank (int32 (Standing fs + BaseRep));
          new_rank = ReputationToRank standing;
          m = put_state k (fs\<lparr>Standing := int32 (standing - BaseRep), needSend := True, needSave := True\<rparr>) m;
          m = SetVisible_state E k m;
          m = (if new_rank \<le> REP_HOSTILE then SetAtWar_state k True m else m);
          m = (if new_rank > old_rank then m\<lparr>rm_sendFactionIncreased := True\<rparr> else m);
          m = UpdateRankCounters old_rank new_rank m
      in fold rep_emit (criteria_after_change (fe_ID fe)) m)"

definition SetOneFactionReputation ::
  "rep_env \<Rightarrow> faction_entry \<Rightarrow> int \<Rightarrow> bool \<Rightarrow> reputation_mgr \<Rightarrow> bool \<times> reputation_mgr" where
  "SetOneFactionReputation E fe standing incremental m =
     (case map_find (rm_factions m) (rep_key fe) of
        None \<Rightarrow> (False, m)
      | Some fs \<Rightarrow> (True, apply_standing E fe fs (target_standing E fe fs standing incremental) m))"

text \<open>The two spillover loops of \<^verbatim>\<open>SetReputation\<close>.\<close>

fun spill_template ::
  "rep_env \<Rightarrow> spillover_template \<Rightarrow> int \<Rightarrow> bool \<Rightarrow> nat list \<Rightarrow> reputation_mgr \<Rightarrow> cpp_error + reputation_mgr" where
  "spill_template E t standing incremental [] m = Inr m"
| "spill_template E t standing incremental (i # is) m =
     (if st_faction t i \<noteq> 0 \<and> Player_GetReputationRank E (st_faction t i) m \<le> unat (st_faction_rank t i)
      then (case re_store E (st_faction t i) of
              None \<Rightarrow> Inl NullDeref
            | Some fe \<Rightarrow>
                (let spilloverRep = int32 (re_int32 E (re_mul E (re_float E standing) (st_faction_rate t i)))
                 in spill_template E t standing incremental is
                      (snd (SetOneFactionReputation E fe spilloverRep incremental m))))
      else spill_template E t standing incremental is m)"

fun spill_list ::
  "rep_env \<Rightarrow> faction_entry \<Rightarrow> fl \<Rightarrow> bool \<Rightarrow> u32 list \<Rightarrow> bool \<times> reputation_mgr \<Rightarrow> bool \<times> reputation_mgr" where
  "spill_list E fe spillOut incremental [] rm = rm"
| "spill_list E fe spillOut incremental (f # fs) (res, m) =
     spill_list E fe spillOut incremental fs
       (case re_store E f of
          None \<Rightarrow> (res, m)
        | Some calc \<Rightarrow>
            if calc = fe \<or> GetRank E (Some calc) m > unat (spilloverMaxRankIn calc) then (res, m)
            else (let spilloverRep = int32 (re_int32 E (re_mul E spillOut (spilloverRateIn calc)))
                  in if spilloverRep \<noteq> 0 \<or> \<not> incremental
                     then SetOneFactionReputation E calc spilloverRep incremental m else (res, m)))"

text \<open>The branch without a template.\<close>

definition spill_default :: "rep_env \<Rightarrow> faction_entry \<Rightarrow> int \<Rightarrow> bool \<Rightarrow> reputation_mgr \<Rightarrow> bool \<times> reputation_mgr" where
  "spill_default E fe standing incremental m =
     (let out = re_float E standing;
          flist = re_teamList E (fe_ID fe);
          (out, flist, m) =
            (if flist = None \<and> fe_team fe \<noteq> 0 \<and> re_nonzero E (spilloverRateOut fe)
             then (let out = re_mul E out (spilloverRateOut fe)
                   in case re_store E (fe_team fe) of
                        None \<Rightarrow> (out, flist, m)
                      | Some parent \<Rightarrow>
                          (case map_find (rm_factions m) (rep_key parent) of
                             Some ps \<Rightarrow>
                               if has_flag (Flags ps) FACTION_FLAG_SPECIAL
                               then (out, flist, snd (SetOneFactionReputation E parent (int32 (re_int32 E out)) incremental m))
                               else (out, re_teamList E (fe_team fe), m)
                           | None \<Rightarrow> (out, re_teamList E (fe_team fe), m)))
             else (out, flist, m))
      in case flist of None \<Rightarrow> (False, m) | Some fs \<Rightarrow> spill_list E fe out incremental fs (False, m))"

definition SetReputation ::
  "rep_env \<Rightarrow> faction_entry \<Rightarrow> int \<Rightarrow> bool \<Rightarrow> reputation_mgr \<Rightarrow> cpp_error + bool \<times> reputation_mgr" where
  "SetReputation E fe standing incremental m =
     (let standing = int32 (re_script E (fe_ID fe) standing incremental);
          spilled =
            (case re_template E (fe_ID fe) of
               Some t \<Rightarrow>
                 (case spill_template E t standing incremental [0..<MAX_SPILLOVER_FACTIONS] m of
                    Inl x \<Rightarrow> Inl x | Inr m \<Rightarrow> Inr (False, m))
             | None \<Rightarrow> Inr (spill_default E fe standing incremental m))
      in case spilled of
           Inl x \<Rightarrow> Inl x
         | Inr (res, m) \<Rightarrow>
             (case map_find (rm_factions m) (rep_key fe) of
                None \<Rightarrow> Inr (res, m)
              | Some _ \<Rightarrow>
                  (let (res, m) = SetOneFactionReputation E fe standing incremental m
                   in case map_find (rm_factions m) (rep_key fe) of
                        None \<Rightarrow> Inr (res, m)
                      | Some fs \<Rightarrow> Inr (res, SendState fs m))))"

definition ModifyReputation ::
  "rep_env \<Rightarrow> faction_entry \<Rightarrow> int \<Rightarrow> reputation_mgr \<Rightarrow> cpp_error + bool \<times> reputation_mgr" where
  "ModifyReputation E fe standing m = SetReputation E fe standing True m"

section \<open>Database\<close>

text \<open>A row is what \<^verbatim>\<open>CHAR_SEL_CHARACTER_REPUTATION\<close> selects: faction, standing, flags. A state that
  \<^verbatim>\<open>operator[]\<close> creates is zero.\<close>

definition zero_state :: faction_state where
  "zero_state = \<lparr>fs_ID = 0, ReputationListID = 0, Standing = 0, Flags = 0, needSend = False, needSave = False\<rparr>"

type_synonym rep_row = "u16 \<times> int \<times> u16"

text \<open>What a row's flags do to the state, and the reset of the marks when it agrees with the row.\<close>

definition load_flags :: "rep_env \<Rightarrow> faction_entry \<Rightarrow> u16 \<Rightarrow> reputation_mgr \<Rightarrow> reputation_mgr" where
  "load_flags E fe dbFactionFlags m =
     (let k = rep_key fe;
          m = (if has_flag (ucast dbFactionFlags) FACTION_FLAG_VISIBLE then SetVisible_state E k m else m);
          m = (if has_flag (ucast dbFactionFlags) FACTION_FLAG_INACTIVE then SetInactive_state k True m else m);
          m = (if has_flag (ucast dbFactionFlags) FACTION_FLAG_AT_WAR then SetAtWar_state k True m
               else if has_flag (Flags (map_at zero_state (rm_factions m) k)) FACTION_FLAG_VISIBLE
               then SetAtWar_state k False m else m)
      in if GetRank E (Some fe) m \<le> REP_HOSTILE then SetAtWar_state k True m else m)"

definition load_row :: "rep_env \<Rightarrow> rep_row \<Rightarrow> reputation_mgr \<Rightarrow> reputation_mgr" where
  "load_row E row m =
     (case row of (fid, standing, dbFactionFlags) \<Rightarrow>
        case re_store E (ucast fid) of
          None \<Rightarrow> m
        | Some fe \<Rightarrow>
            if reputationListID fe \<ge> 0
            then (let k = rep_key fe;
                      m = put_state k ((map_at zero_state (rm_factions m) k)\<lparr>Standing := standing\<rparr>) m;
                      BaseRep = GetBaseReputation E (Some fe);
                      m = UpdateRankCounters (ReputationToRank BaseRep) (ReputationToRank (int32 (BaseRep + standing))) m;
                      m = load_flags E fe dbFactionFlags m;
                      fs = map_at zero_state (rm_factions m) k
                  in if ucast (Flags fs) = dbFactionFlags
                     then put_state k (fs\<lparr>needSend := False, needSave := False\<rparr>) m else m)
            else m)"

definition LoadFromDB :: "rep_env \<Rightarrow> rep_row list option \<Rightarrow> reputation_mgr \<Rightarrow> reputation_mgr" where
  "LoadFromDB E result m =
     (let m = Initialize E m
      in case result of None \<Rightarrow> m | Some rows \<Rightarrow> fold (load_row E) rows m)"

definition save_stmts :: "rep_env \<Rightarrow> faction_state \<Rightarrow> rep_stmt list" where
  "save_stmts E fs =
     (if needSave fs
      then [DelReputation (re_guidLow E) (ucast (fs_ID fs)),
            InsReputation (re_guidLow E) (ucast (fs_ID fs)) (Standing fs) (ucast (Flags fs))]
      else [])"

definition SaveToDB :: "rep_env \<Rightarrow> reputation_mgr \<Rightarrow> reputation_mgr \<times> rep_stmt list" where
  "SaveToDB E m =
     (m\<lparr>rm_factions := map (\<lambda>(k, fs). (k, if needSave fs then fs\<lparr>needSave := False\<rparr> else fs)) (rm_factions m)\<rparr>,
      concat (map (\<lambda>(k, fs). save_stmts E fs) (rm_factions m)))"

end
