(* ===== verification/Reputation_Inv.thy ===== *)
theory Reputation_Inv
  imports Reputation_Mgr
begin

text \<open>
  The invariant of the reputation manager: every state belongs to the faction whose list id is its key,
  a faction with forced peace is not at war, and each of the four eight-bit counters is the number of
  states it counts, modulo 256. Operations change a state and its counters in several steps, so the
  invariant carries the difference \<open>d\<close> that the counters still lack. A second invariant relates the
  states to the rows of the database. Both are kept by every public operation; the run of any sequence
  of them is an instance of \<open>step_system\<close>.
\<close>

section \<open>What is assumed of the client data\<close>

text \<open>
  \<^verbatim>\<open>Faction.dbc\<close>: rows are found under their id, ids are positive and fit the database column, list ids
  are unique, base values are reputations, and no default combines forced peace with war. The spillover
  table names existing factions only (\<^verbatim>\<open>ObjectMgr::LoadReputationSpilloverTemplate\<close> checks that).
\<close>

definition faction_ok :: "rep_env \<Rightarrow> u32 \<Rightarrow> faction_entry \<Rightarrow> bool" where
  "faction_ok E i fe \<longleftrightarrow> fe_ID fe = i \<and> 0 < i \<and> i < re_numRows E \<and> i < 0x10000
     \<and> - (2 ^ 31) \<le> reputationListID fe \<and> reputationListID fe < 2 ^ 31
     \<and> (\<forall>j \<in> {0, 1, 2, 3}. Reputation_Bottom \<le> BaseRepValue fe j \<and> BaseRepValue fe j \<le> Reputation_Cap
          \<and> (has_flag (ucast (ReputationFlags fe j)) FACTION_FLAG_PEACE_FORCED
               \<longrightarrow> \<not> has_flag (ucast (ReputationFlags fe j)) FACTION_FLAG_AT_WAR))"

definition env_ok :: "rep_env \<Rightarrow> bool" where
  "env_ok E \<longleftrightarrow> (\<forall>i fe. re_store E i = Some fe \<longrightarrow> faction_ok E i fe)
     \<and> (\<forall>i j fe fe'. re_store E i = Some fe \<and> re_store E j = Some fe' \<and> 0 \<le> reputationListID fe
          \<and> reputationListID fe = reputationListID fe' \<longrightarrow> i = j)
     \<and> (\<forall>i t j. re_template E i = Some t \<and> j < MAX_SPILLOVER_FACTIONS \<and> st_faction t j \<noteq> 0
          \<longrightarrow> re_store E (st_faction t j) \<noteq> None)"

text \<open>An entry as the callers pass it: a pointer into the store.\<close>

definition in_store :: "rep_env \<Rightarrow> faction_entry \<Rightarrow> bool" where
  "in_store E fe \<longleftrightarrow> re_store E (fe_ID fe) = Some fe"

lemma env_faction_ok: "env_ok E \<Longrightarrow> re_store E i = Some fe \<Longrightarrow> faction_ok E i fe"
  by (simp add: env_ok_def)

lemma env_in_store: "env_ok E \<Longrightarrow> re_store E i = Some fe \<Longrightarrow> in_store E fe \<and> fe_ID fe = i"
  using env_faction_ok[of E i fe] by (auto simp: faction_ok_def in_store_def)

lemma uint_rep_key: "0 \<le> reputationListID fe \<Longrightarrow> reputationListID fe < 2 ^ 31 \<Longrightarrow> uint (rep_key fe) = reputationListID fe"
  by (simp add: rep_key_def uint_word_of_int)

lemma uint_rep_key_negative:
  assumes "reputationListID fe < 0" "- (2 ^ 31) \<le> reputationListID fe"
  shows "2 ^ 31 \<le> uint (rep_key fe)"
proof -
  have "uint (rep_key fe) = reputationListID fe mod 2 ^ 32" by (simp add: rep_key_def uint_word_of_int)
  also have "\<dots> = (reputationListID fe + 2 ^ 32) mod 2 ^ 32" by simp
  also have "\<dots> = reputationListID fe + 2 ^ 32" using assms by (intro mod_pos_pos_trivial) auto
  finally show ?thesis using assms by simp
qed

text \<open>Two entries of the store with the same key are the same one, also when one of them has no list id.\<close>

lemma env_key_unique:
  assumes E: "env_ok E" and i: "re_store E i = Some fe" and j: "re_store E j = Some fe'"
    and fe: "0 \<le> reputationListID fe" and key: "rep_key fe = rep_key fe'"
  shows "i = j"
proof -
  have b: "- (2 ^ 31) \<le> reputationListID f \<and> reputationListID f < 2 ^ 31" if "re_store E n = Some f" for n f
    using env_faction_ok[OF E that] by (simp add: faction_ok_def)
  have "uint (rep_key fe) = reputationListID fe" using uint_rep_key fe b[OF i] by blast
  moreover have "0 \<le> reputationListID fe'"
    using uint_rep_key_negative[of fe'] b[OF j] b[OF i] key calculation by fastforce
  moreover have "uint (rep_key fe') = reputationListID fe'" using uint_rep_key b[OF j] calculation(2) by blast
  ultimately have "reputationListID fe = reputationListID fe'" using key by simp
  then show ?thesis using E i j fe by (auto simp: env_ok_def)
qed

text \<open>The base reputation and the default flags come from the same column of the entry.\<close>

lemma base_cases:
  assumes "\<And>j. j \<in> {0, 1, 2, 3} \<Longrightarrow> P (BaseRepValue fe j) (ReputationFlags fe j)" "P 0 0"
  shows "P (GetBaseReputation E (Some fe)) (GetDefaultStateFlags E (Some fe))"
  using assms
  by (auto simp: GetBaseReputation_def GetDefaultStateFlags_def)

lemma base_bounds:
  assumes "env_ok E" "re_store E i = Some fe"
  shows "Reputation_Bottom \<le> GetBaseReputation E (Some fe)" "GetBaseReputation E (Some fe) \<le> Reputation_Cap"
    "has_flag (ucast (GetDefaultStateFlags E (Some fe)) :: u8) FACTION_FLAG_PEACE_FORCED \<Longrightarrow>
       \<not> has_flag (ucast (GetDefaultStateFlags E (Some fe)) :: u8) FACTION_FLAG_AT_WAR"
proof -
  have "Reputation_Bottom \<le> GetBaseReputation E (Some fe) \<and> GetBaseReputation E (Some fe) \<le> Reputation_Cap
     \<and> (has_flag (ucast (GetDefaultStateFlags E (Some fe)) :: u8) FACTION_FLAG_PEACE_FORCED
         \<longrightarrow> \<not> has_flag (ucast (GetDefaultStateFlags E (Some fe)) :: u8) FACTION_FLAG_AT_WAR)"
    by (rule base_cases[where P = "\<lambda>v f. Reputation_Bottom \<le> v \<and> v \<le> Reputation_Cap
         \<and> (has_flag (ucast f :: u8) FACTION_FLAG_PEACE_FORCED \<longrightarrow> \<not> has_flag (ucast f :: u8) FACTION_FLAG_AT_WAR)"])
      (use env_faction_ok[OF assms] in \<open>auto simp: faction_ok_def Reputation_Bottom_def Reputation_Cap_def\<close>)
  then show "Reputation_Bottom \<le> GetBaseReputation E (Some fe)" "GetBaseReputation E (Some fe) \<le> Reputation_Cap"
    "has_flag (ucast (GetDefaultStateFlags E (Some fe)) :: u8) FACTION_FLAG_PEACE_FORCED \<Longrightarrow>
       \<not> has_flag (ucast (GetDefaultStateFlags E (Some fe)) :: u8) FACTION_FLAG_AT_WAR"
    by blast+
qed

lemma base_int32: "env_ok E \<Longrightarrow> re_store E i = Some fe \<Longrightarrow> int32 (GetBaseReputation E (Some fe)) = GetBaseReputation E (Some fe)"
  using base_bounds[of E i fe] by (intro int32_id) (simp_all add: Reputation_Bottom_def Reputation_Cap_def)

section \<open>The invariant\<close>

definition rank_of :: "rep_env \<Rightarrow> faction_state \<Rightarrow> nat" where
  "rank_of E fs = ReputationToRank (int32 (Standing fs + GetBaseReputation E (re_store E (fs_ID fs))))"

text \<open>Counter 0 counts the visible factions, counter \<open>i\<close> those at rank \<open>i\<close> or better.\<close>

definition rep_test :: "rep_env \<Rightarrow> nat \<Rightarrow> faction_state \<Rightarrow> bool" where
  "rep_test E i fs = (if i = 0 then has_flag (Flags fs) FACTION_FLAG_VISIBLE else i \<le> rank_of E fs)"

definition rep_counter :: "nat \<Rightarrow> reputation_mgr \<Rightarrow> u8" where
  "rep_counter i m =
     (if i = 0 then rm_visibleFactionCount m else if i = REP_HONORED then rm_honoredFactionCount m
      else if i = REP_REVERED then rm_reveredFactionCount m else rm_exaltedFactionCount m)"

definition rep_counters :: "nat set" where
  "rep_counters = {0, REP_HONORED, REP_REVERED, REP_EXALTED}"

definition state_ok :: "rep_env \<Rightarrow> u32 \<Rightarrow> faction_state \<Rightarrow> bool" where
  "state_ok E k fs \<longleftrightarrow> (\<exists>fe. re_store E (fs_ID fs) = Some fe \<and> 0 \<le> reputationListID fe \<and> rep_key fe = k)
     \<and> ReputationListID fs = k
     \<and> (has_flag (Flags fs) FACTION_FLAG_PEACE_FORCED \<longrightarrow> \<not> has_flag (Flags fs) FACTION_FLAG_AT_WAR)"

definition rep_inv_d :: "rep_env \<Rightarrow> (nat \<Rightarrow> u8) \<Rightarrow> reputation_mgr \<Rightarrow> bool" where
  "rep_inv_d E d m \<longleftrightarrow> map_wf (rm_factions m)
     \<and> (\<forall>k fs. map_find (rm_factions m) k = Some fs \<longrightarrow> state_ok E k fs)
     \<and> (\<forall>i \<in> rep_counters. rep_counter i m + d i = of_nat (map_count (rep_test E i) (rm_factions m)))"

abbreviation rep_inv :: "rep_env \<Rightarrow> reputation_mgr \<Rightarrow> bool" where
  "rep_inv E m \<equiv> rep_inv_d E (\<lambda>_. 0) m"

lemma rep_inv_stateD: "rep_inv_d E d m \<Longrightarrow> map_find (rm_factions m) k = Some fs \<Longrightarrow> state_ok E k fs"
  by (simp add: rep_inv_d_def)

lemma rep_inv_wfD: "rep_inv_d E d m \<Longrightarrow> map_wf (rm_factions m)"
  by (simp add: rep_inv_d_def)

lemma rep_inv_cong:
  assumes "rm_factions m' = rm_factions m" "\<And>i. i \<in> rep_counters \<Longrightarrow> rep_counter i m' + d' i = rep_counter i m + d i"
  shows "rep_inv_d E d' m' = rep_inv_d E d m"
  using assms by (simp add: rep_inv_d_def)

lemma put_state_fields [simp]:
  "rm_factions (put_state k fs m) = map_set k fs (rm_factions m)" "rep_counter i (put_state k fs m) = rep_counter i m"
  by (simp_all add: put_state_def rep_counter_def)

text \<open>A state that is replaced shifts the counters by what its tests gain.\<close>

lemma rep_inv_put:
  assumes inv: "rep_inv_d E d m" and ok: "state_ok E k fs'"
    and d': "\<And>i. i \<in> rep_counters \<Longrightarrow> d' i = d i + of_bool (rep_test E i fs')
        - (case map_find (rm_factions m) k of None \<Rightarrow> 0 | Some fs \<Rightarrow> of_bool (rep_test E i fs))"
  shows "rep_inv_d E d' (put_state k fs' m)"
proof -
  have wf: "map_wf (rm_factions m)" by (rule rep_inv_wfD[OF inv])
  have "rep_counter i m + d' i = of_nat (map_count (rep_test E i) (map_set k fs' (rm_factions m)))" if i: "i \<in> rep_counters" for i
  proof -
    let ?c = "\<lambda>m. of_nat (map_count (rep_test E i) m) :: u8"
    let ?old = "case map_find (rm_factions m) k of None \<Rightarrow> 0 | Some fs \<Rightarrow> of_bool (rep_test E i fs)"
    have "?c (map_set k fs' (rm_factions m)) + of_nat ?old = ?c (rm_factions m) + of_nat (of_bool (rep_test E i fs'))"
      by (simp only: map_count_set[OF wf] flip: of_nat_add)
    moreover have "(of_nat ?old :: u8) = (case map_find (rm_factions m) k of None \<Rightarrow> 0 | Some fs \<Rightarrow> of_bool (rep_test E i fs))"
      by (simp split: option.split)
    ultimately have "?c (map_set k fs' (rm_factions m)) = ?c (rm_factions m) + of_bool (rep_test E i fs')
          - (case map_find (rm_factions m) k of None \<Rightarrow> 0 | Some fs \<Rightarrow> of_bool (rep_test E i fs))"
      by (simp only: eq_diff_eq of_nat_of_bool)
    moreover have "rep_counter i m + d i = of_nat (map_count (rep_test E i) (rm_factions m))"
      using inv i by (simp add: rep_inv_d_def)
    ultimately show ?thesis unfolding d'[OF i] by (simp only: add_diff_eq add.assoc[symmetric])
  qed
  then have "rep_counter i (put_state k fs' m) + d' i = of_nat (map_count (rep_test E i) (rm_factions (put_state k fs' m)))"
    if "i \<in> rep_counters" for i using that by simp
  moreover have "state_ok E k' x" if "map_find (rm_factions (put_state k fs' m)) k' = Some x" for k' x
    using that ok rep_inv_stateD[OF inv] by (simp add: container_simps split: if_splits)
  moreover have "map_wf (rm_factions (put_state k fs' m))" using wf by (simp add: wf_intros)
  ultimately show ?thesis unfolding rep_inv_d_def by blast
qed

text \<open>Replacing the value under a key by one that passes the same tests.\<close>

lemma rep_inv_put_same:
  assumes "rep_inv_d E d m" "map_find (rm_factions m) k = Some fs" "state_ok E k fs'"
    "\<And>i. i \<in> rep_counters \<Longrightarrow> rep_test E i fs' = rep_test E i fs"
  shows "rep_inv_d E d (put_state k fs' m)"
  by (rule rep_inv_put[OF assms(1,3)]) (use assms(2,4) in simp)

section \<open>The helpers keep it\<close>

lemma UpdateRankCounters_fields [simp]:
  "rm_factions (UpdateRankCounters r r' m) = rm_factions m"
  "rm_visibleFactionCount (UpdateRankCounters r r' m) = rm_visibleFactionCount m"
  "rm_honoredFactionCount (UpdateRankCounters r r' m) = rm_honoredFactionCount m - of_bool (REP_HONORED \<le> r) + of_bool (REP_HONORED \<le> r')"
  "rm_reveredFactionCount (UpdateRankCounters r r' m) = rm_reveredFactionCount m - of_bool (REP_REVERED \<le> r) + of_bool (REP_REVERED \<le> r')"
  "rm_exaltedFactionCount (UpdateRankCounters r r' m) = rm_exaltedFactionCount m - of_bool (REP_EXALTED \<le> r) + of_bool (REP_EXALTED \<le> r')"
  by (simp_all add: UpdateRankCounters_def Let_def)

lemma UpdateRankCounters_counter:
  "i \<in> rep_counters \<Longrightarrow> rep_counter i (UpdateRankCounters r r' m) =
     (if i = 0 then rep_counter i m else rep_counter i m - of_bool (i \<le> r) + of_bool (i \<le> r'))"
  by (auto simp: rep_counters_def rep_counter_def REP_HONORED_def REP_REVERED_def REP_EXALTED_def)

lemma rep_inv_rank_counters:
  assumes "rep_inv_d E d m"
    and "\<And>i. i \<in> rep_counters \<Longrightarrow> d i = d' i + (if i = 0 then 0 else of_bool (i \<le> r') - of_bool (i \<le> r))"
  shows "rep_inv_d E d' (UpdateRankCounters r r' m)"
proof -
  have "rep_inv_d E d' (UpdateRankCounters r r' m) = rep_inv_d E d m"
    by (rule rep_inv_cong) (simp_all add: UpdateRankCounters_counter assms(2))
  then show ?thesis using assms(1) by simp
qed

lemma rep_inv_other_fields [simp]:
  "rep_inv_d E d (rep_emit ev m) = rep_inv_d E d m"
  "rep_inv_d E d (m\<lparr>rm_sendFactionIncreased := b\<rparr>) = rep_inv_d E d m"
  "rep_inv_d E d (m\<lparr>rm_forcedReactions := fr\<rparr>) = rep_inv_d E d m"
  by (rule rep_inv_cong; simp add: rep_emit_def rep_counter_def)+

lemma rep_inv_fold_emit [simp]: "rep_inv_d E d (fold rep_emit evs m) = rep_inv_d E d m"
  by (induction evs arbitrary: m) auto

lemma rep_emit_factions [simp]: "rm_factions (rep_emit ev m) = rm_factions m"
  by (simp add: rep_emit_def)

lemma fold_emit_factions [simp]: "rm_factions (fold rep_emit evs m) = rm_factions m"
  by (induction evs arbitrary: m) auto

lemma SendVisible_inv [simp]: "rep_inv_d E d (SendVisible E fs m) = rep_inv_d E d m"
  by (simp add: SendVisible_def)

lemma SendVisible_factions [simp]: "rm_factions (SendVisible E fs m) = rm_factions m"
  by (simp add: SendVisible_def)

text \<open>Changing flags other than \<^verbatim>\<open>VISIBLE\<close>, or the two dirty marks, passes no other test.\<close>

lemma rep_test_flags:
  assumes "fs_ID fs' = fs_ID fs" "Standing fs' = Standing fs"
    "has_flag (Flags fs') FACTION_FLAG_VISIBLE = has_flag (Flags fs) FACTION_FLAG_VISIBLE"
  shows "rep_test E i fs' = rep_test E i fs"
  using assms by (simp add: rep_test_def rank_of_def)

lemma flag_zero_simps:
  "(x OR f) AND g = 0 \<longleftrightarrow> x AND g = 0 \<and> f AND g = 0" "f AND g = 0 \<Longrightarrow> (x AND NOT f) AND g = 0 \<longleftrightarrow> x AND g = 0"
  "(x AND NOT f) AND f = 0" for x f g :: u8
  using has_flag_or[of x f g] has_flag_and_not[of f g x] has_flag_and_not_self[of x f] by auto

lemma faction_flags_disjoint [simp]:
  "FACTION_FLAG_AT_WAR AND FACTION_FLAG_VISIBLE = 0" "FACTION_FLAG_AT_WAR AND FACTION_FLAG_PEACE_FORCED = 0"
  "FACTION_FLAG_INACTIVE AND FACTION_FLAG_VISIBLE = 0" "FACTION_FLAG_INACTIVE AND FACTION_FLAG_PEACE_FORCED = 0"
  "FACTION_FLAG_INACTIVE AND FACTION_FLAG_AT_WAR = 0" "FACTION_FLAG_VISIBLE AND FACTION_FLAG_PEACE_FORCED = 0"
  "FACTION_FLAG_VISIBLE AND FACTION_FLAG_AT_WAR = 0" "FACTION_FLAG_VISIBLE \<noteq> 0" "FACTION_FLAG_AT_WAR \<noteq> 0"
  by (simp_all add: faction_flags)

lemma SetAtWar_flags_same:
  "fs_ID (SetAtWar_flags b fs) = fs_ID fs" "Standing (SetAtWar_flags b fs) = Standing fs"
  "ReputationListID (SetAtWar_flags b fs) = ReputationListID fs"
  "has_flag (Flags (SetAtWar_flags b fs)) FACTION_FLAG_VISIBLE = has_flag (Flags fs) FACTION_FLAG_VISIBLE"
  "has_flag (Flags (SetAtWar_flags b fs)) FACTION_FLAG_PEACE_FORCED = has_flag (Flags fs) FACTION_FLAG_PEACE_FORCED"
  by (simp_all add: SetAtWar_flags_def Let_def flag_zero_simps)

lemma SetAtWar_flags_war:
  "has_flag (Flags (SetAtWar_flags b fs)) FACTION_FLAG_AT_WAR =
     (if b \<and> has_flag (Flags fs) FACTION_FLAG_PEACE_FORCED then has_flag (Flags fs) FACTION_FLAG_AT_WAR else b)"
  by (auto simp: SetAtWar_flags_def Let_def flag_zero_simps)

lemma SetInactive_flags_same:
  "fs_ID (SetInactive_flags b fs) = fs_ID fs" "Standing (SetInactive_flags b fs) = Standing fs"
  "ReputationListID (SetInactive_flags b fs) = ReputationListID fs"
  "has_flag (Flags (SetInactive_flags b fs)) FACTION_FLAG_VISIBLE = has_flag (Flags fs) FACTION_FLAG_VISIBLE"
  "has_flag (Flags (SetInactive_flags b fs)) FACTION_FLAG_PEACE_FORCED = has_flag (Flags fs) FACTION_FLAG_PEACE_FORCED"
  "has_flag (Flags (SetInactive_flags b fs)) FACTION_FLAG_AT_WAR = has_flag (Flags fs) FACTION_FLAG_AT_WAR"
  by (simp_all add: SetInactive_flags_def Let_def flag_zero_simps)

lemma rep_test_SetAtWar [simp]: "rep_test E i (SetAtWar_flags b fs) = rep_test E i fs"
  by (rule rep_test_flags) (simp_all only: SetAtWar_flags_same)

lemma rep_test_SetInactive [simp]: "rep_test E i (SetInactive_flags b fs) = rep_test E i fs"
  by (rule rep_test_flags) (simp_all only: SetInactive_flags_same)

lemma state_ok_SetAtWar: "state_ok E k fs \<Longrightarrow> state_ok E k (SetAtWar_flags b fs)"
  by (simp add: state_ok_def SetAtWar_flags_same(1,3) SetAtWar_flags_same(5)[simplified] SetAtWar_flags_war[simplified])

lemma state_ok_SetInactive: "state_ok E k fs \<Longrightarrow> state_ok E k (SetInactive_flags b fs)"
  by (simp add: state_ok_def SetInactive_flags_same(1,3) SetInactive_flags_same(5,6)[simplified])

lemma SetAtWar_state_inv: "rep_inv_d E d m \<Longrightarrow> rep_inv_d E d (SetAtWar_state k b m)"
  by (auto simp: SetAtWar_state_def split: option.split
      intro!: rep_inv_put_same state_ok_SetAtWar elim: rep_inv_stateD)

lemma SetInactive_state_inv: "rep_inv_d E d m \<Longrightarrow> rep_inv_d E d (SetInactive_state k b m)"
  by (auto simp: SetInactive_state_def split: option.split
      intro!: rep_inv_put_same state_ok_SetInactive elim: rep_inv_stateD)

text \<open>\<^verbatim>\<open>SetVisible\<close> on a state, as a change of the state alone.\<close>

definition made_visible :: "faction_state \<Rightarrow> faction_state" where
  "made_visible fs =
     (if has_flag (Flags fs) (FACTION_FLAG_INVISIBLE_FORCED OR FACTION_FLAG_HIDDEN)
         \<and> \<not> has_flag (Flags fs) FACTION_FLAG_SPECIAL \<or> has_flag (Flags fs) FACTION_FLAG_VISIBLE then fs
      else fs\<lparr>Flags := Flags fs OR FACTION_FLAG_VISIBLE, needSend := True, needSave := True\<rparr>)"

lemma made_visible_same:
  "fs_ID (made_visible fs) = fs_ID fs" "Standing (made_visible fs) = Standing fs"
  "ReputationListID (made_visible fs) = ReputationListID fs"
  "Flags (made_visible fs) AND FACTION_FLAG_PEACE_FORCED = 0 \<longleftrightarrow> Flags fs AND FACTION_FLAG_PEACE_FORCED = 0"
  "Flags (made_visible fs) AND FACTION_FLAG_AT_WAR = 0 \<longleftrightarrow> Flags fs AND FACTION_FLAG_AT_WAR = 0"
  by (simp_all add: made_visible_def flag_zero_simps)

lemma map_set_same: "map_find m k = Some v \<Longrightarrow> map_wf m \<Longrightarrow> map_set k v m = m"
  by (rule map_wf_ext) (simp_all add: wf_intros container_simps)

lemma SetVisible_state_factions:
  assumes "map_wf (rm_factions m)"
  shows "rm_factions (SetVisible_state E k m) =
    (case map_find (rm_factions m) k of None \<Rightarrow> rm_factions m | Some fs \<Rightarrow> map_set k (made_visible fs) (rm_factions m))"
  using assms by (auto simp: SetVisible_state_def made_visible_def map_set_same Let_def split: option.split)

lemma SetVisible_state_inv:
  assumes "rep_inv_d E d m"
  shows "rep_inv_d E d (SetVisible_state E k m)"
proof (cases "map_find (rm_factions m) k")
  case (Some fs)
  show ?thesis
  proof (cases "has_flag (Flags fs) (FACTION_FLAG_INVISIBLE_FORCED OR FACTION_FLAG_HIDDEN)
         \<and> \<not> has_flag (Flags fs) FACTION_FLAG_SPECIAL \<or> has_flag (Flags fs) FACTION_FLAG_VISIBLE")
    case True
    then show ?thesis using assms Some by (auto simp: SetVisible_state_def)
  next
    case False
    then have vis: "\<not> has_flag (Flags fs) FACTION_FLAG_VISIBLE" "made_visible fs = fs\<lparr>Flags := Flags fs OR FACTION_FLAG_VISIBLE, needSend := True, needSave := True\<rparr>"
      by (auto simp: made_visible_def split: if_splits)
    let ?d = "\<lambda>i. if i = 0 then d i + 1 else d i"
    let ?m = "put_state k (made_visible fs) m"
    have tests: "rep_test E 0 (made_visible fs)" "\<not> rep_test E 0 fs"
      "i \<noteq> 0 \<Longrightarrow> rep_test E i (made_visible fs) = rep_test E i fs" for i
      using vis by (simp_all add: rep_test_def rank_of_def flag_zero_simps)
    have "state_ok E k (made_visible fs)"
      using rep_inv_stateD[OF assms Some] by (simp add: state_ok_def made_visible_same)
    then have "rep_inv_d E ?d ?m"
      by (rule rep_inv_put[OF assms]) (use tests Some in auto)
    moreover have "rep_inv_d E d (?m\<lparr>rm_visibleFactionCount := rm_visibleFactionCount ?m + 1\<rparr>) = rep_inv_d E ?d ?m"
      by (rule rep_inv_cong) (auto simp: rep_counter_def REP_HONORED_def REP_REVERED_def)
    moreover have "SetVisible_state E k m = SendVisible E (made_visible fs) (?m\<lparr>rm_visibleFactionCount := rm_visibleFactionCount ?m + 1\<rparr>)"
      using False vis(2) Some by (auto simp: SetVisible_state_def Let_def)
    ultimately show ?thesis by simp
  qed
qed (use assms in \<open>simp add: SetVisible_state_def\<close>)

section \<open>Operations\<close>

text \<open>The state found under the key of an entry is the state of that entry.\<close>

lemma state_of_entry:
  assumes "env_ok E" "in_store E fe" "rep_inv_d E d m" "map_find (rm_factions m) (rep_key fe) = Some fs"
  shows "fs_ID fs = fe_ID fe" "re_store E (fs_ID fs) = Some fe" "0 \<le> reputationListID fe"
    "rank_of E fs = ReputationToRank (int32 (Standing fs + GetBaseReputation E (Some fe)))"
proof -
  obtain fe' where fe': "re_store E (fs_ID fs) = Some fe'" "0 \<le> reputationListID fe'" "rep_key fe' = rep_key fe"
    using rep_inv_stateD[OF assms(3,4)] by (auto simp: state_ok_def)
  then show "fs_ID fs = fe_ID fe"
    using env_key_unique[OF assms(1) fe'(1) _ fe'(2,3)] assms(2) by (simp add: in_store_def)
  then show "re_store E (fs_ID fs) = Some fe" "0 \<le> reputationListID fe" using fe' assms(2) by (auto simp: in_store_def)
  then show "rank_of E fs = ReputationToRank (int32 (Standing fs + GetBaseReputation E (Some fe)))" by (simp add: rank_of_def)
qed

lemma clamp_bounds: "Reputation_Bottom \<le> clamp_standing x" "clamp_standing x \<le> Reputation_Cap"
  by (simp_all add: clamp_standing_def Reputation_Bottom_def Reputation_Cap_def)

lemma clamped_standing:
  assumes "env_ok E" "in_store E fe" "Reputation_Bottom \<le> x" "x \<le> Reputation_Cap"
  shows "int32 (int32 (x - GetBaseReputation E (Some fe)) + GetBaseReputation E (Some fe)) = x"
proof -
  have "Reputation_Bottom \<le> GetBaseReputation E (Some fe)" "GetBaseReputation E (Some fe) \<le> Reputation_Cap"
    using base_bounds[OF assms(1)] assms(2) by (auto simp: in_store_def)
  then show ?thesis using assms(3,4) by (simp add: int32_id Reputation_Bottom_def Reputation_Cap_def)
qed

lemma apply_standing_inv:
  assumes E: "env_ok E" and fe: "in_store E fe" and inv: "rep_inv E m" and fs: "map_find (rm_factions m) (rep_key fe) = Some fs"
    and x: "Reputation_Bottom \<le> x" "x \<le> Reputation_Cap"
  shows "rep_inv E (apply_standing E fe fs x m)"
proof -
  note st = state_of_entry[OF E fe inv fs]
  let ?B = "GetBaseReputation E (Some fe)"
  let ?fs = "fs\<lparr>Standing := int32 (x - ?B), needSend := True, needSave := True\<rparr>"
  let ?old = "ReputationToRank (int32 (Standing fs + ?B))" and ?new = "ReputationToRank x"
  let ?d = "\<lambda>i :: nat. (if i = 0 then 0 else of_bool (i \<le> ?new) - of_bool (i \<le> ?old)) :: u8"
  have rank: "rank_of E ?fs = ?new" using st(2) clamped_standing[OF E fe x] by (simp add: rank_of_def)
  have "state_ok E (rep_key fe) ?fs" using rep_inv_stateD[OF inv fs] by (simp add: state_ok_def)
  then have 1: "rep_inv_d E ?d (put_state (rep_key fe) ?fs m)"
    by (rule rep_inv_put[OF inv]) (use fs rank st(4) in \<open>auto simp: rep_test_def\<close>)
  let ?m = "SetVisible_state E (rep_key fe) (put_state (rep_key fe) ?fs m)"
  have 2: "rep_inv_d E ?d (if ?new \<le> REP_HOSTILE then SetAtWar_state (rep_key fe) True ?m else ?m)"
    using SetVisible_state_inv[OF 1] SetAtWar_state_inv by auto
  have "rep_inv E (UpdateRankCounters ?old ?new m')" if "rep_inv_d E ?d m'" for m'
    using that by (rule rep_inv_rank_counters) auto
  with 2 show ?thesis unfolding apply_standing_def Let_def by (auto simp only: rep_inv_fold_emit rep_inv_other_fields split: if_split)
qed

lemma target_bounds:
  "Reputation_Bottom \<le> target_standing E fe fs x b" "target_standing E fe fs x b \<le> Reputation_Cap"
  unfolding target_standing_def by (rule clamp_bounds)+

lemma SetOneFactionReputation_inv:
  assumes "env_ok E" "in_store E fe" "rep_inv E m"
  shows "rep_inv E (snd (SetOneFactionReputation E fe standing incremental m))"
  using apply_standing_inv[OF assms _ target_bounds] assms(3)
  by (simp add: SetOneFactionReputation_def split: option.split)

section \<open>States and rows of the database\<close>

text \<open>The rows of one character: faction id to standing and flags. \<open>g\<close> is the character.\<close>

type_synonym rep_table = "(u16, int \<times> u16) stdmap"

fun exec_rep :: "u32 \<Rightarrow> rep_stmt \<Rightarrow> rep_table \<Rightarrow> rep_table" where
  "exec_rep g (DelReputation g' f) t = (if g' = g then map_erase f t else t)"
| "exec_rep g (InsReputation g' f st fl) t = (if g' = g then map_set f (st, fl) t else t)"

definition rep_rows :: "rep_table \<Rightarrow> rep_row list option" where
  "rep_rows t = (if t = [] then None else Some (map (\<lambda>(f, st, fl). (f, st, fl)) t))"

text \<open>A state that is not marked for saving is what its row says; every faction with a list id has a state.\<close>

definition synced :: "rep_table \<Rightarrow> faction_state \<Rightarrow> bool" where
  "synced t fs \<longleftrightarrow> needSave fs \<or> map_find t (ucast (fs_ID fs)) = Some (Standing fs, ucast (Flags fs))"

definition tracked :: "rep_env \<Rightarrow> rep_table \<Rightarrow> reputation_mgr \<Rightarrow> bool" where
  "tracked E t m \<longleftrightarrow> (\<forall>k fs. map_find (rm_factions m) k = Some fs \<longrightarrow> synced t fs)
     \<and> (\<forall>i fe. re_store E i = Some fe \<and> 0 \<le> reputationListID fe \<longrightarrow> map_find (rm_factions m) (rep_key fe) \<noteq> None)"

lemma tracked_cong: "rm_factions m' = rm_factions m \<Longrightarrow> tracked E t m' = tracked E t m"
  by (simp add: tracked_def)

lemma tracked_put: "tracked E t m \<Longrightarrow> synced t fs \<Longrightarrow> tracked E t (put_state k fs m)"
  by (auto simp: tracked_def container_simps)

lemma tracked_synced: "tracked E t m \<Longrightarrow> map_find (rm_factions m) k = Some fs \<Longrightarrow> synced t fs"
  by (simp add: tracked_def)

lemma tracked_fields [simp]:
  "tracked E t (rep_emit ev m) = tracked E t m" "tracked E t (fold rep_emit evs m) = tracked E t m"
  "tracked E t (UpdateRankCounters r r' m) = tracked E t m" "tracked E t (SendVisible E fs m) = tracked E t m"
  "tracked E t (m\<lparr>rm_sendFactionIncreased := b\<rparr>) = tracked E t m" "tracked E t (m\<lparr>rm_forcedReactions := fr\<rparr>) = tracked E t m"
  "tracked E t (m\<lparr>rm_visibleFactionCount := c\<rparr>) = tracked E t m"
  by (rule tracked_cong; simp)+

lemma synced_dirty: "synced t (fs\<lparr>Flags := f, needSend := b, needSave := True\<rparr>)"
  "synced t (fs\<lparr>Standing := x, needSend := b, needSave := True\<rparr>)"
  by (simp_all add: synced_def)

lemma synced_flags: "synced t fs \<Longrightarrow> synced t (SetAtWar_flags b fs)" "synced t fs \<Longrightarrow> synced t (SetInactive_flags b fs)"
  by (simp_all add: SetAtWar_flags_def SetInactive_flags_def synced_def Let_def)

lemma SetVisible_state_tracked: "tracked E t m \<Longrightarrow> tracked E t (SetVisible_state E k m)"
  by (auto simp: SetVisible_state_def Let_def intro!: tracked_put synced_dirty split: option.split)

lemma SetAtWar_state_tracked: "tracked E t m \<Longrightarrow> tracked E t (SetAtWar_state k b m)"
  by (auto simp: SetAtWar_state_def intro: tracked_put synced_flags tracked_synced split: option.split)

lemma SetInactive_state_tracked: "tracked E t m \<Longrightarrow> tracked E t (SetInactive_state k b m)"
  by (auto simp: SetInactive_state_def intro: tracked_put synced_flags tracked_synced split: option.split)

lemma SetOneFactionReputation_tracked: "tracked E t m \<Longrightarrow> tracked E t (snd (SetOneFactionReputation E fe x b m))"
  by (auto simp: SetOneFactionReputation_def apply_standing_def Let_def split: option.split
      intro!: SetAtWar_state_tracked SetVisible_state_tracked tracked_put synced_dirty)

section \<open>Both invariants\<close>

definition rep_ok :: "rep_env \<Rightarrow> rep_table \<Rightarrow> reputation_mgr \<Rightarrow> bool" where
  "rep_ok E t m \<longleftrightarrow> rep_inv E m \<and> tracked E t m"

lemma rep_okD: "rep_ok E t m \<Longrightarrow> rep_inv E m" "rep_ok E t m \<Longrightarrow> tracked E t m"
  by (simp_all add: rep_ok_def)

lemma SetVisible_state_ok: "rep_ok E t m \<Longrightarrow> rep_ok E t (SetVisible_state E k m)"
  by (simp add: rep_ok_def SetVisible_state_inv SetVisible_state_tracked)

lemma SetAtWar_state_ok: "rep_ok E t m \<Longrightarrow> rep_ok E t (SetAtWar_state k b m)"
  by (simp add: rep_ok_def SetAtWar_state_inv SetAtWar_state_tracked)

lemma SetInactive_state_ok: "rep_ok E t m \<Longrightarrow> rep_ok E t (SetInactive_state k b m)"
  by (simp add: rep_ok_def SetInactive_state_inv SetInactive_state_tracked)

lemma SetOne_ok:
  "env_ok E \<Longrightarrow> in_store E fe \<Longrightarrow> rep_ok E t m \<Longrightarrow> rep_ok E t (snd (SetOneFactionReputation E fe x b m))"
  by (simp add: rep_ok_def SetOneFactionReputation_inv SetOneFactionReputation_tracked)

lemma SetVisible_entry_ok: "rep_ok E t m \<Longrightarrow> rep_ok E t (SetVisible_entry E fe m)"
  by (simp add: SetVisible_entry_def SetVisible_state_ok split: option.split)

lemma SetVisible_template_ok: "rep_ok E t m \<Longrightarrow> rep_ok E t (SetVisible_template E f m)"
  by (simp add: SetVisible_template_def SetVisible_entry_ok split: option.split)

lemma SetAtWar_ok: "rep_ok E t m \<Longrightarrow> rep_ok E t (SetAtWar k b m)"
  by (simp add: SetAtWar_def SetAtWar_state_ok split: option.split)

lemma SetInactive_ok: "rep_ok E t m \<Longrightarrow> rep_ok E t (SetInactive k b m)"
  by (simp add: SetInactive_def SetInactive_state_ok split: option.split)

lemma ApplyForceReaction_ok: "rep_ok E t m \<Longrightarrow> rep_ok E t (ApplyForceReaction f r b m)"
  by (simp add: ApplyForceReaction_def rep_ok_def)

lemma SendForceReactions_ok: "rep_ok E t m \<Longrightarrow> rep_ok E t (SendForceReactions m)"
  by (simp add: SendForceReactions_def rep_ok_def)

text \<open>Clearing marks in every state.\<close>

lemma map_find_values: "map_find (map (\<lambda>(k, v). (k, g v)) m) k = map_option g (map_find m k)"
  by (induction m) (auto simp: map_find_def)

lemma map_wf_values_map: "map_wf (map (\<lambda>(k, v). (k, g v)) m) = map_wf m"
  by (simp add: map_wf_def comp_def split_beta)

lemma map_count_values: "(\<And>v. P (g v) = P v) \<Longrightarrow> map_count P (map (\<lambda>(k, v). (k, g v)) m) = map_count P m"
  by (simp add: map_count_def filter_map comp_def split_beta)

lemma rep_inv_values:
  assumes "rep_inv_d E d m" "\<And>fs. fs_ID (g fs) = fs_ID fs \<and> ReputationListID (g fs) = ReputationListID fs
    \<and> Standing (g fs) = Standing fs \<and> Flags (g fs) = Flags fs"
  shows "rep_inv_d E d (m\<lparr>rm_factions := map (\<lambda>(k, fs). (k, g fs)) (rm_factions m)\<rparr>)"
proof -
  have "rep_test E i (g fs) = rep_test E i fs" for i fs using assms(2)[of fs] by (simp add: rep_test_def rank_of_def)
  moreover have "state_ok E k fs \<Longrightarrow> state_ok E k (g fs)" for k fs using assms(2)[of fs] by (simp add: state_ok_def)
  moreover have "rep_counter i (m\<lparr>rm_factions := x\<rparr>) = rep_counter i m" for i x by (simp add: rep_counter_def)
  ultimately show ?thesis using assms(1)
    by (auto simp: rep_inv_d_def map_find_values map_wf_values_map map_count_values)
qed

lemma sent_ok: "rep_ok E t m \<Longrightarrow> rep_ok E t (m\<lparr>rm_factions := map (\<lambda>(k, fs). (k, fs\<lparr>needSend := False\<rparr>)) (rm_factions m)\<rparr>)"
  unfolding rep_ok_def
  by (intro conjI rep_inv_values) (auto simp: tracked_def map_find_values synced_def, metis)

lemma SendState_ok: "rep_ok E t m \<Longrightarrow> rep_ok E t (SendState fs m)"
  using sent_ok[of E t "m\<lparr>rm_sendFactionIncreased := False\<rparr>"] by (simp add: SendState_def Let_def rep_ok_def)

lemma SendInitialReputations_ok: "rep_ok E t m \<Longrightarrow> rep_ok E t (SendInitialReputations m)"
  using sent_ok[of E t m] by (simp add: SendInitialReputations_def Let_def rep_ok_def)

lemma send_states_ok: "rep_ok E t m \<Longrightarrow> rep_ok E t (send_states ks m)"
  by (induction ks arbitrary: m) (auto intro: SendState_ok split: option.split)

lemma spill_template_ok:
  assumes "env_ok E" "re_template E i = Some tm" "rep_ok E t m" "set js \<subseteq> {..<MAX_SPILLOVER_FACTIONS}"
  shows "\<exists>m'. spill_template E tm x b js m = Inr m' \<and> rep_ok E t m'"
  using assms(3,4)
proof (induction js arbitrary: m)
  case (Cons j js)
  show ?case
  proof (cases "st_faction tm j \<noteq> 0 \<and> Player_GetReputationRank E (st_faction tm j) m \<le> unat (st_faction_rank tm j)")
    case True
    then obtain fe where fe: "re_store E (st_faction tm j) = Some fe"
      using assms(1,2) Cons.prems(2) by (fastforce simp: env_ok_def)
    then have "rep_ok E t (snd (SetOneFactionReputation E fe x' b m))" for x'
      using SetOne_ok[OF assms(1) _ Cons.prems(1)] env_in_store[OF assms(1)] by blast
    then show ?thesis using Cons.IH Cons.prems(2) True fe by (simp add: Let_def)
  next
    case False
    then show ?thesis using Cons by auto
  qed
qed simp

lemma spill_list_ok:
  assumes "env_ok E" "rep_ok E t m"
  shows "rep_ok E t (snd (spill_list E fe out b fs (r, m)))"
  using assms(2)
proof (induction fs arbitrary: r m)
  case (Cons f fs)
  define rm where "rm = (case re_store E f of
          None \<Rightarrow> (r, m)
        | Some calc \<Rightarrow>
            if calc = fe \<or> GetRank E (Some calc) m > unat (spilloverMaxRankIn calc) then (r, m)
            else (let spilloverRep = int32 (re_int32 E (re_mul E out (spilloverRateIn calc)))
                  in if spilloverRep \<noteq> 0 \<or> \<not> b then SetOneFactionReputation E calc spilloverRep b m else (r, m)))"
  have "rep_ok E t (snd rm)"
    using Cons.prems SetOne_ok[OF assms(1)] env_in_store[OF assms(1)]
    by (auto simp: rm_def Let_def split: option.split)
  then have "rep_ok E t (snd (spill_list E fe out b fs (fst rm, snd rm)))" by (rule Cons.IH)
  then show ?case by (simp add: rm_def)
qed simp

lemma spill_default_ok:
  assumes "env_ok E" "rep_ok E t m"
  shows "rep_ok E t (snd (spill_default E fe x b m))"
proof -
  have "rep_ok E t (snd (SetOneFactionReputation E parent y b m))" if "re_store E (fe_team fe) = Some parent" for parent y
    using SetOne_ok[OF assms(1) _ assms(2)] env_in_store[OF assms(1) that] by blast
  then show ?thesis using assms
    by (auto simp: spill_default_def Let_def spill_list_ok split: option.split prod.split)
qed

lemma SetReputation_ok:
  assumes "env_ok E" "in_store E fe" "rep_ok E t m"
  shows "\<exists>r m'. SetReputation E fe x b m = Inr (r, m') \<and> rep_ok E t m'"
proof -
  let ?x = "int32 (re_script E (fe_ID fe) x b)"
  let ?sp = "case re_template E (fe_ID fe) of
               Some tm \<Rightarrow> (case spill_template E tm ?x b [0..<MAX_SPILLOVER_FACTIONS] m of Inl x \<Rightarrow> Inl x | Inr m \<Rightarrow> Inr (False, m))
             | None \<Rightarrow> Inr (spill_default E fe ?x b m)"
  obtain r1 m1 where sp: "?sp = Inr (r1, m1)" "rep_ok E t m1"
  proof (cases "re_template E (fe_ID fe)")
    case None
    then show ?thesis using that spill_default_ok[OF assms(1,3)] by (metis option.simps(4) prod.collapse)
  next
    case (Some tm)
    have "set [0..<MAX_SPILLOVER_FACTIONS] \<subseteq> {..<MAX_SPILLOVER_FACTIONS}" by auto
    from spill_template_ok[OF assms(1) Some assms(3) this, of ?x b]
    obtain m' where "spill_template E tm ?x b [0..<MAX_SPILLOVER_FACTIONS] m = Inr m'" "rep_ok E t m'" by blast
    then show ?thesis using Some by (intro that[of False m']) simp_all
  qed
  have "rep_ok E t (snd (SetOneFactionReputation E fe ?x b m1))" by (rule SetOne_ok[OF assms(1,2) sp(2)])
  then show ?thesis using sp SendState_ok
    unfolding SetReputation_def Let_def sp(1)
    by (auto split: option.splits prod.splits sum.splits)
qed

section \<open>Initialisation\<close>

lemma rank_new_state:
  "env_ok E \<Longrightarrow> re_store E i = Some fe \<Longrightarrow> rank_of E (new_state E fe) = GetBaseRank E (Some fe)"
  using base_int32[of E i fe] env_in_store[of E i fe]
  by (simp add: rank_of_def new_state_def GetBaseRank_def in_store_def)

lemma state_ok_new:
  assumes "env_ok E" "re_store E i = Some fe" "0 \<le> reputationListID fe"
  shows "state_ok E (rep_key fe) (new_state E fe)"
  using base_bounds(3)[OF assms(1,2)] env_in_store[OF assms(1,2)] assms(3)
  by (auto simp: state_ok_def new_state_def in_store_def)

lemma init_row_inv:
  assumes E: "env_ok E" and fe: "re_store E (of_nat i) = Some fe" "0 \<le> reputationListID fe" and inv: "rep_inv E m"
    and new: "map_find (rm_factions m) (rep_key fe) = None"
  shows "rep_inv E (init_row E i m)" "rm_factions (init_row E i m) = map_set (rep_key fe) (new_state E fe) (rm_factions m)"
proof -
  let ?v = "has_flag (Flags (new_state E fe)) FACTION_FLAG_VISIBLE"
  let ?m = "if ?v then m\<lparr>rm_visibleFactionCount := rm_visibleFactionCount m + 1\<rparr> else m"
  let ?r = "GetBaseRank E (Some fe)"
  let ?d1 = "\<lambda>i :: nat. (if i = 0 then - of_bool ?v else 0) :: u8"
  let ?d2 = "\<lambda>i :: nat. (if i = 0 then - of_bool ?v else - of_bool (i \<le> ?r)) :: u8"
  have "rep_inv_d E ?d1 ?m = rep_inv E m"
    by (rule rep_inv_cong) (auto simp: rep_counter_def REP_HONORED_def REP_REVERED_def)
  with inv have "rep_inv_d E ?d1 ?m" by simp
  then have 2: "rep_inv_d E ?d2 (UpdateRankCounters REP_HOSTILE ?r ?m)"
    by (rule rep_inv_rank_counters)
      (auto simp: REP_HOSTILE_def rep_counters_def REP_HONORED_def REP_REVERED_def REP_EXALTED_def)
  have "rep_inv E (put_state (rep_key fe) (new_state E fe) (UpdateRankCounters REP_HOSTILE ?r ?m))"
    by (rule rep_inv_put[OF 2 state_ok_new[OF E fe]])
      (use new rank_new_state[OF E fe(1)] in \<open>auto simp: rep_test_def\<close>)
  moreover have eq: "init_row E i m = put_state (rep_key fe) (new_state E fe) (UpdateRankCounters REP_HOSTILE ?r ?m)"
    using fe by (simp add: init_row_def Let_def new_state_def)
  ultimately show "rep_inv E (init_row E i m)" by simp
  show "rm_factions (init_row E i m) = map_set (rep_key fe) (new_state E fe) (rm_factions m)" by (simp add: eq)
qed

text \<open>After the rows below \<open>n\<close> the map holds exactly their fresh states.\<close>

definition init_upto :: "rep_env \<Rightarrow> nat \<Rightarrow> reputation_mgr \<Rightarrow> bool" where
  "init_upto E n m \<longleftrightarrow> rep_inv E m
     \<and> (\<forall>k fs. map_find (rm_factions m) k = Some fs \<longrightarrow> unat (fs_ID fs) < n \<and> needSave fs \<and> Standing fs = 0)
     \<and> (\<forall>i fe. re_store E i = Some fe \<and> 0 \<le> reputationListID fe \<and> unat i < n \<longrightarrow> map_find (rm_factions m) (rep_key fe) \<noteq> None)"

lemma init_row_upto:
  assumes E: "env_ok E" and m: "init_upto E n m" and n: "n < 2 ^ 32"
  shows "init_upto E (Suc n) (init_row E n m)"
proof -
  have un: "unat (of_nat n :: u32) = n" using n by (simp add: unat_of_nat_small)
  have n_eq: "i = of_nat n" if "unat i = n" for i :: u32 using that by auto
  show ?thesis
  proof (cases "\<exists>fe. re_store E (of_nat n) = Some fe \<and> 0 \<le> reputationListID fe")
    case True
    then obtain fe where fe: "re_store E (of_nat n) = Some fe" "0 \<le> reputationListID fe" by blast
    note id = env_in_store[OF E fe(1)]
    have new: "map_find (rm_factions m) (rep_key fe) = None"
    proof (rule ccontr)
      assume "map_find (rm_factions m) (rep_key fe) \<noteq> None"
      then obtain fs where fs: "map_find (rm_factions m) (rep_key fe) = Some fs" by auto
      have "rep_inv E m" using m by (simp add: init_upto_def)
      then have "fs_ID fs = of_nat n" using state_of_entry(1)[OF E _ _ fs] id by simp
      then show False using m fs un by (force simp: init_upto_def)
    qed
    have inv: "rep_inv E m" using m by (simp add: init_upto_def)
    note r = init_row_inv[OF E fe inv new]
    have "unat (fs_ID (new_state E fe)) < Suc n" using id un by (simp add: new_state_def)
    moreover have "needSave (new_state E fe)" "Standing (new_state E fe) = 0" by (simp_all add: new_state_def)
    ultimately show ?thesis using m r n_eq fe(1)
      unfolding init_upto_def r(2) by (fastforce simp: container_simps less_Suc_eq split: if_splits)
  next
    case False
    then have "init_row E n m = m" by (auto simp: init_row_def split: option.split)
    then show ?thesis using m n_eq False by (fastforce simp: init_upto_def less_Suc_eq)
  qed
qed

lemma Initialize_ok:
  assumes E: "env_ok E"
  shows "rep_ok E t (Initialize E m)"
    "map_find (rm_factions (Initialize E m)) k = Some fs \<Longrightarrow> Standing fs = 0 \<and> needSave fs"
proof -
  define m0 where "m0 = m\<lparr>rm_factions := [], rm_visibleFactionCount := 0, rm_honoredFactionCount := 0,
                rm_reveredFactionCount := 0, rm_exaltedFactionCount := 0, rm_sendFactionIncreased := False\<rparr>"
  have pos: "0 < i" if "re_store E i = Some fe" for i fe using env_faction_ok[OF E that] by (simp add: faction_ok_def)
  have base: "init_upto E 1 m0"
    using pos by (auto simp: init_upto_def m0_def rep_inv_d_def map_count_def rep_counter_def container_simps wf_intros unat_eq_zero
        dest!: less_one[THEN iffD1])
  have "init_upto E n (fold (init_row E) [1..<n] m0)" if "1 \<le> n" "n \<le> unat (re_numRows E)" for n
    using that
  proof (induction n rule: dec_induct)
    case base
    then show ?case using \<open>init_upto E 1 m0\<close> by simp
  next
    case (step n)
    have "unat (re_numRows E) < 2 ^ LENGTH(32)" by (rule unsigned_less)
    then have "n < 2 ^ 32" using step.prems(1) by simp
    then show ?case using init_row_upto[OF E] step by simp
  qed
  then have u: "init_upto E (max 1 (unat (re_numRows E))) (Initialize E m)"
    using base by (cases "1 \<le> unat (re_numRows E)") (auto simp: Initialize_def Let_def m0_def max_def)
  have "unat i < unat (re_numRows E)" if "re_store E i = Some fe" for i fe
    using env_faction_ok[OF E that] by (simp add: faction_ok_def word_less_nat_alt)
  with u show "rep_ok E t (Initialize E m)"
    by (fastforce simp: rep_ok_def init_upto_def tracked_def synced_def)
  show "map_find (rm_factions (Initialize E m)) k = Some fs \<Longrightarrow> Standing fs = 0 \<and> needSave fs"
    using u by (simp add: init_upto_def)
qed

section \<open>Loading and saving\<close>

text \<open>Id and standing of the state under a key, which the flag operations leave alone.\<close>

definition id_standing :: "reputation_mgr \<Rightarrow> u32 \<Rightarrow> (u32 \<times> int) option" where
  "id_standing m k = map_option (\<lambda>fs. (fs_ID fs, Standing fs)) (map_find (rm_factions m) k)"

lemma id_standing_put: "id_standing (put_state k fs m) k' = (if k' = k then Some (fs_ID fs, Standing fs) else id_standing m k')"
  by (simp add: id_standing_def container_simps)

lemma id_standing_flags [simp]:
  "id_standing (SetVisible_state E k m) k' = id_standing m k'"
  "id_standing (SetAtWar_state k b m) k' = id_standing m k'"
  "id_standing (SetInactive_state k b m) k' = id_standing m k'"
  by (auto simp: id_standing_def SetVisible_state_def SetAtWar_state_def SetInactive_state_def Let_def container_simps
      SetAtWar_flags_same SetInactive_flags_same split: option.split)

lemma load_flags_id_standing [simp]: "id_standing (load_flags E fe db m) k = id_standing m k"
  by (simp add: load_flags_def Let_def)

lemma load_flags_ok:
  assumes "rep_inv_d E d m" "tracked E t m"
  shows "rep_inv_d E d (load_flags E fe db m)" "tracked E t (load_flags E fe db m)"
  using assms
  by (simp_all add: load_flags_def Let_def SetVisible_state_inv SetInactive_state_inv SetAtWar_state_inv
      SetVisible_state_tracked SetInactive_state_tracked SetAtWar_state_tracked)

definition load_upto :: "rep_env \<Rightarrow> rep_table \<Rightarrow> u16 set \<Rightarrow> reputation_mgr \<Rightarrow> bool" where
  "load_upto E t done m \<longleftrightarrow> rep_ok E t m
     \<and> (\<forall>k fs. map_find (rm_factions m) k = Some fs \<longrightarrow>
          (if ucast (fs_ID fs) \<in> done then map_option fst (map_find t (ucast (fs_ID fs))) = Some (Standing fs)
           else Standing fs = 0 \<and> needSave fs))"

lemma ucast_up_down [simp]: "ucast (ucast x :: u32) = x" for x :: u16
  by (rule bit_word_eqI) (auto simp: bit_simps dest: bit_imp_le_length)

lemma ucast_id:
  fixes x :: u32
  assumes "x < 0x10000"
  shows "ucast (ucast x :: u16) = x"
proof -
  have "unat x < 2 ^ 16" using assms by (simp add: word_less_nat_alt)
  then have "unat (ucast (ucast x :: u16) :: u32) = unat x"
    by (simp add: unsigned_ucast_eq unsigned_take_bit_eq take_bit_nat_eq_self)
  then show ?thesis by (simp only: word_unat_eq_iff)
qed

lemma id_small: "env_ok E \<Longrightarrow> rep_inv_d E d m \<Longrightarrow> map_find (rm_factions m) k = Some fs \<Longrightarrow> fs_ID fs < 0x10000"
  using rep_inv_stateD[of E d m k fs] env_faction_ok[of E "fs_ID fs"] by (auto simp: state_ok_def faction_ok_def)

lemma load_flags_other: "k \<noteq> rep_key fe \<Longrightarrow> map_find (rm_factions (load_flags E fe db m)) k = map_find (rm_factions m) k"
  by (auto simp: load_flags_def SetVisible_state_def SetAtWar_state_def SetInactive_state_def Let_def container_simps
      split: option.split)

text \<open>One row on a state that the initialisation has left untouched.\<close>

lemma load_row_entry:
  assumes E: "env_ok E" and t: "map_find t fid = Some (st, fl)" and ok: "rep_ok E t m"
    and fe: "re_store E (ucast fid) = Some fe" "0 \<le> reputationListID fe"
    and fs: "map_find (rm_factions m) (rep_key fe) = Some fs" "Standing fs = 0" "needSave fs"
  shows "rep_ok E t (load_row E (fid, st, fl) m)"
    "id_standing (load_row E (fid, st, fl) m) (rep_key fe) = Some (ucast fid, st)"
    "k \<noteq> rep_key fe \<Longrightarrow> map_find (rm_factions (load_row E (fid, st, fl) m)) k = map_find (rm_factions m) k"
proof -
  let ?k = "rep_key fe" and ?B = "GetBaseReputation E (Some fe)"
  note inv = rep_okD(1)[OF ok] and id = env_in_store[OF E fe(1)]
  note sid = state_of_entry[OF E conjunct1[OF id] inv fs(1)]
  let ?fs = "fs\<lparr>Standing := st\<rparr>"
  let ?old = "ReputationToRank ?B" and ?new = "ReputationToRank (int32 (?B + st))"
  let ?d = "\<lambda>i :: nat. (if i = 0 then 0 else of_bool (i \<le> ?new) - of_bool (i \<le> ?old)) :: u8"
  have ranks: "rank_of E fs = ?old" "rank_of E ?fs = ?new"
    using sid(2,4) fs(2) base_int32[OF E fe(1)] by (simp_all add: rank_of_def add.commute)
  have "state_ok E ?k ?fs" using rep_inv_stateD[OF inv fs(1)] by (simp add: state_ok_def)
  then have "rep_inv_d E ?d (put_state ?k ?fs m)"
    by (rule rep_inv_put[OF inv]) (use fs(1) ranks in \<open>auto simp: rep_test_def\<close>)
  then have 2: "rep_inv E (UpdateRankCounters ?old ?new (put_state ?k ?fs m))" by (rule rep_inv_rank_counters) auto
  have tr: "tracked E t (UpdateRankCounters ?old ?new (put_state ?k ?fs m))"
    using tracked_put[OF rep_okD(2)[OF ok]] fs(3) by (simp add: synced_def)
  define m3 where "m3 = load_flags E fe fl (UpdateRankCounters ?old ?new (put_state ?k ?fs m))"
  have m3: "rep_inv E m3" "tracked E t m3" unfolding m3_def by (rule load_flags_ok[OF 2 tr])+
  have "id_standing m3 ?k = Some (ucast fid, st)"
    unfolding m3_def load_flags_id_standing using id sid(1) by (simp add: id_standing_def container_simps)
  then obtain fs3 where fs3: "map_find (rm_factions m3) ?k = Some fs3" "fs_ID fs3 = ucast fid" "Standing fs3 = st"
    by (auto simp: id_standing_def)
  let ?c = "fs3\<lparr>needSend := False, needSave := False\<rparr>"
  have row: "load_row E (fid, st, fl) m = (if ucast (Flags fs3) = fl then put_state ?k ?c m3 else m3)"
    using fe fs(1) fs3(1) by (simp add: load_row_def m3_def Let_def)
  have c: "synced t ?c" if "ucast (Flags fs3) = fl"
    using that t fs3(2,3) by (auto simp: synced_def)
  have "rep_inv E (put_state ?k ?c m3)"
    by (rule rep_inv_put_same[OF m3(1) fs3(1)])
      (use rep_inv_stateD[OF m3(1) fs3(1)] in \<open>simp_all add: state_ok_def rep_test_def rank_of_def\<close>)
  then show "rep_ok E t (load_row E (fid, st, fl) m)"
    unfolding row using m3 c by (auto simp: rep_ok_def intro: tracked_put)
  show "id_standing (load_row E (fid, st, fl) m) ?k = Some (ucast fid, st)"
    unfolding row using fs3 by (simp add: id_standing_def container_simps)
  show "map_find (rm_factions (load_row E (fid, st, fl) m)) k = map_find (rm_factions m) k" if "k \<noteq> ?k"
    unfolding row m3_def using that by (simp add: load_flags_other container_simps)
qed

lemma load_row_upto:
  assumes E: "env_ok E" and t: "map_find t fid = Some (st, fl)" and m: "load_upto E t done m" and fid: "fid \<notin> done"
  shows "load_upto E t (insert fid done) (load_row E (fid, st, fl) m)"
proof -
  have ok: "rep_ok E t m" and inv: "rep_inv E m" using m by (simp_all add: load_upto_def rep_ok_def)
  have same: "fs_ID fs = ucast fid" if "map_find (rm_factions m) k = Some fs" "ucast (fs_ID fs) = fid" for k fs
    using ucast_id[OF id_small[OF E inv that(1)]] that(2) by simp
  show ?thesis
  proof (cases "\<exists>fe. re_store E (ucast fid) = Some fe \<and> 0 \<le> reputationListID fe")
    case True
    then obtain fe where fe: "re_store E (ucast fid) = Some fe" "0 \<le> reputationListID fe" by blast
    note id = env_in_store[OF E fe(1)]
    obtain fs where fs: "map_find (rm_factions m) (rep_key fe) = Some fs"
      using rep_okD(2)[OF ok] fe unfolding tracked_def by blast
    have fsid: "fs_ID fs = ucast fid" using state_of_entry(1)[OF E _ inv fs] id by simp
    then have "ucast (fs_ID fs) \<notin> done" using fid by simp
    then have "Standing fs = 0" "needSave fs" using m fs by (auto simp: load_upto_def)
    note r = load_row_entry[OF E t ok fe fs this]
    let ?m = "load_row E (fid, st, fl) m"
    have "if ucast (fs_ID f) \<in> insert fid done then map_option fst (map_find t (ucast (fs_ID f))) = Some (Standing f)
           else Standing f = 0 \<and> needSave f" if f: "map_find (rm_factions ?m) k = Some f" for k f
    proof (cases "k = rep_key fe")
      case True
      then show ?thesis using r(2) f t by (auto simp: id_standing_def)
    next
      case False
      then have fm: "map_find (rm_factions m) k = Some f" using r(3) f by simp
      have "ucast (fs_ID f) \<noteq> fid"
      proof
        assume "ucast (fs_ID f) = fid"
        then have "fs_ID f = ucast fid" by (rule same[OF fm])
        then show False using rep_inv_stateD[OF inv fm] fe False by (auto simp: state_ok_def)
      qed
      then show ?thesis using m fm by (auto simp: load_upto_def)
    qed
    then show ?thesis using r(1) by (auto simp: load_upto_def)
  next
    case False
    then have "load_row E (fid, st, fl) m = m" by (auto simp: load_row_def split: option.split)
    moreover have "ucast (fs_ID f) \<noteq> fid" if "map_find (rm_factions m) k = Some f" for k f
      using same[OF that] rep_inv_stateD[OF inv that] False by (auto simp: state_ok_def)
    ultimately show ?thesis using m by (auto simp: load_upto_def)
  qed
qed

end
