(* ===== verification/Reputation_Props.thy ===== *)
theory Reputation_Props
  imports Reputation_Inv
begin

text \<open>
  Runs of the reputation manager with its database rows, as an instance of \<open>step_system\<close>, and the
  properties of the component: the rank bands, the outcome of a change, exact counters, the packet of
  the initial reputations, and the reload of what was saved.
\<close>

section \<open>Loading\<close>

lemma load_rows_upto:
  assumes "env_ok E" "load_upto E t done m" "distinct (map fst rs)" "fst ` set rs \<inter> done = {}"
    "\<And>f v. (f, v) \<in> set rs \<Longrightarrow> map_find t f = Some v"
  shows "load_upto E t (fst ` set rs \<union> done) (fold (load_row E) rs m)"
  using assms(2-5)
proof (induction rs arbitrary: "done" m)
  case (Cons r rs)
  obtain fid st fl where r: "r = (fid, st, fl)" by (cases r) auto
  have "load_upto E t (insert fid done) (load_row E r m)"
    unfolding r by (rule load_row_upto[OF assms(1) _ Cons.prems(1)]) (use Cons.prems r in auto)
  then have "load_upto E t (fst ` set rs \<union> insert fid done) (fold (load_row E) rs (load_row E r m))"
    by (rule Cons.IH) (use Cons.prems r in auto)
  then show ?case by (simp add: r)
qed simp

lemma LoadFromDB_ok:
  assumes E: "env_ok E" and t: "map_wf t"
  shows "rep_ok E t (LoadFromDB E (rep_rows t) m)"
    "map_find (rm_factions (LoadFromDB E (rep_rows t) m)) k = Some fs \<Longrightarrow>
       Standing fs = (case map_find t (ucast (fs_ID fs)) of None \<Rightarrow> 0 | Some (st, fl) \<Rightarrow> st)"
proof -
  have 0: "load_upto E t {} (Initialize E m)" using Initialize_ok[OF E] by (auto simp: load_upto_def)
  have "distinct (map fst t)" using stdmap.distinct_keys[OF t] .
  then have "load_upto E t (fst ` set t) (fold (load_row E) t (Initialize E m))"
    using load_rows_upto[OF E 0, of t] map_wf_mem[OF t] by auto
  moreover have "LoadFromDB E (rep_rows t) m = fold (load_row E) t (Initialize E m)"
    by (auto simp: LoadFromDB_def rep_rows_def)
  ultimately have u: "load_upto E t (fst ` set t) (LoadFromDB E (rep_rows t) m)" by simp
  then show "rep_ok E t (LoadFromDB E (rep_rows t) m)" by (simp add: load_upto_def)
  have dom: "f \<in> fst ` set t \<longleftrightarrow> map_find t f \<noteq> None" for f using stdmap.keys_iff[of f t] by simp
  show "Standing fs = (case map_find t (ucast (fs_ID fs)) of None \<Rightarrow> 0 | Some (st, fl) \<Rightarrow> st)"
    if "map_find (rm_factions (LoadFromDB E (rep_rows t) m)) k = Some fs"
    using u that unfolding load_upto_def dom by (fastforce split: option.splits if_splits)
qed

section \<open>Saving\<close>

lemma find_SomeD: "find P xs = Some x \<Longrightarrow> x \<in> set xs \<and> P x"
  by (induction xs) (auto split: if_splits)

lemma exec_rep_wf: "map_wf t \<Longrightarrow> map_wf (exec_rep g s t)"
  by (cases s) (auto intro: wf_intros)

lemma fold_exec_rep_wf: "map_wf t \<Longrightarrow> map_wf (fold (exec_rep g) ss t)"
  by (induction ss arbitrary: t) (auto intro: exec_rep_wf)

lemma save_stmts_find:
  "map_find (fold (exec_rep (re_guidLow E)) (save_stmts E fs) t) f =
     (if needSave fs \<and> f = ucast (fs_ID fs) then Some (Standing fs, ucast (Flags fs)) else map_find t f)"
  by (simp add: save_stmts_def container_simps)

lemma save_all_find:
  assumes "distinct (map (\<lambda>(k, fs). ucast (fs_ID fs) :: u16) xs)"
  shows "map_find (fold (exec_rep (re_guidLow E)) (concat (map (\<lambda>(k, fs). save_stmts E fs) xs)) t) f =
    (case find (\<lambda>(k, fs). needSave fs \<and> ucast (fs_ID fs) = f) xs of
       None \<Rightarrow> map_find t f | Some (k, fs) \<Rightarrow> Some (Standing fs, ucast (Flags fs)))"
  using assms
proof (induction xs arbitrary: t)
  case (Cons x xs)
  obtain k fs where x: "x = (k, fs)" by fastforce
  have "find (\<lambda>(k, fs). needSave fs \<and> ucast (fs_ID fs) = f) xs = None" if "f = ucast (fs_ID fs)"
    using Cons.prems that x by (auto simp: find_None_iff image_iff)
  then show ?case using Cons by (auto simp: x save_stmts_find split: option.split)
qed simp

lemma state_ids_distinct:
  assumes E: "env_ok E" and inv: "rep_inv E m"
  shows "distinct (map (\<lambda>(k, fs). ucast (fs_ID fs) :: u16) (rm_factions m))"
proof -
  have wf: "map_wf (rm_factions m)" by (rule rep_inv_wfD[OF inv])
  have key: "(k, fs) = (k', fs')"
    if "(k, fs) \<in> set (rm_factions m)" "(k', fs') \<in> set (rm_factions m)" "ucast (fs_ID fs) = (ucast (fs_ID fs') :: u16)" for k fs k' fs'
  proof -
    have f: "map_find (rm_factions m) k = Some fs" "map_find (rm_factions m) k' = Some fs'"
      using that map_wf_mem[OF wf] by auto
    have "fs_ID fs = fs_ID fs'"
      using arg_cong[OF that(3), of "ucast :: u16 \<Rightarrow> u32"]
      by (simp only: ucast_id[OF id_small[OF E inv f(1)]] ucast_id[OF id_small[OF E inv f(2)]])
    then have "k = k'" using rep_inv_stateD[OF inv f(1)] rep_inv_stateD[OF inv f(2)] by (auto simp: state_ok_def)
    then show ?thesis using f by simp
  qed
  have "distinct (rm_factions m)" using stdmap.distinct_keys[OF wf] by (simp add: distinct_map)
  moreover have "p = q" if "p \<in> set (rm_factions m)" "q \<in> set (rm_factions m)"
      "(case p of (k, fs) \<Rightarrow> (ucast (fs_ID fs) :: u16)) = (case q of (k, fs) \<Rightarrow> ucast (fs_ID fs))" for p q
    using key[of "fst p" "snd p" "fst q" "snd q"] that by (simp add: split_beta)
  ultimately show ?thesis unfolding distinct_map by (intro conjI inj_onI)
qed

lemma SaveToDB_ok:
  assumes E: "env_ok E" and t: "map_wf t" and ok: "rep_ok E t m" and s: "SaveToDB E m = (m', ss)"
  defines "t' \<equiv> fold (exec_rep (re_guidLow E)) ss t"
  shows "map_wf t'" "rep_ok E t' m'"
    "map_find (rm_factions m') k = Some fs \<Longrightarrow> map_find t' (ucast (fs_ID fs)) = Some (Standing fs, ucast (Flags fs))"
    "id_standing m' k = id_standing m k"
proof -
  let ?g = "\<lambda>fs. if needSave fs then fs\<lparr>needSave := False\<rparr> else fs"
  have m': "m' = m\<lparr>rm_factions := map (\<lambda>(k, fs). (k, ?g fs)) (rm_factions m)\<rparr>"
    and ss: "ss = concat (map (\<lambda>(k, fs). save_stmts E fs) (rm_factions m))"
    using s by (simp_all add: SaveToDB_def)
  note inv = rep_okD(1)[OF ok]
  have wf: "map_wf (rm_factions m)" by (rule rep_inv_wfD[OF inv])
  show "map_wf t'" unfolding t'_def by (rule fold_exec_rep_wf[OF t])
  have row: "map_find t' (ucast (fs_ID fs)) = Some (Standing fs, ucast (Flags fs))"
    if f: "map_find (rm_factions m) k = Some fs" for k fs
  proof -
    note d = state_ids_distinct[OF E inv]
    have mem: "(k, fs) \<in> set (rm_factions m)" by (rule map_find_SomeD[OF f])
    let ?P = "\<lambda>(k :: u32, fs'). needSave fs' \<and> ucast (fs_ID fs') = (ucast (fs_ID fs) :: u16)"
    have uniq: "y = (k, fs)" if "y \<in> set (rm_factions m)" "?P y" for y
      using that mem d by (auto simp: distinct_map inj_on_def)
    show ?thesis
    proof (cases "find ?P (rm_factions m)")
      case None
      then have "\<not> needSave fs" using mem by (auto simp: find_None_iff)
      then show ?thesis using tracked_synced[OF rep_okD(2)[OF ok] f] None
        unfolding t'_def ss save_all_find[OF d] by (simp add: synced_def)
    next
      case (Some y)
      then have "y \<in> set (rm_factions m) \<and> ?P y" by (rule find_SomeD)
      then have "y = (k, fs)" using uniq[of y] by blast
      then show ?thesis using Some unfolding t'_def ss save_all_find[OF d] by simp
    qed
  qed
  show r: "map_find t' (ucast (fs_ID fs)) = Some (Standing fs, ucast (Flags fs))"
    if "map_find (rm_factions m') k = Some fs" for k fs
    using that row unfolding m' by (auto simp: map_find_values split: if_splits)
  have "rep_inv E m'" unfolding m' by (rule rep_inv_values[OF inv]) simp
  moreover have "tracked E t' m'"
    using r rep_okD(2)[OF ok] unfolding tracked_def synced_def m' by (simp add: map_find_values) blast
  ultimately show "rep_ok E t' m'" by (simp add: rep_ok_def)
  show "id_standing m' k = id_standing m k"
    unfolding m' id_standing_def by (cases "map_find (rm_factions m) k") (auto simp: map_find_values)
qed

section \<open>Runs\<close>

datatype rep_op = RSet faction_entry int bool | RSetOne faction_entry int bool | RVisibleTemplate u32
  | RVisible faction_entry | RAtWar u32 bool | RInactive u32 bool | RForce u32 nat bool | RSendForced
  | RSendInitial | RSendStates | RSave | RLoad

definition rep_op_ok :: "rep_env \<Rightarrow> rep_op \<Rightarrow> bool" where
  "rep_op_ok E p = (case p of RSet fe _ _ \<Rightarrow> in_store E fe | RSetOne fe _ _ \<Rightarrow> in_store E fe | _ \<Rightarrow> True)"

text \<open>The manager with the rows of its character; a saved transaction is executed at once, and a load reads
  the rows back.\<close>

fun rep_step :: "rep_env \<Rightarrow> rep_op \<Rightarrow> reputation_mgr \<times> rep_table \<Rightarrow> reputation_mgr \<times> rep_table" where
  "rep_step E (RSet fe x b) (m, t) = (case SetReputation E fe x b m of Inl _ \<Rightarrow> m | Inr (r, m') \<Rightarrow> m', t)"
| "rep_step E (RSetOne fe x b) (m, t) = (snd (SetOneFactionReputation E fe x b m), t)"
| "rep_step E (RVisibleTemplate f) (m, t) = (SetVisible_template E f m, t)"
| "rep_step E (RVisible fe) (m, t) = (SetVisible_entry E fe m, t)"
| "rep_step E (RAtWar k b) (m, t) = (SetAtWar k b m, t)"
| "rep_step E (RInactive k b) (m, t) = (SetInactive k b m, t)"
| "rep_step E (RForce f r b) (m, t) = (ApplyForceReaction f r b m, t)"
| "rep_step E RSendForced (m, t) = (SendForceReactions m, t)"
| "rep_step E RSendInitial (m, t) = (SendInitialReputations m, t)"
| "rep_step E RSendStates (m, t) = (SendStates m, t)"
| "rep_step E RSave (m, t) = (let (m', ss) = SaveToDB E m in (m', fold (exec_rep (re_guidLow E)) ss t))"
| "rep_step E RLoad (m, t) = (LoadFromDB E (rep_rows t) m, t)"

definition rep_run_inv :: "rep_env \<Rightarrow> reputation_mgr \<times> rep_table \<Rightarrow> bool" where
  "rep_run_inv E s \<longleftrightarrow> env_ok E \<and> map_wf (snd s) \<and> rep_ok E (snd s) (fst s)"

lemma rep_step_inv:
  assumes "rep_run_inv E s" "rep_op_ok E p"
  shows "rep_run_inv E (rep_step E p s)"
proof -
  obtain m t where s: "s = (m, t)" by fastforce
  have i: "env_ok E" "map_wf t" "rep_ok E t m" using assms(1) by (simp_all add: rep_run_inv_def s)
  show ?thesis
  proof (cases p)
    case (RSet fe x b)
    then show ?thesis using SetReputation_ok[OF i(1) _ i(3), of fe x b] assms(2) i
      by (auto simp: rep_run_inv_def rep_op_ok_def s)
  next
    case RSave
    obtain m' ss where "SaveToDB E m = (m', ss)" by fastforce
    then show ?thesis using SaveToDB_ok(1,2)[OF i] i(1) RSave by (simp add: rep_run_inv_def s)
  qed (use assms(2) i in \<open>simp_all add: rep_run_inv_def rep_op_ok_def s SetOne_ok SetVisible_template_ok SetVisible_entry_ok
      SetAtWar_ok SetInactive_ok ApplyForceReaction_ok SendForceReactions_ok SendInitialReputations_ok SendStates_def
      send_states_ok LoadFromDB_ok(1)\<close>)
qed

interpretation rep: step_system "rep_step E" "\<lambda>p s. rep_op_ok E p" "rep_run_inv E" for E
  by unfold_locales (rule rep_step_inv)

text \<open>A character logs in and the operations follow.\<close>

definition rep_session :: "rep_env \<Rightarrow> rep_op list \<Rightarrow> rep_table \<Rightarrow> reputation_mgr \<times> rep_table" where
  "rep_session E ops t = fold (rep_step E) ops (LoadFromDB E (rep_rows t) ReputationMgr_new, t)"

lemma rep_session_inv:
  assumes "env_ok E" "map_wf t" "\<forall>p \<in> set ops. rep_op_ok E p"
  shows "rep_run_inv E (rep_session E ops t)"
proof -
  have "rep_run_inv E (LoadFromDB E (rep_rows t) ReputationMgr_new, t)"
    using LoadFromDB_ok(1)[OF assms(1,2)] assms(1,2) by (simp add: rep_run_inv_def)
  moreover have "rep.run_ok E ops s" for s using assms(3) by (intro rep.run_ok_all) simp
  ultimately show ?thesis unfolding rep_session_def by (rule rep.run_inv)
qed

lemma rank_of_GetRank:
  assumes "rep_inv E m" "map_find (rm_factions m) k = Some fs"
  shows "rank_of E fs = GetRank E (re_store E (fs_ID fs)) m"
  using rep_inv_stateD[OF assms] assms(2)
  by (auto simp: state_ok_def rank_of_def GetRank_def GetReputation_def GetState_def GetState_id_def CanHaveReputation_def add.commute)

lemma counter_rank:
  assumes inv: "rep_inv E m" and i: "i \<in> rep_counters" "i \<noteq> 0"
  shows "rep_counter i m = of_nat (length (filter (\<lambda>(k, fs). i \<le> GetRank E (re_store E (fs_ID fs)) m) (rm_factions m)))"
proof -
  have wf: "map_wf (rm_factions m)" by (rule rep_inv_wfD[OF inv])
  have "filter (\<lambda>kv. rep_test E i (snd kv)) (rm_factions m) =
      filter (\<lambda>(k, fs). i \<le> GetRank E (re_store E (fs_ID fs)) m) (rm_factions m)"
    by (rule filter_cong) (use i(2) rank_of_GetRank[OF inv] map_wf_mem[OF wf] in \<open>force simp: rep_test_def\<close>)+
  then show ?thesis using inv i(1) by (simp add: rep_inv_d_def map_count_def)
qed

section \<open>The initial packet\<close>

definition faction_field :: "(u32, faction_state) stdmap \<Rightarrow> nat \<Rightarrow> field list" where
  "faction_field m i =
     (case map_find m (of_nat i) of
        None \<Rightarrow> [FU8 0, FU32 0]
      | Some fs \<Rightarrow> [FU8 (Flags fs), FU32 (word_of_int (Standing fs))])"

lemma unat_next:
  fixes a b :: u32
  assumes "unat a < unat b"
  shows "unat (a + 1) = Suc (unat a)"
proof -
  have "unat b < 2 ^ LENGTH(32)" by (rule unsigned_less)
  with assms have "unat (of_nat (Suc (unat a)) :: u32) = Suc (unat a)" by (intro unat_of_nat_small) simp
  then show ?thesis by (simp add: add.commute)
qed

lemma fill_absent_upto:
  "unat a \<le> unat b \<Longrightarrow> fill_absent a b = concat (map (\<lambda>_. [FU8 0, FU32 0]) [unat a..<unat b])"
proof (induction a b rule: fill_absent.induct)
  case (1 a b)
  show ?case
  proof (cases "a = b")
    case False
    then have lt: "unat a < unat b" using "1.prems" by (metis le_neq_implies_less word_unat_eq_iff)
    then have "unat (a + 1) = Suc (unat a)" by (rule unat_next)
    then show ?thesis using "1.IH" False lt by (simp add: fill_absent.simps[of a b] upt_conv_Cons)
  qed (simp add: fill_absent.simps)
qed

lemma faction_field_absent:
  assumes "\<And>k. k \<in> set (map fst m) \<Longrightarrow> b \<le> unat k" "b \<le> 2 ^ 32"
  shows "concat (map (faction_field m) [a..<b]) = concat (map (\<lambda>_. [FU8 0, FU32 0]) [a..<b])"
proof -
  have "faction_field m i = [FU8 0, FU32 0]" if "i < b" for i
  proof -
    have "unat (of_nat i :: u32) = i" using that assms(2) by (intro unat_of_nat_small) simp
    then have "of_nat i \<notin> set (map fst m)" using assms(1) that by fastforce
    then show ?thesis by (simp add: faction_field_def stdmap.keys_iff del: set_map)
  qed
  then show ?thesis by (intro arg_cong[where f = concat] map_cong) auto
qed

lemma initial_fields_all:
  assumes "map_wf m" "\<And>k. k \<in> set (map fst m) \<Longrightarrow> unat a \<le> unat k \<and> unat k < 128" "unat a \<le> 128"
  shows "initial_fields a m = concat (map (faction_field m) [unat a..<128])"
  using assms
proof (induction a m rule: initial_fields.induct)
  case (1 a)
  then show ?case using fill_absent_upto[of a 128] faction_field_absent[of "[]" 128 "unat a"] by simp
next
  case (2 a k f fs)
  have k: "unat a \<le> unat k" "unat k < 128" using "2.prems"(2)[of k] by auto
  then have sk: "unat (k + 1) = Suc (unat k)" using unat_next[of k 128] by simp
  have lt: "unat k < unat k'" if "k' \<in> set (map fst fs)" for k'
    using "2.prems"(1) that by (auto simp: map_wf_def word_less_nat_alt)
  have wf: "map_wf fs" using "2.prems"(1) by (simp add: map_wf_def)
  have rest: "initial_fields (k + 1) fs = concat (map (faction_field fs) [Suc (unat k)..<128])"
    using "2.IH" wf lt k sk "2.prems"(2) by fastforce
  have above: "faction_field ((k, f) # fs) i = faction_field fs i" if "unat k < i" "i < 128" for i
    using that unat_of_nat_small[of i, where 'a = 32] by (auto simp: faction_field_def map_find_Cons)
  have "concat (map (faction_field ((k, f) # fs)) [unat a..<unat k]) = fill_absent a k"
    unfolding fill_absent_upto[OF k(1)] by (rule faction_field_absent) (use lt k in \<open>auto intro: less_imp_le\<close>)
  moreover have "[unat a..<128] = [unat a..<unat k] @ unat k # [Suc (unat k)..<128]"
    using k by (metis le_add_diff_inverse upt_add_eq_append upt_conv_Cons order_less_imp_le)
  moreover have "map (faction_field ((k, f) # fs)) [Suc (unat k)..<128] = map (faction_field fs) [Suc (unat k)..<128]"
    using above by simp
  moreover have "faction_field ((k, f) # fs) (unat k) = [FU8 (Flags f), FU32 (word_of_int (Standing f))]"
    by (simp add: faction_field_def map_find_Cons)
  ultimately show ?case by (simp del: map_eq_conv add: rest)
qed

section \<open>Reputation values\<close>

lemma GetReputation_id_standing:
  "GetReputation E (Some fe) m =
     (if CanHaveReputation fe
      then (case id_standing m (rep_key fe) of None \<Rightarrow> 0 | Some (i, st) \<Rightarrow> int32 (GetBaseReputation E (Some fe) + st))
      else 0)"
  by (simp add: GetReputation_def GetState_def GetState_id_def id_standing_def split: option.split)

lemma apply_standing_id_standing:
  "id_standing (apply_standing E fe fs x m) k =
     (if k = rep_key fe then Some (fs_ID fs, int32 (x - GetBaseReputation E (Some fe))) else id_standing m k)"
proof -
  have cong: "id_standing m' = id_standing m''" if "rm_factions m' = rm_factions m''" for m' m''
    using that by (simp add: id_standing_def fun_eq_iff)
  have emit: "id_standing (fold rep_emit evs (UpdateRankCounters r r' m')) = id_standing m'" for evs r r' m'
    by (rule cong) simp
  have inc: "id_standing (m'\<lparr>rm_sendFactionIncreased := True\<rparr>) = id_standing m'" for m' by (rule cong) simp
  show ?thesis unfolding apply_standing_def Let_def emit by (simp add: inc id_standing_put)
qed

lemma apply_standing_state:
  assumes "map_wf (rm_factions m)"
  shows "map_find (rm_factions (apply_standing E fe fs x m)) (rep_key fe) =
    (let f = made_visible (fs\<lparr>Standing := int32 (x - GetBaseReputation E (Some fe)), needSend := True, needSave := True\<rparr>)
     in Some (if ReputationToRank x \<le> REP_HOSTILE then SetAtWar_flags True f else f))"
  using assms
  by (simp add: apply_standing_def Let_def SetAtWar_state_def SetVisible_state_factions wf_intros container_simps)

section \<open>A small world\<close>

definition ex_faction :: "u32 \<Rightarrow> int \<Rightarrow> int \<Rightarrow> faction_entry" where
  "ex_faction i lid base = \<lparr>fe_ID = i, reputationListID = lid, BaseRepRaceMask = (\<lambda>j. 0xFF), BaseRepClassMask = (\<lambda>j. 0),
     BaseRepValue = (\<lambda>j. base), ReputationFlags = (\<lambda>j. 0), fe_team = 0, spilloverRateIn = 0, spilloverRateOut = 0, spilloverMaxRankIn = 0\<rparr>"

definition ex_rep_env :: rep_env where
  "ex_rep_env = \<lparr>re_store = (\<lambda>i. if i = 21 then Some (ex_faction 21 1 500) else if i = 54 then Some (ex_faction 54 3 3100) else None),
     re_numRows = 60, re_raceMask = 1, re_classMask = 1, re_guidLow = 7, re_loading = False, re_template = (\<lambda>i. None),
     re_teamList = (\<lambda>i. None), re_script = (\<lambda>f x b. x), re_gainRate = 0, re_float = word_of_int, re_mul = (\<lambda>x y. x),
     re_int32 = sint, re_round = sint, re_nonzero = (\<lambda>x. x \<noteq> 0)\<rparr>"

lemma ex_rep_env_ok: "env_ok ex_rep_env"
  by (auto simp: env_ok_def ex_rep_env_def ex_faction_def faction_ok_def Reputation_Bottom_def Reputation_Cap_def split: if_splits)

lemma ex_in_store: "in_store ex_rep_env (ex_faction 54 3 3100)" "in_store ex_rep_env (ex_faction 21 1 500)"
  by (simp_all add: in_store_def ex_rep_env_def ex_faction_def)

definition ex_rep_mgr :: reputation_mgr where
  "ex_rep_mgr = LoadFromDB ex_rep_env (rep_rows []) ReputationMgr_new"

lemma ex_rep_mgr_ok: "rep_ok ex_rep_env [] ex_rep_mgr"
  unfolding ex_rep_mgr_def by (rule LoadFromDB_ok(1)[OF ex_rep_env_ok]) (simp add: wf_intros)

lemma ex_rep_state: "\<exists>fs. map_find (rm_factions ex_rep_mgr) (rep_key (ex_faction 54 3 3100)) = Some fs"
  using rep_okD(2)[OF ex_rep_mgr_ok] ex_in_store(1) unfolding tracked_def in_store_def
  by (force simp: ex_faction_def)

section \<open>Properties\<close>

text \<open>The first reputation of a rank: the width of the ranks below it, counted from the bottom.\<close>

definition rank_floor :: "nat \<Rightarrow> int" where
  "rank_floor i = Reputation_Bottom + sum_list (take i PointsInRank)"

text \<open>C25: \<^verbatim>\<open>ReputationToRank\<close>, which counts down from the cap, agrees with the reference that counts the rank
  floors reached from the bottom, for every reputation.\<close>

theorem rank_counts_floors:
  "ReputationToRank s = length (filter (\<lambda>i. rank_floor i \<le> s) [1..<MAX_REPUTATION_RANK])"
  by (simp add: ReputationToRank_def rank_floor_def MAX_REPUTATION_RANK_def PointsInRank_def Reputation_Cap_def
      Reputation_Bottom_def int32_id upt_rec numeral_nat Let_def)



text \<open>C6: after a login and any sequence of operations the four counters of the manager are exact, modulo 256:
  the number of visible factions and the numbers of factions at honored, revered and exalted or better.
  No faction with forced peace is at war, and no change fails on a missing faction.\<close>

theorem reputation_counters_exact:
  assumes "env_ok E" "map_wf t" "\<forall>p \<in> set ops. rep_op_ok E p"
  shows "let m = fst (rep_session E ops t);
             at_least = (\<lambda>i. of_nat (length (filter (\<lambda>(k, fs). i \<le> GetRank E (re_store E (fs_ID fs)) m) (rm_factions m))))
         in rm_visibleFactionCount m = of_nat (length (filter (\<lambda>(k, fs). has_flag (Flags fs) FACTION_FLAG_VISIBLE) (rm_factions m)))
            \<and> rm_honoredFactionCount m = at_least REP_HONORED \<and> rm_reveredFactionCount m = at_least REP_REVERED
            \<and> rm_exaltedFactionCount m = at_least REP_EXALTED
            \<and> (\<forall>(k, fs) \<in> set (rm_factions m). has_flag (Flags fs) FACTION_FLAG_PEACE_FORCED \<longrightarrow> \<not> has_flag (Flags fs) FACTION_FLAG_AT_WAR)
            \<and> (\<forall>fe x b. in_store E fe \<longrightarrow> (\<exists>r m'. SetReputation E fe x b m = Inr (r, m')))"
proof -
  define m where "m = fst (rep_session E ops t)"
  have ok: "rep_ok E (snd (rep_session E ops t)) m" using rep_session_inv[OF assms] by (simp add: rep_run_inv_def m_def)
  note inv = rep_okD(1)[OF ok]
  have "rep_counter 0 m = of_nat (map_count (rep_test E 0) (rm_factions m))" using inv by (simp add: rep_inv_d_def rep_counters_def)
  then have v: "rm_visibleFactionCount m = of_nat (length (filter (\<lambda>(k, fs). has_flag (Flags fs) FACTION_FLAG_VISIBLE) (rm_factions m)))"
    by (simp add: rep_counter_def map_count_def rep_test_def case_prod_unfold)
  have c: "rm_honoredFactionCount m = rep_counter REP_HONORED m" "rm_reveredFactionCount m = rep_counter REP_REVERED m"
    "rm_exaltedFactionCount m = rep_counter REP_EXALTED m"
    by (simp_all add: rep_counter_def REP_HONORED_def REP_REVERED_def REP_EXALTED_def)
  have n: "REP_HONORED \<in> rep_counters \<and> REP_HONORED \<noteq> 0" "REP_REVERED \<in> rep_counters \<and> REP_REVERED \<noteq> 0"
    "REP_EXALTED \<in> rep_counters \<and> REP_EXALTED \<noteq> 0" by (simp_all add: rep_counters_def REP_HONORED_def REP_REVERED_def REP_EXALTED_def)
  have p: "\<forall>(k, fs) \<in> set (rm_factions m). has_flag (Flags fs) FACTION_FLAG_PEACE_FORCED \<longrightarrow> \<not> has_flag (Flags fs) FACTION_FLAG_AT_WAR"
    using map_wf_mem[OF rep_inv_wfD[OF inv]] rep_inv_stateD[OF inv] by (force simp: state_ok_def)
  have s: "\<exists>r m'. SetReputation E fe x b m = Inr (r, m')" if "in_store E fe" for fe x b
    using SetReputation_ok[OF assms(1) that ok] by blast
  show ?thesis unfolding m_def[symmetric] Let_def c using v p s counter_rank[OF inv] n by blast
qed

theorem reputation_counters_exact_witness:
  "let m = fst (rep_session ex_rep_env [RSet (ex_faction 54 3 3100) 50000 False, RSave, RAtWar 3 True, RLoad] [])
   in rm_visibleFactionCount m = of_nat (length (filter (\<lambda>(k, fs). has_flag (Flags fs) FACTION_FLAG_VISIBLE) (rm_factions m)))"
  using reputation_counters_exact[OF ex_rep_env_ok, of "[]" "[RSet (ex_faction 54 3 3100) 50000 False, RSave, RAtWar 3 True, RLoad]"]
    ex_in_store(1)
  by (simp add: wf_intros rep_op_ok_def Let_def)

text \<open>\<^verbatim>\<open>SMSG_INITIALIZE_FACTIONS\<close> carries exactly 128 entries, one per list id in order: flags and standing
  of the faction, or zeros where there is none. The filling loops of the code run in 32-bit arithmetic
  and stop because the list ids are below 128.\<close>

theorem initial_packet_all_slots:
  assumes "map_wf (rm_factions m)" "\<forall>k \<in> fst ` set (rm_factions m). k < 128"
  shows "rm_out (SendInitialReputations m) = rm_out m @ [RepPacket \<lparr>m_opcode = SMSG_INITIALIZE_FACTIONS,
      payload = FU32 128 # concat (map (faction_field (rm_factions m)) [0..<128])\<rparr>]"
proof -
  have "unat k < 128" if "k \<in> set (map fst (rm_factions m))" for k
    using assms(2) that by (auto simp: word_less_nat_alt)
  then have "initial_fields 0 (rm_factions m) = concat (map (faction_field (rm_factions m)) [0..<128])"
    using initial_fields_all[OF assms(1), of 0] by simp
  then show ?thesis by (simp add: SendInitialReputations_def rep_emit_def stream_def WorldPacket_def)
qed

theorem initial_packet_all_slots_witness:
  "rm_out (SendInitialReputations (ReputationMgr_new\<lparr>rm_factions := [(3, zero_state\<lparr>Standing := 7, Flags := 1\<rparr>)]\<rparr>)) =
     [RepPacket \<lparr>m_opcode = SMSG_INITIALIZE_FACTIONS,
      payload = FU32 128 # concat (map (faction_field [(3, zero_state\<lparr>Standing := 7, Flags := 1\<rparr>)]) [0..<128])\<rparr>]"
  using initial_packet_all_slots[of "ReputationMgr_new\<lparr>rm_factions := [(3, zero_state\<lparr>Standing := 7, Flags := 1\<rparr>)]\<rparr>"]
  by (simp add: map_wf_def ReputationMgr_new_def)

text \<open>C12: what \<^verbatim>\<open>SaveToDB\<close> writes at the end of a session is what the next \<^verbatim>\<open>LoadFromDB\<close> restores: after a
  save, every faction has the same reputation in a manager that loads the rows, although only the
  states marked as changed are written.\<close>

theorem reputation_reload:
  assumes E: "env_ok E" and t: "map_wf t" and ops: "\<forall>p \<in> set ops. rep_op_ok E p" and fe: "in_store E fe"
  shows "let (m, t1) = rep_session E ops t;
             ss = snd (SaveToDB E m);
             t2 = fold (exec_rep (re_guidLow E)) ss t1
         in GetReputation E (Some fe) (LoadFromDB E (rep_rows t2) ReputationMgr_new) = GetReputation E (Some fe) m"
proof (cases "CanHaveReputation fe")
  case True
  obtain m t1 where s: "rep_session E ops t = (m, t1)" by fastforce
  have i: "map_wf t1" "rep_ok E t1 m" using rep_session_inv[OF E t ops] by (simp_all add: rep_run_inv_def s)
  obtain m' ss where sv: "SaveToDB E m = (m', ss)" by fastforce
  let ?t = "fold (exec_rep (re_guidLow E)) ss t1"
  note save = SaveToDB_ok[OF E i sv]
  note load = LoadFromDB_ok[OF E save(1), of ReputationMgr_new]
  let ?l = "LoadFromDB E (rep_rows ?t) ReputationMgr_new"
  have "\<exists>f. map_find (rm_factions x) (rep_key fe) = Some f" if "rep_ok E y x" for x y
    using rep_okD(2)[OF that] fe True unfolding tracked_def in_store_def CanHaveReputation_def by blast
  then obtain f1 f2 where f: "map_find (rm_factions m') (rep_key fe) = Some f1" "map_find (rm_factions ?l) (rep_key fe) = Some f2"
    using save(2) load(1) by blast
  have ids: "fs_ID f1 = fe_ID fe" "fs_ID f2 = fe_ID fe"
    using state_of_entry(1)[OF E fe rep_okD(1)[OF save(2)] f(1)] state_of_entry(1)[OF E fe rep_okD(1)[OF load(1)] f(2)] .
  have "Standing f2 = Standing f1" using load(2)[OF f(2)] save(3)[OF f(1)] ids by simp
  then have "id_standing ?l (rep_key fe) = id_standing m (rep_key fe)"
    using save(4)[of "rep_key fe"] f ids by (simp add: id_standing_def)
  then show ?thesis by (simp add: s sv GetReputation_id_standing)
qed (simp add: GetReputation_id_standing split_beta Let_def)

theorem reputation_reload_witness:
  "let (m, t1) = rep_session ex_rep_env [RSet (ex_faction 54 3 3100) 50000 False] [];
       t2 = fold (exec_rep 7) (snd (SaveToDB ex_rep_env m)) t1
   in GetReputation ex_rep_env (Some (ex_faction 54 3 3100)) (LoadFromDB ex_rep_env (rep_rows t2) ReputationMgr_new)
      = GetReputation ex_rep_env (Some (ex_faction 54 3 3100)) m"
  using reputation_reload[OF ex_rep_env_ok _ _ ex_in_store(1), of "[]" "[RSet (ex_faction 54 3 3100) 50000 False]"]
    ex_in_store(1)
  by (simp add: wf_intros rep_op_ok_def Let_def) (simp add: ex_rep_env_def)

end
