(* ===== verification/Group_State.thy ===== *)
theory Group_State
  imports Social_Mgr
begin

text \<open>
  The state of the group system, \<^verbatim>\<open>src/src/server/game/Groups/Group.h\<close>, \<^verbatim>\<open>GroupReference.h\<close> and the
  members of \<^verbatim>\<open>Player\<close> that groups read and write.

  Group objects live in a heap of addresses, because sessions keep raw pointers to them
  (\<^verbatim>\<open>m_groupInvite\<close>) that the destructor does not clear: using such a pointer afterwards is the
  fault \<^const>\<open>UseAfterFree\<close>. The first fault of a run is kept in \<open>gs_fault\<close>, and what the state holds
  after it means nothing. Addresses are never reused. \<^verbatim>\<open>GroupReference\<close> objects are the two
  slots \<open>m_group\<close> and \<open>m_originalGroup\<close> of a player; the intrusive list of a group holds the slots linked
  to it, newest first.

  Packets, statements, script hooks and calls into parts of the server that are not modelled
  are recorded in order in \<open>gs_log\<close>; the tables \<^verbatim>\<open>groups\<close> and \<^verbatim>\<open>group_member\<close> are state. What
  those other parts answer (distance, client data, dungeon finder, item storage) are the functions
  of \<open>group_env\<close>. Every \<^verbatim>\<open>Player\<close> has a session from its construction on, so the tests of
  \<^verbatim>\<open>GetSession()\<close> always succeed.
\<close>

section \<open>Constants\<close>

definition MAXGROUPSIZE :: nat where "MAXGROUPSIZE = 5"
definition MAXRAIDSIZE :: nat where "MAXRAIDSIZE = 40"
definition MAX_RAID_SUBGROUPS :: nat where "MAX_RAID_SUBGROUPS = MAXRAIDSIZE div MAXGROUPSIZE"
definition TARGETICONCOUNT :: nat where "TARGETICONCOUNT = 8"
definition MAX_DIFFICULTY :: nat where "MAX_DIFFICULTY = 4"
definition MAX_DUNGEON_DIFFICULTY :: u8 where "MAX_DUNGEON_DIFFICULTY = 3"
definition MAX_RAID_DIFFICULTY :: u8 where "MAX_RAID_DIFFICULTY = 4"

lemmas group_sizes = MAXGROUPSIZE_def MAXRAIDSIZE_def MAX_RAID_SUBGROUPS_def TARGETICONCOUNT_def
  MAX_DIFFICULTY_def

definition MEMBER_FLAG_ASSISTANT :: u8 where "MEMBER_FLAG_ASSISTANT = 0x01"
definition MEMBER_FLAG_MAINTANK :: u8 where "MEMBER_FLAG_MAINTANK = 0x02"
definition MEMBER_FLAG_MAINASSIST :: u8 where "MEMBER_FLAG_MAINASSIST = 0x04"

lemmas member_flags = MEMBER_FLAG_ASSISTANT_def MEMBER_FLAG_MAINTANK_def MEMBER_FLAG_MAINASSIST_def

definition MEMBER_STATUS_OFFLINE :: u8 where "MEMBER_STATUS_OFFLINE = 0x00"
definition MEMBER_STATUS_ONLINE :: u8 where "MEMBER_STATUS_ONLINE = 0x01"
definition MEMBER_STATUS_PVP :: u8 where "MEMBER_STATUS_PVP = 0x02"

definition GROUPTYPE_NORMAL :: u8 where "GROUPTYPE_NORMAL = 0x00"
definition GROUPTYPE_BG :: u8 where "GROUPTYPE_BG = 0x01"
definition GROUPTYPE_RAID :: u8 where "GROUPTYPE_RAID = 0x02"
definition GROUPTYPE_BGRAID :: u8 where "GROUPTYPE_BGRAID = GROUPTYPE_BG OR GROUPTYPE_RAID"
definition GROUPTYPE_UNK1 :: u8 where "GROUPTYPE_UNK1 = 0x04"
definition GROUPTYPE_LFG :: u8 where "GROUPTYPE_LFG = 0x08"

lemmas group_types = GROUPTYPE_NORMAL_def GROUPTYPE_BG_def GROUPTYPE_RAID_def GROUPTYPE_BGRAID_def
  GROUPTYPE_UNK1_def GROUPTYPE_LFG_def

definition FREE_FOR_ALL :: u32 where "FREE_FOR_ALL = 0"
definition MASTER_LOOT :: u32 where "MASTER_LOOT = 2"
definition NEED_BEFORE_GREED :: u32 where "NEED_BEFORE_GREED = 4"
definition ITEM_QUALITY_UNCOMMON :: u32 where "ITEM_QUALITY_UNCOMMON = 2"
definition DUNGEON_DIFFICULTY_NORMAL :: u8 where "DUNGEON_DIFFICULTY_NORMAL = 0"
definition DUNGEON_DIFFICULTY_HEROIC :: u8 where "DUNGEON_DIFFICULTY_HEROIC = 1"
definition RAID_DIFFICULTY_10MAN_NORMAL :: u8 where "RAID_DIFFICULTY_10MAN_NORMAL = 0"
definition RAID_DIFFICULTY_25MAN_NORMAL :: u8 where "RAID_DIFFICULTY_25MAN_NORMAL = 1"

datatype RemoveMethod =
    GROUP_REMOVEMETHOD_DEFAULT | GROUP_REMOVEMETHOD_KICK | GROUP_REMOVEMETHOD_LEAVE
  | GROUP_REMOVEMETHOD_KICK_LFG

datatype InstanceResetMethod =
    INSTANCE_RESET_ALL | INSTANCE_RESET_CHANGE_DIFFICULTY | INSTANCE_RESET_GLOBAL
  | INSTANCE_RESET_GROUP_DISBAND | INSTANCE_RESET_GROUP_JOIN | INSTANCE_RESET_RESPAWN_DELAY

section \<open>Data\<close>

type_synonym gptr = nat
type_synonym lptr = nat

datatype RollVote = PASS | NEED | GREED | DISENCHANT | NOT_EMITED_YET | NOT_VALID

record roll =
  r_itemGUID :: u64
  r_itemid :: u32
  r_itemRandomPropId :: int
  r_itemRandomSuffix :: u32
  r_itemCount :: u8
  r_playerVote :: "(u64, RollVote) stdmap"
  r_totalPlayersRolling :: u8
  r_totalNeed :: u8
  r_totalGreed :: u8
  r_totalPass :: u8
  r_itemSlot :: u8
  r_rollVoteMask :: u8
  r_loot :: "lptr option"

record loot_item =
  li_itemid :: u32
  li_randomSuffix :: u32
  li_randomPropertyId :: int
  li_count :: u8
  li_is_looted :: bool
  li_is_blocked :: bool
  li_freeforall :: bool
  li_is_underthreshold :: bool
  li_follow_loot_rules :: bool

record loot =
  l_items :: "loot_item list"
  l_quest_items :: "loot_item list"
  l_unlootedCount :: u8

record item_template =
  it_Quality :: u32
  it_DisenchantID :: u32
  it_RequiredDisenchantSkill :: u32
  it_Flags2 :: u32

record member_slot =
  ms_guid :: u64
  ms_name :: string
  ms_group :: u8
  ms_flags :: u8
  ms_roles :: u8

text \<open>An \<^verbatim>\<open>InstanceSave\<close> is named by its address; its map, instance id and difficulty never change.\<close>

record instance_save =
  is_map :: u32
  is_instance :: u32
  is_difficulty :: u8
  is_canReset :: bool

record instance_bind =
  ib_save :: "instance_save option"
  ib_perm :: bool

type_synonym bound_instances = "(u32, instance_bind) stdmap"

record group =
  m_memberSlots :: "member_slot list"
  m_memberMgr :: "(u64 \<times> bool) list"
  m_invitees :: "u64 stdset"
  m_leaderGuid :: u64
  m_leaderName :: string
  m_groupType :: u8
  m_dungeonDifficulty :: u8
  m_raidDifficulty :: u8
  m_bgGroup :: "nat option"
  m_bfGroup :: "nat option"
  m_targetIcons :: "u64 list"
  m_lootMethod :: u32
  m_lootThreshold :: u32
  m_looterGuid :: u64
  RollId :: "roll list"
  m_boundInstances :: "bound_instances list"
  m_subGroupsCounts :: "u8 list option"
  m_guid :: u64
  m_counter :: u32
  m_maxEnchantingLevel :: u32
  m_dbStoreId :: u32

definition Group_new :: group where
  "Group_new = \<lparr>m_memberSlots = [], m_memberMgr = [], m_invitees = [], m_leaderGuid = 0, m_leaderName = [],
     m_groupType = GROUPTYPE_NORMAL, m_dungeonDifficulty = DUNGEON_DIFFICULTY_NORMAL,
     m_raidDifficulty = RAID_DIFFICULTY_10MAN_NORMAL, m_bgGroup = None, m_bfGroup = None,
     m_targetIcons = replicate TARGETICONCOUNT 0, m_lootMethod = FREE_FOR_ALL,
     m_lootThreshold = ITEM_QUALITY_UNCOMMON, m_looterGuid = 0, RollId = [],
     m_boundInstances = replicate MAX_DIFFICULTY [], m_subGroupsCounts = None, m_guid = 0, m_counter = 0,
     m_maxEnchantingLevel = 0, m_dbStoreId = 0\<rparr>"

text \<open>A \<^verbatim>\<open>GroupReference\<close>: its target and the subgroup it carries.\<close>

record group_ref =
  gr_target :: "gptr option"
  gr_subGroup :: u8

record player_group =
  pg_group :: group_ref
  pg_originalGroup :: group_ref
  pg_groupInvite :: "gptr option"
  pg_passOnGroupLoot :: bool
  pg_dungeonDifficulty :: u8
  pg_raidDifficulty :: u8
  pg_InstanceValid :: bool
  pg_boundInstances :: "bound_instances list"
  pg_social :: player_social
  pg_enchanting :: u32
  pg_mapId :: u32
  pg_instanceId :: u32
  pg_alive :: bool
  pg_gameMaster :: bool
  pg_inBattleground :: bool
  pg_inCombat :: bool
  pg_haveBot :: bool
  pg_isBot :: bool

section \<open>Recorded actions and tables\<close>

text \<open>
  The statements on groups of \<^verbatim>\<open>CharacterDatabase.cpp\<close>. Those on \<^verbatim>\<open>group_instance\<close>,
  \<^verbatim>\<open>character_instance\<close> and \<^verbatim>\<open>lfg_data\<close> are recorded only.
\<close>

record group_row =
  gw_leaderGuid :: u32
  gw_lootMethod :: u8
  gw_looterGuid :: u32
  gw_lootThreshold :: u8
  gw_icons :: "u32 list"
  gw_groupType :: u8
  gw_difficulty :: u8
  gw_raiddifficulty :: u8

record member_row =
  mw_guid :: u32
  mw_memberFlags :: u8
  mw_subgroup :: u8
  mw_roles :: u8

datatype group_stmt =
    INS_GROUP u32 group_row
  | INS_GROUP_MEMBER u32 u32 u8 u8 u8
  | DEL_GROUP_MEMBER u32
  | DEL_GROUP_INSTANCE_PERM_BINDING u32 u32
  | UPD_GROUP_LEADER u32 u32
  | UPD_GROUP_TYPE u8 u32
  | UPD_GROUP_MEMBER_SUBGROUP u8 u32
  | UPD_GROUP_MEMBER_FLAG u8 u32
  | UPD_GROUP_DIFFICULTY u8 u32
  | UPD_GROUP_RAID_DIFFICULTY u8 u32
  | DEL_GROUP_INSTANCE_BY_INSTANCE u32
  | DEL_GROUP_INSTANCE_BY_GUID u32 u32
  | REP_GROUP_INSTANCE u32 u32 bool
  | DEL_GROUP u32
  | DEL_GROUP_MEMBER_ALL u32
  | DEL_LFG_DATA u32
  | DEL_CHAR_INSTANCE_BY_INSTANCE_GUID u32 u32

record group_db =
  db_groups :: "(u32, group_row) stdmap"
  db_group_member :: "(u32, member_row) stdmap"

text \<open>An \<^verbatim>\<open>INSERT\<close> whose primary key is present fails and changes nothing.\<close>

definition ins_row :: "'k::linorder \<Rightarrow> 'v \<Rightarrow> ('k, 'v) stdmap \<Rightarrow> ('k, 'v) stdmap" where
  "ins_row k v m = (if map_find m k = None then map_set k v m else m)"

definition upd_row :: "'k::linorder \<Rightarrow> ('v \<Rightarrow> 'v) \<Rightarrow> ('k, 'v) stdmap \<Rightarrow> ('k, 'v) stdmap" where
  "upd_row k f m = (case map_find m k of None \<Rightarrow> m | Some v \<Rightarrow> map_set k (f v) m)"

fun exec_group :: "group_stmt \<Rightarrow> group_db \<Rightarrow> group_db" where
  "exec_group (INS_GROUP k r) db = db\<lparr>db_groups := ins_row k r (db_groups db)\<rparr>"
| "exec_group (INS_GROUP_MEMBER k m fl sub ro) db =
     db\<lparr>db_group_member := ins_row m \<lparr>mw_guid = k, mw_memberFlags = fl, mw_subgroup = sub, mw_roles = ro\<rparr>
          (db_group_member db)\<rparr>"
| "exec_group (DEL_GROUP_MEMBER m) db = db\<lparr>db_group_member := map_erase m (db_group_member db)\<rparr>"
| "exec_group (UPD_GROUP_LEADER l k) db =
     db\<lparr>db_groups := upd_row k (gw_leaderGuid_update (\<lambda>_. l)) (db_groups db)\<rparr>"
| "exec_group (UPD_GROUP_TYPE t k) db =
     db\<lparr>db_groups := upd_row k (gw_groupType_update (\<lambda>_. t)) (db_groups db)\<rparr>"
| "exec_group (UPD_GROUP_MEMBER_SUBGROUP s m) db =
     db\<lparr>db_group_member := upd_row m (mw_subgroup_update (\<lambda>_. s)) (db_group_member db)\<rparr>"
| "exec_group (UPD_GROUP_MEMBER_FLAG f m) db =
     db\<lparr>db_group_member := upd_row m (mw_memberFlags_update (\<lambda>_. f)) (db_group_member db)\<rparr>"
| "exec_group (UPD_GROUP_DIFFICULTY d k) db =
     db\<lparr>db_groups := upd_row k (gw_difficulty_update (\<lambda>_. d)) (db_groups db)\<rparr>"
| "exec_group (UPD_GROUP_RAID_DIFFICULTY d k) db =
     db\<lparr>db_groups := upd_row k (gw_raiddifficulty_update (\<lambda>_. d)) (db_groups db)\<rparr>"
| "exec_group (DEL_GROUP k) db = db\<lparr>db_groups := map_erase k (db_groups db)\<rparr>"
| "exec_group (DEL_GROUP_MEMBER_ALL k) db =
     db\<lparr>db_group_member := filter (\<lambda>(m, r). mw_guid r \<noteq> k) (db_group_member db)\<rparr>"
| "exec_group _ db = db"

datatype player_call =
    UpdateForQuestWorldObjects
  | UpdateObjectVisibility
  | Player_ResetInstances InstanceResetMethod bool
  | SetGroupUpdateFlag_FULL
  | SendPartyMemberStats u64
  | ForceValuesUpdate
  | MemberFieldsTo u64
  | SendResetInstanceSuccess u32
  | SendResetInstanceFailed u32
  | SendCalendarRaidLockout u32
  | UpdateAchievementCriteria_rollneed u32 u8
  | UpdateAchievementCriteria_rollgreed u32 u8
  | UpdateAchievementCriteria_disenchant
  | UpdateAchievementCriteria_need
  | UpdateAchievementCriteria_greed
  | StoreNewItem u32 int u8
  | SendEquipError u32 u32
  | AutoStoreLoot u32
  | SetGroupLootTimer u32 u32
  | RemoveAllBots bool
  | LogoutPlayerBots
  | LogoutPlayerBot u64

datatype group_action =
    Packet u64 world_packet
  | Sql group_stmt
  | OnGroupAddMember gptr u64
  | OnGroupInviteMember gptr u64
  | OnGroupRemoveMember gptr u64 RemoveMethod u64 string
  | OnGroupChangeLeader gptr u64 u64
  | OnGroupDisband gptr
  | LfgLoadFromDB u64
  | LfgSetupGroupMember u64 u64
  | SaveAddGroup u32 gptr
  | SaveRemoveGroup u32 gptr
  | SaveRemovePlayer u32 u64
  | SaveDeleteFromDB u32
  | MapReset u32 u32 InstanceResetMethod
  | LootNotifyItemRemoved lptr u8
  | BgRaidCleared nat gptr
  | StopNow
  | Call u64 player_call

section \<open>The state\<close>

record map_entry =
  me_isDungeon :: bool
  me_isRaid :: bool

text \<open>
  What the parts that are not modelled answer. An answer that depends on what happened before
  (free bag space, players on a map) takes the recorded actions as its argument.
\<close>

record group_env =
  ge_in_range :: "u64 \<Rightarrow> u64 \<Rightarrow> bool"
  ge_in_sight :: "u64 \<Rightarrow> u64 \<Rightarrow> bool"
  ge_have_at_client :: "u64 \<Rightarrow> u64 \<Rightarrow> bool"
  ge_item :: "u32 \<Rightarrow> item_template option"
  ge_allowed :: "loot_item \<Rightarrow> u64 \<Rightarrow> bool"
  ge_can_roll_lfg :: "u64 \<Rightarrow> u32 \<Rightarrow> u64 \<Rightarrow> bool"
  ge_can_store :: "group_action list \<Rightarrow> u64 \<Rightarrow> u32 \<Rightarrow> u8 \<Rightarrow> u32"
  ge_map_entry :: "u32 \<Rightarrow> map_entry option"
  ge_map_difficulty :: "u32 \<Rightarrow> u8 \<Rightarrow> bool"
  ge_map_loaded :: "u32 \<Rightarrow> u32 \<Rightarrow> bool"
  ge_map_have_players :: "group_action list \<Rightarrow> u32 \<Rightarrow> u32 \<Rightarrow> bool"
  ge_lfg_finished :: "u64 \<Rightarrow> bool"
  ge_lfg_boot :: "u64 \<Rightarrow> bool"
  ge_lfg_kicks_left :: "u64 \<Rightarrow> bool"
  ge_lfg_dungeon :: "u64 \<Rightarrow> u32"
  ge_lfg_map :: "u64 \<Rightarrow> u32"
  ge_bot_loot_method :: u32
  ge_allow_gm_group :: bool
  ge_two_side_group :: bool
  ge_guid_by_name :: "string \<Rightarrow> u64"
  ge_normalize :: "string \<Rightarrow> string option"
  ge_random :: "nat \<Rightarrow> u32"

record gworld =
  gs_world :: world
  gs_env :: group_env
  gs_groups :: "gptr \<Rightarrow> group option"
  gs_next :: gptr
  gs_pl :: "u64 \<Rightarrow> player_group"
  gs_loots :: "lptr \<Rightarrow> loot option"
  gs_draws :: nat
  gs_hiItemGuid :: u32
  gs_db :: group_db
  gs_log :: "group_action list"
  gs_fault :: "cpp_error option"
  NextGroupId :: u32
  NextGroupDbStoreId :: u32
  GroupStore :: "(u32, gptr) stdmap"
  GroupDbStore :: "gptr option list"

definition gfault :: "cpp_error \<Rightarrow> gworld \<Rightarrow> gworld" where
  "gfault e w = (if gs_fault w = None then w\<lparr>gs_fault := Some e\<rparr> else w)"

definition act :: "group_action \<Rightarrow> gworld \<Rightarrow> gworld" where
  "act a w = w\<lparr>gs_log := gs_log w @ [a]\<rparr>"

definition send :: "u64 \<Rightarrow> world_packet \<Rightarrow> gworld \<Rightarrow> gworld" where
  "send g p w = act (Packet g p) w"

definition sql :: "group_stmt \<Rightarrow> gworld \<Rightarrow> gworld" where
  "sql s w = act (Sql s) (w\<lparr>gs_db := exec_group s (gs_db w)\<rparr>)"

text \<open>Dereferencing a group pointer, and writing the fields of the object it points to.\<close>

definition with_group :: "gptr \<Rightarrow> gworld \<Rightarrow> (group \<Rightarrow> gworld) \<Rightarrow> gworld" where
  "with_group p w f = (case gs_groups w p of None \<Rightarrow> gfault UseAfterFree w | Some g \<Rightarrow> f g)"

definition modg :: "gptr \<Rightarrow> (group \<Rightarrow> group) \<Rightarrow> gworld \<Rightarrow> gworld" where
  "modg p f w = with_group p w (\<lambda>g. w\<lparr>gs_groups := (gs_groups w)(p \<mapsto> f g)\<rparr>)"

definition modp :: "u64 \<Rightarrow> (player_group \<Rightarrow> player_group) \<Rightarrow> gworld \<Rightarrow> gworld" where
  "modp g f w = w\<lparr>gs_pl := (gs_pl w)(g := f (gs_pl w g))\<rparr>"

definition find_player :: "gworld \<Rightarrow> u64 \<Rightarrow> player option" where
  "find_player w g = FindPlayer (gs_world w) g"

abbreviation online :: "gworld \<Rightarrow> u64 \<Rightarrow> bool" where
  "online w g \<equiv> find_player w g \<noteq> None"

definition GetGroup :: "gworld \<Rightarrow> u64 \<Rightarrow> gptr option" where
  "GetGroup w g = gr_target (pg_group (gs_pl w g))"

definition GetOriginalGroup :: "gworld \<Rightarrow> u64 \<Rightarrow> gptr option" where
  "GetOriginalGroup w g = gr_target (pg_originalGroup (gs_pl w g))"

text \<open>\<^verbatim>\<open>urand(min, max)\<close>: any value of the range.\<close>

definition urand :: "u32 \<Rightarrow> u32 \<Rightarrow> gworld \<Rightarrow> u32 \<times> gworld" where
  "urand lo hi w = (lo + ge_random (gs_env w) (gs_draws w) mod (hi - lo + 1), w\<lparr>gs_draws := Suc (gs_draws w)\<rparr>)"

text \<open>\<^verbatim>\<open>new Group\<close>\<close>

definition new_group :: "gworld \<Rightarrow> gptr \<times> gworld" where
  "new_group w = (gs_next w, w\<lparr>gs_next := Suc (gs_next w), gs_groups := (gs_groups w)(gs_next w \<mapsto> Group_new)\<rparr>)"

section \<open>References (\<^verbatim>\<open>Reference.h\<close>, \<^verbatim>\<open>GroupReference.cpp\<close>)\<close>

text \<open>The slot \<open>orig\<close> of player \<open>g\<close>: \<^verbatim>\<open>m_originalGroup\<close> when true, \<^verbatim>\<open>m_group\<close> otherwise.\<close>

definition ref_get :: "bool \<Rightarrow> player_group \<Rightarrow> group_ref" where
  "ref_get orig pd = (if orig then pg_originalGroup pd else pg_group pd)"

definition ref_upd :: "bool \<Rightarrow> (group_ref \<Rightarrow> group_ref) \<Rightarrow> player_group \<Rightarrow> player_group" where
  "ref_upd orig f pd = (if orig then pd\<lparr>pg_originalGroup := f (pg_originalGroup pd)\<rparr> else pd\<lparr>pg_group := f (pg_group pd)\<rparr>)"

definition LinkMember :: "gptr \<Rightarrow> u64 \<times> bool \<Rightarrow> gworld \<Rightarrow> gworld" where
  "LinkMember p r w = modg p (\<lambda>g. g\<lparr>m_memberMgr := r # m_memberMgr g\<rparr>) w"

text \<open>\<^verbatim>\<open>delink()\<close> does nothing on an element that is in no list.\<close>

definition ref_unlink :: "u64 \<Rightarrow> bool \<Rightarrow> gworld \<Rightarrow> gworld" where
  "ref_unlink g orig w =
     (let w1 = (case gr_target (ref_get orig (gs_pl w g)) of
                  None \<Rightarrow> w
                | Some p \<Rightarrow> modg p (\<lambda>x. x\<lparr>m_memberMgr := removeAll (g, orig) (m_memberMgr x)\<rparr>) w)
      in modp g (ref_upd orig (\<lambda>r. r\<lparr>gr_target := None\<rparr>)) w1)"

definition ref_link :: "u64 \<Rightarrow> bool \<Rightarrow> gptr \<Rightarrow> gworld \<Rightarrow> gworld" where
  "ref_link g orig p w =
     (let w1 = (if gr_target (ref_get orig (gs_pl w g)) \<noteq> None then ref_unlink g orig w else w);
          w2 = modp g (ref_upd orig (\<lambda>r. r\<lparr>gr_target := Some p\<rparr>)) w1
      in LinkMember p (g, orig) w2)"

definition ref_setSubGroup :: "u64 \<Rightarrow> bool \<Rightarrow> u8 \<Rightarrow> gworld \<Rightarrow> gworld" where
  "ref_setSubGroup g orig s w = modp g (ref_upd orig (\<lambda>r. r\<lparr>gr_subGroup := s\<rparr>)) w"

text \<open>\<^verbatim>\<open>RefManager::clearReferences\<close>, run when the group is destroyed.\<close>

definition clearReferences :: "(u64 \<times> bool) list \<Rightarrow> gworld \<Rightarrow> gworld" where
  "clearReferences rs w = fold (\<lambda>(g, orig). modp g (ref_upd orig (\<lambda>r. r\<lparr>gr_target := None\<rparr>))) rs w"

section \<open>The slots of a player (\<^verbatim>\<open>Player.cpp\<close>)\<close>

definition SetGroup :: "u64 \<Rightarrow> (gptr \<times> u8) option \<Rightarrow> gworld \<Rightarrow> gworld" where
  "SetGroup g t w =
     act (Call g UpdateObjectVisibility)
       (case t of
          None \<Rightarrow> ref_unlink g False w
        | Some (p, sub) \<Rightarrow>
            (if sub \<ge> 0x80 then gfault AssertFailure w
             else ref_setSubGroup g False sub (ref_link g False p w)))"

definition SetOriginalGroup :: "u64 \<Rightarrow> (gptr \<times> u8) option \<Rightarrow> gworld \<Rightarrow> gworld" where
  "SetOriginalGroup g t w =
     (case t of
        None \<Rightarrow> ref_unlink g True w
      | Some (p, sub) \<Rightarrow>
          (if sub \<ge> 0x80 then gfault AssertFailure w
           else ref_setSubGroup g True sub (ref_link g True p w)))"

definition SetBattlegroundOrBattlefieldRaid :: "u64 \<Rightarrow> gptr \<Rightarrow> u8 \<Rightarrow> gworld \<Rightarrow> gworld" where
  "SetBattlegroundOrBattlefieldRaid g p sub w =
     (let w1 = SetOriginalGroup g (map_option (\<lambda>q. (q, gr_subGroup (pg_group (gs_pl w g)))) (GetGroup w g)) w;
          w2 = ref_unlink g False w1;
          w3 = ref_link g False p w2
      in ref_setSubGroup g False sub w3)"

definition RemoveFromBattlegroundOrBattlefieldRaid :: "u64 \<Rightarrow> gworld \<Rightarrow> gworld" where
  "RemoveFromBattlegroundOrBattlefieldRaid g w =
     (let w1 = ref_unlink g False w;
          w2 = (case GetOriginalGroup w1 g of
                  None \<Rightarrow> w1
                | Some p \<Rightarrow>
                    ref_setSubGroup g False (gr_subGroup (pg_originalGroup (gs_pl w1 g))) (ref_link g False p w1))
      in SetOriginalGroup g None w2)"

definition SetGroupInvite :: "u64 \<Rightarrow> gptr option \<Rightarrow> gworld \<Rightarrow> gworld" where
  "SetGroupInvite g p w = modp g (\<lambda>d. d\<lparr>pg_groupInvite := p\<rparr>) w"

end
