(* ===== verification/Group_Mgr.thy ===== *)
theory Group_Mgr
  imports Group_State
begin

text \<open>
  The registry of groups, \<^verbatim>\<open>src/src/server/game/Groups/GroupMgr.cpp\<close>: the pool of storage ids
  (the primary keys of the table \<^verbatim>\<open>groups\<close>, reused after a group is disbanded) and the counter
  of group ids. The lemmas show that the pool always hands out the least id that is free.
  \<^verbatim>\<open>LoadGroups\<close> is in the theory \<open>Group_Load\<close>.
\<close>

section \<open>Operations\<close>

text \<open>The search of \<^verbatim>\<open>GenerateNewGroupDbStoreId\<close>; \<^verbatim>\<open>NULL\<close> entries of the vector are \<^const>\<open>None\<close>.\<close>

function next_free_id :: "gptr option list \<Rightarrow> nat \<Rightarrow> nat option" where
  "next_free_id store i =
     (if i < 0xFFFFFFFF then
        (if (i < length store \<and> store ! i = None) \<or> i \<ge> length store then Some i
         else next_free_id store (Suc i))
      else None)"
  by pat_completeness auto
termination
  by (relation "measure (\<lambda>(store, i). 0xFFFFFFFF - i)") auto

declare next_free_id.simps [simp del]

definition GenerateNewGroupDbStoreId :: "gworld \<Rightarrow> u32 \<times> gworld" where
  "GenerateNewGroupDbStoreId w =
     (let newStorageId = NextGroupDbStoreId w;
          n1 = NextGroupDbStoreId w + 1;
          n2 = (case next_free_id (GroupDbStore w) (unat n1) of None \<Rightarrow> n1 | Some i \<Rightarrow> of_nat i);
          w1 = w\<lparr>NextGroupDbStoreId := n2\<rparr>;
          w2 = (if newStorageId = n2 then act StopNow w1 else w1)
      in (newStorageId, w2))"

text \<open>\<^verbatim>\<open>resize(storageId + 1)\<close> computes its argument in 32 bits.\<close>

definition RegisterGroupDbStoreId :: "u32 \<Rightarrow> gptr \<Rightarrow> gworld \<Rightarrow> gworld" where
  "RegisterGroupDbStoreId storageId p w =
     (let store = GroupDbStore w;
          store1 = (if unat storageId \<ge> length store
                    then take (unat (storageId + 1)) store @ replicate (unat (storageId + 1) - length store) None
                    else store)
      in if unat storageId < length store1
         then w\<lparr>GroupDbStore := store1[unat storageId := Some p]\<rparr>
         else gfault OutOfBounds w)"

definition FreeGroupDbStoreId :: "u32 \<Rightarrow> gworld \<Rightarrow> gworld" where
  "FreeGroupDbStoreId storageId w =
     (let w1 = (if storageId < NextGroupDbStoreId w then w\<lparr>NextGroupDbStoreId := storageId\<rparr> else w)
      in if unat storageId < length (GroupDbStore w1)
         then w1\<lparr>GroupDbStore := (GroupDbStore w1)[unat storageId := None]\<rparr>
         else gfault OutOfBounds w1)"

definition GetGroupByDbStoreId :: "gworld \<Rightarrow> u32 \<Rightarrow> gptr option" where
  "GetGroupByDbStoreId w storageId =
     (if unat storageId < length (GroupDbStore w) then GroupDbStore w ! unat storageId else None)"

definition GenerateGroupId :: "gworld \<Rightarrow> u32 \<times> gworld" where
  "GenerateGroupId w =
     (let w1 = (if NextGroupId w \<ge> 0xFFFFFFFE then act StopNow w else w)
      in (NextGroupId w1, w1\<lparr>NextGroupId := NextGroupId w1 + 1\<rparr>))"

definition GetGroupByGUID :: "gworld \<Rightarrow> u32 \<Rightarrow> gptr option" where
  "GetGroupByGUID w groupId = map_find (GroupStore w) groupId"

definition AddGroup :: "gptr \<Rightarrow> gworld \<Rightarrow> gworld" where
  "AddGroup p w = with_group p w (\<lambda>g. w\<lparr>GroupStore := map_set (GUID_LOPART (m_guid g)) p (GroupStore w)\<rparr>)"

definition RemoveGroup :: "gptr \<Rightarrow> gworld \<Rightarrow> gworld" where
  "RemoveGroup p w = with_group p w (\<lambda>g. w\<lparr>GroupStore := map_erase (GUID_LOPART (m_guid g)) (GroupStore w)\<rparr>)"

text \<open>\<^verbatim>\<open>GroupMgr::GroupMgr\<close>\<close>

definition GroupMgr_init :: "gworld \<Rightarrow> gworld" where
  "GroupMgr_init w = w\<lparr>NextGroupDbStoreId := 1, NextGroupId := 1, GroupStore := [], GroupDbStore := []\<rparr>"

section \<open>The pool hands out the least free id\<close>

definition id_used :: "gptr option list \<Rightarrow> nat \<Rightarrow> bool" where
  "id_used store i \<longleftrightarrow> i < length store \<and> store ! i \<noteq> None"

text \<open>The next id is the least positive one that no group uses.\<close>

definition pool_ok :: "gworld \<Rightarrow> bool" where
  "pool_ok w \<longleftrightarrow> 0 < NextGroupDbStoreId w \<and> \<not> id_used (GroupDbStore w) (unat (NextGroupDbStoreId w))
     \<and> (\<forall>i. 0 < i \<and> i < unat (NextGroupDbStoreId w) \<longrightarrow> id_used (GroupDbStore w) i)"

lemma next_free_id_spec:
  "next_free_id store i = Some j \<Longrightarrow>
     i \<le> j \<and> j < 0xFFFFFFFF \<and> \<not> id_used store j \<and> (\<forall>k. i \<le> k \<and> k < j \<longrightarrow> id_used store k)"
proof (induction store i rule: next_free_id.induct)
  case (1 store i)
  show ?case
  proof (cases "i < 0xFFFFFFFF \<and> \<not> ((i < length store \<and> store ! i = None) \<or> i \<ge> length store)")
    case True
    then have "next_free_id store (Suc i) = Some j" using "1.prems" by (subst (asm) next_free_id.simps) auto
    then have rest: "Suc i \<le> j \<and> j < 0xFFFFFFFF \<and> \<not> id_used store j \<and> (\<forall>k. Suc i \<le> k \<and> k < j \<longrightarrow> id_used store k)"
      using "1.IH" True by blast
    moreover have "id_used store i" using True by (auto simp: id_used_def)
    ultimately show ?thesis by (metis Suc_leI Suc_leD le_neq_implies_less)
  next
    case False
    then show ?thesis using "1.prems" by (subst (asm) next_free_id.simps) (auto simp: id_used_def split: if_splits)
  qed
qed

lemma next_free_id_None: "next_free_id store i = None \<Longrightarrow> i \<le> k \<Longrightarrow> k < 0xFFFFFFFF \<Longrightarrow> id_used store k"
proof (induction store i rule: next_free_id.induct)
  case (1 store i)
  then have used: "i < 0xFFFFFFFF" "id_used store i" "next_free_id store (Suc i) = None"
    using "1.prems" next_free_id.simps [of store i] by (auto simp: id_used_def split: if_splits)
  then show ?case using "1.IH" "1.prems" by (cases "k = i") (auto simp: id_used_def)
qed

lemma GenerateNewGroupDbStoreId_frame:
  "GenerateNewGroupDbStoreId w = (i, w') \<Longrightarrow>
     i = NextGroupDbStoreId w \<and> GroupDbStore w' = GroupDbStore w \<and> gs_groups w' = gs_groups w
     \<and> gs_pl w' = gs_pl w \<and> gs_db w' = gs_db w \<and> gs_fault w' = gs_fault w \<and> gs_world w' = gs_world w
     \<and> gs_env w' = gs_env w \<and> gs_next w' = gs_next w"
  by (auto simp: GenerateNewGroupDbStoreId_def Let_def act_def split: option.splits if_splits)

text \<open>The ids in use stay below the bound while fewer than \<open>2^32 - 2\<close> slots are allocated.\<close>

definition pool_room :: "gworld \<Rightarrow> bool" where
  "pool_room w \<longleftrightarrow> length (GroupDbStore w) < 0xFFFFFFFE"

lemma pool_next_le: "pool_ok w \<Longrightarrow> pool_room w \<Longrightarrow> unat (NextGroupDbStoreId w) \<le> max 1 (length (GroupDbStore w))"
proof (rule ccontr)
  assume a: "pool_ok w" and "\<not> unat (NextGroupDbStoreId w) \<le> max 1 (length (GroupDbStore w))"
  then have "1 < unat (NextGroupDbStoreId w)" "length (GroupDbStore w) < unat (NextGroupDbStoreId w)" by auto
  moreover have "id_used (GroupDbStore w) i" if "0 < i" "i < unat (NextGroupDbStoreId w)" for i
    using a that by (simp add: pool_ok_def)
  ultimately have "id_used (GroupDbStore w) (max 1 (length (GroupDbStore w)))" by simp
  then show False by (auto simp: id_used_def)
qed

lemma pool_generate_register:
  assumes ok: "pool_ok w" and room: "pool_room w" and gen: "GenerateNewGroupDbStoreId w = (i, w')"
  shows "pool_ok (RegisterGroupDbStoreId i p w')" "gs_fault (RegisterGroupDbStoreId i p w') = gs_fault w"
    "\<not> id_used (GroupDbStore w) (unat i)"
    "GetGroupByDbStoreId (RegisterGroupDbStoreId i p w') j = (if j = i then Some p else GetGroupByDbStoreId w j)"
proof -
  let ?n = "NextGroupDbStoreId w" and ?S = "GroupDbStore w"
  have i: "i = ?n" "GroupDbStore w' = ?S" "gs_fault w' = gs_fault w"
    using GenerateNewGroupDbStoreId_frame [OF gen] by auto
  have n_le: "unat ?n < 0xFFFFFFFE" using pool_next_le [OF ok room] room by (auto simp: pool_room_def)
  then have n1: "unat (?n + 1) = Suc (unat ?n)" by (simp add: unat_add_lem [THEN iffD1])
  obtain j where j: "next_free_id ?S (Suc (unat ?n)) = Some j"
  proof (cases "next_free_id ?S (Suc (unat ?n))")
    case None
    have "id_used ?S 0xFFFFFFFE" by (rule next_free_id_None [OF None]) (use n_le in auto)
    then show ?thesis using room by (simp add: id_used_def pool_room_def)
  qed blast
  note spec = next_free_id_spec [OF j]
  have next': "NextGroupDbStoreId w' = of_nat j"
    using gen by (auto simp: GenerateNewGroupDbStoreId_def Let_def n1 j act_def split: if_splits)
  have uj: "unat (of_nat j :: u32) = j" by (rule unat_of_nat_small) (use spec in simp)
  let ?S' = "(if unat ?n \<ge> length ?S then take (Suc (unat ?n)) ?S @ replicate (Suc (unat ?n) - length ?S) None else ?S)"
  have len: "unat ?n < length ?S'" by auto
  have reg: "RegisterGroupDbStoreId i p w' = w'\<lparr>GroupDbStore := ?S'[unat ?n := Some p]\<rparr>"
    using len by (simp add: RegisterGroupDbStoreId_def Let_def i n1)
  have used: "id_used (?S'[unat ?n := Some p]) k \<longleftrightarrow> k = unat ?n \<or> id_used ?S k" for k
    using len by (auto simp: id_used_def nth_append nth_list_update split: if_splits)
  show "gs_fault (RegisterGroupDbStoreId i p w') = gs_fault w" using reg i(3) by simp
  show "\<not> id_used ?S (unat i)" using ok by (simp add: pool_ok_def i)
  show "GetGroupByDbStoreId (RegisterGroupDbStoreId i p w') q = (if q = i then Some p else GetGroupByDbStoreId w q)" for q
    using len i by (auto simp: reg GetGroupByDbStoreId_def nth_append nth_list_update word_unat_eq_iff)
  have below: "id_used ?S k" if "0 < k" "k < unat ?n" for k using ok that by (simp add: pool_ok_def)
  have "k = unat ?n \<or> id_used ?S k" if "0 < k" "k < j" for k
    using below [of k] spec that by (metis le_neq_implies_less not_le not_less_eq_eq)
  moreover have "(0 :: u32) < of_nat j" using spec by (simp add: word_less_nat_alt uj)
  ultimately show "pool_ok (RegisterGroupDbStoreId i p w')"
    using spec by (simp add: pool_ok_def reg used next' uj)
qed

lemma pool_free:
  assumes "pool_ok w" "id_used (GroupDbStore w) (unat i)" "0 < i"
  shows "pool_ok (FreeGroupDbStoreId i w)" "gs_fault (FreeGroupDbStoreId i w) = gs_fault w"
    "GetGroupByDbStoreId (FreeGroupDbStoreId i w) j = (if j = i then None else GetGroupByDbStoreId w j)"
proof -
  have len: "unat i < length (GroupDbStore w)" using assms(2) by (simp add: id_used_def)
  have used: "id_used ((GroupDbStore w)[unat i := None]) k \<longleftrightarrow> k \<noteq> unat i \<and> id_used (GroupDbStore w) k" for k
    by (cases "k = unat i") (auto simp: id_used_def)
  have ne: "i \<noteq> NextGroupDbStoreId w" using assms(1,2) by (auto simp: pool_ok_def)
  show "gs_fault (FreeGroupDbStoreId i w) = gs_fault w" using len by (simp add: FreeGroupDbStoreId_def Let_def)
  show "GetGroupByDbStoreId (FreeGroupDbStoreId i w) j = (if j = i then None else GetGroupByDbStoreId w j)"
    using len by (auto simp: FreeGroupDbStoreId_def GetGroupByDbStoreId_def Let_def nth_list_update word_unat_eq_iff)
  show "pool_ok (FreeGroupDbStoreId i w)"
    using assms ne len
    by (auto simp: FreeGroupDbStoreId_def pool_ok_def Let_def used word_less_nat_alt word_unat_eq_iff)
qed

text \<open>For evaluation the bounds are compared as integers: a natural number of that size is too long.\<close>

lemma next_free_id_code [code]:
  "next_free_id store i =
     (if int i < 0xFFFFFFFF
      then (if (i < length store \<and> store ! i = None) \<or> i \<ge> length store then Some i else next_free_id store (Suc i)) else None)"
  by (subst next_free_id.simps) simp

lemma pool_room_code [code]: "pool_room w \<longleftrightarrow> int (length (GroupDbStore w)) < 0xFFFFFFFE"
  by (simp add: pool_room_def)

lemma pool_init: "pool_ok (GroupMgr_init w)"
  by (auto simp: GroupMgr_init_def pool_ok_def id_used_def)

end
