(* ===== verification/Group_Core.thy ===== *)
theory Group_Core
  imports Group_Mgr
begin

text \<open>
  The methods of \<^verbatim>\<open>src/src/server/game/Groups/Group.cpp\<close> that membership changes build on: accessors,
  subgroup counters, member flags, target icons, invitations, the packets to the members, instance binds,
  difficulty, round robin looter and the destructor. A \<^verbatim>\<open>const\<close> method is a function of the
  group; a method that writes takes the address of the group and the state.
\<close>

section \<open>Opcodes\<close>

definition SMSG_GROUP_SET_LEADER :: u16 where "SMSG_GROUP_SET_LEADER = 0x079"
definition SMSG_GROUP_UNINVITE :: u16 where "SMSG_GROUP_UNINVITE = 0x077"
definition SMSG_GROUP_DESTROYED :: u16 where "SMSG_GROUP_DESTROYED = 0x07C"
definition SMSG_GROUP_LIST :: u16 where "SMSG_GROUP_LIST = 0x07D"
definition MSG_RAID_TARGET_UPDATE :: u16 where "MSG_RAID_TARGET_UPDATE = 0x321"
definition MSG_RAID_READY_CHECK :: u16 where "MSG_RAID_READY_CHECK = 0x322"
definition MSG_RAID_READY_CHECK_CONFIRM :: u16 where "MSG_RAID_READY_CHECK_CONFIRM = 0x3AE"
definition MSG_SET_DUNGEON_DIFFICULTY :: u16 where "MSG_SET_DUNGEON_DIFFICULTY = 0x329"
definition MSG_SET_RAID_DIFFICULTY :: u16 where "MSG_SET_RAID_DIFFICULTY = 0x4EB"

section \<open>Accessors\<close>

definition isLFGGroup :: "group \<Rightarrow> bool" where
  "isLFGGroup g \<longleftrightarrow> has_flag (m_groupType g) GROUPTYPE_LFG"

definition isRaidGroup :: "group \<Rightarrow> bool" where
  "isRaidGroup g \<longleftrightarrow> has_flag (m_groupType g) GROUPTYPE_RAID"

definition isBGGroup :: "group \<Rightarrow> bool" where
  "isBGGroup g \<longleftrightarrow> m_bgGroup g \<noteq> None"

definition isBFGroup :: "group \<Rightarrow> bool" where
  "isBFGroup g \<longleftrightarrow> m_bfGroup g \<noteq> None"

definition GetMembersCount :: "group \<Rightarrow> nat" where
  "GetMembersCount g = length (m_memberSlots g)"

definition IsCreated :: "group \<Rightarrow> bool" where
  "IsCreated g \<longleftrightarrow> GetMembersCount g > 0"

definition IsFull :: "group \<Rightarrow> bool" where
  "IsFull g = (if isRaidGroup g then length (m_memberSlots g) \<ge> MAXRAIDSIZE
               else length (m_memberSlots g) \<ge> MAXGROUPSIZE)"

definition GetMemberSlot :: "group \<Rightarrow> u64 \<Rightarrow> member_slot option" where
  "GetMemberSlot g guid = find (\<lambda>s. ms_guid s = guid) (m_memberSlots g)"

definition IsMember :: "group \<Rightarrow> u64 \<Rightarrow> bool" where
  "IsMember g guid \<longleftrightarrow> GetMemberSlot g guid \<noteq> None"

definition IsLeader :: "group \<Rightarrow> u64 \<Rightarrow> bool" where
  "IsLeader g guid \<longleftrightarrow> m_leaderGuid g = guid"

definition GetMemberGUID :: "group \<Rightarrow> string \<Rightarrow> u64" where
  "GetMemberGUID g name = (case find (\<lambda>s. ms_name s = name) (m_memberSlots g) of None \<Rightarrow> 0 | Some s \<Rightarrow> ms_guid s)"

definition IsAssistant :: "group \<Rightarrow> u64 \<Rightarrow> bool" where
  "IsAssistant g guid =
     (case GetMemberSlot g guid of None \<Rightarrow> False | Some s \<Rightarrow> has_flag (ms_flags s) MEMBER_FLAG_ASSISTANT)"

definition SameSubGroup_slot :: "group \<Rightarrow> u64 \<Rightarrow> member_slot option \<Rightarrow> bool" where
  "SameSubGroup_slot g guid1 slot2 =
     (case (GetMemberSlot g guid1, slot2) of (Some s1, Some s2) \<Rightarrow> ms_group s1 = ms_group s2 | _ \<Rightarrow> False)"

definition SameSubGroup :: "group \<Rightarrow> u64 \<Rightarrow> u64 \<Rightarrow> bool" where
  "SameSubGroup g guid1 guid2 =
     (case GetMemberSlot g guid2 of None \<Rightarrow> False | Some s2 \<Rightarrow> SameSubGroup_slot g guid1 (Some s2))"

definition SameSubGroup_players :: "gptr \<Rightarrow> gworld \<Rightarrow> u64 option \<Rightarrow> u64 option \<Rightarrow> bool" where
  "SameSubGroup_players p w member1 member2 =
     (case (member1, member2) of
        (Some a, Some b) \<Rightarrow>
          (if GetGroup w a \<noteq> Some p \<or> GetGroup w b \<noteq> Some p then False
           else gr_subGroup (pg_group (gs_pl w a)) = gr_subGroup (pg_group (gs_pl w b)))
      | _ \<Rightarrow> False)"

text \<open>The index of \<^verbatim>\<open>m_subGroupsCounts[subgroup]\<close> is checked by the callers.\<close>

definition HasFreeSlotSubGroup :: "group \<Rightarrow> u8 \<Rightarrow> bool" where
  "HasFreeSlotSubGroup g subgroup =
     (case m_subGroupsCounts g of None \<Rightarrow> False | Some c \<Rightarrow> unat (c ! unat subgroup) < MAXGROUPSIZE)"

definition GetMemberGroup :: "group \<Rightarrow> u64 \<Rightarrow> u8" where
  "GetMemberGroup g guid = (case GetMemberSlot g guid of None \<Rightarrow> of_nat (MAX_RAID_SUBGROUPS + 1) | Some s \<Rightarrow> ms_group s)"

definition GetDifficulty :: "group \<Rightarrow> bool \<Rightarrow> u8" where
  "GetDifficulty g isRaid = (if isRaid then m_raidDifficulty g else m_dungeonDifficulty g)"

definition isRollLootActive :: "group \<Rightarrow> bool" where
  "isRollLootActive g \<longleftrightarrow> RollId g \<noteq> []"

definition SetLootMethod :: "gptr \<Rightarrow> u32 \<Rightarrow> gworld \<Rightarrow> gworld" where
  "SetLootMethod p method w = modg p (\<lambda>g. g\<lparr>m_lootMethod := method\<rparr>) w"

definition SetLooterGuid :: "gptr \<Rightarrow> u64 \<Rightarrow> gworld \<Rightarrow> gworld" where
  "SetLooterGuid p guid w = modg p (\<lambda>g. g\<lparr>m_looterGuid := guid\<rparr>) w"

definition SetLootThreshold :: "gptr \<Rightarrow> u32 \<Rightarrow> gworld \<Rightarrow> gworld" where
  "SetLootThreshold p threshold w = modg p (\<lambda>g. g\<lparr>m_lootThreshold := threshold\<rparr>) w"

definition SetBattlegroundGroup :: "gptr \<Rightarrow> nat option \<Rightarrow> gworld \<Rightarrow> gworld" where
  "SetBattlegroundGroup p bg w = modg p (\<lambda>g. g\<lparr>m_bgGroup := bg\<rparr>) w"

definition SetBattlefieldGroup :: "gptr \<Rightarrow> nat option \<Rightarrow> gworld \<Rightarrow> gworld" where
  "SetBattlefieldGroup p bf w = modg p (\<lambda>g. g\<lparr>m_bfGroup := bf\<rparr>) w"

section \<open>Subgroup counters and member flags\<close>

text \<open>\<^verbatim>\<open>++m_subGroupsCounts[subgroup]\<close>: an index past the eight counters writes outside the array.\<close>

definition count_change :: "u8 \<Rightarrow> (u8 \<Rightarrow> u8) \<Rightarrow> gptr \<Rightarrow> gworld \<Rightarrow> gworld" where
  "count_change sub f p w =
     with_group p w (\<lambda>g.
       case m_subGroupsCounts g of
         None \<Rightarrow> w
       | Some c \<Rightarrow>
           (if unat sub < length c
            then modg p (\<lambda>g. g\<lparr>m_subGroupsCounts := Some (c[unat sub := f (c ! unat sub)])\<rparr>) w
            else gfault OutOfBounds w))"

definition SubGroupCounterIncrease :: "gptr \<Rightarrow> u8 \<Rightarrow> gworld \<Rightarrow> gworld" where
  "SubGroupCounterIncrease p subgroup w = count_change subgroup (\<lambda>n. n + 1) p w"

definition SubGroupCounterDecrease :: "gptr \<Rightarrow> u8 \<Rightarrow> gworld \<Rightarrow> gworld" where
  "SubGroupCounterDecrease p subgroup w = count_change subgroup (\<lambda>n. n - 1) p w"

definition initRaidSubGroupsCounter :: "gptr \<Rightarrow> gworld \<Rightarrow> gworld" where
  "initRaidSubGroupsCounter p w =
     with_group p w (\<lambda>g.
       fold (\<lambda>s. SubGroupCounterIncrease p (ms_group s)) (m_memberSlots g)
         (modg p (\<lambda>g. g\<lparr>m_subGroupsCounts := Some (replicate MAX_RAID_SUBGROUPS 0)\<rparr>) w))"

text \<open>Writing through the iterator that \<^verbatim>\<open>_getMemberWSlot\<close> returns: the first slot of that GUID.\<close>

fun upd_slot :: "u64 \<Rightarrow> (member_slot \<Rightarrow> member_slot) \<Rightarrow> member_slot list \<Rightarrow> member_slot list" where
  "upd_slot guid f [] = []"
| "upd_slot guid f (s # ss) = (if ms_guid s = guid then f s # ss else s # upd_slot guid f ss)"

fun erase_slot :: "u64 \<Rightarrow> member_slot list \<Rightarrow> member_slot list" where
  "erase_slot guid [] = []"
| "erase_slot guid (s # ss) = (if ms_guid s = guid then ss else s # erase_slot guid ss)"

definition mod_slot :: "gptr \<Rightarrow> u64 \<Rightarrow> (member_slot \<Rightarrow> member_slot) \<Rightarrow> gworld \<Rightarrow> gworld" where
  "mod_slot p guid f w = modg p (\<lambda>g. g\<lparr>m_memberSlots := upd_slot guid f (m_memberSlots g)\<rparr>) w"

definition ToggleFlag :: "u8 \<Rightarrow> bool \<Rightarrow> member_slot \<Rightarrow> member_slot" where
  "ToggleFlag flag apply s = s\<lparr>ms_flags := (if apply then ms_flags s OR flag else ms_flags s AND NOT flag)\<rparr>"

definition ToggleGroupMemberFlag :: "gptr \<Rightarrow> u64 \<Rightarrow> u8 \<Rightarrow> bool \<Rightarrow> gworld \<Rightarrow> gworld" where
  "ToggleGroupMemberFlag p guid flag apply w = mod_slot p guid (ToggleFlag flag apply) w"

definition RemoveUniqueGroupMemberFlag :: "gptr \<Rightarrow> u8 \<Rightarrow> gworld \<Rightarrow> gworld" where
  "RemoveUniqueGroupMemberFlag p flag w =
     modg p (\<lambda>g. g\<lparr>m_memberSlots := map (\<lambda>s. if has_flag (ms_flags s) flag then s\<lparr>ms_flags := ms_flags s AND NOT flag\<rparr> else s)
       (m_memberSlots g)\<rparr>) w"

section \<open>Packets to the members\<close>

definition member_fields :: "gworld \<Rightarrow> group \<Rightarrow> member_slot \<Rightarrow> field list" where
  "member_fields w g c =
     (let onlineState = (if online w (ms_guid c) then MEMBER_STATUS_ONLINE else MEMBER_STATUS_OFFLINE);
          onlineState = onlineState OR (if isBGGroup g \<or> isBFGroup g then MEMBER_STATUS_PVP else 0)
      in [FStr (ms_name c), FU64 (ms_guid c), FU8 onlineState, FU8 (ms_group c), FU8 (ms_flags c), FU8 (ms_roles c)])"

definition group_list_packet :: "gworld \<Rightarrow> group \<Rightarrow> member_slot \<Rightarrow> world_packet" where
  "group_list_packet w g slot =
     stream ([FU8 (m_groupType g), FU8 (ms_group slot), FU8 (ms_flags slot), FU8 (ms_roles slot)]
       @ (if isLFGGroup g
          then [FU8 (if ge_lfg_finished (gs_env w) (m_guid g) then 2 else 0), FU32 (ge_lfg_dungeon (gs_env w) (m_guid g))]
          else [])
       @ [FU64 (m_guid g), FU32 (m_counter g), FU32 (of_nat (GetMembersCount g) - 1)]
       @ concat (map (member_fields w g) (filter (\<lambda>c. ms_guid c \<noteq> ms_guid slot) (m_memberSlots g)))
       @ [FU64 (m_leaderGuid g)]
       @ (if GetMembersCount g \<noteq> 1
          then [FU8 (ucast (m_lootMethod g)), FU64 (m_looterGuid g), FU8 (ucast (m_lootThreshold g)),
                FU8 (m_dungeonDifficulty g), FU8 (m_raidDifficulty g), FU8 0]
          else []))
     (WorldPacket SMSG_GROUP_LIST)"

definition SendUpdateToPlayer :: "gptr \<Rightarrow> u64 \<Rightarrow> member_slot option \<Rightarrow> gworld \<Rightarrow> gworld" where
  "SendUpdateToPlayer p playerGUID slot w =
     with_group p w (\<lambda>g.
       if find_player w playerGUID = None \<or> GetGroup w playerGUID \<noteq> Some p then w
       else case (case slot of None \<Rightarrow> GetMemberSlot g playerGUID | Some s \<Rightarrow> Some s) of
              None \<Rightarrow> w
            | Some s \<Rightarrow>
                send playerGUID (group_list_packet w g s)
                  (modg p (\<lambda>g. g\<lparr>m_counter := m_counter g + 1\<rparr>) w))"

definition SendUpdate :: "gptr \<Rightarrow> gworld \<Rightarrow> gworld" where
  "SendUpdate p w =
     with_group p w (\<lambda>g. fold (\<lambda>s. SendUpdateToPlayer p (ms_guid s) (Some s)) (m_memberSlots g) w)"

text \<open>\<^verbatim>\<open>group\<close> is \<^const>\<open>None\<close> for -1, all subgroups.\<close>

definition BroadcastPacket :: "gptr \<Rightarrow> world_packet \<Rightarrow> bool \<Rightarrow> u8 option \<Rightarrow> u64 \<Rightarrow> gworld \<Rightarrow> gworld" where
  "BroadcastPacket p packet ignorePlayersInBGRaid grp ignore w =
     with_group p w (\<lambda>g.
       fold (\<lambda>(guid, orig) w.
           if (ignore \<noteq> 0 \<and> guid = ignore) \<or> (ignorePlayersInBGRaid \<and> GetGroup w guid \<noteq> Some p) then w
           else if grp = None \<or> grp = Some (gr_subGroup (ref_get orig (gs_pl w guid))) then send guid packet w
           else w)
         (m_memberMgr g) w)"

definition BroadcastReadyCheck :: "gptr \<Rightarrow> world_packet \<Rightarrow> gworld \<Rightarrow> gworld" where
  "BroadcastReadyCheck p packet w =
     with_group p w (\<lambda>g.
       fold (\<lambda>(guid, orig) w. if IsLeader g guid \<or> IsAssistant g guid then send guid packet w else w)
         (m_memberMgr g) w)"

definition OfflineReadyCheck :: "gptr \<Rightarrow> gworld \<Rightarrow> gworld" where
  "OfflineReadyCheck p w =
     with_group p w (\<lambda>g.
       fold (\<lambda>s w.
           if find_player w (ms_guid s) = None
           then BroadcastReadyCheck p (stream [FU64 (ms_guid s), FU8 0] (WorldPacket MSG_RAID_READY_CHECK_CONFIRM)) w
           else w)
         (m_memberSlots g) w)"

definition UpdatePlayerOutOfRange :: "gptr \<Rightarrow> u64 \<Rightarrow> gworld \<Rightarrow> gworld" where
  "UpdatePlayerOutOfRange p player w =
     (if find_player w player = None then w
      else with_group p w (\<lambda>g.
        fold (\<lambda>(guid, orig) w.
            if \<not> ge_in_sight (gs_env w) guid player then act (Call guid (SendPartyMemberStats player)) w else w)
          (m_memberMgr g) w))"

definition BroadcastGroupUpdate :: "gptr \<Rightarrow> gworld \<Rightarrow> gworld" where
  "BroadcastGroupUpdate p w =
     with_group p w (\<lambda>g.
       fold (\<lambda>s w. if online w (ms_guid s) then act (Call (ms_guid s) ForceValuesUpdate) w else w)
         (m_memberSlots g) w)"

definition ResetMaxEnchantingLevel :: "gptr \<Rightarrow> gworld \<Rightarrow> gworld" where
  "ResetMaxEnchantingLevel p w =
     modg p (\<lambda>g. g\<lparr>m_maxEnchantingLevel :=
       fold (\<lambda>s m. if online w (ms_guid s) \<and> m < pg_enchanting (gs_pl w (ms_guid s))
                    then pg_enchanting (gs_pl w (ms_guid s)) else m) (m_memberSlots g) 0\<rparr>) w"

section \<open>Target icons\<close>

definition icon_packet :: "u8 \<Rightarrow> u64 \<Rightarrow> u64 \<Rightarrow> world_packet" where
  "icon_packet icon who target = stream [FU8 0, FU64 who, FU8 icon, FU64 target] (WorldPacket MSG_RAID_TARGET_UPDATE)"

text \<open>The part of \<^verbatim>\<open>SetTargetIcon\<close> after the loop, which is all that its recursive call runs.\<close>

definition put_icon :: "gptr \<Rightarrow> u8 \<Rightarrow> u64 \<Rightarrow> u64 \<Rightarrow> gworld \<Rightarrow> gworld" where
  "put_icon p icon who target w =
     BroadcastPacket p (icon_packet icon who target) True None 0
       (modg p (\<lambda>g. g\<lparr>m_targetIcons := (m_targetIcons g)[unat icon := target]\<rparr>) w)"

definition clean_icon :: "gptr \<Rightarrow> u64 \<Rightarrow> nat \<Rightarrow> gworld \<Rightarrow> gworld" where
  "clean_icon p target i w =
     with_group p w (\<lambda>g. if m_targetIcons g ! i = target then put_icon p (of_nat i) 0 0 w else w)"

definition SetTargetIcon :: "gptr \<Rightarrow> u8 \<Rightarrow> u64 \<Rightarrow> u64 \<Rightarrow> gworld \<Rightarrow> gworld" where
  "SetTargetIcon p icon who target w =
     (if unat icon \<ge> TARGETICONCOUNT then w
      else put_icon p icon who target
        (if target \<noteq> 0 then fold (clean_icon p target) [0..<TARGETICONCOUNT] w else w))"

definition SendTargetIconList :: "gptr \<Rightarrow> u64 \<Rightarrow> gworld \<Rightarrow> gworld" where
  "SendTargetIconList p session w =
     with_group p w (\<lambda>g.
       send session (stream (FU8 1 # concat (map (\<lambda>i. if m_targetIcons g ! i = 0 then []
           else [FU8 (of_nat i), FU64 (m_targetIcons g ! i)]) [0..<TARGETICONCOUNT]))
         (WorldPacket MSG_RAID_TARGET_UPDATE)) w)"

section \<open>Invitations\<close>

definition RemoveInvite :: "gptr \<Rightarrow> u64 \<Rightarrow> gworld \<Rightarrow> gworld" where
  "RemoveInvite p player w =
     SetGroupInvite player None (modg p (\<lambda>g. g\<lparr>m_invitees := set_erase player (m_invitees g)\<rparr>) w)"

definition RemoveAllInvites :: "gptr \<Rightarrow> gworld \<Rightarrow> gworld" where
  "RemoveAllInvites p w =
     with_group p w (\<lambda>g.
       modg p (\<lambda>g. g\<lparr>m_invitees := []\<rparr>) (fold (\<lambda>i. SetGroupInvite i None) (m_invitees g) w))"

text \<open>The group an invited player would leave: a battleground raid does not count.\<close>

definition invite_group :: "gworld \<Rightarrow> u64 \<Rightarrow> gptr option" where
  "invite_group w player =
     (case GetGroup w player of
        None \<Rightarrow> None
      | Some q \<Rightarrow>
          (case gs_groups w q of
             None \<Rightarrow> Some q
           | Some g \<Rightarrow> if isBGGroup g \<or> isBFGroup g then GetOriginalGroup w player else Some q))"

definition AddInvite :: "gptr \<Rightarrow> u64 \<Rightarrow> gworld \<Rightarrow> bool \<times> gworld" where
  "AddInvite p player w =
     (if pg_groupInvite (gs_pl w player) \<noteq> None then (False, w)
      else if invite_group w player \<noteq> None then (False, w)
      else
        let w1 = RemoveInvite p player w;
            w2 = modg p (\<lambda>g. g\<lparr>m_invitees := set_ins player (m_invitees g)\<rparr>) w1;
            w3 = SetGroupInvite player (Some p) w2
        in (True, act (OnGroupInviteMember p player) w3))"

definition AddLeaderInvite :: "gptr \<Rightarrow> player \<Rightarrow> gworld \<Rightarrow> bool \<times> gworld" where
  "AddLeaderInvite p player w =
     (case AddInvite p (pl_guid player) w of
        (False, w1) \<Rightarrow> (False, w1)
      | (True, w1) \<Rightarrow> (True, modg p (\<lambda>g. g\<lparr>m_leaderGuid := pl_guid player, m_leaderName := pl_name player\<rparr>) w1))"

definition GetInvited :: "group \<Rightarrow> u64 \<Rightarrow> u64 option" where
  "GetInvited g guid = find (\<lambda>i. i = guid) (m_invitees g)"

text \<open>Invited players are loaded, so their names are those of the player table.\<close>

definition GetInvited_name :: "gworld \<Rightarrow> group \<Rightarrow> string \<Rightarrow> u64 option" where
  "GetInvited_name w g name =
     find (\<lambda>i. \<exists>pl \<in> set (w_players (gs_world w)). pl_guid pl = i \<and> pl_name pl = name) (m_invitees g)"

section \<open>Instance binds\<close>

definition GetDownscaledMapDifficultyData :: "(u32 \<Rightarrow> u8 \<Rightarrow> bool) \<Rightarrow> u32 \<Rightarrow> u32 \<Rightarrow> u32" where
  "GetDownscaledMapDifficultyData has_data mapId difficulty =
     (let has = (\<lambda>d::u32. d \<le> 0xFF \<and> has_data mapId (ucast d)) in
      if has difficulty then difficulty
      else let tmp = (if difficulty > ucast RAID_DIFFICULTY_25MAN_NORMAL then difficulty - 2 else difficulty - 1)
           in if has tmp then tmp else tmp - 1)"

definition GetBoundInstance :: "gworld \<Rightarrow> group \<Rightarrow> u32 \<Rightarrow> cpp_error + instance_bind option" where
  "GetBoundInstance w g mapid =
     (case ge_map_entry (gs_env w) mapid of
        None \<Rightarrow> Inr None
      | Some me \<Rightarrow>
          (let d = GetDownscaledMapDifficultyData (ge_map_difficulty (gs_env w)) mapid (ucast (GetDifficulty g (me_isRaid me)))
           in if unat d < length (m_boundInstances g) then Inr (map_find (m_boundInstances g ! unat d) mapid)
              else Inl OutOfBounds))"

definition set_binds :: "gptr \<Rightarrow> nat \<Rightarrow> (bound_instances \<Rightarrow> bound_instances) \<Rightarrow> gworld \<Rightarrow> gworld" where
  "set_binds p d f w = modg p (\<lambda>g. g\<lparr>m_boundInstances := (m_boundInstances g)[d := f (m_boundInstances g ! d)]\<rparr>) w"

definition bind_new :: instance_bind where
  "bind_new = \<lparr>ib_save = None, ib_perm = False\<rparr>"

definition BindToInstance :: "gptr \<Rightarrow> instance_save option \<Rightarrow> bool \<Rightarrow> bool \<Rightarrow> gworld \<Rightarrow> gworld" where
  "BindToInstance p save permanent load w =
     with_group p w (\<lambda>g.
       case save of
         None \<Rightarrow> w
       | Some s \<Rightarrow>
           (if isBGGroup g \<or> isBFGroup g then w
            else if unat (is_difficulty s) \<ge> length (m_boundInstances g) then gfault OutOfBounds w
            else
              let d = unat (is_difficulty s);
                  bind = map_at bind_new (m_boundInstances g ! d) (is_map s);
                  w1 = (if \<not> load \<and> (ib_save bind = None \<or> permanent \<noteq> ib_perm bind \<or> Some s \<noteq> ib_save bind)
                        then sql (REP_GROUP_INSTANCE (m_dbStoreId g) (is_instance s) permanent) w else w);
                  w2 = (if ib_save bind \<noteq> Some s
                        then act (SaveAddGroup (is_instance s) p)
                          (case ib_save bind of None \<Rightarrow> w1 | Some old \<Rightarrow> act (SaveRemoveGroup (is_instance old) p) w1)
                        else w1)
              in set_binds p d (map_set (is_map s) \<lparr>ib_save = Some s, ib_perm = permanent\<rparr>) w2))"

definition UnbindInstance :: "gptr \<Rightarrow> u32 \<Rightarrow> u8 \<Rightarrow> bool \<Rightarrow> gworld \<Rightarrow> gworld" where
  "UnbindInstance p mapid difficulty unload w =
     with_group p w (\<lambda>g.
       if unat difficulty \<ge> length (m_boundInstances g) then gfault OutOfBounds w
       else case map_find (m_boundInstances g ! unat difficulty) mapid of
              None \<Rightarrow> w
            | Some b \<Rightarrow>
                (case ib_save b of
                   None \<Rightarrow> gfault NullDeref w
                 | Some s \<Rightarrow>
                     let w1 = (if \<not> unload then sql (DEL_GROUP_INSTANCE_BY_GUID (m_dbStoreId g) (is_instance s)) w else w)
                     in set_binds p (unat difficulty) (map_erase mapid) (act (SaveRemoveGroup (is_instance s) p) w1)))"

text \<open>\<^verbatim>\<open>Player::UnbindInstance\<close> on an iterator, and \<^verbatim>\<open>Player::ConvertInstancesToGroup\<close>.\<close>

definition Player_UnbindInstance :: "u64 \<Rightarrow> nat \<Rightarrow> u32 \<Rightarrow> instance_bind \<Rightarrow> gworld \<Rightarrow> gworld" where
  "Player_UnbindInstance player d mapid b w =
     (case ib_save b of
        None \<Rightarrow> gfault NullDeref w
      | Some s \<Rightarrow>
          let w1 = sql (DEL_CHAR_INSTANCE_BY_INSTANCE_GUID (GUID_LOPART player) (is_instance s)) w;
              w2 = (if ib_perm b then act (Call player (SendCalendarRaidLockout (is_instance s))) w1 else w1);
              w3 = act (SaveRemovePlayer (is_instance s) player) w2
          in modp player (\<lambda>pd. pd\<lparr>pg_boundInstances :=
               (pg_boundInstances pd)[d := map_erase mapid (pg_boundInstances pd ! d)]\<rparr>) w3)"

definition convert_bind :: "u64 \<Rightarrow> gptr \<Rightarrow> bool \<Rightarrow> nat \<Rightarrow> u32 \<times> instance_bind \<Rightarrow> gworld \<Rightarrow> gworld" where
  "convert_bind player p switchLeader d kb w =
     (let w1 = BindToInstance p (ib_save (snd kb)) (ib_perm (snd kb)) False w
      in if switchLeader \<and> \<not> ib_perm (snd kb) then Player_UnbindInstance player d (fst kb) (snd kb) w1 else w1)"

definition ConvertInstancesToGroup :: "u64 \<Rightarrow> gptr \<Rightarrow> bool \<Rightarrow> gworld \<Rightarrow> gworld" where
  "ConvertInstancesToGroup player p switchLeader w =
     fold (\<lambda>d w. fold (convert_bind player p switchLeader d) (pg_boundInstances (gs_pl w player) ! d) w)
       [0..<MAX_DIFFICULTY] w"

text \<open>
  \<^verbatim>\<open>ResetInstances\<close>. An erased bind restarts the iteration at \<^verbatim>\<open>begin()\<close>: \<open>skipped\<close> holds the
  binds passed over since then, latest first.
\<close>

definition reset_skips :: "gworld \<Rightarrow> u8 \<Rightarrow> InstanceResetMethod \<Rightarrow> bool \<Rightarrow> u32 \<Rightarrow> instance_save \<Rightarrow> bool" where
  "reset_skips w diff method isRaid mapid s =
     (case ge_map_entry (gs_env w) mapid of
        None \<Rightarrow> True
      | Some e \<Rightarrow>
          (me_isRaid e \<noteq> isRaid \<or> (\<not> is_canReset s \<and> method \<noteq> INSTANCE_RESET_GROUP_DISBAND))
          \<or> (method = INSTANCE_RESET_ALL \<and> (me_isRaid e \<or> diff = DUNGEON_DIFFICULTY_HEROIC)))"

definition reset_empty :: "instance_save \<Rightarrow> InstanceResetMethod \<Rightarrow> gworld \<Rightarrow> bool \<times> gworld" where
  "reset_empty s method w =
     (if ge_map_loaded (gs_env w) (is_map s) (is_instance s)
         \<and> \<not> (method = INSTANCE_RESET_GROUP_DISBAND \<and> \<not> is_canReset s)
      then let w1 = (if is_canReset s then act (MapReset (is_map s) (is_instance s) method) w else w)
           in (\<not> ge_map_have_players (gs_env w1) (gs_log w1) (is_map s) (is_instance s), w1)
      else (True, w))"

definition reset_message :: "u64 option \<Rightarrow> bool \<Rightarrow> instance_save \<Rightarrow> gworld \<Rightarrow> gworld" where
  "reset_message SendMsgTo isEmpty s w =
     (case SendMsgTo of
        None \<Rightarrow> w
      | Some pl \<Rightarrow> act (Call pl (if isEmpty then SendResetInstanceSuccess (is_map s) else SendResetInstanceFailed (is_map s))) w)"

function reset_loop :: "gptr \<Rightarrow> u8 \<Rightarrow> InstanceResetMethod \<Rightarrow> bool \<Rightarrow> u64 option \<Rightarrow> bound_instances
    \<Rightarrow> bound_instances \<Rightarrow> gworld \<Rightarrow> gworld" where
  "reset_loop p diff method isRaid msg skipped [] w = w"
| "reset_loop p diff method isRaid msg skipped ((mapid, b) # todo) w =
     (case ib_save b of
        None \<Rightarrow> gfault NullDeref w
      | Some s \<Rightarrow>
          (if reset_skips w diff method isRaid mapid s
           then reset_loop p diff method isRaid msg ((mapid, b) # skipped) todo w
           else
             let (isEmpty, w1) = reset_empty s method w;
                 w2 = reset_message msg isEmpty s w1
             in if isEmpty \<or> method = INSTANCE_RESET_GROUP_DISBAND \<or> method = INSTANCE_RESET_CHANGE_DIFFICULTY
                then let w3 = (if is_canReset s then act (SaveDeleteFromDB (is_instance s)) w2
                               else sql (DEL_GROUP_INSTANCE_BY_INSTANCE (is_instance s)) w2);
                         w4 = set_binds p (unat diff) (map_erase mapid) w3
                     in reset_loop p diff method isRaid msg [] (rev skipped @ todo)
                          (act (SaveRemoveGroup (is_instance s) p) w4)
                else reset_loop p diff method isRaid msg ((mapid, b) # skipped) todo w2))"
  by pat_completeness auto
termination
  by (relation "measures [\<lambda>(p, diff, method, isRaid, msg, skipped, todo, w). length skipped + length todo,
        \<lambda>(p, diff, method, isRaid, msg, skipped, todo, w). length todo]") auto

definition Group_ResetInstances :: "gptr \<Rightarrow> InstanceResetMethod \<Rightarrow> bool \<Rightarrow> u64 option \<Rightarrow> gworld \<Rightarrow> gworld" where
  "Group_ResetInstances p method isRaid SendMsgTo w =
     with_group p w (\<lambda>g.
       if isBGGroup g \<or> isBFGroup g then w
       else
         let diff = GetDifficulty g isRaid
         in if unat diff \<ge> length (m_boundInstances g) then gfault OutOfBounds w
            else reset_loop p diff method isRaid SendMsgTo [] (m_boundInstances g ! unat diff) w)"

definition homebindIfInstance :: "u64 \<Rightarrow> gworld \<Rightarrow> gworld" where
  "homebindIfInstance player w =
     (if pg_gameMaster (gs_pl w player) then w
      else case ge_map_entry (gs_env w) (pg_mapId (gs_pl w player)) of
             None \<Rightarrow> gfault NullDeref w
           | Some e \<Rightarrow> if me_isDungeon e then modp player (\<lambda>d. d\<lparr>pg_InstanceValid := False\<rparr>) w else w)"

section \<open>Difficulty\<close>

definition SendDungeonDifficulty :: "u64 \<Rightarrow> bool \<Rightarrow> gworld \<Rightarrow> gworld" where
  "SendDungeonDifficulty player IsInGroup w =
     send player (stream [FU32 (ucast (pg_dungeonDifficulty (gs_pl w player))), FU32 1, FU32 (if IsInGroup then 1 else 0)]
       (WorldPacket MSG_SET_DUNGEON_DIFFICULTY)) w"

definition SendRaidDifficulty :: "u64 \<Rightarrow> bool \<Rightarrow> gworld \<Rightarrow> gworld" where
  "SendRaidDifficulty player IsInGroup w =
     send player (stream [FU32 (ucast (pg_raidDifficulty (gs_pl w player))), FU32 1, FU32 (if IsInGroup then 1 else 0)]
       (WorldPacket MSG_SET_RAID_DIFFICULTY)) w"

definition player_dungeon_difficulty :: "u64 \<Rightarrow> u8 \<Rightarrow> gworld \<Rightarrow> gworld" where
  "player_dungeon_difficulty player d w =
     SendDungeonDifficulty player True (modp player (\<lambda>pd. pd\<lparr>pg_dungeonDifficulty := d\<rparr>) w)"

definition player_raid_difficulty :: "u64 \<Rightarrow> u8 \<Rightarrow> gworld \<Rightarrow> gworld" where
  "player_raid_difficulty player d w =
     SendRaidDifficulty player True (modp player (\<lambda>pd. pd\<lparr>pg_raidDifficulty := d\<rparr>) w)"

definition SetDungeonDifficulty :: "gptr \<Rightarrow> u8 \<Rightarrow> gworld \<Rightarrow> gworld" where
  "SetDungeonDifficulty p d w =
     with_group p w (\<lambda>g.
       let w1 = modg p (\<lambda>g. g\<lparr>m_dungeonDifficulty := d\<rparr>) w;
           w2 = (if \<not> isBGGroup g \<and> \<not> isBFGroup g then sql (UPD_GROUP_DIFFICULTY d (m_dbStoreId g)) w1 else w1)
       in fold (\<lambda>(guid, orig). player_dungeon_difficulty guid d) (m_memberMgr g) w2)"

definition SetRaidDifficulty :: "gptr \<Rightarrow> u8 \<Rightarrow> gworld \<Rightarrow> gworld" where
  "SetRaidDifficulty p d w =
     with_group p w (\<lambda>g.
       let w1 = modg p (\<lambda>g. g\<lparr>m_raidDifficulty := d\<rparr>) w;
           w2 = (if \<not> isBGGroup g \<and> \<not> isBFGroup g then sql (UPD_GROUP_RAID_DIFFICULTY d (m_dbStoreId g)) w1 else w1)
       in fold (\<lambda>(guid, orig). player_raid_difficulty guid d) (m_memberMgr g) w2)"

section \<open>Round robin looter\<close>

definition near_member :: "gworld \<Rightarrow> u64 \<Rightarrow> member_slot \<Rightarrow> bool" where
  "near_member w obj s \<longleftrightarrow> online w (ms_guid s) \<and> ge_in_range (gs_env w) (ms_guid s) obj"

text \<open>The slots up to \<^verbatim>\<open>guid_itr\<close> and those from it on.\<close>

definition split_at_looter :: "group \<Rightarrow> member_slot list \<times> member_slot list" where
  "split_at_looter g =
     (takeWhile (\<lambda>s. ms_guid s \<noteq> m_looterGuid g) (m_memberSlots g),
      dropWhile (\<lambda>s. ms_guid s \<noteq> m_looterGuid g) (m_memberSlots g))"

definition next_looter :: "gworld \<Rightarrow> group \<Rightarrow> u64 \<Rightarrow> member_slot option" where
  "next_looter w g obj =
     (case split_at_looter g of
        (before, []) \<Rightarrow> find (near_member w obj) before
      | (before, cur # after) \<Rightarrow>
          (case find (near_member w obj) after of
             Some s \<Rightarrow> Some s
           | None \<Rightarrow> find (near_member w obj) (before @ [cur])))"

definition UpdateLooterGuid :: "gptr \<Rightarrow> u64 \<Rightarrow> bool \<Rightarrow> gworld \<Rightarrow> gworld" where
  "UpdateLooterGuid p obj ifneed w =
     with_group p w (\<lambda>g.
       if m_lootMethod g = MASTER_LOOT \<or> m_lootMethod g = FREE_FOR_ALL then w
       else if ifneed \<and> (\<exists>s. GetMemberSlot g (m_looterGuid g) = Some s \<and> near_member w obj s) then w
       else case next_looter w g obj of
              Some s \<Rightarrow> (if m_looterGuid g \<noteq> ms_guid s then SendUpdate p (SetLooterGuid p (ms_guid s) w) else w)
            | None \<Rightarrow> SendUpdate p (SetLooterGuid p 0 w))"

section \<open>Destructor\<close>

definition delete_group :: "gptr \<Rightarrow> gworld \<Rightarrow> gworld" where
  "delete_group p w =
     with_group p w (\<lambda>g.
       let w1 = (case m_bgGroup g of None \<Rightarrow> w | Some bg \<Rightarrow> act (BgRaidCleared bg p) w);
           w2 = fold (\<lambda>(k, b) w. case ib_save b of None \<Rightarrow> gfault NullDeref w
                     | Some s \<Rightarrow> act (SaveRemoveGroup (is_instance s) p) w)
                  (concat (m_boundInstances g)) w1;
           w3 = clearReferences (m_memberMgr g) w2
       in w3\<lparr>gs_groups := (gs_groups w3)(p := None)\<rparr>)"

end
