(* ===== verification/Group_Loot.thy ===== *)
theory Group_Loot
  imports Group_Core
begin

text \<open>
  Loot rolls, the part \<^verbatim>\<open>LOOT SYSTEM\<close> of \<^verbatim>\<open>src/src/server/game/Groups/Group.cpp\<close>: starting the rolls of
  a corpse or chest (\<^verbatim>\<open>GroupLoot\<close>, \<^verbatim>\<open>NeedBeforeGreed\<close>, \<^verbatim>\<open>MasterLoot\<close>), voting (\<^verbatim>\<open>CountRollVote\<close>) and
  awarding the item (\<^verbatim>\<open>CountTheRoll\<close>, \<^verbatim>\<open>EndRoll\<close>). A roll refers to its loot until the loot is
  destroyed; \<^verbatim>\<open>isValid()\<close> is that the reference is set.
\<close>

section \<open>Constants\<close>

definition ROLL_PASS :: u8 where "ROLL_PASS = 0"
definition ROLL_NEED :: u8 where "ROLL_NEED = 1"
definition ROLL_GREED :: u8 where "ROLL_GREED = 2"
definition ROLL_DISENCHANT :: u8 where "ROLL_DISENCHANT = 3"
definition MAX_ROLL_TYPE :: u8 where "MAX_ROLL_TYPE = 4"

lemmas roll_types = ROLL_PASS_def ROLL_NEED_def ROLL_GREED_def ROLL_DISENCHANT_def MAX_ROLL_TYPE_def

definition ROLL_FLAG_TYPE_NEED :: u8 where "ROLL_FLAG_TYPE_NEED = 0x02"
definition ROLL_FLAG_TYPE_DISENCHANT :: u8 where "ROLL_FLAG_TYPE_DISENCHANT = 0x08"
definition ROLL_ALL_TYPE_NO_DISENCHANT :: u8 where "ROLL_ALL_TYPE_NO_DISENCHANT = 0x07"
definition ITEM_FLAGS_EXTRA_NEED_ROLL_DISABLED :: u32 where "ITEM_FLAGS_EXTRA_NEED_ROLL_DISABLED = 0x00000100"
definition EQUIP_ERR_OK :: u32 where "EQUIP_ERR_OK = 0"

definition SMSG_LOOT_ALL_PASSED :: u16 where "SMSG_LOOT_ALL_PASSED = 0x29E"
definition SMSG_LOOT_ROLL_WON :: u16 where "SMSG_LOOT_ROLL_WON = 0x29F"
definition SMSG_LOOT_START_ROLL :: u16 where "SMSG_LOOT_START_ROLL = 0x2A1"
definition SMSG_LOOT_ROLL :: u16 where "SMSG_LOOT_ROLL = 0x2A2"
definition SMSG_LOOT_MASTER_LIST :: u16 where "SMSG_LOOT_MASTER_LIST = 0x2A4"
definition SMSG_LOOT_LIST :: u16 where "SMSG_LOOT_LIST = 0x3F9"

text \<open>The object being looted; \<open>lo_timed\<close> holds for creatures and game objects.\<close>

record looted_object =
  lo_guid :: u64
  lo_mapId :: u32
  lo_timed :: bool

fun vote_num :: "RollVote \<Rightarrow> u8" where
  "vote_num PASS = 0"
| "vote_num NEED = 1"
| "vote_num GREED = 2"
| "vote_num DISENCHANT = 3"
| "vote_num NOT_EMITED_YET = 4"
| "vote_num NOT_VALID = 5"

definition Roll_new :: "u64 \<Rightarrow> loot_item \<Rightarrow> roll" where
  "Roll_new guid li = \<lparr>r_itemGUID = guid, r_itemid = li_itemid li, r_itemRandomPropId = li_randomPropertyId li,
     r_itemRandomSuffix = li_randomSuffix li, r_itemCount = li_count li, r_playerVote = [],
     r_totalPlayersRolling = 0, r_totalNeed = 0, r_totalGreed = 0, r_totalPass = 0, r_itemSlot = 0,
     r_rollVoteMask = ROLL_ALL_TYPE_NO_DISENCHANT, r_loot = None\<rparr>"

definition roll_isValid :: "roll \<Rightarrow> bool" where
  "roll_isValid r \<longleftrightarrow> r_loot r \<noteq> None"

section \<open>Packets\<close>

text \<open>Sending to the voters in GUID order whose vote passes a test.\<close>

definition send_voters :: "(RollVote \<Rightarrow> bool) \<Rightarrow> roll \<Rightarrow> world_packet \<Rightarrow> gworld \<Rightarrow> gworld" where
  "send_voters P r pkt w =
     fold (\<lambda>(guid, v) w. if online w guid \<and> P v then send guid pkt w else w) (r_playerVote r) w"

definition start_roll_packet :: "u32 \<Rightarrow> u32 \<Rightarrow> roll \<Rightarrow> u8 \<Rightarrow> world_packet" where
  "start_roll_packet CountDown mapid r voteMask =
     stream [FU64 (r_itemGUID r), FU32 mapid, FU32 (ucast (r_itemSlot r)), FU32 (r_itemid r), FU32 (r_itemRandomSuffix r),
       FU32 (of_int (r_itemRandomPropId r)), FU32 (ucast (r_itemCount r)), FU32 CountDown, FU8 voteMask]
     (WorldPacket SMSG_LOOT_START_ROLL)"

definition SendLootStartRoll :: "u32 \<Rightarrow> u32 \<Rightarrow> roll \<Rightarrow> gworld \<Rightarrow> gworld" where
  "SendLootStartRoll CountDown mapid r w =
     send_voters (\<lambda>v. v = NOT_EMITED_YET) r (start_roll_packet CountDown mapid r (r_rollVoteMask r)) w"

definition SendLootStartRollToPlayer :: "u32 \<Rightarrow> u32 \<Rightarrow> u64 \<Rightarrow> bool \<Rightarrow> roll \<Rightarrow> gworld \<Rightarrow> gworld" where
  "SendLootStartRollToPlayer countDown mapId p canNeed r w =
     send p (start_roll_packet countDown mapId r
       (if \<not> canNeed then r_rollVoteMask r AND NOT ROLL_FLAG_TYPE_NEED else r_rollVoteMask r)) w"

definition SendLootRoll :: "u64 \<Rightarrow> u64 \<Rightarrow> u8 \<Rightarrow> u8 \<Rightarrow> roll \<Rightarrow> gworld \<Rightarrow> gworld" where
  "SendLootRoll sourceGuid targetGuid rollNumber rollType r w =
     send_voters (\<lambda>v. v \<noteq> NOT_VALID) r
       (stream [FU64 sourceGuid, FU32 (ucast (r_itemSlot r)), FU64 targetGuid, FU32 (r_itemid r), FU32 (r_itemRandomSuffix r),
          FU32 (of_int (r_itemRandomPropId r)), FU8 rollNumber, FU8 rollType, FU8 0]
        (WorldPacket SMSG_LOOT_ROLL)) w"

definition SendLootRollWon :: "u64 \<Rightarrow> u64 \<Rightarrow> u8 \<Rightarrow> u8 \<Rightarrow> roll \<Rightarrow> gworld \<Rightarrow> gworld" where
  "SendLootRollWon sourceGuid targetGuid rollNumber rollType r w =
     send_voters (\<lambda>v. v \<noteq> NOT_VALID) r
       (stream [FU64 sourceGuid, FU32 (ucast (r_itemSlot r)), FU32 (r_itemid r), FU32 (r_itemRandomSuffix r),
          FU32 (of_int (r_itemRandomPropId r)), FU64 targetGuid, FU8 rollNumber, FU8 rollType]
        (WorldPacket SMSG_LOOT_ROLL_WON)) w"

definition SendLootAllPassed :: "roll \<Rightarrow> gworld \<Rightarrow> gworld" where
  "SendLootAllPassed r w =
     send_voters (\<lambda>v. v \<noteq> NOT_VALID) r
       (stream [FU64 (r_itemGUID r), FU32 (ucast (r_itemSlot r)), FU32 (r_itemid r), FU32 (of_int (r_itemRandomPropId r)),
          FU32 (r_itemRandomSuffix r)]
        (WorldPacket SMSG_LOOT_ALL_PASSED)) w"

definition SendLooter :: "gptr \<Rightarrow> u64 \<Rightarrow> u64 option \<Rightarrow> gworld \<Rightarrow> gworld" where
  "SendLooter p creature groupLooter w =
     BroadcastPacket p
       (stream [FU64 creature, FU8 0, (case groupLooter of Some l \<Rightarrow> FPack l | None \<Rightarrow> FU8 0)] (WorldPacket SMSG_LOOT_LIST))
       False None 0 w"

section \<open>Starting rolls\<close>

definition GenerateLowGuid_item :: "gworld \<Rightarrow> u32 \<times> gworld" where
  "GenerateLowGuid_item w =
     (let w1 = (if gs_hiItemGuid w < 0xFFFFFFFE then w else gfault AssertFailure w)
      in (gs_hiItemGuid w1, w1\<lparr>gs_hiItemGuid := gs_hiItemGuid w1 + 1\<rparr>))"

text \<open>One member of the group, when an item is rolled for; \<open>autopass\<close> is off for quest items.\<close>

definition add_candidate :: "gworld \<Rightarrow> loot_item \<Rightarrow> u64 \<Rightarrow> bool \<Rightarrow> u64 \<Rightarrow> roll \<Rightarrow> roll" where
  "add_candidate w li obj autopass member r =
     (if ge_allowed (gs_env w) li member \<and> ge_in_range (gs_env w) member obj
      then let r1 = r\<lparr>r_totalPlayersRolling := r_totalPlayersRolling r + 1\<rparr>
           in if autopass \<and> pg_passOnGroupLoot (gs_pl w member)
              then r1\<lparr>r_playerVote := map_set member PASS (r_playerVote r1), r_totalPass := r_totalPass r1 + 1\<rparr>
              else r1\<lparr>r_playerVote := map_set member NOT_EMITED_YET (r_playerVote r1)\<rparr>
      else r)"

definition roll_candidates :: "gworld \<Rightarrow> group \<Rightarrow> loot_item \<Rightarrow> u64 \<Rightarrow> bool \<Rightarrow> roll \<Rightarrow> roll" where
  "roll_candidates w g li obj autopass r = fold (\<lambda>(member, orig). add_candidate w li obj autopass member) (m_memberMgr g) r"

definition modl :: "lptr \<Rightarrow> (loot \<Rightarrow> loot) \<Rightarrow> gworld \<Rightarrow> gworld" where
  "modl l f w = (case gs_loots w l of None \<Rightarrow> gfault UseAfterFree w | Some x \<Rightarrow> w\<lparr>gs_loots := (gs_loots w)(l \<mapsto> f x)\<rparr>)"

text \<open>The loot item a slot number stands for: the quest items follow the ordinary ones.\<close>

definition slot_item :: "loot \<Rightarrow> u8 \<Rightarrow> loot_item option" where
  "slot_item x slot =
     (if unat slot \<ge> length (l_items x)
      then (if unat slot - length (l_items x) < length (l_quest_items x)
            then Some (l_quest_items x ! (unat slot - length (l_items x))) else None)
      else Some (l_items x ! unat slot))"

definition upd_slot_item :: "u8 \<Rightarrow> (loot_item \<Rightarrow> loot_item) \<Rightarrow> loot \<Rightarrow> loot" where
  "upd_slot_item slot f x =
     (if unat slot \<ge> length (l_items x)
      then x\<lparr>l_quest_items := (l_quest_items x)[unat slot - length (l_items x) := f (l_quest_items x ! (unat slot - length (l_items x)))]\<rparr>
      else x\<lparr>l_items := (l_items x)[unat slot := f (l_items x ! unat slot)]\<rparr>)"

definition mod_item :: "lptr \<Rightarrow> u8 \<Rightarrow> (loot_item \<Rightarrow> loot_item) \<Rightarrow> gworld \<Rightarrow> gworld" where
  "mod_item l slot f w =
     (case gs_loots w l of
        None \<Rightarrow> gfault UseAfterFree w
      | Some x \<Rightarrow> if slot_item x slot = None then gfault OutOfBounds w else modl l (upd_slot_item slot f) w)"

definition block_item :: "lptr \<Rightarrow> u8 \<Rightarrow> gworld \<Rightarrow> gworld" where
  "block_item l slot w = mod_item l slot (\<lambda>li. li\<lparr>li_is_blocked := True\<rparr>) w"

definition set_timer :: "looted_object \<Rightarrow> group \<Rightarrow> gworld \<Rightarrow> gworld" where
  "set_timer obj g w =
     (if lo_timed obj then act (Call (lo_guid obj) (SetGroupLootTimer 60000 (GUID_LOPART (m_guid g)))) w else w)"

definition push_roll :: "gptr \<Rightarrow> roll \<Rightarrow> gworld \<Rightarrow> gworld" where
  "push_roll p r w = modg p (\<lambda>g. g\<lparr>RollId := RollId g @ [r]\<rparr>) w"

definition send_passes :: "u64 \<Rightarrow> roll \<Rightarrow> gworld \<Rightarrow> gworld" where
  "send_passes newitemGUID r w =
     fold (\<lambda>(guid, v) w. if online w guid \<and> v = PASS then SendLootRoll newitemGUID guid 128 ROLL_PASS r w else w)
       (r_playerVote r) w"

text \<open>A fresh roll for a loot item, with everybody near who may have it.\<close>

definition open_roll :: "gptr \<Rightarrow> loot_item \<Rightarrow> looted_object \<Rightarrow> bool \<Rightarrow> gworld \<Rightarrow> u64 \<times> roll \<times> gworld" where
  "open_roll p li obj autopass w =
     (let (low, w1) = GenerateLowGuid_item w;
          newitemGUID = MAKE_NEW_GUID low 0 HIGHGUID_ITEM;
          r = (case gs_groups w p of None \<Rightarrow> Roll_new newitemGUID li
               | Some g \<Rightarrow> roll_candidates w1 g li (lo_guid obj) autopass (Roll_new newitemGUID li))
      in (newitemGUID, r, w1))"

definition disenchant_mask :: "group \<Rightarrow> item_template \<Rightarrow> roll \<Rightarrow> roll" where
  "disenchant_mask g item r =
     (if it_DisenchantID item \<noteq> 0 \<and> m_maxEnchantingLevel g \<ge> it_RequiredDisenchantSkill item
      then r\<lparr>r_rollVoteMask := r_rollVoteMask r OR ROLL_FLAG_TYPE_DISENCHANT\<rparr> else r)"

definition GroupLoot_item :: "gptr \<Rightarrow> lptr \<Rightarrow> looted_object \<Rightarrow> nat \<Rightarrow> gworld \<Rightarrow> gworld" where
  "GroupLoot_item p l obj i w =
     with_group p w (\<lambda>g.
       case gs_loots w l of
         None \<Rightarrow> gfault UseAfterFree w
       | Some x \<Rightarrow>
           (let li = l_items x ! i; itemSlot = of_nat i in
            if li_freeforall li then w
            else case ge_item (gs_env w) (li_itemid li) of
                   None \<Rightarrow> w
                 | Some item \<Rightarrow>
                     (if it_Quality item \<ge> m_lootThreshold g
                      then
                        let (newitemGUID, r, w1) = open_roll p li obj True w
                        in if r_totalPlayersRolling r > 0
                           then
                             let r1 = disenchant_mask g item (r\<lparr>r_loot := Some l, r_itemSlot := itemSlot\<rparr>);
                                 w2 = block_item l itemSlot w1;
                                 w3 = (if r_totalPass r1 \<noteq> 0 then send_passes newitemGUID r1 w2 else w2);
                                 w4 = SendLootStartRoll 60000 (lo_mapId obj) r1 w3
                             in set_timer obj g (push_roll p r1 w4)
                           else w1
                      else modl l (\<lambda>x. x\<lparr>l_items := (l_items x)[i := (l_items x ! i)\<lparr>li_is_underthreshold := True\<rparr>]\<rparr>) w)))"

definition GroupLoot_quest :: "gptr \<Rightarrow> lptr \<Rightarrow> looted_object \<Rightarrow> nat \<Rightarrow> gworld \<Rightarrow> gworld" where
  "GroupLoot_quest p l obj j w =
     with_group p w (\<lambda>g.
       case gs_loots w l of
         None \<Rightarrow> gfault UseAfterFree w
       | Some x \<Rightarrow>
           (let li = l_quest_items x ! j; itemSlot = of_nat (length (l_items x) + j) in
            if \<not> li_follow_loot_rules li then w
            else case ge_item (gs_env w) (li_itemid li) of
                   None \<Rightarrow> w
                 | Some item \<Rightarrow>
                     (let (newitemGUID, r, w1) = open_roll p li obj False w
                      in if r_totalPlayersRolling r > 0
                         then
                           let r1 = r\<lparr>r_loot := Some l, r_itemSlot := itemSlot\<rparr>;
                               w2 = (if unat itemSlot \<ge> length (l_items x) then block_item l itemSlot w1 else gfault OutOfBounds w1);
                               w3 = SendLootStartRoll 60000 (lo_mapId obj) r1 w2
                           in set_timer obj g (push_roll p r1 w3)
                         else w1)))"

definition loot_loops :: "(nat \<Rightarrow> gworld \<Rightarrow> gworld) \<Rightarrow> (nat \<Rightarrow> gworld \<Rightarrow> gworld) \<Rightarrow> lptr \<Rightarrow> gworld \<Rightarrow> gworld" where
  "loot_loops f_item f_quest l w =
     (case gs_loots w l of
        None \<Rightarrow> gfault UseAfterFree w
      | Some x \<Rightarrow> fold f_quest [0..<length (l_quest_items x)] (fold f_item [0..<length (l_items x)] w))"

definition GroupLoot :: "gptr \<Rightarrow> lptr \<Rightarrow> looted_object \<Rightarrow> gworld \<Rightarrow> gworld" where
  "GroupLoot p l obj w = loot_loops (GroupLoot_item p l obj) (GroupLoot_quest p l obj) l w"

text \<open>The announcement of \<^verbatim>\<open>NeedBeforeGreed\<close>: a pass to everybody, or the start of the roll to the voter.\<close>

definition announce_roll :: "u64 \<Rightarrow> looted_object \<Rightarrow> roll \<Rightarrow> gworld \<Rightarrow> gworld" where
  "announce_roll newitemGUID obj r w =
     fold (\<lambda>(guid, v) w.
         if \<not> online w guid then w
         else if v = PASS then SendLootRoll newitemGUID guid 128 ROLL_PASS r w
         else SendLootStartRollToPlayer 60000 (lo_mapId obj) guid
                (ge_can_roll_lfg (gs_env w) guid (r_itemid r) (lo_guid obj)) r w)
       (r_playerVote r) w"

definition need_mask :: "item_template \<Rightarrow> roll \<Rightarrow> roll" where
  "need_mask item r =
     (if has_flag (it_Flags2 item) ITEM_FLAGS_EXTRA_NEED_ROLL_DISABLED
      then r\<lparr>r_rollVoteMask := r_rollVoteMask r AND NOT ROLL_FLAG_TYPE_NEED\<rparr> else r)"

text \<open>An item without a template is dereferenced without the test that \<^verbatim>\<open>GroupLoot\<close> has.\<close>

definition NeedBeforeGreed_item :: "gptr \<Rightarrow> lptr \<Rightarrow> looted_object \<Rightarrow> nat \<Rightarrow> gworld \<Rightarrow> gworld" where
  "NeedBeforeGreed_item p l obj i w =
     with_group p w (\<lambda>g.
       case gs_loots w l of
         None \<Rightarrow> gfault UseAfterFree w
       | Some x \<Rightarrow>
           (let li = l_items x ! i; itemSlot = of_nat i in
            if li_freeforall li then w
            else case ge_item (gs_env w) (li_itemid li) of
                   None \<Rightarrow> gfault NullDeref w
                 | Some item \<Rightarrow>
                     (if it_Quality item \<ge> m_lootThreshold g
                      then
                        let (newitemGUID, r, w1) = open_roll p li obj True w
                        in if r_totalPlayersRolling r > 0
                           then
                             let r1 = need_mask item (disenchant_mask g item (r\<lparr>r_loot := Some l, r_itemSlot := itemSlot\<rparr>));
                                 w2 = announce_roll newitemGUID obj r1 (block_item l itemSlot w1)
                             in set_timer obj g (push_roll p r1 w2)
                           else w1
                      else modl l (\<lambda>x. x\<lparr>l_items := (l_items x)[i := (l_items x ! i)\<lparr>li_is_underthreshold := True\<rparr>]\<rparr>) w)))"

text \<open>
  For a quest item the template is only handed on, to \<^verbatim>\<open>CanRollForItemInLFG\<close>, whose answer is the
  environment's.
\<close>

definition NeedBeforeGreed_quest :: "gptr \<Rightarrow> lptr \<Rightarrow> looted_object \<Rightarrow> nat \<Rightarrow> gworld \<Rightarrow> gworld" where
  "NeedBeforeGreed_quest p l obj j w =
     with_group p w (\<lambda>g.
       case gs_loots w l of
         None \<Rightarrow> gfault UseAfterFree w
       | Some x \<Rightarrow>
           (let li = l_quest_items x ! j; itemSlot = of_nat (length (l_items x) + j) in
            if \<not> li_follow_loot_rules li then w
            else
              let (newitemGUID, r, w1) = open_roll p li obj False w
              in if r_totalPlayersRolling r > 0
                 then
                   let r1 = r\<lparr>r_loot := Some l, r_itemSlot := itemSlot\<rparr>;
                       w2 = (if unat itemSlot \<ge> length (l_items x) then block_item l itemSlot w1 else gfault OutOfBounds w1)
                   in set_timer obj g (push_roll p r1 (announce_roll newitemGUID obj r1 w2))
                 else w1))"

definition NeedBeforeGreed :: "gptr \<Rightarrow> lptr \<Rightarrow> looted_object \<Rightarrow> gworld \<Rightarrow> gworld" where
  "NeedBeforeGreed p l obj w = loot_loops (NeedBeforeGreed_item p l obj) (NeedBeforeGreed_quest p l obj) l w"

text \<open>The count that precedes the list is overwritten by \<^verbatim>\<open>put<uint8>(0, real_count)\<close>.\<close>

definition MasterLoot :: "gptr \<Rightarrow> looted_object \<Rightarrow> gworld \<Rightarrow> gworld" where
  "MasterLoot p obj w =
     with_group p w (\<lambda>g.
       let near = filter (\<lambda>(guid, orig). ge_in_range (gs_env w) guid (lo_guid obj)) (m_memberMgr g);
           listed = filter (\<lambda>(guid, orig). online w guid) near;
           data = stream (FU8 (of_nat (length listed)) # map (\<lambda>(guid, orig). FU64 guid) listed) (WorldPacket SMSG_LOOT_MASTER_LIST)
       in fold (\<lambda>(guid, orig). send guid data) near w)"

section \<open>Awarding an item\<close>

definition nth_erase :: "nat \<Rightarrow> 'a list \<Rightarrow> 'a list" where
  "nth_erase i xs = take i xs @ drop (Suc i) xs"

definition erase_roll :: "gptr \<Rightarrow> nat \<Rightarrow> gworld \<Rightarrow> gworld" where
  "erase_roll p i w = modg p (\<lambda>g. g\<lparr>RollId := nth_erase i (RollId g)\<rparr>) w"

text \<open>
  The loop over the votes: the running maximum, the GUID that reached it first and the vote it
  was cast with.
\<close>

definition roll_step :: "(RollVote \<Rightarrow> bool) \<Rightarrow> (RollVote \<Rightarrow> u8) \<Rightarrow> roll \<Rightarrow> u64 \<times> RollVote
    \<Rightarrow> u8 \<times> u64 \<times> RollVote \<times> gworld \<Rightarrow> u8 \<times> u64 \<times> RollVote \<times> gworld" where
  "roll_step P ty r gv st =
     (case (gv, st) of ((guid, v), (maxresul, maxguid, rollvote, w)) \<Rightarrow>
        if \<not> P v then st
        else
          let (n, w1) = urand 1 100 w;
              randomN = ucast n :: u8;
              w2 = SendLootRoll 0 guid randomN (ty v) r w1
          in if maxresul < randomN then (randomN, guid, v, w2) else (maxresul, maxguid, rollvote, w2))"

definition roll_votes :: "(RollVote \<Rightarrow> bool) \<Rightarrow> (RollVote \<Rightarrow> u8) \<Rightarrow> roll \<Rightarrow> gworld \<Rightarrow> u8 \<times> u64 \<times> RollVote \<times> gworld" where
  "roll_votes P ty r w = fold (roll_step P ty r) (r_playerVote r) (0, fst (hd (r_playerVote r)), NOT_VALID, w)"

definition loot_taken :: "lptr \<Rightarrow> u8 \<Rightarrow> gworld \<Rightarrow> gworld" where
  "loot_taken l slot w =
     (let w1 = mod_item l slot (\<lambda>li. li\<lparr>li_is_looted := True\<rparr>) w;
          w2 = act (LootNotifyItemRemoved l slot) w1
      in modl l (\<lambda>x. x\<lparr>l_unlootedCount := l_unlootedCount x - 1\<rparr>) w2)"

text \<open>\<^verbatim>\<open>StoreNewItem\<close>, or an error when the winner's bags are full: the item is then free for all.\<close>

definition give_item :: "lptr \<Rightarrow> roll \<Rightarrow> u64 \<Rightarrow> gworld \<Rightarrow> gworld" where
  "give_item l r winner w =
     (case gs_loots w l of
        None \<Rightarrow> gfault UseAfterFree w
      | Some x \<Rightarrow>
          (case slot_item x (r_itemSlot r) of
             None \<Rightarrow> gfault OutOfBounds w
           | Some li \<Rightarrow>
               (let msg = ge_can_store (gs_env w) (gs_log w) winner (r_itemid r) (li_count li)
                in if msg = EQUIP_ERR_OK
                   then act (Call winner (StoreNewItem (r_itemid r) (li_randomPropertyId li) (li_count li)))
                          (loot_taken l (r_itemSlot r) w)
                   else act (Call winner (SendEquipError msg (r_itemid r)))
                          (mod_item l (r_itemSlot r) (\<lambda>li. li\<lparr>li_is_blocked := False\<rparr>) w))))"

definition disenchant_item :: "lptr \<Rightarrow> roll \<Rightarrow> u64 \<Rightarrow> gworld \<Rightarrow> gworld" where
  "disenchant_item l r winner w =
     (let w1 = loot_taken l (r_itemSlot r) w
      in case ge_item (gs_env w) (r_itemid r) of
           None \<Rightarrow> gfault NullDeref w1
         | Some it \<Rightarrow> act (Call winner UpdateAchievementCriteria_disenchant)
                        (act (Call winner (AutoStoreLoot (it_DisenchantID it))) w1))"

definition award_need :: "lptr \<Rightarrow> roll \<Rightarrow> gworld \<Rightarrow> gworld" where
  "award_need l r w =
     (if r_playerVote r = [] then w
      else
        let (maxresul, maxguid, rollvote, w1) = roll_votes (\<lambda>v. v = NEED) (\<lambda>v. ROLL_NEED) r w;
            w2 = SendLootRollWon 0 maxguid maxresul ROLL_NEED r w1
        in if online w2 maxguid
           then give_item l r maxguid (act (Call maxguid (UpdateAchievementCriteria_rollneed (r_itemid r) maxresul)) w2)
           else w2)"

definition award_greed :: "lptr \<Rightarrow> roll \<Rightarrow> gworld \<Rightarrow> gworld" where
  "award_greed l r w =
     (if r_playerVote r = [] then w
      else
        let (maxresul, maxguid, rollvote, w1) = roll_votes (\<lambda>v. v = GREED \<or> v = DISENCHANT) vote_num r w;
            w2 = SendLootRollWon 0 maxguid maxresul (vote_num rollvote) r w1
        in if online w2 maxguid
           then
             let w3 = act (Call maxguid (UpdateAchievementCriteria_rollgreed (r_itemid r) maxresul)) w2
             in if rollvote = GREED then give_item l r maxguid w3
                else if rollvote = DISENCHANT then disenchant_item l r maxguid w3
                else w3
           else w2)"

definition all_passed :: "lptr \<Rightarrow> roll \<Rightarrow> gworld \<Rightarrow> gworld" where
  "all_passed l r w = mod_item l (r_itemSlot r) (\<lambda>li. li\<lparr>li_is_blocked := False\<rparr>) (SendLootAllPassed r w)"

definition CountTheRoll :: "gptr \<Rightarrow> nat \<Rightarrow> gworld \<Rightarrow> gworld" where
  "CountTheRoll p i w =
     with_group p w (\<lambda>g.
       let r = RollId g ! i
       in case r_loot r of
            None \<Rightarrow> erase_roll p i w
          | Some l \<Rightarrow>
              erase_roll p i
                (if r_totalNeed r > 0 then award_need l r w
                 else if r_totalGreed r > 0 then award_greed l r w
                 else all_passed l r w))"

section \<open>Voting\<close>

fun find_index :: "('a \<Rightarrow> bool) \<Rightarrow> 'a list \<Rightarrow> nat option" where
  "find_index P [] = None"
| "find_index P (x # xs) = (if P x then Some 0 else map_option Suc (find_index P xs))"

definition GetRoll :: "group \<Rightarrow> u64 \<Rightarrow> nat option" where
  "GetRoll g guid = find_index (\<lambda>r. r_itemGUID r = guid \<and> roll_isValid r) (RollId g)"

definition cast_vote :: "u64 \<Rightarrow> u8 \<Rightarrow> roll \<Rightarrow> roll" where
  "cast_vote player choice r =
     (if choice = ROLL_PASS then r\<lparr>r_totalPass := r_totalPass r + 1, r_playerVote := map_set player PASS (r_playerVote r)\<rparr>
      else if choice = ROLL_NEED then r\<lparr>r_totalNeed := r_totalNeed r + 1, r_playerVote := map_set player NEED (r_playerVote r)\<rparr>
      else if choice = ROLL_GREED then r\<lparr>r_totalGreed := r_totalGreed r + 1, r_playerVote := map_set player GREED (r_playerVote r)\<rparr>
      else if choice = ROLL_DISENCHANT then r\<lparr>r_totalGreed := r_totalGreed r + 1, r_playerVote := map_set player DISENCHANT (r_playerVote r)\<rparr>
      else r)"

definition send_vote :: "u64 \<Rightarrow> u8 \<Rightarrow> roll \<Rightarrow> gworld \<Rightarrow> gworld" where
  "send_vote player choice r w =
     (if choice = ROLL_PASS then SendLootRoll 0 player 128 ROLL_PASS r w
      else if choice = ROLL_NEED then SendLootRoll 0 player 0 0 r w
      else if choice = ROLL_GREED then SendLootRoll 0 player 128 ROLL_GREED r w
      else if choice = ROLL_DISENCHANT then SendLootRoll 0 player 128 ROLL_DISENCHANT r w
      else w)"

text \<open>The sum of the three \<^verbatim>\<open>uint8\<close> counters is an \<^verbatim>\<open>int\<close>.\<close>

definition all_voted :: "roll \<Rightarrow> bool" where
  "all_voted r \<longleftrightarrow> unat (r_totalPass r) + unat (r_totalNeed r) + unat (r_totalGreed r) \<ge> unat (r_totalPlayersRolling r)"

definition CountRollVote :: "gptr \<Rightarrow> u64 \<Rightarrow> u64 \<Rightarrow> u8 \<Rightarrow> gworld \<Rightarrow> gworld" where
  "CountRollVote p player guid choice w =
     with_group p w (\<lambda>g.
       case GetRoll g guid of
         None \<Rightarrow> w
       | Some i \<Rightarrow>
           (let r = RollId g ! i
            in if map_find (r_playerVote r) player = None then w
               else if (case r_loot r of None \<Rightarrow> False
                        | Some l \<Rightarrow> (case gs_loots w l of None \<Rightarrow> False | Some x \<Rightarrow> l_items x = [])) then w
               else
                 let w1 = send_vote player choice r w;
                     r1 = cast_vote player choice r;
                     w2 = modg p (\<lambda>g. g\<lparr>RollId := (RollId g)[i := r1]\<rparr>) w1
                 in if all_voted r1 then CountTheRoll p i w2 else w2))"

section \<open>What awarding leaves alone\<close>

text \<open>
  Sending, awarding and drawing numbers touch the recorded actions, the loot, the random source
  and the fault only: \<open>shape\<close> blanks those, so the law of such an operation is one equation.
\<close>

definition shape :: "gworld \<Rightarrow> gworld" where
  "shape w = w\<lparr>gs_log := [], gs_loots := (\<lambda>_. None), gs_draws := 0, gs_hiItemGuid := 0, gs_fault := None\<rparr>"

named_theorems shape_simps \<open>operations that keep the shape\<close>

lemma shape_sel:
  "gs_groups (shape w) = gs_groups w" "gs_pl (shape w) = gs_pl w" "gs_world (shape w) = gs_world w"
  "gs_env (shape w) = gs_env w" "gs_db (shape w) = gs_db w" "gs_next (shape w) = gs_next w"
  "NextGroupId (shape w) = NextGroupId w" "NextGroupDbStoreId (shape w) = NextGroupDbStoreId w"
  "GroupStore (shape w) = GroupStore w" "GroupDbStore (shape w) = GroupDbStore w"
  by (simp_all add: shape_def)

lemma shape_eqD:
  assumes "shape w' = shape w"
  shows "gs_groups w' = gs_groups w" "gs_pl w' = gs_pl w" "gs_world w' = gs_world w" "gs_env w' = gs_env w"
    "gs_db w' = gs_db w" "gs_next w' = gs_next w" "NextGroupId w' = NextGroupId w"
    "NextGroupDbStoreId w' = NextGroupDbStoreId w" "GroupStore w' = GroupStore w" "GroupDbStore w' = GroupDbStore w"
  by (metis assms shape_sel)+

lemma shape_act [shape_simps]: "shape (act a w) = shape w"
  by (simp add: shape_def act_def)

lemma shape_send [shape_simps]: "shape (send g p w) = shape w"
  by (simp add: send_def shape_act)

lemma shape_gfault [shape_simps]: "shape (gfault e w) = shape w"
  by (simp add: shape_def gfault_def)

lemma shape_modl [shape_simps]: "shape (modl l f w) = shape w"
  by (simp add: modl_def shape_gfault split: option.split) (simp add: shape_def)

lemma shape_mod_item [shape_simps]: "shape (mod_item l slot f w) = shape w"
  by (simp add: mod_item_def shape_simps split: option.split)

lemma shape_fold: "(\<And>x w. x \<in> set xs \<Longrightarrow> shape (f x w) = shape w) \<Longrightarrow> shape (fold f xs w) = shape w"
  by (induction xs arbitrary: w) auto

lemma shape_send_voters [shape_simps]: "shape (send_voters P r pkt w) = shape w"
  unfolding send_voters_def by (rule shape_fold) (auto simp: shape_simps)

lemma shape_rolls [shape_simps]:
  "shape (SendLootRoll a b c d r w) = shape w" "shape (SendLootRollWon a b c d r w) = shape w"
  "shape (SendLootAllPassed r w) = shape w" "shape (SendLootStartRoll n m r w) = shape w"
  "shape (SendLootStartRollToPlayer n m q e r w) = shape w" "shape (loot_taken l s w) = shape w"
  by (simp_all add: SendLootRoll_def SendLootRollWon_def SendLootAllPassed_def SendLootStartRoll_def
      SendLootStartRollToPlayer_def loot_taken_def Let_def shape_simps)

lemma shape_urand: "shape (snd (urand a b w)) = shape w"
  by (simp add: urand_def shape_def)

lemma shape_roll_step: "shape (snd (snd (snd (roll_step P ty r gv (a, b, c, w))))) = shape w"
  using shape_urand [of 1 100 w] by (auto simp: roll_step_def Let_def shape_simps split: prod.splits)

lemma shape_roll_votes:
  assumes "roll_votes P ty r w = (a, b, c, w')"
  shows "shape w' = shape w"
proof -
  have "shape (snd (snd (snd (fold (roll_step P ty r) vs st)))) = shape (snd (snd (snd st)))" for vs st
  proof (induction vs arbitrary: st)
    case (Cons v vs)
    obtain a b c w where "st = (a, b, c, w)" by (cases st) auto
    then show ?case using Cons shape_roll_step [of P ty r v a b c w] by simp
  qed simp
  from this [of "r_playerVote r" "(0, fst (hd (r_playerVote r)), NOT_VALID, w)"] show ?thesis
    using assms by (simp add: roll_votes_def)
qed

lemma shape_give [shape_simps]:
  "shape (give_item l r g w) = shape w" "shape (disenchant_item l r g w) = shape w" "shape (all_passed l r w) = shape w"
  by (simp_all add: give_item_def disenchant_item_def all_passed_def Let_def shape_simps split: option.split)

lemma shape_award [shape_simps]: "shape (award_need l r w) = shape w" "shape (award_greed l r w) = shape w"
  by (auto simp: award_need_def award_greed_def Let_def shape_simps split: prod.splits dest: shape_roll_votes)

text \<open>\<^verbatim>\<open>CountTheRoll\<close> takes exactly its roll off the list.\<close>

lemma CountTheRoll_group:
  assumes "gs_groups w p = Some g"
  shows "gs_groups (CountTheRoll p i w) = (gs_groups w)(p \<mapsto> g\<lparr>RollId := nth_erase i (RollId g)\<rparr>)"
proof -
  have "gs_groups (erase_roll p i w') = (gs_groups w)(p \<mapsto> g\<lparr>RollId := nth_erase i (RollId g)\<rparr>)"
    if "shape w' = shape w" for w'
    using shape_eqD(1) [OF that] assms by (simp add: erase_roll_def modg_def with_group_def)
  then show ?thesis
    using assms by (simp add: CountTheRoll_def with_group_def Let_def shape_simps split: option.split)
qed

lemma length_nth_erase: "i < length xs \<Longrightarrow> length (nth_erase i xs) < length xs"
  by (simp add: nth_erase_def)

lemma find_index_Some: "find_index P xs = Some i \<Longrightarrow> i < length xs \<and> P (xs ! i) \<and> (\<forall>j < i. \<not> P (xs ! j))"
proof (induction xs arbitrary: i)
  case (Cons x xs)
  show ?case
  proof (cases "P x")
    case False
    then obtain k where "find_index P xs = Some k" "i = Suc k" using Cons.prems by auto
    with Cons.IH [of k] False show ?thesis by (auto simp: less_Suc_eq_0_disj)
  qed (use Cons.prems in auto)
qed simp

lemma find_index_None: "find_index P xs = None \<longleftrightarrow> (\<forall>x \<in> set xs. \<not> P x)"
  by (induction xs) auto

section \<open>Ending the rolls of a loot\<close>

text \<open>
  \<^verbatim>\<open>EndRoll\<close> restarts its search at \<^verbatim>\<open>begin()\<close> after every roll it counts; the rolls before the
  one found belong to other loot, so the next round finds the first remaining one.
\<close>

function EndRoll :: "gptr \<Rightarrow> lptr \<Rightarrow> gworld \<Rightarrow> gworld" where
  "EndRoll p l w =
     (case gs_groups w p of
        None \<Rightarrow> gfault UseAfterFree w
      | Some g \<Rightarrow>
          (case find_index (\<lambda>r. r_loot r = Some l) (RollId g) of
             None \<Rightarrow> w
           | Some i \<Rightarrow> EndRoll p l (CountTheRoll p i w)))"
  by pat_completeness auto
termination
proof (relation "measure (\<lambda>(p, l, w). case gs_groups w p of None \<Rightarrow> 0 | Some g \<Rightarrow> length (RollId g))")
  fix p l i and w :: gworld and g :: group
  assume "gs_groups w p = Some g" "find_index (\<lambda>r. r_loot r = Some l) (RollId g) = Some i"
  then show "((p, l, CountTheRoll p i w), p, l, w)
      \<in> measure (\<lambda>(p, l, w). case gs_groups w p of None \<Rightarrow> 0 | Some g \<Rightarrow> length (RollId g))"
    using find_index_Some [of _ "RollId g" i] by (auto simp: CountTheRoll_group length_nth_erase)
qed simp

declare EndRoll.simps [simp del]

end
