(* ===== verification/Group_Members.thy ===== *)
theory Group_Members
  imports Group_Loot
begin

text \<open>
  Membership of \<^verbatim>\<open>src/src/server/game/Groups/Group.cpp\<close>: \<^verbatim>\<open>Create\<close>, \<^verbatim>\<open>AddMember\<close>, \<^verbatim>\<open>RemoveMember\<close>,
  \<^verbatim>\<open>ChangeLeader\<close>, \<^verbatim>\<open>Disband\<close>, the conversions, subgroups and member flags, and the methods of
  \<^verbatim>\<open>Player.cpp\<close> that call them. A long method is split into its blocks, in the order of the source.
\<close>

section \<open>\<^verbatim>\<open>AddMember\<close>\<close>

text \<open>The first subgroup with room; \<^const>\<open>None\<close> when a raid is full.\<close>

definition first_free_subgroup :: "group \<Rightarrow> u8 option" where
  "first_free_subgroup g =
     (case m_subGroupsCounts g of
        None \<Rightarrow> Some 0
      | Some c \<Rightarrow> map_option of_nat (find (\<lambda>i. unat (c ! i) < MAXGROUPSIZE) [0..<MAX_RAID_SUBGROUPS]))"

definition new_slot :: "player \<Rightarrow> u8 \<Rightarrow> member_slot" where
  "new_slot pl sub = \<lparr>ms_guid = pl_guid pl, ms_name = pl_name pl, ms_group = sub, ms_flags = 0, ms_roles = 0\<rparr>"

definition add_slot :: "gptr \<Rightarrow> player \<Rightarrow> u8 \<Rightarrow> gworld \<Rightarrow> gworld" where
  "add_slot p pl sub w =
     SubGroupCounterIncrease p sub (modg p (\<lambda>g. g\<lparr>m_memberSlots := m_memberSlots g @ [new_slot pl sub]\<rparr>) w)"

definition add_link :: "gptr \<Rightarrow> u64 \<Rightarrow> u8 \<Rightarrow> gworld \<Rightarrow> gworld" where
  "add_link p guid sub w =
     with_group p w (\<lambda>g.
       let w1 = SetGroupInvite guid None w
       in if GetGroup w1 guid \<noteq> None \<and> (isBGGroup g \<or> isBFGroup g) then SetBattlegroundOrBattlefieldRaid guid p sub w1
          else if GetGroup w1 guid \<noteq> None then SetOriginalGroup guid (Some (p, sub)) w1
          else SetGroup guid (Some (p, sub)) w1)"

definition add_homebind :: "gptr \<Rightarrow> u64 \<Rightarrow> gworld \<Rightarrow> gworld" where
  "add_homebind p guid w =
     with_group p w (\<lambda>g.
       case GetBoundInstance w g (pg_mapId (gs_pl w guid)) of
         Inl e \<Rightarrow> gfault e w
       | Inr None \<Rightarrow> w
       | Inr (Some b) \<Rightarrow>
           (case ib_save b of
              None \<Rightarrow> gfault NullDeref w
            | Some s \<Rightarrow> if is_instance s = pg_instanceId (gs_pl w guid)
                        then modp guid (\<lambda>d. d\<lparr>pg_InstanceValid := True\<rparr>) w else w))"

definition reset_icons :: "gptr \<Rightarrow> gworld \<Rightarrow> gworld" where
  "reset_icons p w =
     with_group p w (\<lambda>g.
       if \<not> isRaidGroup g then modg p (\<lambda>g. g\<lparr>m_targetIcons := replicate TARGETICONCOUNT 0\<rparr>) w else w)"

definition add_row :: "gptr \<Rightarrow> member_slot \<Rightarrow> gworld \<Rightarrow> gworld" where
  "add_row p s w =
     with_group p w (\<lambda>g.
       if \<not> isBGGroup g \<and> \<not> isBFGroup g
       then sql (INS_GROUP_MEMBER (m_dbStoreId g) (GUID_LOPART (ms_guid s)) (ms_flags s) (ms_group s) (ms_roles s)) w
       else w)"

text \<open>
  \<^verbatim>\<open>BuildValuesUpdateBlockForPlayer\<close> in both directions between the new member and each member linked
  to the group; building and sending the update packets is recorded as one action each.
\<close>

definition exchange_fields :: "gptr \<Rightarrow> u64 \<Rightarrow> gworld \<Rightarrow> gworld" where
  "exchange_fields p guid w =
     with_group p w (\<lambda>g.
       fold (\<lambda>(m, orig) w.
           if m = guid then w
           else
             let w1 = (if ge_have_at_client (gs_env w) guid m then act (Call m (MemberFieldsTo guid)) w else w)
             in if ge_have_at_client (gs_env w) m guid then act (Call guid (MemberFieldsTo m)) w1 else w1)
         (m_memberMgr g) w)"

definition LEVELREQUIREMENT_HEROIC :: u8 where "LEVELREQUIREMENT_HEROIC = 70"

definition adopt_difficulty :: "gptr \<Rightarrow> player \<Rightarrow> gworld \<Rightarrow> gworld" where
  "adopt_difficulty p pl w =
     with_group p w (\<lambda>g.
       if \<not> IsLeader g (pl_guid pl) \<and> \<not> isBGGroup g \<and> \<not> isBFGroup g
       then
         let guid = pl_guid pl;
             w1 = act (Call guid (Player_ResetInstances INSTANCE_RESET_GROUP_JOIN False)) w;
             w2 = act (Call guid (Player_ResetInstances INSTANCE_RESET_GROUP_JOIN True)) w1
         in if pl_level pl \<ge> LEVELREQUIREMENT_HEROIC
            then
              let w3 = (if pg_dungeonDifficulty (gs_pl w2 guid) \<noteq> m_dungeonDifficulty g
                        then player_dungeon_difficulty guid (m_dungeonDifficulty g) w2 else w2)
              in if pg_raidDifficulty (gs_pl w3 guid) \<noteq> m_raidDifficulty g
                 then player_raid_difficulty guid (m_raidDifficulty g) w3 else w3
            else w2
       else w)"

definition raise_enchanting :: "gptr \<Rightarrow> u64 \<Rightarrow> gworld \<Rightarrow> gworld" where
  "raise_enchanting p guid w =
     modg p (\<lambda>g. if m_maxEnchantingLevel g < pg_enchanting (gs_pl w guid)
                 then g\<lparr>m_maxEnchantingLevel := pg_enchanting (gs_pl w guid)\<rparr> else g) w"

definition member_joined :: "gptr \<Rightarrow> player \<Rightarrow> gworld \<Rightarrow> gworld" where
  "member_joined p pl w =
     (let guid = pl_guid pl;
          w1 = adopt_difficulty p pl w;
          w2 = act (Call guid SetGroupUpdateFlag_FULL) w1;
          w3 = UpdatePlayerOutOfRange p guid w2;
          w4 = with_group p w3 (\<lambda>g. if isRaidGroup g then act (Call guid UpdateForQuestWorldObjects) w3 else w3);
          w5 = exchange_fields p guid w4
      in raise_enchanting p guid w5)"

definition AddMember :: "gptr \<Rightarrow> player \<Rightarrow> gworld \<Rightarrow> bool \<times> gworld" where
  "AddMember p pl w =
     (case gs_groups w p of
        None \<Rightarrow> (False, gfault UseAfterFree w)
      | Some g \<Rightarrow>
          (case first_free_subgroup g of
             None \<Rightarrow> (False, w)
           | Some sub \<Rightarrow>
               (let guid = pl_guid pl;
                    w1 = add_slot p pl sub w;
                    w2 = (if IS_PLAYER_GUID guid then add_homebind p guid (add_link p guid sub w1) else w1);
                    w3 = reset_icons p w2;
                    w4 = add_row p (new_slot pl sub) w3;
                    w5 = SendUpdate p w4;
                    w6 = act (OnGroupAddMember p guid) w5
                in (True, if IS_PLAYER_GUID guid then member_joined p pl w6 else w6))))"

section \<open>\<^verbatim>\<open>Create\<close>\<close>

definition create_fields :: "gptr \<Rightarrow> player \<Rightarrow> u32 \<Rightarrow> gworld \<Rightarrow> gworld" where
  "create_fields p leader lowguid w =
     with_group p w (\<lambda>g0.
       let guid = pl_guid leader;
           w1 = modg p (\<lambda>g. g\<lparr>m_guid := MAKE_NEW_GUID lowguid 0 HIGHGUID_GROUP, m_leaderGuid := guid, m_leaderName := pl_name leader,
                  m_groupType := (if isBGGroup g0 \<or> isBFGroup g0 then GROUPTYPE_BGRAID else m_groupType g)\<rparr>) w;
           w2 = with_group p w1 (\<lambda>g. if has_flag (m_groupType g) GROUPTYPE_RAID then initRaidSubGroupsCounter p w1 else w1)
       in modg p (\<lambda>g. g\<lparr>m_lootMethod := (if pg_haveBot (gs_pl w guid) then FREE_FOR_ALL
                           else if \<not> isLFGGroup g then ge_bot_loot_method (gs_env w) else m_lootMethod g),
                m_lootThreshold := ITEM_QUALITY_UNCOMMON, m_looterGuid := guid,
                m_dungeonDifficulty := DUNGEON_DIFFICULTY_NORMAL, m_raidDifficulty := RAID_DIFFICULTY_10MAN_NORMAL\<rparr>) w2)"

definition create_row :: "group \<Rightarrow> group_row" where
  "create_row g = \<lparr>gw_leaderGuid = GUID_LOPART (m_leaderGuid g), gw_lootMethod = ucast (m_lootMethod g),
     gw_looterGuid = GUID_LOPART (m_looterGuid g), gw_lootThreshold = ucast (m_lootThreshold g),
     gw_icons = map ucast (m_targetIcons g), gw_groupType = m_groupType g,
     gw_difficulty = m_dungeonDifficulty g, gw_raiddifficulty = m_raidDifficulty g\<rparr>"

definition create_stored :: "gptr \<Rightarrow> player \<Rightarrow> gworld \<Rightarrow> gworld" where
  "create_stored p leader w =
     (let guid = pl_guid leader;
          w1 = modg p (\<lambda>g. g\<lparr>m_dungeonDifficulty := pg_dungeonDifficulty (gs_pl w guid),
                             m_raidDifficulty := pg_raidDifficulty (gs_pl w guid)\<rparr>) w;
          (i, w2) = GenerateNewGroupDbStoreId w1;
          w3 = modg p (\<lambda>g. g\<lparr>m_dbStoreId := i\<rparr>) w2;
          w4 = RegisterGroupDbStoreId i p w3
      in with_group p w4 (\<lambda>g. sql (INS_GROUP (m_dbStoreId g) (create_row g)) w4))"

definition Create :: "gptr \<Rightarrow> player \<Rightarrow> gworld \<Rightarrow> bool \<times> gworld" where
  "Create p leader w =
     (let (lowguid, w1) = GenerateGroupId w;
          w2 = create_fields p leader lowguid w1
      in case gs_groups w2 p of
           None \<Rightarrow> (False, gfault UseAfterFree w2)
         | Some g \<Rightarrow>
             (if \<not> isBGGroup g \<and> \<not> isBFGroup g
              then
                let (ok, w4) = AddMember p leader (create_stored p leader w2)
                in (True, if ok then ConvertInstancesToGroup (pl_guid leader) p False w4 else gfault AssertFailure w4)
              else AddMember p leader w2))"

section \<open>Conversions\<close>

definition store_type :: "gptr \<Rightarrow> gworld \<Rightarrow> gworld" where
  "store_type p w =
     with_group p w (\<lambda>g.
       if \<not> isBGGroup g \<and> \<not> isBFGroup g then sql (UPD_GROUP_TYPE (m_groupType g) (m_dbStoreId g)) w else w)"

definition ConvertToLFG :: "gptr \<Rightarrow> gworld \<Rightarrow> gworld" where
  "ConvertToLFG p w =
     (let w1 = modg p (\<lambda>g. g\<lparr>m_groupType := m_groupType g OR GROUPTYPE_LFG OR GROUPTYPE_UNK1,
                             m_lootMethod := NEED_BEFORE_GREED\<rparr>) w
      in SendUpdate p (store_type p w1))"

definition quest_updates :: "gptr \<Rightarrow> gworld \<Rightarrow> gworld" where
  "quest_updates p w =
     with_group p w (\<lambda>g.
       fold (\<lambda>s w. if online w (ms_guid s) then act (Call (ms_guid s) UpdateForQuestWorldObjects) w else w)
         (m_memberSlots g) w)"

definition ConvertToRaid :: "gptr \<Rightarrow> gworld \<Rightarrow> gworld" where
  "ConvertToRaid p w =
     (let w1 = modg p (\<lambda>g. g\<lparr>m_groupType := m_groupType g OR GROUPTYPE_RAID\<rparr>) w;
          w2 = initRaidSubGroupsCounter p w1;
          w3 = SendUpdate p (store_type p w2)
      in quest_updates p w3)"

section \<open>Subgroups, member flags and roles\<close>

definition setMembersGroup :: "gptr \<Rightarrow> u64 \<Rightarrow> u8 \<Rightarrow> gworld \<Rightarrow> bool \<times> gworld" where
  "setMembersGroup p guid sub w =
     (case gs_groups w p of
        None \<Rightarrow> (False, gfault UseAfterFree w)
      | Some g \<Rightarrow>
          (if GetMemberSlot g guid = None then (False, w)
           else
             let w1 = SubGroupCounterIncrease p sub (mod_slot p guid (\<lambda>s. s\<lparr>ms_group := sub\<rparr>) w)
             in (True, if \<not> isBGGroup g \<and> \<not> isBFGroup g then sql (UPD_GROUP_MEMBER_SUBGROUP sub (GUID_LOPART guid)) w1 else w1)))"

definition ChangeMembersGroup :: "gptr \<Rightarrow> u64 \<Rightarrow> u8 \<Rightarrow> gworld \<Rightarrow> gworld" where
  "ChangeMembersGroup p guid sub w =
     with_group p w (\<lambda>g.
       if \<not> isRaidGroup g then w
       else if GetMemberSlot g guid = None then w
       else
         let prevSubGroup = GetMemberGroup g guid
         in if prevSubGroup = sub then w
            else
              let w1 = mod_slot p guid (\<lambda>s. s\<lparr>ms_group := sub\<rparr>) w;
                  w2 = SubGroupCounterDecrease p prevSubGroup (SubGroupCounterIncrease p sub w1);
                  w3 = (if \<not> isBGGroup g \<and> \<not> isBFGroup g then sql (UPD_GROUP_MEMBER_SUBGROUP sub (GUID_LOPART guid)) w2 else w2);
                  w4 = (if online w3 guid then ref_setSubGroup guid (GetGroup w3 guid \<noteq> Some p) sub w3 else w3)
              in SendUpdate p w4)"

definition SetGroupMemberFlag :: "gptr \<Rightarrow> u64 \<Rightarrow> bool \<Rightarrow> u8 \<Rightarrow> gworld \<Rightarrow> gworld" where
  "SetGroupMemberFlag p guid apply flag w =
     with_group p w (\<lambda>g.
       if \<not> isRaidGroup g then w
       else if GetMemberSlot g guid = None then w
       else if flag \<noteq> MEMBER_FLAG_MAINASSIST \<and> flag \<noteq> MEMBER_FLAG_MAINTANK \<and> flag \<noteq> MEMBER_FLAG_ASSISTANT then w
       else
         let w1 = (if flag = MEMBER_FLAG_ASSISTANT then w else RemoveUniqueGroupMemberFlag p flag w);
             w2 = ToggleGroupMemberFlag p guid flag apply w1
         in SendUpdate p
              (with_group p w2 (\<lambda>g2.
                 case GetMemberSlot g2 guid of
                   None \<Rightarrow> w2
                 | Some s \<Rightarrow> sql (UPD_GROUP_MEMBER_FLAG (ms_flags s) (GUID_LOPART guid)) w2)))"

definition SetLfgRoles :: "gptr \<Rightarrow> u64 \<Rightarrow> u8 \<Rightarrow> gworld \<Rightarrow> gworld" where
  "SetLfgRoles p guid roles w =
     with_group p w (\<lambda>g.
       if GetMemberSlot g guid = None then w else SendUpdate p (mod_slot p guid (\<lambda>s. s\<lparr>ms_roles := roles\<rparr>) w))"

section \<open>\<^verbatim>\<open>ChangeLeader\<close>\<close>

definition unbind_permanent :: "gptr \<Rightarrow> gworld \<Rightarrow> gworld" where
  "unbind_permanent p w =
     with_group p w (\<lambda>g.
       modg p (\<lambda>g. g\<lparr>m_boundInstances := map (filter (\<lambda>(k, b). \<not> ib_perm b)) (m_boundInstances g)\<rparr>)
         (fold (\<lambda>(k, b) w. if \<not> ib_perm b then w
                           else case ib_save b of None \<Rightarrow> gfault NullDeref w
                                | Some s \<Rightarrow> act (SaveRemoveGroup (is_instance s) p) w)
            (concat (m_boundInstances g)) w))"

definition leader_stored :: "gptr \<Rightarrow> u64 \<Rightarrow> gworld \<Rightarrow> gworld" where
  "leader_stored p guid w =
     with_group p w (\<lambda>g.
       if \<not> isBGGroup g \<and> \<not> isBFGroup g
       then
         let w1 = unbind_permanent p w;
             w2 = sql (DEL_GROUP_INSTANCE_PERM_BINDING (m_dbStoreId g) (GUID_LOPART guid)) w1;
             w3 = ConvertInstancesToGroup guid p True w2
         in sql (UPD_GROUP_LEADER (GUID_LOPART guid) (m_dbStoreId g)) w3
       else w)"

definition ChangeLeader :: "gptr \<Rightarrow> u64 \<Rightarrow> gworld \<Rightarrow> gworld" where
  "ChangeLeader p guid w =
     with_group p w (\<lambda>g.
       case (GetMemberSlot g guid, find_player w guid) of
         (Some s, Some player) \<Rightarrow>
           (let w1 = act (OnGroupChangeLeader p (m_leaderGuid g) guid) w;
                w2 = leader_stored p guid w1;
                w3 = modg p (\<lambda>g. g\<lparr>m_leaderGuid := pl_guid player, m_leaderName := pl_name player\<rparr>) w2;
                w4 = ToggleGroupMemberFlag p guid MEMBER_FLAG_ASSISTANT False w3
            in BroadcastPacket p (stream [FStr (ms_name s)] (WorldPacket SMSG_GROUP_SET_LEADER)) True None 0 w4)
       | _ \<Rightarrow> w)"

section \<open>\<^verbatim>\<open>Disband\<close>\<close>

definition empty_list_packet :: "group \<Rightarrow> world_packet" where
  "empty_list_packet g =
     stream [FU8 0x10, FU8 0, FU8 0, FU8 0, FU64 (m_guid g), FU32 (m_counter g), FU32 0, FU64 0] (WorldPacket SMSG_GROUP_LIST)"

text \<open>Taking the group from the slot of a player that refers to it.\<close>

definition drop_group :: "gptr \<Rightarrow> group \<Rightarrow> u64 \<Rightarrow> gworld \<Rightarrow> gworld" where
  "drop_group p g guid w =
     (if isBGGroup g \<or> isBFGroup g then RemoveFromBattlegroundOrBattlefieldRaid guid w
      else if GetOriginalGroup w guid = Some p then SetOriginalGroup guid None w
      else SetGroup guid None w)"

definition disband_member :: "gptr \<Rightarrow> bool \<Rightarrow> member_slot \<Rightarrow> gworld \<Rightarrow> gworld" where
  "disband_member p hideDestroy s w =
     with_group p w (\<lambda>g.
       let guid = ms_guid s in
       if find_player w guid = None then w
       else
         let w1 = drop_group p g guid w;
             w2 = (if isRaidGroup g then act (Call guid UpdateForQuestWorldObjects) w1 else w1);
             w3 = (if \<not> hideDestroy then send guid (WorldPacket SMSG_GROUP_DESTROYED) w2 else w2);
             w4 = (case GetGroup w3 guid of Some q \<Rightarrow> SendUpdate q w3 | None \<Rightarrow> send guid (empty_list_packet g) w3)
         in homebindIfInstance guid w4)"

definition disband_stored :: "gptr \<Rightarrow> gworld \<Rightarrow> gworld" where
  "disband_stored p w =
     with_group p w (\<lambda>g.
       if \<not> isBGGroup g \<and> \<not> isBFGroup g
       then
         let w1 = sql (DEL_GROUP_MEMBER_ALL (m_dbStoreId g)) (sql (DEL_GROUP (m_dbStoreId g)) w);
             w2 = Group_ResetInstances p INSTANCE_RESET_GROUP_DISBAND False None w1;
             w3 = Group_ResetInstances p INSTANCE_RESET_GROUP_DISBAND True None w2;
             w4 = sql (DEL_LFG_DATA (m_dbStoreId g)) w3
         in FreeGroupDbStoreId (m_dbStoreId g) w4
       else w)"

definition Disband :: "gptr \<Rightarrow> bool \<Rightarrow> gworld \<Rightarrow> gworld" where
  "Disband p hideDestroy w =
     with_group p w (\<lambda>g.
       let w1 = act (OnGroupDisband p) w;
           w2 = fold (disband_member p hideDestroy) (m_memberSlots g) w1;
           w3 = modg p (\<lambda>g. g\<lparr>RollId := [], m_memberSlots := []\<rparr>) w2;
           w4 = RemoveAllInvites p w3;
           w5 = disband_stored p w4
       in delete_group p (RemoveGroup p w5))"

section \<open>\<^verbatim>\<open>RemoveMember\<close>\<close>

definition DelinkMember :: "gptr \<Rightarrow> u64 \<Rightarrow> gworld \<Rightarrow> gworld" where
  "DelinkMember p guid w =
     with_group p w (\<lambda>g.
       case find (\<lambda>r. fst r = guid) (m_memberMgr g) of None \<Rightarrow> w | Some (m, orig) \<Rightarrow> ref_unlink m orig w)"

definition leave_player :: "gptr \<Rightarrow> u64 \<Rightarrow> RemoveMethod \<Rightarrow> gworld \<Rightarrow> gworld" where
  "leave_player p guid method w =
     with_group p w (\<lambda>g.
       if find_player w guid = None then w
       else
         let w1 = drop_group p g guid w;
             w2 = (if isBGGroup g \<or> isBFGroup g then w1 else act (Call guid UpdateForQuestWorldObjects) w1);
             w3 = (if method = GROUP_REMOVEMETHOD_KICK \<or> method = GROUP_REMOVEMETHOD_KICK_LFG
                   then send guid (WorldPacket SMSG_GROUP_UNINVITE) w2 else w2);
             w4 = send guid (empty_list_packet g) w3
         in homebindIfInstance guid w4)"

definition leave_row :: "gptr \<Rightarrow> u64 \<Rightarrow> gworld \<Rightarrow> gworld" where
  "leave_row p guid w =
     with_group p w (\<lambda>g.
       if \<not> isBGGroup g \<and> \<not> isBFGroup g then DelinkMember p guid (sql (DEL_GROUP_MEMBER (GUID_LOPART guid)) w) else w)"

definition leave_enchanting :: "gptr \<Rightarrow> u64 \<Rightarrow> gworld \<Rightarrow> gworld" where
  "leave_enchanting p guid w =
     (if (online w guid \<and> pg_enchanting (gs_pl w guid) \<noteq> 0) \<or> find_player w guid = None
      then ResetMaxEnchantingLevel p w else w)"

definition withdraw_vote :: "u64 \<Rightarrow> RollVote \<Rightarrow> roll \<Rightarrow> roll" where
  "withdraw_vote guid v r =
     (let r1 = (if v = GREED \<or> v = DISENCHANT then r\<lparr>r_totalGreed := r_totalGreed r - 1\<rparr>
                else if v = NEED then r\<lparr>r_totalNeed := r_totalNeed r - 1\<rparr>
                else if v = PASS then r\<lparr>r_totalPass := r_totalPass r - 1\<rparr> else r);
          r2 = (if v \<noteq> NOT_VALID then r1\<lparr>r_totalPlayersRolling := r_totalPlayersRolling r1 - 1\<rparr> else r1)
      in r2\<lparr>r_playerVote := map_erase guid (r_playerVote r2)\<rparr>)"

text \<open>
  One round of the loop over \<^verbatim>\<open>RollId\<close>. Were a roll erased by \<^verbatim>\<open>CountRollVote\<close>, the iterator of the
  loop would be invalid.
\<close>

definition leave_roll :: "gptr \<Rightarrow> u64 \<Rightarrow> nat \<Rightarrow> gworld \<Rightarrow> gworld" where
  "leave_roll p guid i w =
     with_group p w (\<lambda>g.
       let r = RollId g ! i
       in case map_find (r_playerVote r) guid of
            None \<Rightarrow> w
          | Some v \<Rightarrow>
              (let w1 = modg p (\<lambda>g. g\<lparr>RollId := (RollId g)[i := withdraw_vote guid v r]\<rparr>) w;
                   w2 = CountRollVote p guid (r_itemGUID r) MAX_ROLL_TYPE w1
               in with_group p w2 (\<lambda>g2. if length (RollId g2) \<noteq> length (RollId g) then gfault UseAfterFree w2 else w2)))"

definition leave_rolls :: "gptr \<Rightarrow> u64 \<Rightarrow> gworld \<Rightarrow> gworld" where
  "leave_rolls p guid w = with_group p w (\<lambda>g. fold (leave_roll p guid) [0..<length (RollId g)] w)"

definition leave_slot :: "gptr \<Rightarrow> u64 \<Rightarrow> gworld \<Rightarrow> gworld" where
  "leave_slot p guid w =
     with_group p w (\<lambda>g.
       case GetMemberSlot g guid of
         None \<Rightarrow> w
       | Some s \<Rightarrow> modg p (\<lambda>g. g\<lparr>m_memberSlots := erase_slot guid (m_memberSlots g)\<rparr>) (SubGroupCounterDecrease p (ms_group s) w))"

definition leave_leader :: "gptr \<Rightarrow> u64 \<Rightarrow> gworld \<Rightarrow> gworld" where
  "leave_leader p guid w =
     with_group p w (\<lambda>g.
       if m_leaderGuid g = guid
       then (case find (\<lambda>s. online w (ms_guid s)) (m_memberSlots g) of None \<Rightarrow> w | Some s \<Rightarrow> ChangeLeader p (ms_guid s) w)
       else w)"

definition leave_group :: "gptr \<Rightarrow> u64 \<Rightarrow> RemoveMethod \<Rightarrow> gworld \<Rightarrow> gworld" where
  "leave_group p guid method w =
     (let w1 = leave_player p guid method w;
          w2 = leave_row p guid w1;
          w3 = leave_enchanting p guid w2;
          w4 = leave_rolls p guid w3;
          w5 = leave_slot p guid w4;
          w6 = leave_leader p guid w5
      in SendUpdate p w6)"

text \<open>The last member of a dungeon finder group stays only while he is dead or inside the dungeon.\<close>

definition lfg_last_leaves :: "gworld \<Rightarrow> group \<Rightarrow> bool" where
  "lfg_last_leaves w g =
     (let mapId = ge_lfg_map (gs_env w) (m_guid g)
      in mapId = 0 \<or> find_player w (m_leaderGuid g) = None
         \<or> (pg_alive (gs_pl w (m_leaderGuid g)) \<and> pg_mapId (gs_pl w (m_leaderGuid g)) \<noteq> mapId))"

definition RemoveMember :: "gptr \<Rightarrow> u64 \<Rightarrow> RemoveMethod \<Rightarrow> u64 \<Rightarrow> string \<Rightarrow> gworld \<Rightarrow> bool \<times> gworld" where
  "RemoveMember p guid method kicker reason w =
     (case gs_groups w p of
        None \<Rightarrow> (False, gfault UseAfterFree w)
      | Some g \<Rightarrow>
          (let w1 = act (OnGroupRemoveMember p guid method kicker reason) (BroadcastGroupUpdate p w) in
           if isLFGGroup g \<and> method = GROUP_REMOVEMETHOD_KICK then (m_memberSlots g \<noteq> [], w1)
           else if GetMembersCount g > (if isBGGroup g \<or> isLFGGroup g \<or> isBFGroup g then 1 else 2)
           then
             let w2 = leave_group p guid method w1
             in case gs_groups w2 p of
                  None \<Rightarrow> (False, gfault UseAfterFree w2)
                | Some g2 \<Rightarrow>
                    (if isLFGGroup g2 \<and> GetMembersCount g2 = 1 \<and> lfg_last_leaves w2 g2 then (False, Disband p False w2)
                     else if length (m_memberMgr g2) < (if isLFGGroup g2 \<or> isBGGroup g2 then 1 else 2)
                             \<and> GetMembersCount g2 < (if isBGGroup g2 \<or> isLFGGroup g2 then 1 else 2)
                     then (True, Disband p False w2)
                     else (True, w2))
           else (False, Disband p False w1)))"

section \<open>The calls of \<^verbatim>\<open>Player\<close>\<close>

definition UninviteFromGroup :: "u64 \<Rightarrow> gworld \<Rightarrow> gworld" where
  "UninviteFromGroup guid w =
     (case pg_groupInvite (gs_pl w guid) of
        None \<Rightarrow> w
      | Some p \<Rightarrow>
          (let w1 = RemoveInvite p guid w
           in with_group p w1 (\<lambda>g.
                if GetMembersCount g \<le> 1
                then (if IsCreated g then Disband p True w1 else delete_group p (RemoveAllInvites p w1))
                else w1)))"

text \<open>
  \<^verbatim>\<open>Player::RemoveFromGroup\<close>. What removing the bots of a player does to the group is not modelled: the
  calls are recorded.
\<close>

definition human_members :: "gworld \<Rightarrow> group \<Rightarrow> nat" where
  "human_members w g = length (filter (\<lambda>s. online w (ms_guid s) \<and> \<not> pg_isBot (gs_pl w (ms_guid s))) (m_memberSlots g))"

definition remove_bots :: "u64 \<Rightarrow> u8 \<Rightarrow> gworld \<Rightarrow> gworld" where
  "remove_bots guid players w =
     (let pd = gs_pl w guid
      in if pg_isBot pd then (if pg_haveBot pd then act (Call guid (RemoveAllBots True)) w else w)
         else act (Call guid LogoutPlayerBots)
                (if pg_haveBot pd then act (Call guid (RemoveAllBots (players \<le> 1))) w else w))"

definition RemoveFromGroup :: "gptr option \<Rightarrow> u64 \<Rightarrow> RemoveMethod \<Rightarrow> u64 \<Rightarrow> string \<Rightarrow> gworld \<Rightarrow> gworld" where
  "RemoveFromGroup gp guid method kicker reason w =
     (case gp of
        None \<Rightarrow> w
      | Some p \<Rightarrow>
          with_group p w (\<lambda>g.
            let players = of_nat (human_members w g)
            in if online w guid
               then
                 let w1 = remove_bots guid players w
                 in (case GetGroup w1 guid of None \<Rightarrow> w1 | Some q \<Rightarrow> snd (RemoveMember q guid method kicker reason w1))
               else snd (RemoveMember p guid method kicker reason w)))"

end
