(* ===== verification/Group_Roll.thy ===== *)
theory Group_Roll
  imports Group_Members
begin

text \<open>
  Correctness of the loot rolls: the counters of a roll are the numbers of votes, a roll is complete
  exactly when nobody has a vote left, the item goes to the best draw of those who needed it (or else of
  those who wanted it), the timer ends all rolls of its loot, and what happens to the rolls when
  a member leaves.
\<close>

section \<open>The counters of a roll\<close>

definition votes_for :: "(RollVote \<Rightarrow> bool) \<Rightarrow> roll \<Rightarrow> nat" where
  "votes_for P r = map_count P (r_playerVote r)"

definition roll_ok :: "roll \<Rightarrow> bool" where
  "roll_ok r \<longleftrightarrow> map_wf (r_playerVote r) \<and> length (r_playerVote r) < 256
     \<and> r_totalPlayersRolling r = of_nat (length (r_playerVote r))
     \<and> r_totalNeed r = of_nat (votes_for (\<lambda>v. v = NEED) r)
     \<and> r_totalGreed r = of_nat (votes_for (\<lambda>v. v = GREED \<or> v = DISENCHANT) r)
     \<and> r_totalPass r = of_nat (votes_for (\<lambda>v. v = PASS) r)
     \<and> (\<forall>kv \<in> set (r_playerVote r). snd kv \<noteq> NOT_VALID)"

lemma map_count_le: "map_count P m \<le> length m"
  by (simp add: map_count_def)

lemma map_count_cases:
  assumes "\<forall>kv \<in> set m. snd kv \<noteq> NOT_VALID"
  shows "map_count (\<lambda>v. v = PASS) m + map_count (\<lambda>v. v = NEED) m + map_count (\<lambda>v. v = GREED \<or> v = DISENCHANT) m
     + map_count (\<lambda>v. v = NOT_EMITED_YET) m = length m"
  using assms
proof (induction m)
  case (Cons kv m)
  obtain k v where "kv = (k, v)" by fastforce
  with Cons show ?case by (cases v) (auto simp: map_count_def)
qed (simp add: map_count_def)

lemma roll_ok_counts:
  assumes "roll_ok r"
  shows "unat (r_totalPass r) = votes_for (\<lambda>v. v = PASS) r" "unat (r_totalNeed r) = votes_for (\<lambda>v. v = NEED) r"
    "unat (r_totalGreed r) = votes_for (\<lambda>v. v = GREED \<or> v = DISENCHANT) r"
    "unat (r_totalPlayersRolling r) = length (r_playerVote r)"
proof -
  have small: "votes_for P r < 256" for P
    using map_count_le [of P "r_playerVote r"] assms by (auto simp: roll_ok_def votes_for_def)
  show "unat (r_totalPass r) = votes_for (\<lambda>v. v = PASS) r" "unat (r_totalNeed r) = votes_for (\<lambda>v. v = NEED) r"
    "unat (r_totalGreed r) = votes_for (\<lambda>v. v = GREED \<or> v = DISENCHANT) r"
    "unat (r_totalPlayersRolling r) = length (r_playerVote r)"
    using assms small by (auto simp: roll_ok_def unat_of_nat_small)
qed

text \<open>The test of \<^verbatim>\<open>CountRollVote\<close> means what it is meant to: nobody is left to vote.\<close>

lemma all_voted_iff:
  assumes "roll_ok r"
  shows "all_voted r \<longleftrightarrow> (\<forall>kv \<in> set (r_playerVote r). snd kv \<noteq> NOT_EMITED_YET)"
proof -
  have "all_voted r \<longleftrightarrow> map_count (\<lambda>v. v = NOT_EMITED_YET) (r_playerVote r) = 0"
    using map_count_cases [of "r_playerVote r"] assms roll_ok_counts [OF assms]
    by (auto simp: all_voted_def votes_for_def roll_ok_def)
  also have "\<dots> \<longleftrightarrow> (\<forall>kv \<in> set (r_playerVote r). snd kv \<noteq> NOT_EMITED_YET)"
    by (simp add: map_count_def filter_empty_conv)
  finally show ?thesis .
qed

lemma map_set_length: "map_wf m \<Longrightarrow> length (map_set k v m) = (if map_find m k = None then Suc (length m) else length m)"
  using stdmap.size_put [of m k v] by simp

lemma map_set_values: "kv \<in> set (map_set k v m) \<Longrightarrow> kv = (k, v) \<or> kv \<in> set m"
  by (induction k v m rule: map_set.induct) (auto split: if_splits)

lemma map_count_add:
  "map_wf m \<Longrightarrow> map_find m k = None \<Longrightarrow> map_count P (map_set k v m) = map_count P m + of_bool (P v)"
  using map_count_set [of m P k v] by simp

lemma map_count_replace:
  assumes "map_wf m" "map_find m k = Some v0" "\<not> P v0"
  shows "map_count P (map_set k v m) = map_count P m + of_bool (P v)"
  using map_count_set [OF assms(1), of P k v] assms by simp

lemma map_count_erase:
  "map_wf m \<Longrightarrow> map_find m k = Some v \<Longrightarrow> map_count P (map_erase k m) + of_bool (P v) = map_count P m"
proof (induction m)
  case (Cons kv m)
  obtain k' v' where kv: "kv = (k', v')" by fastforce
  have wf: "map_wf m" using Cons.prems(1) by (simp add: map_wf_def)
  show ?case
  proof (cases "k' = k")
    case True
    then have "map_erase k m = m"
      using Cons.prems(1) kv by (fastforce simp: map_erase_def map_wf_def intro!: filter_True)
    with True show ?thesis using Cons.prems kv by (simp add: map_count_def map_erase_def map_find_Cons)
  next
    case False
    then show ?thesis using Cons kv wf by (auto simp: map_count_def map_erase_def map_find_Cons)
  qed
qed (simp add: map_find_def)

lemma map_erase_length: "map_wf m \<Longrightarrow> map_find m k = Some v \<Longrightarrow> Suc (length (map_erase k m)) = length m"
  using map_count_erase [of m k v "\<lambda>_. True"] by (simp add: map_count_def)

subsection \<open>Every operation keeps the counters right\<close>

lemma roll_ok_new: "roll_ok (Roll_new guid li)"
  by (simp add: roll_ok_def Roll_new_def votes_for_def map_count_def map_wf_def)

lemma add_candidate_ok:
  assumes "roll_ok r" "map_find (r_playerVote r) m = None" "length (r_playerVote r) < 255"
  shows "roll_ok (add_candidate w li obj ap m r)"
  using assms
  by (auto simp: add_candidate_def Let_def roll_ok_def votes_for_def map_set_length map_count_add
      intro: stdmap.wf_put dest!: map_set_values)

lemma add_candidate_find:
  "map_find (r_playerVote (add_candidate w li obj ap m r)) k \<noteq> None \<Longrightarrow> k = m \<or> map_find (r_playerVote r) k \<noteq> None"
  by (auto simp: add_candidate_def Let_def container_simps split: if_splits)

lemma add_candidate_length:
  "map_wf (r_playerVote r) \<Longrightarrow> length (r_playerVote (add_candidate w li obj ap m r)) \<le> Suc (length (r_playerVote r))"
  by (auto simp: add_candidate_def Let_def map_set_length)

text \<open>A group has at most forty linked members, each linked once.\<close>

lemma roll_candidates_ok:
  assumes "distinct (map fst (m_memberMgr g))" "length (m_memberMgr g) < 256"
  shows "roll_ok (roll_candidates w g li obj ap (Roll_new guid li))"
proof -
  have "roll_ok (fold (\<lambda>(m, orig). add_candidate w li obj ap m) rs r)"
    if "distinct (map fst rs)" "roll_ok r" "\<forall>m \<in> set (map fst rs). map_find (r_playerVote r) m = None"
      "length (r_playerVote r) + length rs < 256" for rs :: "(u64 \<times> bool) list" and r
    using that
  proof (induction rs arbitrary: r)
    case (Cons mo rs)
    obtain m orig where mo: "mo = (m, orig)" by fastforce
    let ?r = "add_candidate w li obj ap m r"
    have "roll_ok ?r" using Cons.prems mo by (intro add_candidate_ok) auto
    moreover have "\<forall>k \<in> set (map fst rs). map_find (r_playerVote ?r) k = None"
      using Cons.prems mo add_candidate_find [of w li obj ap m r] by (metis list.set_intros(2) list.simps(9) distinct.simps(2) fst_conv)
    moreover have "length (r_playerVote ?r) + length rs < 256"
      using add_candidate_length [of r w li obj ap m] Cons.prems by (auto simp: roll_ok_def)
    ultimately show ?case using Cons mo by simp
  qed simp
  from this [OF assms(1) roll_ok_new] show ?thesis
    using assms(2) by (simp add: roll_candidates_def Roll_new_def map_find_def)
qed

definition choice_vote :: "u8 \<Rightarrow> RollVote" where
  "choice_vote c = (if c = ROLL_PASS then PASS else if c = ROLL_NEED then NEED else if c = ROLL_GREED then GREED else DISENCHANT)"

lemma cast_vote_votes:
  "c < MAX_ROLL_TYPE \<Longrightarrow> r_playerVote (cast_vote m c r) = map_set m (choice_vote c) (r_playerVote r)"
  by (auto simp: cast_vote_def choice_vote_def roll_types word_less_nat_alt word_unat_eq_iff)

lemma cast_vote_ok:
  assumes "roll_ok r" "map_find (r_playerVote r) m = Some NOT_EMITED_YET"
  shows "roll_ok (cast_vote m c r)"
proof -
  have wf: "map_wf (r_playerVote r)" using assms(1) by (simp add: roll_ok_def)
  have "map_count P (map_set m v (r_playerVote r)) = map_count P (r_playerVote r) + of_bool (P v)"
    if "\<not> P NOT_EMITED_YET" for P v
    using map_count_replace [OF wf assms(2), of P v] that by simp
  then show ?thesis
    using assms
    by (auto simp: cast_vote_def roll_ok_def votes_for_def map_set_length intro: stdmap.wf_put dest!: map_set_values)
qed

lemma withdraw_vote_ok:
  assumes "roll_ok r" "map_find (r_playerVote r) m = Some v"
  shows "roll_ok (withdraw_vote m v r)"
proof -
  have wf: "map_wf (r_playerVote r)" using assms(1) by (simp add: roll_ok_def)
  have cnt: "map_count P (r_playerVote r) = map_count P (map_erase m (r_playerVote r)) + of_bool (P v)" for P
    using map_count_erase [OF wf assms(2), of P] by simp
  have len: "length (r_playerVote r) = Suc (length (map_erase m (r_playerVote r)))"
    using map_erase_length [OF wf assms(2)] by simp
  have "v \<noteq> NOT_VALID" using assms map_find_SomeD by (fastforce simp: roll_ok_def)
  then show ?thesis
    using assms(1) cnt len
    by (cases v) (auto simp: withdraw_vote_def Let_def roll_ok_def votes_for_def map_erase_def intro: stdmap.wf_erase [unfolded map_erase_def])
qed

section \<open>The winner of a roll\<close>

text \<open>The votes that take part, and the number drawn for the one at position \<open>k\<close>.\<close>

definition taking_part :: "(RollVote \<Rightarrow> bool) \<Rightarrow> roll \<Rightarrow> (u64 \<times> RollVote) list" where
  "taking_part P r = filter (\<lambda>gv. P (snd gv)) (r_playerVote r)"

definition draw :: "gworld \<Rightarrow> nat \<Rightarrow> u8" where
  "draw w k = ucast (1 + ge_random (gs_env w) (gs_draws w + k) mod 100 :: u32)"

text \<open>Position \<open>k\<close> wins: no draw is higher, and the earlier ones are lower.\<close>

definition wins :: "gworld \<Rightarrow> nat \<Rightarrow> nat \<Rightarrow> bool" where
  "wins w n k \<longleftrightarrow> k < n \<and> (\<forall>j < n. draw w j \<le> draw w k) \<and> (\<forall>j < k. draw w j < draw w k)"

lemma draw_range: "1 \<le> draw w k \<and> draw w k \<le> 100"
proof -
  let ?x = "ge_random (gs_env w) (gs_draws w + k) mod 100 :: u32"
  have x: "unat ?x < 100" by (simp add: unat_mod)
  then have "unat (1 + ?x) = 1 + unat ?x" by (simp add: unat_add_lem [THEN iffD1])
  with x have "unat (draw w k) = 1 + unat ?x"
    by (simp add: draw_def unsigned_ucast_eq take_bit_nat_eq_self)
  with x show ?thesis by (simp add: word_le_nat_alt)
qed

lemma draws_send_voters [simp]: "gs_draws (send_voters P r pkt w) = gs_draws w"
proof -
  have "gs_draws (fold (\<lambda>(guid, v) w. if online w guid \<and> P v then send guid pkt w else w) vs w) = gs_draws w" for vs w
    by (induction vs arbitrary: w) (auto simp: send_def act_def)
  then show ?thesis by (simp add: send_voters_def)
qed

lemma env_send_voters [simp]: "gs_env (send_voters P r pkt w) = gs_env w"
  by (rule shape_eqD) (rule shape_send_voters)

lemma roll_step_taking:
  "P v \<Longrightarrow> roll_step P ty r (g, v) (m, mg, mv, w) =
     (let w2 = SendLootRoll 0 g (draw w 0) (ty v) r (w\<lparr>gs_draws := Suc (gs_draws w)\<rparr>)
      in if m < draw w 0 then (draw w 0, g, v, w2) else (m, mg, mv, w2))"
  by (simp add: roll_step_def urand_def draw_def Let_def)

lemma draw_next: "draw (SendLootRoll a b c d r (w\<lparr>gs_draws := Suc (gs_draws w)\<rparr>)) k = draw w (Suc k)"
  by (simp add: draw_def SendLootRoll_def)

text \<open>The loop finds the first highest draw above the value it starts from.\<close>

lemma fold_roll_step:
  "fold (roll_step P ty r) vs (m, g, v, w) = (m', g', v', w') \<Longrightarrow>
     (m' = m \<and> g' = g \<and> v' = v \<and> (\<forall>j < length (filter (\<lambda>gv. P (snd gv)) vs). draw w j \<le> m))
     \<or> (\<exists>k. wins w (length (filter (\<lambda>gv. P (snd gv)) vs)) k \<and> filter (\<lambda>gv. P (snd gv)) vs ! k = (g', v')
           \<and> m' = draw w k \<and> m < m')"
proof (induction vs arbitrary: m g v w)
  case (Cons gv vs)
  obtain h u where gv: "gv = (h, u)" by fastforce
  show ?case
  proof (cases "P u")
    case False
    then show ?thesis using Cons gv by (simp add: roll_step_def)
  next
    case True
    let ?F = "filter (\<lambda>gv. P (snd gv)) vs"
    define w2 where "w2 = SendLootRoll 0 h (draw w 0) (ty u) r (w\<lparr>gs_draws := Suc (gs_draws w)\<rparr>)"
    have shift: "draw w2 j = draw w (Suc j)" for j unfolding w2_def by (rule draw_next)
    have winsS: "wins w (Suc (length ?F)) (Suc k)" if "wins w2 (length ?F) k" "draw w 0 < draw w2 k" for k
      using that shift by (auto simp: wins_def less_Suc_eq_0_disj order.strict_implies_order)
    show ?thesis
    proof (cases "m < draw w 0")
      case True
      then have "fold (roll_step P ty r) vs (draw w 0, h, u, w2) = (m', g', v', w')"
        using Cons.prems gv \<open>P u\<close> by (simp add: roll_step_taking w2_def Let_def)
      from Cons.IH [OF this] consider
          "m' = draw w 0" "g' = h" "v' = u" "\<forall>j < length ?F. draw w2 j \<le> draw w 0"
        | k where "wins w2 (length ?F) k" "?F ! k = (g', v')" "m' = draw w2 k" "draw w 0 < m'" by auto
      then show ?thesis
      proof cases
        case 1
        then have "wins w (Suc (length ?F)) 0" using shift by (auto simp: wins_def less_Suc_eq_0_disj)
        with 1 True gv \<open>P u\<close> show ?thesis by (intro disjI2 exI [of _ 0]) auto
      next
        case 2
        then show ?thesis using winsS [of k] shift [of k] True gv \<open>P u\<close> by (intro disjI2 exI [of _ "Suc k"]) auto
      qed
    next
      case False
      then have "fold (roll_step P ty r) vs (m, g, v, w2) = (m', g', v', w')"
        using Cons.prems gv \<open>P u\<close> by (simp add: roll_step_taking w2_def Let_def)
      from Cons.IH [OF this] consider
          "m' = m" "g' = g" "v' = v" "\<forall>j < length ?F. draw w2 j \<le> m"
        | k where "wins w2 (length ?F) k" "?F ! k = (g', v')" "m' = draw w2 k" "m < m'" by auto
      then show ?thesis
      proof cases
        case 1
        then show ?thesis using shift False gv \<open>P u\<close> by (auto simp: less_Suc_eq_0_disj)
      next
        case 2
        then show ?thesis using winsS [of k] shift [of k] False gv \<open>P u\<close> by (intro disjI2 exI [of _ "Suc k"]) auto
      qed
    qed
  qed
qed simp

lemma roll_votes_winner:
  assumes "taking_part P r \<noteq> []" "roll_votes P ty r w = (m, g, v, w')"
  shows "\<exists>k. wins w (length (taking_part P r)) k \<and> taking_part P r ! k = (g, v) \<and> m = draw w k"
proof -
  have "\<not> draw w 0 \<le> 0" using draw_range [of w 0] by (auto simp: word_le_nat_alt)
  then show ?thesis
    using fold_roll_step [OF assms(2) [unfolded roll_votes_def]] assms(1) by (auto simp: taking_part_def)
qed

section \<open>What happens to the item\<close>

definition unblocked :: "u8 \<Rightarrow> loot \<Rightarrow> loot" where
  "unblocked slot x = upd_slot_item slot (\<lambda>li. li\<lparr>li_is_blocked := False\<rparr>) x"

definition taken :: "u8 \<Rightarrow> loot \<Rightarrow> loot" where
  "taken slot x = (upd_slot_item slot (\<lambda>li. li\<lparr>li_is_looted := True\<rparr>) x)\<lparr>l_unlootedCount := l_unlootedCount x - 1\<rparr>"

lemma loots_quiet [simp]:
  "gs_loots (act a w) = gs_loots w" "gs_loots (send g p w) = gs_loots w" "gs_loots (sql s w) = gs_loots w"
  by (simp_all add: act_def send_def sql_def)

lemma loots_send_voters [simp]: "gs_loots (send_voters P r pkt w) = gs_loots w"
proof -
  have "gs_loots (fold (\<lambda>(guid, v) w. if online w guid \<and> P v then send guid pkt w else w) vs w) = gs_loots w" for vs w
    by (induction vs arbitrary: w) auto
  then show ?thesis by (simp add: send_voters_def)
qed

lemma loots_rolls [simp]:
  "gs_loots (SendLootRoll a b c d r w) = gs_loots w" "gs_loots (SendLootRollWon a b c d r w) = gs_loots w"
  "gs_loots (SendLootAllPassed r w) = gs_loots w"
  by (simp_all add: SendLootRoll_def SendLootRollWon_def SendLootAllPassed_def)

lemma loots_roll_votes:
  assumes "roll_votes P ty r w = (a, b, c, w')"
  shows "gs_loots w' = gs_loots w"
proof -
  have step: "gs_loots (snd (snd (snd (roll_step P ty r gv (a, b, c, w))))) = gs_loots w" for gv a b c w
    by (auto simp: roll_step_def urand_def Let_def split: prod.splits)
  have "gs_loots (snd (snd (snd (fold (roll_step P ty r) vs st)))) = gs_loots (snd (snd (snd st)))" for vs st
  proof (induction vs arbitrary: st)
    case (Cons v vs)
    obtain a b c w where "st = (a, b, c, w)" by (cases st) auto
    then show ?case using Cons step [of v a b c w] by simp
  qed simp
  from this [of "r_playerVote r" "(0, fst (hd (r_playerVote r)), NOT_VALID, w)"] show ?thesis
    using assms by (simp add: roll_votes_def)
qed

lemma loots_modg [simp]: "gs_loots (modg p f w) = gs_loots w"
  by (simp add: modg_def with_group_def gfault_def split: option.split)

lemma loots_mod_item:
  "gs_loots w l = Some x \<Longrightarrow> slot_item x slot \<noteq> None \<Longrightarrow> gs_loots (mod_item l slot f w) l = Some (upd_slot_item slot f x)"
  by (auto simp: mod_item_def modl_def)

lemma upd_slot_item_count: "l_unlootedCount (upd_slot_item slot f x) = l_unlootedCount x"
  by (simp add: upd_slot_item_def)

lemma loots_loot_taken:
  "gs_loots w l = Some x \<Longrightarrow> slot_item x slot \<noteq> None \<Longrightarrow> gs_loots (loot_taken l slot w) l = Some (taken slot x)"
  using loots_mod_item [of w l x slot "\<lambda>li. li\<lparr>li_is_looted := True\<rparr>"]
  by (simp add: loot_taken_def Let_def modl_def taken_def upd_slot_item_count)

lemma loots_give_item:
  assumes "gs_loots w l = Some x" "slot_item x (r_itemSlot r) = Some li"
  shows "gs_loots (give_item l r g w) l =
    Some (if ge_can_store (gs_env w) (gs_log w) g (r_itemid r) (li_count li) = EQUIP_ERR_OK
          then taken (r_itemSlot r) x else unblocked (r_itemSlot r) x)"
  using assms by (auto simp: give_item_def Let_def loots_loot_taken loots_mod_item unblocked_def)

lemma loots_disenchant_item:
  assumes "gs_loots w l = Some x" "slot_item x (r_itemSlot r) \<noteq> None"
  shows "gs_loots (disenchant_item l r g w) l = Some (taken (r_itemSlot r) x)"
  using loots_loot_taken [OF assms]
  by (simp add: disenchant_item_def Let_def gfault_def split: option.split)

text \<open>
  What becomes of the item when \<open>winner\<close> has it with the vote \<open>v\<close>: he takes it, or his bags are full and
  everybody may take it, or he is not online and nothing changes.
\<close>

definition item_outcome :: "gworld \<Rightarrow> roll \<Rightarrow> loot \<Rightarrow> loot_item \<Rightarrow> u64 \<Rightarrow> RollVote \<Rightarrow> loot \<Rightarrow> bool" where
  "item_outcome w r x li winner v x' =
     (if \<not> online w winner then x' = x
      else x' = taken (r_itemSlot r) x
        \<or> (x' = unblocked (r_itemSlot r) x \<and> v \<noteq> DISENCHANT
           \<and> (\<exists>log. ge_can_store (gs_env w) log winner (r_itemid r) (li_count li) \<noteq> EQUIP_ERR_OK)))"

lemma find_player_shape: "shape w' = shape w \<Longrightarrow> find_player w' g = find_player w g"
  using shape_eqD(3) [of w' w] by (simp add: find_player_def)

lemma award_need_outcome:
  assumes "gs_loots w l = Some x" "slot_item x (r_itemSlot r) = Some li" "taking_part (\<lambda>v. v = NEED) r \<noteq> []"
  shows "\<exists>k x'. wins w (length (taking_part (\<lambda>v. v = NEED) r)) k \<and> gs_loots (award_need l r w) l = Some x'
     \<and> item_outcome w r x li (fst (taking_part (\<lambda>v. v = NEED) r ! k)) NEED x'"
proof -
  obtain m g v w1 where rv: "roll_votes (\<lambda>v. v = NEED) (\<lambda>v. ROLL_NEED) r w = (m, g, v, w1)"
    by (cases "roll_votes (\<lambda>v. v = NEED) (\<lambda>v. ROLL_NEED) r w") auto
  obtain k where k: "wins w (length (taking_part (\<lambda>v. v = NEED) r)) k" "taking_part (\<lambda>v. v = NEED) r ! k = (g, v)"
    using roll_votes_winner [OF assms(3) rv] by blast
  let ?w2 = "SendLootRollWon 0 g m ROLL_NEED r w1"
  have sh: "shape ?w2 = shape w" using shape_roll_votes [OF rv] by (simp add: shape_simps)
  have x: "gs_loots ?w2 l = Some x" using loots_roll_votes [OF rv] assms(1) by simp
  have ne: "r_playerVote r \<noteq> []" using assms(3) by (auto simp: taking_part_def)
  have "gs_loots (award_need l r w) l = Some (if online w g
      then (if ge_can_store (gs_env w) (gs_log (act (Call g (UpdateAchievementCriteria_rollneed (r_itemid r) m)) ?w2)) g (r_itemid r) (li_count li) = EQUIP_ERR_OK
            then taken (r_itemSlot r) x else unblocked (r_itemSlot r) x) else x)"
    using loots_give_item [of "act (Call g (UpdateAchievementCriteria_rollneed (r_itemid r) m)) ?w2" l x r li g] x assms(2) ne
      find_player_shape [OF sh] shape_eqD(4) [OF sh]
    by (simp add: award_need_def rv Let_def) (simp add: act_def)
  then show ?thesis using k by (intro exI [of _ k]) (auto simp: item_outcome_def)
qed

lemma award_greed_outcome:
  fixes P :: "RollVote \<Rightarrow> bool"
  defines "P \<equiv> \<lambda>v. v = GREED \<or> v = DISENCHANT"
  assumes "gs_loots w l = Some x" "slot_item x (r_itemSlot r) = Some li" "taking_part P r \<noteq> []"
  shows "\<exists>k x'. wins w (length (taking_part P r)) k \<and> gs_loots (award_greed l r w) l = Some x'
     \<and> item_outcome w r x li (fst (taking_part P r ! k)) (snd (taking_part P r ! k)) x'"
proof -
  obtain m g v w1 where rv: "roll_votes P vote_num r w = (m, g, v, w1)" by (cases "roll_votes P vote_num r w") auto
  obtain k where k: "wins w (length (taking_part P r)) k" "taking_part P r ! k = (g, v)"
    using roll_votes_winner [OF assms(4) rv] by blast
  then have v: "v = GREED \<or> v = DISENCHANT"
    using nth_mem [of k "taking_part P r"] by (auto simp: wins_def taking_part_def P_def)
  let ?w3 = "act (Call g (UpdateAchievementCriteria_rollgreed (r_itemid r) m)) (SendLootRollWon 0 g m (vote_num v) r w1)"
  have sh: "shape ?w3 = shape w" using shape_roll_votes [OF rv] by (simp add: shape_simps)
  have x: "gs_loots ?w3 l = Some x" using loots_roll_votes [OF rv] assms(2) by simp
  have ne: "r_playerVote r \<noteq> []" using assms(4) by (auto simp: taking_part_def)
  have on: "online (SendLootRollWon 0 g m (vote_num v) r w1) g \<longleftrightarrow> online w g"
    using find_player_shape [OF sh] by (simp add: find_player_def act_def)
  have aw: "award_greed l r w = (if online w g then (if v = GREED then give_item l r g ?w3 else disenchant_item l r g ?w3)
      else SendLootRollWon 0 g m (vote_num v) r w1)"
    using ne v on by (auto simp: award_greed_def rv [unfolded P_def] Let_def)
  have "\<exists>x'. gs_loots (award_greed l r w) l = Some x' \<and> item_outcome w r x li g v x'"
    using loots_give_item [OF x assms(3), of g] loots_disenchant_item [OF x, of r g] assms(3) shape_eqD(4) [OF sh] v
      loots_roll_votes [OF rv] assms(2)
    by (auto simp: aw item_outcome_def)
  then show ?thesis using k by auto
qed

lemma votes_for_pos: "votes_for P r > 0 \<longleftrightarrow> taking_part P r \<noteq> []"
  by (simp add: votes_for_def map_count_def taking_part_def)

text \<open>The votes that decide: those for need if there are any, otherwise those for greed and disenchanting.\<close>

definition deciding :: "roll \<Rightarrow> (u64 \<times> RollVote) list" where
  "deciding r = (if taking_part (\<lambda>v. v = NEED) r \<noteq> [] then taking_part (\<lambda>v. v = NEED) r
                 else taking_part (\<lambda>v. v = GREED \<or> v = DISENCHANT) r)"

lemma loots_erase_roll [simp]: "gs_loots (erase_roll p i w) = gs_loots w"
  by (simp add: erase_roll_def)


section \<open>Voting\<close>

lemma shape_send_vote [shape_simps]: "shape (send_vote m c r w) = shape w"
  by (simp add: send_vote_def shape_simps)

text \<open>A participant's vote on a roll whose loot still has its items.\<close>

definition votable :: "gworld \<Rightarrow> group \<Rightarrow> u64 \<Rightarrow> u64 \<Rightarrow> nat \<Rightarrow> bool" where
  "votable w g m guid i \<longleftrightarrow> GetRoll g guid = Some i \<and> map_find (r_playerVote (RollId g ! i)) m \<noteq> None
     \<and> (\<exists>l x. r_loot (RollId g ! i) = Some l \<and> gs_loots w l = Some x \<and> l_items x \<noteq> [])"

lemma CountRollVote_groups:
  assumes "gs_groups w p = Some g" "votable w g m guid i" and r1_def: "r1 = cast_vote m c (RollId g ! i)"
  shows "gs_groups (CountRollVote p m guid c w) =
    (gs_groups w)(p \<mapsto> g\<lparr>RollId := (if all_voted r1 then nth_erase i (RollId g) else (RollId g)[i := r1])\<rparr>)"
proof -
  let ?w1 = "send_vote m c (RollId g ! i) w"
  let ?w2 = "modg p (\<lambda>g. g\<lparr>RollId := (RollId g)[i := r1]\<rparr>) ?w1"
  have w1: "gs_groups ?w1 = gs_groups w" by (rule shape_eqD) (rule shape_send_vote)
  have w2: "gs_groups ?w2 = (gs_groups w)(p \<mapsto> g\<lparr>RollId := (RollId g)[i := r1]\<rparr>)"
    using w1 assms(1) by (simp add: modg_def with_group_def)
  have "nth_erase i ((RollId g)[i := r1]) = nth_erase i (RollId g)" by (simp add: nth_erase_def)
  then have "gs_groups (CountTheRoll p i ?w2) = (gs_groups w)(p \<mapsto> g\<lparr>RollId := nth_erase i (RollId g)\<rparr>)"
    using CountTheRoll_group [of ?w2 p "g\<lparr>RollId := (RollId g)[i := r1]\<rparr>" i] w2 by simp
  then show ?thesis
    using assms(1,2) w2 by (auto simp: CountRollVote_def with_group_def votable_def Let_def r1_def)
qed

text \<open>
  C36: the first vote of a player who may roll: when it is the last one missing, the roll is counted and leaves the
  list; otherwise the roll stays with the vote recorded, its counters are again the numbers of votes, and
  every other roll of the group is unchanged. Neither a vote on an unknown roll nor one of a player who
  does not take part changes anything.
\<close>

theorem vote_outcome:
  assumes "gs_groups w p = Some g" "\<forall>r \<in> set (RollId g). roll_ok r" "c < MAX_ROLL_TYPE"
  shows "(votable w g m guid i \<and> map_find (r_playerVote (RollId g ! i)) m = Some NOT_EMITED_YET \<longrightarrow>
           (let r1 = cast_vote m c (RollId g ! i) in
            roll_ok r1 \<and> map_find (r_playerVote r1) m = Some (choice_vote c)
            \<and> gs_groups (CountRollVote p m guid c w) = (gs_groups w)(p \<mapsto> g\<lparr>RollId :=
                (if \<exists>k. k \<noteq> m \<and> map_find (r_playerVote (RollId g ! i)) k = Some NOT_EMITED_YET
                 then (RollId g)[i := r1] else nth_erase i (RollId g))\<rparr>)))
     \<and> (GetRoll g guid = None \<or> (\<exists>i. GetRoll g guid = Some i \<and> map_find (r_playerVote (RollId g ! i)) m = None)
          \<longrightarrow> CountRollVote p m guid c w = w)"
proof -
  have "let r1 = cast_vote m c (RollId g ! i) in
            roll_ok r1 \<and> map_find (r_playerVote r1) m = Some (choice_vote c)
            \<and> gs_groups (CountRollVote p m guid c w) = (gs_groups w)(p \<mapsto> g\<lparr>RollId :=
                (if \<exists>k. k \<noteq> m \<and> map_find (r_playerVote (RollId g ! i)) k = Some NOT_EMITED_YET
                 then (RollId g)[i := r1] else nth_erase i (RollId g))\<rparr>)"
    if v: "votable w g m guid i" "map_find (r_playerVote (RollId g ! i)) m = Some NOT_EMITED_YET"
  proof -
    let ?r = "RollId g ! i" and ?r1 = "cast_vote m c (RollId g ! i)"
    have "i < length (RollId g)" using v(1) find_index_Some by (auto simp: votable_def GetRoll_def)
    then have ok: "roll_ok ?r" using assms(2) by simp
    have ok1: "roll_ok ?r1" by (rule cast_vote_ok [OF ok v(2)])
    have find1: "map_find (r_playerVote ?r1) k = (if k = m then Some (choice_vote c) else map_find (r_playerVote ?r) k)" for k
      by (simp add: cast_vote_votes [OF assms(3)] container_simps)
    have "all_voted ?r1 \<longleftrightarrow> (\<forall>k. map_find (r_playerVote ?r1) k \<noteq> Some NOT_EMITED_YET)"
      using all_voted_iff [OF ok1] ok1 map_wf_mem_iff [of "r_playerVote ?r1" _ NOT_EMITED_YET]
      by (fastforce simp: roll_ok_def simp del: map_wf_mem_iff)
    also have "\<dots> \<longleftrightarrow> \<not> (\<exists>k. k \<noteq> m \<and> map_find (r_playerVote ?r) k = Some NOT_EMITED_YET)"
      unfolding find1 by (auto simp: choice_vote_def)
    finally show ?thesis
      using CountRollVote_groups [OF assms(1) v(1) refl, of c] ok1 find1 by (auto simp: Let_def)
  qed
  moreover have "CountRollVote p m guid c w = w"
    if "GetRoll g guid = None \<or> (\<exists>i. GetRoll g guid = Some i \<and> map_find (r_playerVote (RollId g ! i)) m = None)"
    using that assms(1) by (auto simp: CountRollVote_def with_group_def Let_def)
  ultimately show ?thesis by blast
qed

text \<open>
  C37: \<^verbatim>\<open>CountRollVote\<close> does not test whether the player has voted already: when one vote is missing, a second vote of
  a player who has voted ends the roll, and the player who had not voted is never heard.
\<close>

theorem second_vote_ends_roll:
  assumes "gs_groups w p = Some g" "votable w g m guid i" "roll_ok (RollId g ! i)" "c < MAX_ROLL_TYPE"
    and "length (r_playerVote (RollId g ! i)) < 255"
    and voted: "map_find (r_playerVote (RollId g ! i)) m \<noteq> Some NOT_EMITED_YET"
    and missing: "votes_for (\<lambda>v. v = NOT_EMITED_YET) (RollId g ! i) = 1"
  shows "gs_groups (CountRollVote p m guid c w) = (gs_groups w)(p \<mapsto> g\<lparr>RollId := nth_erase i (RollId g)\<rparr>)
     \<and> (\<exists>k. k \<noteq> m \<and> map_find (r_playerVote (RollId g ! i)) k = Some NOT_EMITED_YET)"
proof -
  let ?r = "RollId g ! i"
  note cnt = roll_ok_counts [OF assms(3)]
  have sum: "unat (r_totalPass ?r) + unat (r_totalNeed ?r) + unat (r_totalGreed ?r) + 1 = unat (r_totalPlayersRolling ?r)"
    using map_count_cases [of "r_playerVote ?r"] assms(3) missing cnt by (simp add: votes_for_def roll_ok_def)
  have suc: "unat (x + 1) = Suc (unat x)" if "unat x < 255" for x :: u8
    using that by (simp add: unat_add_lem [THEN iffD1])
  have "unat (r_totalPass ?r) < 255" "unat (r_totalNeed ?r) < 255" "unat (r_totalGreed ?r) < 255"
    using sum cnt(4) assms(5) by linarith+
  then have "all_voted (cast_vote m c ?r)"
    using sum assms(4) suc
    by (auto simp: all_voted_def cast_vote_def roll_types word_less_nat_alt word_unat_eq_iff)
  moreover obtain k where "(k, NOT_EMITED_YET) \<in> set (r_playerVote ?r)"
    using missing votes_for_pos [of "\<lambda>v. v = NOT_EMITED_YET" ?r] by (auto simp: taking_part_def filter_empty_conv)
  then have "map_find (r_playerVote ?r) k = Some NOT_EMITED_YET"
    using assms(3) by (intro map_wf_mem) (simp_all add: roll_ok_def)
  then have "\<exists>k. k \<noteq> m \<and> map_find (r_playerVote ?r) k = Some NOT_EMITED_YET" using voted by auto
  ultimately show ?thesis using CountRollVote_groups [OF assms(1,2) refl, of c] by simp
qed


section \<open>Leaving during a roll\<close>

definition leave_vote :: "u64 \<Rightarrow> roll \<Rightarrow> roll" where
  "leave_vote guid r = (case map_find (r_playerVote r) guid of None \<Rightarrow> r | Some v \<Rightarrow> withdraw_vote guid v r)"

lemma withdraw_sel [simp]:
  "r_itemGUID (withdraw_vote guid v r) = r_itemGUID r" "r_loot (withdraw_vote guid v r) = r_loot r"
  "r_playerVote (withdraw_vote guid v r) = map_erase guid (r_playerVote r)"
  by (simp_all add: withdraw_vote_def Let_def)

lemma GetRoll_guid:
  assumes "distinct (map r_itemGUID (RollId g))" "i < length (RollId g)" "GetRoll g (r_itemGUID (RollId g ! i)) = Some j"
  shows "j = i"
  using find_index_Some [OF assms(3) [unfolded GetRoll_def]] assms(1,2) by (auto simp: distinct_conv_nth)

lemma leave_roll_step:
  assumes g: "gs_groups w p = Some g" and d: "distinct (map r_itemGUID (RollId g))" and i: "i < length (RollId g)"
  shows "leave_roll p guid i w = w\<lparr>gs_groups := (gs_groups w)(p \<mapsto> g\<lparr>RollId := (RollId g)[i := leave_vote guid (RollId g ! i)]\<rparr>)\<rparr>"
proof (cases "map_find (r_playerVote (RollId g ! i)) guid")
  case None
  then have "leave_roll p guid i w = w" using g by (simp add: leave_roll_def with_group_def Let_def)
  moreover have "w\<lparr>gs_groups := (gs_groups w)(p \<mapsto> g\<lparr>RollId := (RollId g)[i := leave_vote guid (RollId g ! i)]\<rparr>)\<rparr> = w"
    using None g by (simp add: leave_vote_def fun_upd_idem)
  ultimately show ?thesis by simp
next
  case (Some v)
  let ?r = "withdraw_vote guid v (RollId g ! i)"
  let ?g1 = "g\<lparr>RollId := (RollId g)[i := ?r]\<rparr>"
  let ?w1 = "w\<lparr>gs_groups := (gs_groups w)(p \<mapsto> ?g1)\<rparr>"
  have "map r_itemGUID (RollId ?g1) = map r_itemGUID (RollId g)"
    using i by (simp add: map_update) (metis list_update_id nth_map)
  then have d1: "distinct (map r_itemGUID (RollId ?g1))" using d by simp
  have "GetRoll ?g1 (r_itemGUID (RollId g ! i)) = None \<or>
      (\<exists>j. GetRoll ?g1 (r_itemGUID (RollId g ! i)) = Some j \<and> map_find (r_playerVote (RollId ?g1 ! j)) guid = None)"
  proof (cases "GetRoll ?g1 (r_itemGUID (RollId g ! i))")
    case (Some j)
    then have "j = i" using GetRoll_guid [OF d1, of i j] i by simp
    then show ?thesis using Some i by (simp add: container_simps)
  qed simp
  then have "CountRollVote p guid (r_itemGUID (RollId g ! i)) MAX_ROLL_TYPE ?w1 = ?w1"
    by (auto simp: CountRollVote_def with_group_def Let_def)
  moreover have "modg p (\<lambda>g. g\<lparr>RollId := (RollId g)[i := ?r]\<rparr>) w = ?w1"
    using g by (simp add: modg_def with_group_def)
  ultimately show ?thesis using Some g by (simp add: leave_roll_def with_group_def Let_def leave_vote_def)
qed

lemma leave_rolls_eq:
  assumes "gs_groups w p = Some g" "distinct (map r_itemGUID (RollId g))"
  shows "leave_rolls p guid w = w\<lparr>gs_groups := (gs_groups w)(p \<mapsto> g\<lparr>RollId := map (leave_vote guid) (RollId g)\<rparr>)\<rparr>"
proof -
  let ?R = "RollId g"
  have keep: "r_itemGUID (leave_vote guid r) = r_itemGUID r" for r by (simp add: leave_vote_def split: option.split)
  have "fold (leave_roll p guid) [0..<n] w =
      w\<lparr>gs_groups := (gs_groups w)(p \<mapsto> g\<lparr>RollId := map (leave_vote guid) (take n ?R) @ drop n ?R\<rparr>)\<rparr>" if "n \<le> length ?R" for n
    using that
  proof (induction n)
    case 0
    show ?case using assms(1) by (simp add: fun_upd_idem)
  next
    case (Suc n)
    let ?Rn = "map (leave_vote guid) (take n ?R) @ drop n ?R"
    let ?wn = "w\<lparr>gs_groups := (gs_groups w)(p \<mapsto> g\<lparr>RollId := ?Rn\<rparr>)\<rparr>"
    have n: "n < length ?Rn" "?Rn ! n = ?R ! n" using Suc.prems by (auto simp: nth_append)
    have "map r_itemGUID ?Rn = map r_itemGUID (take n ?R) @ map r_itemGUID (drop n ?R)" by (simp add: keep)
    then have "distinct (map r_itemGUID ?Rn)" using assms(2) by (simp only: map_append [symmetric] append_take_drop_id)
    then have "leave_roll p guid n ?wn = ?wn\<lparr>gs_groups := (gs_groups ?wn)(p \<mapsto> g\<lparr>RollId := ?Rn[n := leave_vote guid (?R ! n)]\<rparr>)\<rparr>"
      using leave_roll_step [of ?wn p "g\<lparr>RollId := ?Rn\<rparr>" n guid] n by simp
    moreover have "?Rn[n := leave_vote guid (?R ! n)] = map (leave_vote guid) (take (Suc n) ?R) @ drop (Suc n) ?R"
      using Suc.prems by (simp add: list_update_append take_Suc_conv_app_nth Cons_nth_drop_Suc [symmetric] upd_conv_take_nth_drop)
    ultimately show ?case using Suc by (simp del: fun_upd_apply)
  qed
  from this [of "length ?R"] show ?thesis
    using assms(1) by (simp add: leave_rolls_def with_group_def del: fun_upd_apply)
qed

text \<open>
  C39: when a member leaves while items are rolled for, his vote and his share of the counters are withdrawn from every roll
  he takes part in, the loop's iterator stays valid, and nothing else happens: no roll is counted, not even
  one for which everybody who is left has voted; it waits for the timer.
\<close>

theorem leaving_withdraws_votes:
  assumes "gs_groups w p = Some g" "distinct (map r_itemGUID (RollId g))" "\<forall>r \<in> set (RollId g). roll_ok r"
  shows "leave_rolls p guid w = w\<lparr>gs_groups := (gs_groups w)(p \<mapsto> g\<lparr>RollId := map (leave_vote guid) (RollId g)\<rparr>)\<rparr>
     \<and> (\<forall>r \<in> set (map (leave_vote guid) (RollId g)). roll_ok r \<and> map_find (r_playerVote r) guid = None)"
proof -
  have "roll_ok (leave_vote guid r) \<and> map_find (r_playerVote (leave_vote guid r)) guid = None" if "r \<in> set (RollId g)" for r
    using assms(3) that withdraw_vote_ok by (auto simp: leave_vote_def container_simps split: option.split)
  then show ?thesis using leave_rolls_eq [OF assms(1,2)] by auto
qed

end
