(* ===== verification/Group_Handlers.thy ===== *)
theory Group_Handlers
  imports Group_Members
begin

text \<open>
  The packet handlers of \<^verbatim>\<open>src/src/server/game/Handlers/GroupHandler.cpp\<close>, with the fields of the client's
  packet as arguments and the session's player as \<open>me\<close>, and what login and logout do to a player's group
  (\<^verbatim>\<open>Player::_LoadGroup\<close>, \<^verbatim>\<open>WorldSession::LogoutPlayer\<close>, the destructor of \<^verbatim>\<open>GroupReference\<close>).
  \<^verbatim>\<open>HandleMinimapPingOpcode\<close> relays two floating point numbers and \<^verbatim>\<open>HandleRequestPartyMemberStatsOpcode\<close>
  builds a packet of unit statistics; these two are not modelled.
\<close>

section \<open>Constants\<close>

definition PARTY_OP_INVITE :: u32 where "PARTY_OP_INVITE = 0"
definition PARTY_OP_UNINVITE :: u32 where "PARTY_OP_UNINVITE = 1"
definition PARTY_OP_LEAVE :: u32 where "PARTY_OP_LEAVE = 2"

definition ERR_PARTY_RESULT_OK :: u32 where "ERR_PARTY_RESULT_OK = 0"
definition ERR_BAD_PLAYER_NAME_S :: u32 where "ERR_BAD_PLAYER_NAME_S = 1"
definition ERR_TARGET_NOT_IN_GROUP_S :: u32 where "ERR_TARGET_NOT_IN_GROUP_S = 2"
definition ERR_TARGET_NOT_IN_INSTANCE_S :: u32 where "ERR_TARGET_NOT_IN_INSTANCE_S = 3"
definition ERR_GROUP_FULL :: u32 where "ERR_GROUP_FULL = 4"
definition ERR_ALREADY_IN_GROUP_S :: u32 where "ERR_ALREADY_IN_GROUP_S = 5"
definition ERR_NOT_IN_GROUP :: u32 where "ERR_NOT_IN_GROUP = 6"
definition ERR_NOT_LEADER :: u32 where "ERR_NOT_LEADER = 7"
definition ERR_PLAYER_WRONG_FACTION :: u32 where "ERR_PLAYER_WRONG_FACTION = 8"
definition ERR_IGNORING_YOU_S :: u32 where "ERR_IGNORING_YOU_S = 9"
definition ERR_INVITE_RESTRICTED :: u32 where "ERR_INVITE_RESTRICTED = 13"
definition ERR_PARTY_LFG_BOOT_LIMIT :: u32 where "ERR_PARTY_LFG_BOOT_LIMIT = 20"
definition ERR_PARTY_LFG_BOOT_IN_PROGRESS :: u32 where "ERR_PARTY_LFG_BOOT_IN_PROGRESS = 22"
definition ERR_PARTY_LFG_BOOT_TOO_FEW_PLAYERS :: u32 where "ERR_PARTY_LFG_BOOT_TOO_FEW_PLAYERS = 23"
definition ERR_PARTY_LFG_BOOT_IN_COMBAT :: u32 where "ERR_PARTY_LFG_BOOT_IN_COMBAT = 26"
definition ERR_PARTY_LFG_BOOT_DUNGEON_COMPLETE :: u32 where "ERR_PARTY_LFG_BOOT_DUNGEON_COMPLETE = 28"
definition ERR_PARTY_LFG_BOOT_LOOT_ROLLS :: u32 where "ERR_PARTY_LFG_BOOT_LOOT_ROLLS = 29"

lemmas party_results = ERR_PARTY_RESULT_OK_def ERR_BAD_PLAYER_NAME_S_def ERR_TARGET_NOT_IN_GROUP_S_def
  ERR_TARGET_NOT_IN_INSTANCE_S_def ERR_GROUP_FULL_def ERR_ALREADY_IN_GROUP_S_def ERR_NOT_IN_GROUP_def
  ERR_NOT_LEADER_def ERR_PLAYER_WRONG_FACTION_def ERR_IGNORING_YOU_S_def ERR_INVITE_RESTRICTED_def
  ERR_PARTY_LFG_BOOT_LIMIT_def ERR_PARTY_LFG_BOOT_IN_PROGRESS_def ERR_PARTY_LFG_BOOT_TOO_FEW_PLAYERS_def
  ERR_PARTY_LFG_BOOT_IN_COMBAT_def ERR_PARTY_LFG_BOOT_DUNGEON_COMPLETE_def ERR_PARTY_LFG_BOOT_LOOT_ROLLS_def

definition SMSG_GROUP_INVITE :: u16 where "SMSG_GROUP_INVITE = 0x06F"
definition SMSG_GROUP_DECLINE :: u16 where "SMSG_GROUP_DECLINE = 0x074"
definition SMSG_PARTY_COMMAND_RESULT :: u16 where "SMSG_PARTY_COMMAND_RESULT = 0x07F"
definition MSG_RANDOM_ROLL :: u16 where "MSG_RANDOM_ROLL = 0x1FB"

definition LFG_GROUP_KICK_VOTES_NEEDED :: nat where "LFG_GROUP_KICK_VOTES_NEEDED = 3"
definition GROUP_ASSIGN_MAINTANK :: u8 where "GROUP_ASSIGN_MAINTANK = 0"
definition GROUP_ASSIGN_MAINASSIST :: u8 where "GROUP_ASSIGN_MAINASSIST = 1"

section \<open>Invitation\<close>

definition SendPartyResult :: "u64 \<Rightarrow> u32 \<Rightarrow> string \<Rightarrow> u32 \<Rightarrow> gworld \<Rightarrow> gworld" where
  "SendPartyResult me operation member res w =
     send me (stream [FU32 operation, FStr member, FU32 res, FU32 0] (WorldPacket SMSG_PARTY_COMMAND_RESULT)) w"

definition group_invite_packet :: "u8 \<Rightarrow> string \<Rightarrow> world_packet" where
  "group_invite_packet flag name = stream [FU8 flag, FStr name, FU32 0, FU8 0, FU32 0] (WorldPacket SMSG_GROUP_INVITE)"

text \<open>The handler looks through battleground raids only, \<^verbatim>\<open>AddInvite\<close> through battlefield raids too.\<close>

definition handler_group :: "gworld \<Rightarrow> u64 \<Rightarrow> gptr option" where
  "handler_group w guid =
     (case GetGroup w guid of
        None \<Rightarrow> None
      | Some q \<Rightarrow> (case gs_groups w q of None \<Rightarrow> Some q | Some g \<Rightarrow> if isBGGroup g then GetOriginalGroup w guid else Some q))"

text \<open>The tests before anything is done: the first one that fails decides the answer.\<close>

definition invite_error :: "gworld \<Rightarrow> player \<Rightarrow> player \<Rightarrow> u32 option" where
  "invite_error w me other =
     (let m = gs_pl w (pl_guid me); d = gs_pl w (pl_guid other); e = gs_env w in
      if \<not> ge_allow_gm_group e \<and> \<not> pg_gameMaster m \<and> pg_gameMaster d then Some ERR_BAD_PLAYER_NAME_S
      else if \<not> pg_gameMaster m \<and> \<not> ge_two_side_group e \<and> pl_team me \<noteq> pl_team other then Some ERR_PLAYER_WRONG_FACTION
      else if pg_instanceId m \<noteq> 0 \<and> pg_instanceId d \<noteq> 0 \<and> pg_instanceId m \<noteq> pg_instanceId d \<and> pg_mapId m = pg_mapId d
        then Some ERR_TARGET_NOT_IN_INSTANCE_S
      else if pg_instanceId d \<noteq> 0 \<and> pg_dungeonDifficulty d \<noteq> pg_dungeonDifficulty m then Some ERR_IGNORING_YOU_S
      else if HasIgnore (GUID_LOPART (pl_guid me)) (pg_social d) then Some ERR_IGNORING_YOU_S
      else None)"

text \<open>
  The invitation itself. When the invitation of the second player fails, the new group is deleted although
  the first one has been invited to it.
\<close>

definition do_invite :: "player \<Rightarrow> u64 \<Rightarrow> gptr option \<Rightarrow> gworld \<Rightarrow> bool \<times> gworld" where
  "do_invite me other grp w =
     (case grp of
        None \<Rightarrow>
          (let (p, w1) = new_group w
           in case AddLeaderInvite p me w1 of
                (False, w2) \<Rightarrow> (False, delete_group p w2)
              | (True, w2) \<Rightarrow>
                  (case AddInvite p other w2 of
                     (False, w3) \<Rightarrow> (False, delete_group p w3)
                   | (True, w3) \<Rightarrow> (True, w3)))
      | Some p \<Rightarrow> AddInvite p other w)"

definition invite_permission :: "gworld \<Rightarrow> u64 \<Rightarrow> gptr option \<Rightarrow> u32 option" where
  "invite_permission w me grp =
     (case grp of
        None \<Rightarrow> None
      | Some p \<Rightarrow>
          (case gs_groups w p of
             None \<Rightarrow> None
           | Some g \<Rightarrow>
               (if \<not> IsLeader g me \<and> \<not> IsAssistant g me then Some ERR_NOT_LEADER
                else if IsFull g then Some ERR_GROUP_FULL else None)))"

definition HandleGroupInviteOpcode :: "player \<Rightarrow> string \<Rightarrow> gworld \<Rightarrow> gworld" where
  "HandleGroupInviteOpcode me membername0 w =
     (let guid = pl_guid me in
      case ge_normalize (gs_env w) membername0 of
        None \<Rightarrow> SendPartyResult guid PARTY_OP_INVITE membername0 ERR_BAD_PLAYER_NAME_S w
      | Some membername \<Rightarrow>
          (case FindPlayerByName (gs_world w) membername of
             None \<Rightarrow> SendPartyResult guid PARTY_OP_INVITE membername ERR_BAD_PLAYER_NAME_S w
           | Some other \<Rightarrow>
               (case invite_error w me other of
                  Some err \<Rightarrow> SendPartyResult guid PARTY_OP_INVITE membername err w
                | None \<Rightarrow>
                    (let grp = handler_group w guid;
                         grp2 = handler_group w (pl_guid other)
                     in if grp2 \<noteq> None \<or> pg_groupInvite (gs_pl w (pl_guid other)) \<noteq> None
                        then
                          let w1 = SendPartyResult guid PARTY_OP_INVITE membername ERR_ALREADY_IN_GROUP_S w
                          in if grp2 \<noteq> None then send (pl_guid other) (group_invite_packet 0 (pl_name me)) w1 else w1
                        else
                          (case invite_permission w guid grp of
                             Some err \<Rightarrow> SendPartyResult guid PARTY_OP_INVITE [] err w
                           | None \<Rightarrow>
                               (case do_invite me (pl_guid other) grp w of
                                  (False, w1) \<Rightarrow> w1
                                | (True, w1) \<Rightarrow>
                                    SendPartyResult guid PARTY_OP_INVITE membername ERR_PARTY_RESULT_OK
                                      (send (pl_guid other) (group_invite_packet 1 (pl_name me)) w1)))))))"

section \<open>Answering an invitation\<close>

definition accept_create :: "gptr \<Rightarrow> player \<Rightarrow> gworld \<Rightarrow> gworld" where
  "accept_create p leader w = AddGroup p (snd (Create p leader (RemoveInvite p (pl_guid leader) w)))"

definition accept_join :: "gptr \<Rightarrow> player \<Rightarrow> gworld \<Rightarrow> gworld" where
  "accept_join p me w =
     (case AddMember p me w of (False, w1) \<Rightarrow> w1 | (True, w1) \<Rightarrow> BroadcastGroupUpdate p w1)"

definition HandleGroupAcceptOpcode :: "player \<Rightarrow> gworld \<Rightarrow> gworld" where
  "HandleGroupAcceptOpcode me w =
     (case pg_groupInvite (gs_pl w (pl_guid me)) of
        None \<Rightarrow> w
      | Some p \<Rightarrow>
          (let w1 = RemoveInvite p (pl_guid me) w
           in with_group p w1 (\<lambda>g.
                if m_leaderGuid g = pl_guid me then w1
                else if IsFull g then SendPartyResult (pl_guid me) PARTY_OP_INVITE [] ERR_GROUP_FULL w1
                else if \<not> IsCreated g
                then (case find_player w1 (m_leaderGuid g) of
                        None \<Rightarrow> RemoveAllInvites p w1
                      | Some leader \<Rightarrow> accept_join p me (accept_create p leader w1))
                else accept_join p me w1)))"

definition HandleGroupDeclineOpcode :: "player \<Rightarrow> gworld \<Rightarrow> gworld" where
  "HandleGroupDeclineOpcode me w =
     (case pg_groupInvite (gs_pl w (pl_guid me)) of
        None \<Rightarrow> w
      | Some p \<Rightarrow>
          with_group p w (\<lambda>g.
            let w1 = UninviteFromGroup (pl_guid me) w
            in case find_player w (m_leaderGuid g) of
                 None \<Rightarrow> w1
               | Some leader \<Rightarrow>
                   send (pl_guid leader) (stream [FStr (pl_name me)] (WorldPacket SMSG_GROUP_DECLINE)) w1))"

section \<open>Removing members\<close>

definition CanUninviteFromGroup :: "gworld \<Rightarrow> u64 \<Rightarrow> u32" where
  "CanUninviteFromGroup w guid =
     (case GetGroup w guid of
        None \<Rightarrow> ERR_NOT_IN_GROUP
      | Some p \<Rightarrow>
          (case gs_groups w p of
             None \<Rightarrow> ERR_NOT_IN_GROUP
           | Some g \<Rightarrow>
               (if isLFGGroup g
                then
                  (if \<not> ge_lfg_kicks_left (gs_env w) (m_guid g) then ERR_PARTY_LFG_BOOT_LIMIT
                   else if ge_lfg_boot (gs_env w) (m_guid g) then ERR_PARTY_LFG_BOOT_IN_PROGRESS
                   else if GetMembersCount g \<le> LFG_GROUP_KICK_VOTES_NEEDED then ERR_PARTY_LFG_BOOT_TOO_FEW_PLAYERS
                   else if ge_lfg_finished (gs_env w) (m_guid g) then ERR_PARTY_LFG_BOOT_DUNGEON_COMPLETE
                   else if isRollLootActive g then ERR_PARTY_LFG_BOOT_LOOT_ROLLS
                   else if \<exists>r \<in> set (m_memberMgr g). pg_inCombat (gs_pl w (fst r)) then ERR_PARTY_LFG_BOOT_IN_COMBAT
                   else ERR_PARTY_RESULT_OK)
                else
                  (if \<not> IsLeader g guid \<and> \<not> IsAssistant g guid then ERR_NOT_LEADER
                   else if pg_inBattleground (gs_pl w guid) then ERR_INVITE_RESTRICTED
                   else ERR_PARTY_RESULT_OK))))"

text \<open>A member is removed; a bot is logged out by its master instead.\<close>

definition kick_member :: "u64 \<Rightarrow> gptr \<Rightarrow> u64 \<Rightarrow> string \<Rightarrow> gworld \<Rightarrow> gworld" where
  "kick_member me p guid reason w =
     (if online w guid \<and> pg_isBot (gs_pl w guid) then act (Call me (LogoutPlayerBot guid)) w
      else RemoveFromGroup (Some p) guid GROUP_REMOVEMETHOD_KICK me reason w)"

definition HandleGroupUninviteGuidOpcode :: "player \<Rightarrow> u64 \<Rightarrow> string \<Rightarrow> gworld \<Rightarrow> gworld" where
  "HandleGroupUninviteGuidOpcode me guid reason w =
     (let mg = pl_guid me in
      if guid = mg then w
      else
        let res = CanUninviteFromGroup w mg
        in if res \<noteq> ERR_PARTY_RESULT_OK then SendPartyResult mg PARTY_OP_UNINVITE [] res w
           else case GetGroup w mg of
                  None \<Rightarrow> w
                | Some p \<Rightarrow>
                    with_group p w (\<lambda>g.
                      if IsLeader g guid then SendPartyResult mg PARTY_OP_UNINVITE [] ERR_NOT_LEADER w
                      else if IsMember g guid then kick_member mg p guid reason w
                      else if GetInvited g guid \<noteq> None then UninviteFromGroup guid w
                      else SendPartyResult mg PARTY_OP_UNINVITE [] ERR_TARGET_NOT_IN_GROUP_S w))"

definition HandleGroupUninviteOpcode :: "player \<Rightarrow> string \<Rightarrow> gworld \<Rightarrow> gworld" where
  "HandleGroupUninviteOpcode me membername0 w =
     (let mg = pl_guid me in
      case ge_normalize (gs_env w) membername0 of
        None \<Rightarrow> w
      | Some membername \<Rightarrow>
          (if pl_name me = membername then w
           else
             let res = CanUninviteFromGroup w mg
             in if res \<noteq> ERR_PARTY_RESULT_OK then SendPartyResult mg PARTY_OP_UNINVITE [] res w
                else case GetGroup w mg of
                       None \<Rightarrow> w
                     | Some p \<Rightarrow>
                         with_group p w (\<lambda>g.
                           if GetMemberGUID g membername \<noteq> 0 then kick_member mg p (GetMemberGUID g membername) [] w
                           else case GetInvited_name w g membername of
                                  Some i \<Rightarrow> UninviteFromGroup i w
                                | None \<Rightarrow> SendPartyResult mg PARTY_OP_UNINVITE membername ERR_TARGET_NOT_IN_GROUP_S w)))"

definition HandleGroupDisbandOpcode :: "player \<Rightarrow> gworld \<Rightarrow> gworld" where
  "HandleGroupDisbandOpcode me w =
     (let mg = pl_guid me in
      case GetGroup w mg of
        None \<Rightarrow> w
      | Some p \<Rightarrow>
          (if pg_inBattleground (gs_pl w mg) then SendPartyResult mg PARTY_OP_INVITE [] ERR_INVITE_RESTRICTED w
           else
             let w1 = SendPartyResult mg PARTY_OP_LEAVE (pl_name me) ERR_PARTY_RESULT_OK w
             in RemoveFromGroup (GetGroup w1 mg) mg GROUP_REMOVEMETHOD_LEAVE 0 [] w1))"

section \<open>Leading a group\<close>

text \<open>What the handlers share: the sender's group, and the test that he leads or assists it.\<close>

definition my_group :: "player \<Rightarrow> gworld \<Rightarrow> (gptr \<Rightarrow> group \<Rightarrow> gworld) \<Rightarrow> gworld" where
  "my_group me w f = (case GetGroup w (pl_guid me) of None \<Rightarrow> w | Some p \<Rightarrow> with_group p w (f p))"

definition leads :: "group \<Rightarrow> player \<Rightarrow> bool" where
  "leads g me \<longleftrightarrow> IsLeader g (pl_guid me) \<or> IsAssistant g (pl_guid me)"

definition HandleGroupSetLeaderOpcode :: "player \<Rightarrow> u64 \<Rightarrow> gworld \<Rightarrow> gworld" where
  "HandleGroupSetLeaderOpcode me guid w =
     my_group me w (\<lambda>p g.
       if find_player w guid = None then w
       else if \<not> IsLeader g (pl_guid me) \<or> GetGroup w guid \<noteq> Some p then w
       else SendUpdate p (ChangeLeader p guid w))"

definition HandleLootMethodOpcode :: "player \<Rightarrow> u32 \<Rightarrow> u64 \<Rightarrow> u32 \<Rightarrow> gworld \<Rightarrow> gworld" where
  "HandleLootMethodOpcode me lootMethod lootMaster lootThreshold w =
     my_group me w (\<lambda>p g.
       if \<not> IsLeader g (pl_guid me) then w
       else SendUpdate p (SetLootThreshold p lootThreshold (SetLooterGuid p lootMaster (SetLootMethod p lootMethod w))))"

definition HandleLootRoll :: "player \<Rightarrow> u64 \<Rightarrow> u8 \<Rightarrow> gworld \<Rightarrow> gworld" where
  "HandleLootRoll me guid rollType w =
     my_group me w (\<lambda>p g.
       let w1 = CountRollVote p (pl_guid me) guid rollType w
       in if rollType = ROLL_NEED then act (Call (pl_guid me) UpdateAchievementCriteria_need) w1
          else if rollType = ROLL_GREED then act (Call (pl_guid me) UpdateAchievementCriteria_greed) w1
          else w1)"

definition HandleRandomRollOpcode :: "player \<Rightarrow> u32 \<Rightarrow> u32 \<Rightarrow> gworld \<Rightarrow> gworld" where
  "HandleRandomRollOpcode me minimum maximum w =
     (if minimum > maximum \<or> maximum > 10000 then w
      else
        let (roll, w1) = urand minimum maximum w;
            data = stream [FU32 minimum, FU32 maximum, FU32 roll, FU64 (pl_guid me)] (WorldPacket MSG_RANDOM_ROLL)
        in case GetGroup w1 (pl_guid me) of
             Some p \<Rightarrow> BroadcastPacket p data False None 0 w1
           | None \<Rightarrow> send (pl_guid me) data w1)"

definition HandleRaidTargetUpdateOpcode :: "player \<Rightarrow> u8 \<Rightarrow> u64 \<Rightarrow> gworld \<Rightarrow> gworld" where
  "HandleRaidTargetUpdateOpcode me x guid w =
     my_group me w (\<lambda>p g.
       if x = 0xFF then SendTargetIconList p (pl_guid me) w
       else if \<not> leads g me then w
       else SetTargetIcon p x (pl_guid me) guid w)"

definition HandleGroupRaidConvertOpcode :: "player \<Rightarrow> gworld \<Rightarrow> gworld" where
  "HandleGroupRaidConvertOpcode me w =
     my_group me w (\<lambda>p g.
       if pg_inBattleground (gs_pl w (pl_guid me)) then w
       else if \<not> IsLeader g (pl_guid me) \<or> GetMembersCount g < 2 then w
       else ConvertToRaid p (SendPartyResult (pl_guid me) PARTY_OP_INVITE [] ERR_PARTY_RESULT_OK w))"

definition HandleGroupChangeSubGroupOpcode :: "player \<Rightarrow> string \<Rightarrow> u8 \<Rightarrow> gworld \<Rightarrow> gworld" where
  "HandleGroupChangeSubGroupOpcode me name groupNr w =
     my_group me w (\<lambda>p g.
       if unat groupNr \<ge> MAX_RAID_SUBGROUPS then w
       else if \<not> leads g me then w
       else if \<not> HasFreeSlotSubGroup g groupNr then w
       else
         let guid = (case FindPlayerByName (gs_world w) name of
                       Some moved \<Rightarrow> pl_guid moved | None \<Rightarrow> ge_guid_by_name (gs_env w) name)
         in ChangeMembersGroup p guid groupNr w)"

definition HandleGroupAssistantLeaderOpcode :: "player \<Rightarrow> u64 \<Rightarrow> bool \<Rightarrow> gworld \<Rightarrow> gworld" where
  "HandleGroupAssistantLeaderOpcode me guid apply w =
     my_group me w (\<lambda>p g.
       if \<not> IsLeader g (pl_guid me) then w
       else SendUpdate p (SetGroupMemberFlag p guid apply MEMBER_FLAG_ASSISTANT w))"

definition HandlePartyAssignmentOpcode :: "player \<Rightarrow> u8 \<Rightarrow> bool \<Rightarrow> u64 \<Rightarrow> gworld \<Rightarrow> gworld" where
  "HandlePartyAssignmentOpcode me assignment apply guid w =
     my_group me w (\<lambda>p g.
       if \<not> leads g me then w
       else
         SendUpdate p
           (if assignment = GROUP_ASSIGN_MAINASSIST
            then SetGroupMemberFlag p guid apply MEMBER_FLAG_MAINASSIST (RemoveUniqueGroupMemberFlag p MEMBER_FLAG_MAINASSIST w)
            else if assignment = GROUP_ASSIGN_MAINTANK
            then SetGroupMemberFlag p guid apply MEMBER_FLAG_MAINTANK (RemoveUniqueGroupMemberFlag p MEMBER_FLAG_MAINTANK w)
            else w))"

text \<open>An empty packet asks for a ready check, a byte answers it.\<close>

definition HandleRaidReadyCheckOpcode :: "player \<Rightarrow> u8 option \<Rightarrow> gworld \<Rightarrow> gworld" where
  "HandleRaidReadyCheckOpcode me answer w =
     my_group me w (\<lambda>p g.
       case answer of
         None \<Rightarrow>
           (if \<not> leads g me then w
            else OfflineReadyCheck p
              (BroadcastPacket p (stream [FU64 (pl_guid me)] (WorldPacket MSG_RAID_READY_CHECK)) False None 0 w))
       | Some state \<Rightarrow>
           BroadcastReadyCheck p (stream [FU64 (pl_guid me), FU8 state] (WorldPacket MSG_RAID_READY_CHECK_CONFIRM)) w)"

definition HandleOptOutOfLootOpcode :: "player \<Rightarrow> u32 \<Rightarrow> gworld \<Rightarrow> gworld" where
  "HandleOptOutOfLootOpcode me passOnLoot w = modp (pl_guid me) (\<lambda>d. d\<lparr>pg_passOnGroupLoot := (passOnLoot \<noteq> 0)\<rparr>) w"

section \<open>Login and logout\<close>

text \<open>The player object is new: both references are unset and there is no invitation.\<close>

definition fresh_player :: "player_group \<Rightarrow> player_group" where
  "fresh_player d = d\<lparr>pg_group := \<lparr>gr_target = None, gr_subGroup = 0\<rparr>,
     pg_originalGroup := \<lparr>gr_target = None, gr_subGroup = 0\<rparr>, pg_groupInvite := None, pg_passOnGroupLoot := False\<rparr>"

definition LoadGroup :: "player \<Rightarrow> gworld \<Rightarrow> gworld" where
  "LoadGroup pl w =
     (case map_find (db_group_member (gs_db w)) (GUID_LOPART (pl_guid pl)) of
        None \<Rightarrow> w
      | Some row \<Rightarrow>
          (case GetGroupByDbStoreId w (mw_guid row) of
             None \<Rightarrow> w
           | Some p \<Rightarrow>
               with_group p w (\<lambda>g.
                 let guid = pl_guid pl;
                     w1 = SetGroup guid (Some (p, GetMemberGroup g guid)) w
                 in if pl_level pl \<ge> LEVELREQUIREMENT_HEROIC
                    then modp guid (\<lambda>d. d\<lparr>pg_dungeonDifficulty := m_dungeonDifficulty g, pg_raidDifficulty := m_raidDifficulty g\<rparr>) w1
                    else w1)))"

definition Player_login :: "player \<Rightarrow> gworld \<Rightarrow> gworld" where
  "Player_login pl w =
     (let w1 = modp (pl_guid pl) fresh_player w;
          w2 = LoadGroup pl w1
      in w2\<lparr>gs_world := (gs_world w2)\<lparr>w_players := pl # w_players (gs_world w2)\<rparr>\<rparr>)"

text \<open>The part of \<^verbatim>\<open>LogoutPlayer\<close> on groups; \<open>normally\<close> is that the socket is still open.\<close>

definition logout_group :: "u64 \<Rightarrow> bool \<Rightarrow> bool \<Rightarrow> gworld \<Rightarrow> gworld" where
  "logout_group guid normally instanceable w =
     (let w1 = UninviteFromGroup guid w;
          w2 = (case GetGroup w1 guid of
                  None \<Rightarrow> w1
                | Some p \<Rightarrow>
                    with_group p w1 (\<lambda>g.
                      if \<not> isRaidGroup g \<and> normally \<and> (\<not> pg_haveBot (gs_pl w1 guid) \<or> \<not> instanceable)
                      then RemoveFromGroup (Some p) guid GROUP_REMOVEMETHOD_DEFAULT 0 [] w1 else w1))
      in case GetGroup w2 guid of None \<Rightarrow> w2 | Some p \<Rightarrow> ResetMaxEnchantingLevel p (SendUpdate p w2))"

text \<open>Deleting the player object runs \<^verbatim>\<open>~GroupReference\<close> on both references.\<close>

definition delete_player :: "u64 \<Rightarrow> gworld \<Rightarrow> gworld" where
  "delete_player guid w =
     (let w1 = ref_unlink guid True (ref_unlink guid False w)
      in w1\<lparr>gs_world := (gs_world w1)\<lparr>w_players := filter (\<lambda>pl. pl_guid pl \<noteq> guid) (w_players (gs_world w1))\<rparr>\<rparr>)"

definition Player_logout :: "u64 \<Rightarrow> bool \<Rightarrow> bool \<Rightarrow> gworld \<Rightarrow> gworld" where
  "Player_logout guid normally instanceable w = delete_player guid (logout_group guid normally instanceable w)"

end
