(* ===== verification/Group_Frame.thy ===== *)
theory Group_Frame
  imports Group_Roll Group_Handlers
begin

text \<open>
  What the many notifications of the group code leave alone. \<open>core\<close> blanks the recorded actions and the
  fields that membership does not depend on (packet counter, enchanting level, rolls, loot settings,
  difficulties and instance binds). An operation that keeps \<open>core\<close> is quiet: it cannot fault and it
  changes nothing that the invariant of \<open>Group_Inv\<close> speaks of. \<open>sane\<close> holds the facts on instance
  binds that rule out the faults of those operations.
\<close>

section \<open>The part of the state that matters\<close>

definition gcore :: "group \<Rightarrow> group" where
  "gcore g = g\<lparr>m_counter := 0, m_maxEnchantingLevel := 0, m_boundInstances := [], RollId := [], m_dungeonDifficulty := 0,
     m_raidDifficulty := 0, m_lootMethod := 0, m_lootThreshold := 0, m_looterGuid := 0\<rparr>"

definition pcore :: "player_group \<Rightarrow> player_group" where
  "pcore d = d\<lparr>pg_dungeonDifficulty := 0, pg_raidDifficulty := 0, pg_InstanceValid := False, pg_boundInstances := [],
     pg_passOnGroupLoot := False\<rparr>"

definition core :: "gworld \<Rightarrow> gworld" where
  "core w = w\<lparr>gs_log := [], gs_loots := (\<lambda>_. None), gs_draws := 0, gs_hiItemGuid := 0,
     gs_groups := (\<lambda>p. map_option gcore (gs_groups w p)), gs_pl := (\<lambda>u. pcore (gs_pl w u))\<rparr>"

named_theorems core_simps \<open>operations that keep the core\<close>

lemma core_sel:
  "gs_world (core w) = gs_world w" "gs_env (core w) = gs_env w" "gs_db (core w) = gs_db w" "gs_fault (core w) = gs_fault w"
  "gs_next (core w) = gs_next w" "NextGroupId (core w) = NextGroupId w" "NextGroupDbStoreId (core w) = NextGroupDbStoreId w"
  "GroupStore (core w) = GroupStore w" "GroupDbStore (core w) = GroupDbStore w"
  "gs_groups (core w) p = map_option gcore (gs_groups w p)" "gs_pl (core w) u = pcore (gs_pl w u)"
  by (simp_all add: core_def)

lemma core_eqD:
  assumes "core w' = core w"
  shows "gs_world w' = gs_world w" "gs_env w' = gs_env w" "gs_db w' = gs_db w" "gs_fault w' = gs_fault w"
    "gs_next w' = gs_next w" "NextGroupId w' = NextGroupId w" "NextGroupDbStoreId w' = NextGroupDbStoreId w"
    "GroupStore w' = GroupStore w" "GroupDbStore w' = GroupDbStore w"
    "map_option gcore (gs_groups w' p) = map_option gcore (gs_groups w p)" "pcore (gs_pl w' u) = pcore (gs_pl w u)"
  by (metis assms core_sel)+

lemma core_eqI:
  assumes "gs_world w' = gs_world w" "gs_env w' = gs_env w" "gs_db w' = gs_db w" "gs_fault w' = gs_fault w"
    "gs_next w' = gs_next w" "NextGroupId w' = NextGroupId w" "NextGroupDbStoreId w' = NextGroupDbStoreId w"
    "GroupStore w' = GroupStore w" "GroupDbStore w' = GroupDbStore w"
    "\<And>p. map_option gcore (gs_groups w' p) = map_option gcore (gs_groups w p)" "\<And>u. pcore (gs_pl w' u) = pcore (gs_pl w u)"
  shows "core w' = core w"
  using assms by (simp add: core_def)

lemma gcore_sel:
  "m_memberSlots (gcore g) = m_memberSlots g" "m_memberMgr (gcore g) = m_memberMgr g" "m_invitees (gcore g) = m_invitees g"
  "m_leaderGuid (gcore g) = m_leaderGuid g" "m_groupType (gcore g) = m_groupType g" "m_bgGroup (gcore g) = m_bgGroup g"
  "m_bfGroup (gcore g) = m_bfGroup g" "m_targetIcons (gcore g) = m_targetIcons g" "m_dbStoreId (gcore g) = m_dbStoreId g"
  "m_subGroupsCounts (gcore g) = m_subGroupsCounts g" "m_guid (gcore g) = m_guid g"
  by (simp_all add: gcore_def)

lemma gcore_eqD:
  assumes "gcore g' = gcore g"
  shows "m_memberSlots g' = m_memberSlots g" "m_memberMgr g' = m_memberMgr g" "m_invitees g' = m_invitees g"
    "m_leaderGuid g' = m_leaderGuid g" "m_groupType g' = m_groupType g" "m_bgGroup g' = m_bgGroup g"
    "m_bfGroup g' = m_bfGroup g" "m_targetIcons g' = m_targetIcons g" "m_dbStoreId g' = m_dbStoreId g"
    "m_subGroupsCounts g' = m_subGroupsCounts g" "m_guid g' = m_guid g"
  by (metis assms gcore_sel)+

lemma pcore_sel:
  "pg_group (pcore d) = pg_group d" "pg_originalGroup (pcore d) = pg_originalGroup d" "pg_groupInvite (pcore d) = pg_groupInvite d"
  by (simp_all add: pcore_def)

lemma pcore_eqD:
  assumes "pcore d' = pcore d"
  shows "pg_group d' = pg_group d" "pg_originalGroup d' = pg_originalGroup d" "pg_groupInvite d' = pg_groupInvite d"
  by (metis assms pcore_sel)+

lemma core_player:
  assumes "core w' = core w"
  shows "pg_group (gs_pl w' u) = pg_group (gs_pl w u)" "pg_originalGroup (gs_pl w' u) = pg_originalGroup (gs_pl w u)"
    "pg_groupInvite (gs_pl w' u) = pg_groupInvite (gs_pl w u)" "GetGroup w' u = GetGroup w u"
    "GetOriginalGroup w' u = GetOriginalGroup w u" "find_player w' u = find_player w u"
  using pcore_eqD [OF core_eqD(11) [OF assms]] core_eqD(1) [OF assms]
  by (simp_all add: GetGroup_def GetOriginalGroup_def find_player_def)

lemma core_group:
  assumes "core w' = core w" "gs_groups w p = Some g"
  obtains g' where "gs_groups w' p = Some g'" "gcore g' = gcore g"
  using core_eqD(10) [OF assms(1), of p] assms(2) that by (cases "gs_groups w' p") auto

lemma core_group_iff: "core w' = core w \<Longrightarrow> gs_groups w' p = None \<longleftrightarrow> gs_groups w p = None"
  using core_eqD(10) [of w' w p] by (metis map_option_is_None)

section \<open>Instance binds\<close>

definition bind_fine :: "u32 \<times> instance_bind \<Rightarrow> bool" where
  "bind_fine kb \<longleftrightarrow> (\<exists>s. ib_save (snd kb) = Some s \<and> unat (is_difficulty s) < MAX_DIFFICULTY)"

definition binds_fine :: "bound_instances list \<Rightarrow> bool" where
  "binds_fine bs \<longleftrightarrow> length bs = MAX_DIFFICULTY \<and> (\<forall>b \<in> set bs. \<forall>kb \<in> set b. bind_fine kb)"

definition env_fine :: "group_env \<Rightarrow> bool" where
  "env_fine e \<longleftrightarrow> (\<forall>m. ge_map_entry e m \<noteq> None \<and> ge_map_difficulty e m 0)"

definition group_fine :: "group \<Rightarrow> bool" where
  "group_fine g \<longleftrightarrow> binds_fine (m_boundInstances g) \<and> unat (m_dungeonDifficulty g) < MAX_DIFFICULTY
     \<and> unat (m_raidDifficulty g) < MAX_DIFFICULTY \<and> distinct (map r_itemGUID (RollId g))"

definition player_fine :: "player_group \<Rightarrow> bool" where
  "player_fine d \<longleftrightarrow> binds_fine (pg_boundInstances d) \<and> unat (pg_dungeonDifficulty d) < MAX_DIFFICULTY
     \<and> unat (pg_raidDifficulty d) < MAX_DIFFICULTY"

definition sane :: "gworld \<Rightarrow> bool" where
  "sane w \<longleftrightarrow> env_fine (gs_env w) \<and> (\<forall>p g. gs_groups w p = Some g \<longrightarrow> group_fine g) \<and> (\<forall>u. player_fine (gs_pl w u))"

named_theorems sane_intros \<open>operations that keep the binds in order\<close>

lemma sane_group: "sane w \<Longrightarrow> gs_groups w p = Some g \<Longrightarrow> group_fine g"
  by (simp add: sane_def)

lemma sane_map_entry: "sane w \<Longrightarrow> \<exists>e. ge_map_entry (gs_env w) m = Some e"
  by (auto simp: sane_def env_fine_def)

lemma sane_simple [sane_intros]:
  "sane w \<Longrightarrow> sane (act a w)" "sane w \<Longrightarrow> sane (send u pkt w)" "sane w \<Longrightarrow> sane (sql s w)" "sane w \<Longrightarrow> sane (gfault e w)"
  by (simp_all add: sane_def act_def send_def sql_def gfault_def)

lemma sane_with_group: "sane w \<Longrightarrow> (\<And>g. gs_groups w p = Some g \<Longrightarrow> sane (f g)) \<Longrightarrow> sane (with_group p w f)"
  by (simp add: with_group_def sane_simple split: option.split)

lemma sane_modg: "sane w \<Longrightarrow> (\<And>g. group_fine g \<Longrightarrow> group_fine (f g)) \<Longrightarrow> sane (modg p f w)"
  unfolding modg_def by (rule sane_with_group) (auto simp: sane_def)

lemma sane_modp: "sane w \<Longrightarrow> (\<And>d. player_fine d \<Longrightarrow> player_fine (f d)) \<Longrightarrow> sane (modp u f w)"
  by (auto simp: modp_def sane_def)

lemma sane_fold: "sane w \<Longrightarrow> (\<And>x w. x \<in> set xs \<Longrightarrow> sane w \<Longrightarrow> sane (f x w)) \<Longrightarrow> sane (fold f xs w)"
  by (induction xs arbitrary: w) auto

section \<open>Quiet operations\<close>

lemma core_act [core_simps]: "core (act a w) = core w"
  by (simp add: core_def act_def)

lemma core_send [core_simps]: "core (send u pkt w) = core w"
  by (simp add: send_def core_act)

lemma core_with_group: "gs_groups w p = Some g \<Longrightarrow> core (f g) = core w \<Longrightarrow> core (with_group p w f) = core w"
  by (simp add: with_group_def)

lemma core_modg:
  assumes "gs_groups w p = Some g" "gcore (f g) = gcore g"
  shows "core (modg p f w) = core w"
  using assms by (intro core_eqI) (auto simp: modg_def with_group_def)

lemma core_modp: "pcore (f (gs_pl w u)) = pcore (gs_pl w u) \<Longrightarrow> core (modp u f w) = core w"
  by (intro core_eqI) (auto simp: modp_def)

lemma core_fold:
  "(\<And>x w'. x \<in> set xs \<Longrightarrow> core w' = core w \<Longrightarrow> core (f x w') = core w) \<Longrightarrow> core (fold f xs w) = core w"
proof (induction xs arbitrary: w)
  case (Cons x xs)
  have x: "core (f x w) = core w" by (rule Cons.prems) auto
  have "core (fold f xs (f x w)) = core (f x w)"
    using Cons.prems x by (intro Cons.IH) (metis list.set_intros(2))
  then show ?case using x by simp
qed simp

lemma core_sql_none: "exec_group s (gs_db w) = gs_db w \<Longrightarrow> core (sql s w) = core w"
  by (simp add: sql_def core_act)

text \<open>Quiet operations on a group need it to exist.\<close>

lemma core_fold_alive:
  assumes "gs_groups w p \<noteq> None"
    and "\<And>x w'. x \<in> set xs \<Longrightarrow> gs_groups w' p \<noteq> None \<Longrightarrow> core (f x w') = core w'"
  shows "core (fold f xs w) = core w"
proof (rule core_fold)
  fix x w' assume "x \<in> set xs" "core w' = core w"
  then show "core (f x w') = core w" using assms core_group_iff [of w' w p] by auto
qed

lemma core_with_fold:
  assumes "gs_groups w p \<noteq> None" "\<And>g x w'. gs_groups w' p \<noteq> None \<Longrightarrow> core (f g x w') = core w'"
  shows "core (with_group p w (\<lambda>g. fold (f g) (xs g) w)) = core w"
  using assms(1) by (auto simp: with_group_def intro!: core_fold_alive [where p = p] assms(2))

lemma core_SendUpdateToPlayer: "gs_groups w p \<noteq> None \<Longrightarrow> core (SendUpdateToPlayer p u s w) = core w"
  by (auto simp: SendUpdateToPlayer_def with_group_def core_send gcore_def intro!: core_modg split: option.split)

lemma core_SendUpdate [core_simps]: "gs_groups w p \<noteq> None \<Longrightarrow> core (SendUpdate p w) = core w"
  unfolding SendUpdate_def
  by (rule core_with_fold, assumption) (rule core_SendUpdateToPlayer)

lemma core_BroadcastPacket [core_simps]: "gs_groups w p \<noteq> None \<Longrightarrow> core (BroadcastPacket p pkt i s u w) = core w"
  unfolding BroadcastPacket_def
  by (rule core_with_fold, assumption) (auto simp: core_send)

lemma core_BroadcastReadyCheck [core_simps]: "gs_groups w p \<noteq> None \<Longrightarrow> core (BroadcastReadyCheck p pkt w) = core w"
  unfolding BroadcastReadyCheck_def
  by (rule core_with_fold, assumption) (auto simp: core_send)

lemma core_OfflineReadyCheck [core_simps]: "gs_groups w p \<noteq> None \<Longrightarrow> core (OfflineReadyCheck p w) = core w"
  unfolding OfflineReadyCheck_def
  by (rule core_with_fold, assumption) (auto simp: core_BroadcastReadyCheck)

lemma core_UpdatePlayerOutOfRange [core_simps]: "gs_groups w p \<noteq> None \<Longrightarrow> core (UpdatePlayerOutOfRange p u w) = core w"
  by (auto simp: UpdatePlayerOutOfRange_def core_act intro!: core_with_fold)

lemma core_BroadcastGroupUpdate [core_simps]: "gs_groups w p \<noteq> None \<Longrightarrow> core (BroadcastGroupUpdate p w) = core w"
  unfolding BroadcastGroupUpdate_def
  by (rule core_with_fold, assumption) (auto simp: core_act)

lemma core_quest_updates [core_simps]: "gs_groups w p \<noteq> None \<Longrightarrow> core (quest_updates p w) = core w"
  unfolding quest_updates_def
  by (rule core_with_fold, assumption) (auto simp: core_act)

lemma core_exchange_fields [core_simps]: "gs_groups w p \<noteq> None \<Longrightarrow> core (exchange_fields p u w) = core w"
  unfolding exchange_fields_def
  by (rule core_with_fold, assumption) (auto simp: core_act Let_def)

lemma core_field_updates [core_simps]:
  "gs_groups w p \<noteq> None \<Longrightarrow> core (ResetMaxEnchantingLevel p w) = core w"
  "gs_groups w p \<noteq> None \<Longrightarrow> core (raise_enchanting p u w) = core w"
  "gs_groups w p \<noteq> None \<Longrightarrow> core (SetLootMethod p n w) = core w"
  "gs_groups w p \<noteq> None \<Longrightarrow> core (SetLooterGuid p k w) = core w"
  "gs_groups w p \<noteq> None \<Longrightarrow> core (SetLootThreshold p n w) = core w"
  by (auto simp: ResetMaxEnchantingLevel_def raise_enchanting_def SetLootMethod_def SetLooterGuid_def SetLootThreshold_def
      gcore_def intro!: core_modg)

lemma core_player_difficulty [core_simps]:
  "core (player_dungeon_difficulty u d w) = core w" "core (player_raid_difficulty u d w) = core w"
  by (simp_all add: player_dungeon_difficulty_def player_raid_difficulty_def SendDungeonDifficulty_def SendRaidDifficulty_def
      core_send core_modp pcore_def)

lemma core_adopt_difficulty [core_simps]: "gs_groups w p \<noteq> None \<Longrightarrow> core (adopt_difficulty p pl w) = core w"
  by (auto simp: adopt_difficulty_def with_group_def Let_def core_simps split: option.split)

lemma core_homebind [core_simps]: "sane w \<Longrightarrow> core (homebindIfInstance u w) = core w"
  using sane_map_entry [of w "pg_mapId (gs_pl w u)"]
  by (auto simp: homebindIfInstance_def pcore_def intro!: core_modp)

section \<open>Quiet operations on binds\<close>

lemma exec_group_quiet [simp]:
  "exec_group (REP_GROUP_INSTANCE a b c) db = db" "exec_group (DEL_CHAR_INSTANCE_BY_INSTANCE_GUID a b) db = db"
  "exec_group (DEL_GROUP_INSTANCE_BY_INSTANCE a) db = db" "exec_group (DEL_GROUP_INSTANCE_PERM_BINDING a b) db = db"
  "exec_group (DEL_LFG_DATA a) db = db"
  by simp_all

lemma core_set_binds [core_simps]: "gs_groups w p \<noteq> None \<Longrightarrow> core (set_binds p d f w) = core w"
  by (auto simp: set_binds_def gcore_def intro!: core_modg)

lemma alive_simple [simp]:
  "gs_groups (act a w) = gs_groups w" "gs_groups (send u pkt w) = gs_groups w" "gs_groups (sql s w) = gs_groups w"
  "gs_groups (modp u f w) = gs_groups w"
  by (simp_all add: act_def send_def sql_def modp_def)

lemma fine_saves: "binds_fine bs \<Longrightarrow> d < MAX_DIFFICULTY \<Longrightarrow> kb \<in> set (bs ! d) \<Longrightarrow> bind_fine kb"
  by (auto simp: binds_fine_def)

lemma core_BindToInstance [core_simps]:
  assumes "gs_groups w p \<noteq> None" "sane w" "\<And>s. save = Some s \<Longrightarrow> unat (is_difficulty s) < MAX_DIFFICULTY"
  shows "core (BindToInstance p save perm load w) = core w"
proof -
  obtain g where g: "gs_groups w p = Some g" using assms(1) by auto
  have len: "length (m_boundInstances g) = MAX_DIFFICULTY"
    using sane_group [OF assms(2) g] by (simp add: group_fine_def binds_fine_def)
  show ?thesis
    unfolding BindToInstance_def with_group_def g option.case
    using assms(3) len g
    by (auto simp: Let_def core_simps core_sql_none split: option.split)
qed

lemma binds_fine_upd:
  assumes "binds_fine bs" "\<And>kb. kb \<in> set b \<Longrightarrow> bind_fine kb"
  shows "binds_fine (bs[d := b])"
  using assms set_update_subset_insert [of bs d b] by (auto simp: binds_fine_def simp del: split_paired_All)

lemma sane_set_binds:
  assumes "sane w" "d < MAX_DIFFICULTY"
    and keep: "\<And>b kb. \<forall>kb \<in> set b. bind_fine kb \<Longrightarrow> kb \<in> set (f b) \<Longrightarrow> bind_fine kb"
  shows "sane (set_binds p d f w)"
  unfolding set_binds_def
proof (rule sane_modg [OF assms(1)])
  fix g assume g: "group_fine g"
  then have "\<forall>kb \<in> set (m_boundInstances g ! d). bind_fine kb"
    using assms(2) by (auto simp: group_fine_def binds_fine_def)
  then have "binds_fine ((m_boundInstances g)[d := f (m_boundInstances g ! d)])"
    using g keep by (intro binds_fine_upd) (auto simp: group_fine_def)
  then show "group_fine (g\<lparr>m_boundInstances := (m_boundInstances g)[d := f (m_boundInstances g ! d)]\<rparr>)"
    using g by (simp add: group_fine_def)
qed

lemma map_erase_subset: "kb \<in> set (map_erase k b) \<Longrightarrow> kb \<in> set b"
  by (auto simp: map_erase_def)

lemma sane_bind_set:
  assumes "sane w" "unat (is_difficulty s) < MAX_DIFFICULTY"
  shows "sane (set_binds p (unat (is_difficulty s)) (map_set k \<lparr>ib_save = Some s, ib_perm = q\<rparr>) w)"
proof (rule sane_set_binds [OF assms])
  fix b kb assume fine: "\<forall>kb \<in> set b. bind_fine kb" and "kb \<in> set (map_set k \<lparr>ib_save = Some s, ib_perm = q\<rparr> b)"
  then have "kb = (k, \<lparr>ib_save = Some s, ib_perm = q\<rparr>) \<or> kb \<in> set b" by (intro map_set_values)
  then show "bind_fine kb" using fine assms(2) by (auto simp: bind_fine_def)
qed

lemma sane_BindToInstance [sane_intros]:
  assumes "sane w" "\<And>s. save = Some s \<Longrightarrow> unat (is_difficulty s) < MAX_DIFFICULTY"
  shows "sane (BindToInstance p save perm load w)"
  unfolding BindToInstance_def
proof (rule sane_with_group [OF assms(1)])
  fix g
  show "sane (case save of None \<Rightarrow> w | Some s \<Rightarrow>
      if isBGGroup g \<or> isBFGroup g then w
      else if unat (is_difficulty s) \<ge> length (m_boundInstances g) then gfault OutOfBounds w
      else let d = unat (is_difficulty s); bind = map_at bind_new (m_boundInstances g ! d) (is_map s);
               w1 = (if \<not> load \<and> (ib_save bind = None \<or> perm \<noteq> ib_perm bind \<or> Some s \<noteq> ib_save bind)
                     then sql (REP_GROUP_INSTANCE (m_dbStoreId g) (is_instance s) perm) w else w);
               w2 = (if ib_save bind \<noteq> Some s then act (SaveAddGroup (is_instance s) p)
                       (case ib_save bind of None \<Rightarrow> w1 | Some old \<Rightarrow> act (SaveRemoveGroup (is_instance old) p) w1) else w1)
           in set_binds p d (map_set (is_map s) \<lparr>ib_save = Some s, ib_perm = perm\<rparr>) w2)"
    using assms by (auto simp: Let_def sane_simple intro!: sane_bind_set split: option.split)
qed

lemma core_Player_UnbindInstance: "ib_save b \<noteq> None \<Longrightarrow> core (Player_UnbindInstance u d k b w) = core w"
  by (auto simp: Player_UnbindInstance_def Let_def core_simps core_sql_none pcore_def core_modp)

lemma sane_Player_UnbindInstance:
  assumes "sane w" "d < MAX_DIFFICULTY"
  shows "sane (Player_UnbindInstance u d k b w)"
proof -
  have "player_fine (pd\<lparr>pg_boundInstances := (pg_boundInstances pd)[d := map_erase k (pg_boundInstances pd ! d)]\<rparr>)"
    if "player_fine pd" for pd
    using that assms(2) binds_fine_upd [of "pg_boundInstances pd" "map_erase k (pg_boundInstances pd ! d)" d]
      fine_saves [of "pg_boundInstances pd" d] map_erase_subset [of _ k "pg_boundInstances pd ! d"]
    by (simp add: player_fine_def)
  then show ?thesis
    using assms(1) by (auto simp: Player_UnbindInstance_def Let_def sane_simple intro!: sane_modp split: option.split)
qed

lemma bind_fineD: "bind_fine kb \<Longrightarrow> ib_save (snd kb) \<noteq> None"
  by (auto simp: bind_fine_def)

lemma convert_bind_quiet:
  assumes "gs_groups w p \<noteq> None" "sane w" "bind_fine kb" "d < MAX_DIFFICULTY"
  shows "core (convert_bind u p sl d kb w) = core w" "sane (convert_bind u p sl d kb w)"
proof -
  have b: "\<And>s. ib_save (snd kb) = Some s \<Longrightarrow> unat (is_difficulty s) < MAX_DIFFICULTY"
    using assms(3) by (auto simp: bind_fine_def)
  show "core (convert_bind u p sl d kb w) = core w"
    using core_BindToInstance [OF assms(1,2) b] bind_fineD [OF assms(3)]
    by (simp add: convert_bind_def Let_def core_Player_UnbindInstance)
  show "sane (convert_bind u p sl d kb w)"
    using sane_BindToInstance [OF assms(2) b] assms(4) by (simp add: convert_bind_def Let_def sane_Player_UnbindInstance)
qed

text \<open>A fold of quiet operations that need the binds to be in order.\<close>

lemma quiet_fold:
  assumes "gs_groups w p \<noteq> None" "sane w"
    and "\<And>x w'. x \<in> set xs \<Longrightarrow> gs_groups w' p \<noteq> None \<Longrightarrow> sane w' \<Longrightarrow> core (f x w') = core w' \<and> sane (f x w')"
  shows "core (fold f xs w) = core w \<and> sane (fold f xs w)"
  using assms
proof (induction xs arbitrary: w)
  case (Cons x xs)
  have x: "core (f x w) = core w" "sane (f x w)" using Cons.prems(3) [of x w] Cons.prems(1,2) by auto
  have "gs_groups (f x w) p \<noteq> None" using core_group_iff [OF x(1), of p] Cons.prems(1) by simp
  from Cons.IH [OF this x(2)] Cons.prems(3) x(1) show ?case by simp
qed simp

lemma ConvertInstancesToGroup_quiet:
  assumes "gs_groups w p \<noteq> None" "sane w"
  shows "core (ConvertInstancesToGroup u p sl w) = core w" "sane (ConvertInstancesToGroup u p sl w)"
proof -
  have "core (fold (convert_bind u p sl d) (pg_boundInstances (gs_pl w' u) ! d) w') = core w'
      \<and> sane (fold (convert_bind u p sl d) (pg_boundInstances (gs_pl w' u) ! d) w')"
    if d: "d \<in> set [0..<MAX_DIFFICULTY]" and w': "gs_groups w' p \<noteq> None" "sane w'" for d w'
  proof (rule quiet_fold [OF w'])
    fix kb w'' assume "kb \<in> set (pg_boundInstances (gs_pl w' u) ! d)" "gs_groups w'' p \<noteq> None" "sane w''"
    moreover have "binds_fine (pg_boundInstances (gs_pl w' u))" using w'(2) by (simp add: sane_def player_fine_def)
    ultimately show "core (convert_bind u p sl d kb w'') = core w'' \<and> sane (convert_bind u p sl d kb w'')"
      using convert_bind_quiet [of w'' p kb d u sl] fine_saves d by simp
  qed
  then have "core (ConvertInstancesToGroup u p sl w) = core w \<and> sane (ConvertInstancesToGroup u p sl w)"
    unfolding ConvertInstancesToGroup_def by (intro quiet_fold [OF assms]) blast
  then show "core (ConvertInstancesToGroup u p sl w) = core w" "sane (ConvertInstancesToGroup u p sl w)" by simp_all
qed

lemma unbind_permanent_quiet:
  assumes "gs_groups w p \<noteq> None" "sane w"
  shows "core (unbind_permanent p w) = core w" "sane (unbind_permanent p w)"
proof -
  obtain g where g: "gs_groups w p = Some g" using assms(1) by auto
  let ?f = "\<lambda>(k :: u32, b) w. if \<not> ib_perm b then w else case ib_save b of None \<Rightarrow> gfault NullDeref w
      | Some s \<Rightarrow> act (SaveRemoveGroup (is_instance s) p) w"
  let ?w1 = "fold ?f (concat (m_boundInstances g)) w"
  have fine: "binds_fine (m_boundInstances g)" using sane_group [OF assms(2) g] by (simp add: group_fine_def)
  have w1: "core ?w1 = core w \<and> sane ?w1"
  proof (rule quiet_fold [OF assms])
    fix kb w' assume "kb \<in> set (concat (m_boundInstances g))" "sane w'"
    moreover from this have "bind_fine kb" using fine by (auto simp: binds_fine_def)
    ultimately show "core (?f kb w') = core w' \<and> sane (?f kb w')"
      by (auto simp: bind_fine_def core_simps sane_simple split: prod.split)
  qed
  let ?h = "\<lambda>g. g\<lparr>m_boundInstances := map (filter (\<lambda>(k, b). \<not> ib_perm b)) (m_boundInstances g)\<rparr>"
  have alive: "gs_groups ?w1 p \<noteq> None" using core_group_iff [of ?w1 w p] w1 assms(1) by simp
  have eq: "unbind_permanent p w = modg p ?h ?w1" using g by (simp add: unbind_permanent_def with_group_def)
  show "core (unbind_permanent p w) = core w"
    unfolding eq using alive w1 core_modg [of ?w1 p _ ?h] by (auto simp: gcore_def)
  show "sane (unbind_permanent p w)"
    unfolding eq by (rule sane_modg) (use w1 in \<open>auto simp: group_fine_def binds_fine_def\<close>)
qed

section \<open>Resetting the instances of a group\<close>

lemma reset_step_quiet:
  "core (snd (reset_empty s m w)) = core w" "core (reset_message msg e s w) = core w"
    "sane w \<Longrightarrow> sane (snd (reset_empty s m w))" "sane w \<Longrightarrow> sane (reset_message msg e s w)"
  by (auto simp: reset_empty_def reset_message_def Let_def core_simps sane_simple split: option.split)

lemma reset_loop_quiet:
  assumes "unat diff < MAX_DIFFICULTY" "\<forall>kb \<in> set skipped. bind_fine kb" "\<forall>kb \<in> set todo. bind_fine kb"
    and "gs_groups w p \<noteq> None" "sane w"
  shows "core (reset_loop p diff m r msg skipped todo w) = core w \<and> sane (reset_loop p diff m r msg skipped todo w)"
  using assms
proof (induction p diff m r msg skipped todo w rule: reset_loop.induct)
  case (2 p diff m r msg skipped k b todo w)
  obtain s where s: "ib_save b = Some s" using "2.prems"(3) by (auto simp: bind_fine_def)
  show ?case
  proof (cases "reset_skips w diff m r k s")
    case True
    then show ?thesis using "2.IH"(1) [OF s True] "2.prems" s by simp
  next
    case False
    obtain e w1 where ew: "reset_empty s m w = (e, w1)" by fastforce
    define w2 where "w2 = reset_message msg e s w1"
    have w1: "core w1 = core w" "sane w1" using reset_step_quiet(1) [of s m w] reset_step_quiet(3) [of w s m] "2.prems"(5) ew by auto
    have alive1: "gs_groups w1 p \<noteq> None" using core_group_iff [OF w1(1), of p] "2.prems"(4) by simp
    have w2: "core w2 = core w" "sane w2"
      unfolding w2_def using w1 by (simp_all add: reset_step_quiet)
    have alive2: "gs_groups w2 p \<noteq> None" using core_group_iff [OF w2(1), of p] "2.prems"(4) by simp
    show ?thesis
    proof (cases "e \<or> m = INSTANCE_RESET_GROUP_DISBAND \<or> m = INSTANCE_RESET_CHANGE_DIFFICULTY")
      case True
      define w3 where "w3 = (if is_canReset s then act (SaveDeleteFromDB (is_instance s)) w2
          else sql (DEL_GROUP_INSTANCE_BY_INSTANCE (is_instance s)) w2)"
      define w5 where "w5 = act (SaveRemoveGroup (is_instance s) p) (set_binds p (unat diff) (map_erase k) w3)"
      have w3: "core w3 = core w" "sane w3" "gs_groups w3 p \<noteq> None"
        using w2 alive2 by (auto simp: w3_def core_simps core_sql_none sane_simple)
      have w5: "core w5 = core w" "sane w5"
        using w3 by (auto simp: w5_def core_simps intro!: sane_simple(1) sane_set_binds [OF _ "2.prems"(1)] dest: map_erase_subset)
      have "gs_groups w5 p \<noteq> None" using core_group_iff [OF w5(1), of p] "2.prems"(4) by simp
      note IH = "2.IH"(2) [OF s False refl ew [symmetric] w2_def True w3_def refl, folded w5_def]
      have "reset_loop p diff m r msg skipped ((k, b) # todo) w = reset_loop p diff m r msg [] (rev skipped @ todo) w5"
        using s False True by (simp add: ew Let_def w2_def w3_def w5_def)
      then show ?thesis using IH "2.prems" w5 \<open>gs_groups w5 p \<noteq> None\<close> by auto
    next
      case nonempty: False
      have "reset_loop p diff m r msg skipped ((k, b) # todo) w = reset_loop p diff m r msg ((k, b) # skipped) todo w2"
        using s False nonempty by (simp add: ew Let_def w2_def)
      then show ?thesis using "2.IH"(3) [OF s False refl ew [symmetric] w2_def nonempty] "2.prems" w2 alive2 by auto
    qed
  qed
qed simp

lemma Group_ResetInstances_quiet:
  assumes "gs_groups w p \<noteq> None" "sane w"
  shows "core (Group_ResetInstances p m r msg w) = core w" "sane (Group_ResetInstances p m r msg w)"
proof -
  obtain g where g: "gs_groups w p = Some g" using assms(1) by auto
  have fine: "group_fine g" by (rule sane_group [OF assms(2) g])
  have diff: "unat (GetDifficulty g r) < MAX_DIFFICULTY" using fine by (simp add: group_fine_def GetDifficulty_def)
  have binds: "binds_fine (m_boundInstances g)" using fine by (simp add: group_fine_def)
  note loop = reset_loop_quiet [OF diff, of "[]" "m_boundInstances g ! unat (GetDifficulty g r)" w p m r msg]
  have "\<forall>kb \<in> set (m_boundInstances g ! unat (GetDifficulty g r)). bind_fine kb" using fine_saves [OF binds diff] by blast
  then show "core (Group_ResetInstances p m r msg w) = core w" "sane (Group_ResetInstances p m r msg w)"
    using loop assms g diff binds by (auto simp: Group_ResetInstances_def with_group_def Let_def binds_fine_def)
qed

section \<open>Operations that leave the binds in order\<close>

lemma sane_with_fold:
  assumes "sane w" "\<And>g x w'. gs_groups w p = Some g \<Longrightarrow> sane w' \<Longrightarrow> sane (f g x w')"
  shows "sane (with_group p w (\<lambda>g. fold (f g) (xs g) w))"
  using assms by (intro sane_with_group) (auto intro: sane_fold)

lemma sane_modg_fields [sane_intros]:
  assumes "sane w"
    and "\<And>g. m_boundInstances (f g) = m_boundInstances g \<and> m_dungeonDifficulty (f g) = m_dungeonDifficulty g
      \<and> m_raidDifficulty (f g) = m_raidDifficulty g \<and> map r_itemGUID (RollId (f g)) = map r_itemGUID (RollId g)"
  shows "sane (modg p f w)"
  using assms by (intro sane_modg) (auto simp: group_fine_def)

lemma sane_modp_fields [sane_intros]:
  assumes "sane w"
    and "\<And>d. pg_boundInstances (f d) = pg_boundInstances d \<and> pg_dungeonDifficulty (f d) = pg_dungeonDifficulty d
      \<and> pg_raidDifficulty (f d) = pg_raidDifficulty d"
  shows "sane (modp u f w)"
  using assms by (intro sane_modp) (auto simp: player_fine_def)

lemma sane_refs [sane_intros]:
  "sane w \<Longrightarrow> sane (ref_unlink u orig w)" "sane w \<Longrightarrow> sane (ref_link u orig p w)" "sane w \<Longrightarrow> sane (ref_setSubGroup u orig s w)"
  "sane w \<Longrightarrow> sane (SetGroupInvite u q w)"
  by (auto simp: ref_unlink_def ref_link_def ref_setSubGroup_def SetGroupInvite_def LinkMember_def Let_def ref_upd_def
      intro!: sane_intros split: option.split)

lemma sane_slots [sane_intros]:
  "sane w \<Longrightarrow> sane (SetGroup u t w)" "sane w \<Longrightarrow> sane (SetOriginalGroup u t w)"
  by (auto simp: SetGroup_def SetOriginalGroup_def intro!: sane_intros split: option.split)

lemma sane_SendUpdateToPlayer: "sane w \<Longrightarrow> sane (SendUpdateToPlayer p u s w)"
  unfolding SendUpdateToPlayer_def by (auto intro!: sane_with_group sane_intros split: option.split)

lemma sane_SendUpdate [sane_intros]: "sane w \<Longrightarrow> sane (SendUpdate p w)"
  unfolding SendUpdate_def by (rule sane_with_fold) (auto intro: sane_SendUpdateToPlayer)

lemma sane_broadcasts [sane_intros]:
  "sane w \<Longrightarrow> sane (BroadcastPacket p pkt i s u w)" "sane w \<Longrightarrow> sane (BroadcastGroupUpdate p w)"
  "sane w \<Longrightarrow> sane (UpdatePlayerOutOfRange p v w)" "sane w \<Longrightarrow> sane (quest_updates p w)"
  "sane w \<Longrightarrow> sane (exchange_fields p v w)" "sane w \<Longrightarrow> sane (ResetMaxEnchantingLevel p w)"
  "sane w \<Longrightarrow> sane (raise_enchanting p v w)"
  by (auto simp: BroadcastPacket_def BroadcastGroupUpdate_def UpdatePlayerOutOfRange_def quest_updates_def exchange_fields_def
      ResetMaxEnchantingLevel_def raise_enchanting_def Let_def intro!: sane_with_fold sane_intros)

lemma sane_counters [sane_intros]:
  "sane w \<Longrightarrow> sane (SubGroupCounterIncrease p s w)" "sane w \<Longrightarrow> sane (SubGroupCounterDecrease p s w)"
  "sane w \<Longrightarrow> sane (mod_slot p u f w)"
  by (auto simp: SubGroupCounterIncrease_def SubGroupCounterDecrease_def count_change_def mod_slot_def
      intro!: sane_with_group sane_intros split: option.split)

lemma sane_adopt_difficulty [sane_intros]:
  assumes "sane w"
  shows "sane (adopt_difficulty p pl w)"
proof -
  have dd: "sane (player_dungeon_difficulty u d w)" "sane (player_raid_difficulty u d w)"
    if "sane w" "unat d < MAX_DIFFICULTY" for u d w
    using that by (auto simp: player_dungeon_difficulty_def player_raid_difficulty_def SendDungeonDifficulty_def
        SendRaidDifficulty_def player_fine_def intro!: sane_simple sane_modp)
  show ?thesis
    unfolding adopt_difficulty_def
    by (rule sane_with_group [OF assms])
      (use sane_group [OF assms] assms in \<open>auto simp: Let_def sane_simple group_fine_def intro!: dd\<close>)
qed

lemma sane_homebind [sane_intros]: "sane w \<Longrightarrow> sane (homebindIfInstance u w)"
  by (auto simp: homebindIfInstance_def intro!: sane_intros split: option.split)

lemma member_joined_quiet:
  assumes "gs_groups w p \<noteq> None" "sane w"
  shows "core (member_joined p pl w) = core w" "sane (member_joined p pl w)"
proof -
  define w1 where "w1 = UpdatePlayerOutOfRange p (pl_guid pl) (act (Call (pl_guid pl) SetGroupUpdateFlag_FULL) (adopt_difficulty p pl w))"
  define w2 where "w2 = with_group p w1 (\<lambda>g. if isRaidGroup g then act (Call (pl_guid pl) UpdateForQuestWorldObjects) w1 else w1)"
  have a: "core (adopt_difficulty p pl w) = core w" using assms(1) by (rule core_adopt_difficulty)
  have alive: "gs_groups w' p \<noteq> None" if "core w' = core w" for w' using core_group_iff [OF that, of p] assms(1) by simp
  have w1: "core w1 = core w" using a alive [OF a] by (simp add: w1_def core_simps)
  have w2: "core w2 = core w" using w1 alive [OF w1] by (auto simp: w2_def with_group_def core_simps)
  have w3: "core (exchange_fields p (pl_guid pl) w2) = core w" using w2 alive [OF w2] by (simp add: core_simps)
  have eq: "member_joined p pl w = raise_enchanting p (pl_guid pl) (exchange_fields p (pl_guid pl) w2)"
    unfolding member_joined_def Let_def w2_def w1_def ..
  show "core (member_joined p pl w) = core w" unfolding eq using w3 alive [OF w3] by (simp add: core_simps)
  have "sane w2" unfolding w2_def by (rule sane_with_group) (use assms(2) in \<open>auto simp: w1_def intro!: sane_intros\<close>)
  then show "sane (member_joined p pl w)" unfolding eq by (intro sane_intros)
qed

lemma downscale_small:
  assumes "has_data m 0" "unat d < MAX_DIFFICULTY"
  shows "unat (GetDownscaledMapDifficultyData has_data m (ucast (d :: u8))) < MAX_DIFFICULTY"
proof -
  have "d = 0 \<or> d = 1 \<or> d = 2 \<or> d = 3" using assms(2) by (auto simp: group_sizes word_unat_eq_iff)
  then show ?thesis using assms(1)
    by (elim disjE) (auto simp: GetDownscaledMapDifficultyData_def RAID_DIFFICULTY_25MAN_NORMAL_def Let_def group_sizes)
qed

lemma add_homebind_quiet:
  assumes "gs_groups w p \<noteq> None" "sane w"
  shows "core (add_homebind p u w) = core w" "sane (add_homebind p u w)"
proof -
  obtain g where g: "gs_groups w p = Some g" using assms(1) by auto
  let ?m = "pg_mapId (gs_pl w u)"
  obtain me where me: "ge_map_entry (gs_env w) ?m = Some me" using sane_map_entry [OF assms(2)] by blast
  have fine: "binds_fine (m_boundInstances g)" using sane_group [OF assms(2) g] by (simp add: group_fine_def)
  let ?d = "GetDownscaledMapDifficultyData (ge_map_difficulty (gs_env w)) ?m (ucast (GetDifficulty g (me_isRaid me)))"
  have d: "unat ?d < MAX_DIFFICULTY"
    by (rule downscale_small) (use assms(2) sane_group [OF assms(2) g] in \<open>auto simp: sane_def env_fine_def group_fine_def GetDifficulty_def\<close>)
  then have bound: "GetBoundInstance w g ?m = Inr (map_find (m_boundInstances g ! unat ?d) ?m)"
    using me fine by (simp add: GetBoundInstance_def binds_fine_def)
  have "bind_fine (?m, b)" if "map_find (m_boundInstances g ! unat ?d) ?m = Some b" for b
    using fine_saves [OF fine d] map_find_SomeD [OF that] by blast
  then show "core (add_homebind p u w) = core w" "sane (add_homebind p u w)"
    using g assms(2) bound
    by (auto simp: add_homebind_def with_group_def bind_fine_def pcore_def intro!: core_modp sane_intros split: option.split)
qed

lemma leave_rolls_quiet:
  assumes "gs_groups w p \<noteq> None" "sane w"
  shows "core (leave_rolls p u w) = core w" "sane (leave_rolls p u w)"
proof -
  obtain g where g: "gs_groups w p = Some g" using assms(1) by auto
  have "distinct (map r_itemGUID (RollId g))" using sane_group [OF assms(2) g] by (simp add: group_fine_def)
  from leave_rolls_eq [OF g this]
  have eq: "leave_rolls p u w = modg p (\<lambda>g. g\<lparr>RollId := map (leave_vote u) (RollId g)\<rparr>) w"
    using g by (simp add: modg_def with_group_def)
  have keep: "r_itemGUID (leave_vote u r) = r_itemGUID r" for r by (simp add: leave_vote_def split: option.split)
  show "core (leave_rolls p u w) = core w" unfolding eq by (rule core_modg [OF g]) (simp add: gcore_def)
  show "sane (leave_rolls p u w)" unfolding eq by (rule sane_modg_fields [OF assms(2)]) (simp add: keep)
qed

lemma leave_enchanting_quiet:
  assumes "gs_groups w p \<noteq> None" "sane w"
  shows "core (leave_enchanting p u w) = core w" "sane (leave_enchanting p u w)"
  using assms by (auto simp: leave_enchanting_def core_simps intro!: sane_intros)

end
