(* ===== verification/Group_Inv.thy ===== *)
theory Group_Inv
  imports Group_Frame
begin

text \<open>
  The invariant of the group system as a whole: what holds of all groups, players, pointers and table rows
  between two packets. It relates the member list of a group to the references of its players, the
  invitations to the pointers that players keep, the subgroup counters to the members they count, and all of
  it to the tables \<^verbatim>\<open>groups\<close> and \<^verbatim>\<open>group_member\<close> and to the pool of storage ids.
\<close>

section \<open>One group\<close>

definition sub_count :: "member_slot list \<Rightarrow> nat \<Rightarrow> nat" where
  "sub_count ss i = length (filter (\<lambda>s. unat (ms_group s) = i) ss)"

text \<open>A raid counts the members of its eight subgroups, none of which holds more than five; a party has no counters.\<close>

definition counts_ok :: "group \<Rightarrow> bool" where
  "counts_ok g =
     (if isRaidGroup g
      then (\<exists>c. m_subGroupsCounts g = Some c \<and> length c = MAX_RAID_SUBGROUPS
              \<and> (\<forall>i < MAX_RAID_SUBGROUPS. unat (c ! i) = sub_count (m_memberSlots g) i))
           \<and> (\<forall>s \<in> set (m_memberSlots g). unat (ms_group s) < MAX_RAID_SUBGROUPS)
           \<and> (\<forall>i < MAX_RAID_SUBGROUPS. sub_count (m_memberSlots g) i \<le> MAXGROUPSIZE)
      else m_subGroupsCounts g = None \<and> (\<forall>s \<in> set (m_memberSlots g). ms_group s = 0)
           \<and> length (m_memberSlots g) \<le> MAXGROUPSIZE)"

definition group_ok :: "group \<Rightarrow> bool" where
  "group_ok g \<longleftrightarrow> distinct (map ms_guid (m_memberSlots g)) \<and> m_bgGroup g = None \<and> m_bfGroup g = None
     \<and> (m_groupType g = GROUPTYPE_NORMAL \<or> m_groupType g = GROUPTYPE_RAID) \<and> counts_ok g"

section \<open>Groups, players and tables\<close>

text \<open>A player's GUID is its nonzero low part under \<^const>\<open>HIGHGUID_PLAYER\<close>.\<close>

definition is_player :: "u64 \<Rightarrow> bool" where
  "is_player u \<longleftrightarrow> GUID_LOPART u \<noteq> 0 \<and> u = MAKE_NEW_GUID (GUID_LOPART u) 0 HIGHGUID_PLAYER"

definition loaded :: "gworld \<Rightarrow> u64 \<Rightarrow> bool" where
  "loaded w u \<longleftrightarrow> u \<in> pl_guid ` set (w_players (gs_world w))"

definition invite_of :: "gworld \<Rightarrow> u64 \<Rightarrow> gptr option" where
  "invite_of w u = pg_groupInvite (gs_pl w u)"

definition subgroup_of :: "gworld \<Rightarrow> u64 \<Rightarrow> u8" where
  "subgroup_of w u = gr_subGroup (pg_group (gs_pl w u))"

abbreviation member_rows :: "gworld \<Rightarrow> (u32, member_row) stdmap" where
  "member_rows w \<equiv> db_group_member (gs_db w)"

abbreviation group_rows :: "gworld \<Rightarrow> (u32, group_row) stdmap" where
  "group_rows w \<equiv> db_groups (gs_db w)"

text \<open>The intrusive list of a group holds the \<^verbatim>\<open>m_group\<close> references that point to it, once each.\<close>

definition linked_ok :: "gworld \<Rightarrow> gptr \<Rightarrow> group \<Rightarrow> bool" where
  "linked_ok w p g \<longleftrightarrow> distinct (m_memberMgr g) \<and> (\<forall>u orig. (u, orig) \<in> set (m_memberMgr g) \<longleftrightarrow> \<not> orig \<and> GetGroup w u = Some p)"

definition invited_ok :: "gworld \<Rightarrow> gptr \<Rightarrow> group \<Rightarrow> bool" where
  "invited_ok w p g \<longleftrightarrow> set_wf (m_invitees g) \<and> (\<forall>u. u \<in> set (m_invitees g) \<longleftrightarrow> invite_of w u = Some p)"

definition members_ok :: "gworld \<Rightarrow> gptr \<Rightarrow> group \<Rightarrow> bool" where
  "members_ok w p g \<longleftrightarrow> (\<forall>s \<in> set (m_memberSlots g). is_player (ms_guid s) \<and> (loaded w (ms_guid s) \<longrightarrow> GetGroup w (ms_guid s) = Some p))"

text \<open>A group has a storage id from its creation on; its rows mirror leader, type, members and subgroups.\<close>

definition stored_ok :: "gworld \<Rightarrow> gptr \<Rightarrow> group \<Rightarrow> bool" where
  "stored_ok w p g \<longleftrightarrow>
     (if m_dbStoreId g = 0 then m_memberSlots g = [] \<and> m_groupType g = GROUPTYPE_NORMAL
      else GetGroupByDbStoreId w (m_dbStoreId g) = Some p
        \<and> (\<exists>r. map_find (group_rows w) (m_dbStoreId g) = Some r \<and> gw_leaderGuid r = GUID_LOPART (m_leaderGuid g)
              \<and> gw_groupType r = m_groupType g)
        \<and> (\<forall>s \<in> set (m_memberSlots g). \<exists>r. map_find (member_rows w) (GUID_LOPART (ms_guid s)) = Some r
              \<and> mw_guid r = m_dbStoreId g \<and> mw_subgroup r = ms_group s))"

definition player_ok :: "gworld \<Rightarrow> u64 \<Rightarrow> bool" where
  "player_ok w u \<longleftrightarrow> GetOriginalGroup w u = None
     \<and> (\<forall>p. GetGroup w u = Some p \<longrightarrow> loaded w u
          \<and> (\<exists>g s. gs_groups w p = Some g \<and> s \<in> set (m_memberSlots g) \<and> ms_guid s = u \<and> ms_group s = subgroup_of w u))
     \<and> (\<forall>p. invite_of w u = Some p \<longrightarrow> loaded w u \<and> GetGroup w u = None \<and> gs_groups w p \<noteq> None)"

definition tables_ok :: "gworld \<Rightarrow> bool" where
  "tables_ok w \<longleftrightarrow> map_wf (member_rows w) \<and> map_wf (group_rows w) \<and> pool_ok w
     \<and> (\<forall>m r. map_find (member_rows w) m = Some r \<longrightarrow>
          (\<exists>p g s. gs_groups w p = Some g \<and> s \<in> set (m_memberSlots g) \<and> GUID_LOPART (ms_guid s) = m \<and> m_dbStoreId g = mw_guid r))
     \<and> (\<forall>i p. GetGroupByDbStoreId w i = Some p \<longrightarrow> (\<exists>g. gs_groups w p = Some g \<and> m_dbStoreId g = i \<and> i \<noteq> 0))
     \<and> (\<forall>i. map_find (group_rows w) i \<noteq> None \<longrightarrow> GetGroupByDbStoreId w i \<noteq> None)"

definition players_ok :: "world \<Rightarrow> bool" where
  "players_ok W \<longleftrightarrow> world_wf W \<and> (\<forall>pl \<in> set (w_players W). is_player (pl_guid pl))"

definition each_group_ok :: "gworld \<Rightarrow> gptr \<Rightarrow> group \<Rightarrow> bool" where
  "each_group_ok w p g \<longleftrightarrow> p < gs_next w \<and> group_ok g \<and> linked_ok w p g \<and> invited_ok w p g \<and> members_ok w p g \<and> stored_ok w p g"

definition consistent :: "gworld \<Rightarrow> bool" where
  "consistent w \<longleftrightarrow> gs_fault w = None \<and> sane w \<and> players_ok (gs_world w)
     \<and> (\<forall>p g. gs_groups w p = Some g \<longrightarrow> each_group_ok w p g) \<and> (\<forall>u. player_ok w u) \<and> tables_ok w"

text \<open>
  Between two packets a group with a storage id has at least two members, and one that is only being formed
  has its future leader among the invited.
\<close>

definition settled :: "group \<Rightarrow> bool" where
  "settled g = (if m_dbStoreId g = 0 then m_invitees g = [] \<or> m_leaderGuid g \<in> set (m_invitees g) else 2 \<le> length (m_memberSlots g))"

definition group_inv :: "gworld \<Rightarrow> bool" where
  "group_inv w \<longleftrightarrow> consistent w \<and> (\<forall>p g. gs_groups w p = Some g \<longrightarrow> settled g)"

section \<open>Consequences\<close>

lemma lopart_inj: "is_player u \<Longrightarrow> is_player v \<Longrightarrow> GUID_LOPART u = GUID_LOPART v \<Longrightarrow> u = v"
  by (simp add: is_player_def)

lemma is_player_GUID: "is_player u \<Longrightarrow> IS_PLAYER_GUID u"
proof -
  assume u: "is_player u"
  then obtain l where l: "l \<noteq> 0" "u = MAKE_NEW_GUID l 0 HIGHGUID_PLAYER" unfolding is_player_def by blast
  have "GUID_HIPART u = HIGHGUID_PLAYER" unfolding l(2) by (rule hipart_make_new) (simp_all add: HIGHGUID_PLAYER_def)
  moreover have "u \<noteq> 0" using l lopart2_make_new [of l HIGHGUID_PLAYER] by (auto simp: GUID_LOPART_2_def)
  ultimately show ?thesis by (simp add: IS_PLAYER_GUID_def)
qed

lemma consistentD:
  assumes "consistent w"
  shows "gs_fault w = None" "sane w" "players_ok (gs_world w)" "tables_ok w" "player_ok w u"
    "gs_groups w p = Some g \<Longrightarrow> each_group_ok w p g"
  using assms by (simp_all add: consistent_def)

lemma stored_rowD:
  assumes "stored_ok w p g" "s \<in> set (m_memberSlots g)"
  shows "m_dbStoreId g \<noteq> 0" "GetGroupByDbStoreId w (m_dbStoreId g) = Some p"
    "\<exists>r. map_find (member_rows w) (GUID_LOPART (ms_guid s)) = Some r \<and> mw_guid r = m_dbStoreId g \<and> mw_subgroup r = ms_group s"
proof -
  show id: "m_dbStoreId g \<noteq> 0" using assms by (auto simp: stored_ok_def)
  show "GetGroupByDbStoreId w (m_dbStoreId g) = Some p" using assms(1) id by (simp add: stored_ok_def)
  show "\<exists>r. map_find (member_rows w) (GUID_LOPART (ms_guid s)) = Some r \<and> mw_guid r = m_dbStoreId g \<and> mw_subgroup r = ms_group s"
    using assms id unfolding stored_ok_def by simp
qed

lemma tables_rowD:
  "tables_ok w \<Longrightarrow> map_find (member_rows w) m = Some r \<Longrightarrow>
     \<exists>p g s. gs_groups w p = Some g \<and> s \<in> set (m_memberSlots g) \<and> GUID_LOPART (ms_guid s) = m \<and> m_dbStoreId g = mw_guid r"
  unfolding tables_ok_def by blast

lemma tables_poolD:
  "tables_ok w \<Longrightarrow> GetGroupByDbStoreId w i = Some p \<Longrightarrow> \<exists>g. gs_groups w p = Some g \<and> m_dbStoreId g = i \<and> i \<noteq> 0"
  unfolding tables_ok_def by blast

text \<open>Nobody is a member of two groups: the rows of \<^verbatim>\<open>group_member\<close> have the member as their key.\<close>

lemma one_group:
  assumes "consistent w" "gs_groups w p = Some g" "s \<in> set (m_memberSlots g)"
    and "gs_groups w q = Some h" "t \<in> set (m_memberSlots h)" "GUID_LOPART (ms_guid s) = GUID_LOPART (ms_guid t)"
  shows "p = q"
proof -
  have "stored_ok w p g" "stored_ok w q h"
    using consistentD(6) [OF assms(1)] assms(2,4) by (auto simp: each_group_ok_def)
  then show ?thesis using stored_rowD [of w p g s] stored_rowD [of w q h t] assms(3,5,6) by auto
qed

lemma find_player_loaded: "find_player w u = Some pl \<Longrightarrow> loaded w u \<and> pl_guid pl = u \<and> pl \<in> set (w_players (gs_world w))"
  by (auto simp: find_player_def FindPlayer_def loaded_def find_Some_iff split: option.splits if_splits)

lemma loaded_player_guid: "consistent w \<Longrightarrow> loaded w u \<Longrightarrow> is_player u"
  by (auto simp: consistent_def players_ok_def loaded_def)

lemma GetMemberSlot_Some: "GetMemberSlot g u = Some s \<Longrightarrow> s \<in> set (m_memberSlots g) \<and> ms_guid s = u"
  by (auto simp: GetMemberSlot_def find_Some_iff)

lemma GetMemberSlot_None: "GetMemberSlot g u = None \<longleftrightarrow> u \<notin> ms_guid ` set (m_memberSlots g)"
  by (auto simp: GetMemberSlot_def find_None_iff)

section \<open>Operations that keep the core keep the invariant\<close>

lemma consistent_core:
  assumes "consistent w" "core w' = core w" "sane w'"
  shows "consistent w'"
proof -
  note eq = core_eqD [OF assms(2)]
  note pl = core_player [OF assms(2)]
  have view: "GetGroup w' = GetGroup w" "invite_of w' = invite_of w" "subgroup_of w' = subgroup_of w"
    "GetOriginalGroup w' = GetOriginalGroup w" "loaded w' = loaded w" "GetGroupByDbStoreId w' = GetGroupByDbStoreId w"
    using pl eq by (auto simp: invite_of_def subgroup_of_def loaded_def GetGroupByDbStoreId_def fun_eq_iff)
  have grp: "\<exists>g. gs_groups w p = Some g \<and> gcore g' = gcore g" if "gs_groups w' p = Some g'" for p g'
    using eq(10) [of p] that by (cases "gs_groups w p") auto
  have grp': "\<exists>g'. gs_groups w' p = Some g' \<and> gcore g' = gcore g" if "gs_groups w p = Some g" for p g
    using eq(10) [of p] that by (cases "gs_groups w' p") auto
  have each: "each_group_ok w' p g'" if g': "gs_groups w' p = Some g'" for p g'
  proof -
    obtain g where g: "gs_groups w p = Some g" "gcore g' = gcore g" using grp [OF g'] by blast
    note G = consistentD(6) [OF assms(1) g(1)] and f = gcore_eqD [OF g(2)]
    have "group_ok g'" using G f by (simp add: each_group_ok_def group_ok_def counts_ok_def isRaidGroup_def)
    moreover have "linked_ok w' p g'" "invited_ok w' p g'" "members_ok w' p g'" "stored_ok w' p g'"
      using G f view eq by (simp_all add: each_group_ok_def linked_ok_def invited_ok_def members_ok_def stored_ok_def)
    ultimately show ?thesis using G eq by (simp add: each_group_ok_def)
  qed
  have "player_ok w' u" for u
  proof -
    have "\<exists>g' s. gs_groups w' p = Some g' \<and> s \<in> set (m_memberSlots g') \<and> ms_guid s = u \<and> ms_group s = subgroup_of w u"
      if "GetGroup w u = Some p" for p
      using consistentD(5) [OF assms(1), of u] that grp' gcore_eqD(1) unfolding player_ok_def by metis
    then show ?thesis
      using consistentD(5) [OF assms(1), of u] core_group_iff [OF assms(2)] view by (auto simp: player_ok_def)
  qed
  moreover have "tables_ok w'"
  proof -
    have t: "tables_ok w" by (rule consistentD(4) [OF assms(1)])
    have "\<exists>p g s. gs_groups w' p = Some g \<and> s \<in> set (m_memberSlots g) \<and> GUID_LOPART (ms_guid s) = m \<and> m_dbStoreId g = mw_guid r"
      if row: "map_find (member_rows w) m = Some r" for m r
    proof -
      obtain p g s where g: "gs_groups w p = Some g" "s \<in> set (m_memberSlots g)" "GUID_LOPART (ms_guid s) = m" "m_dbStoreId g = mw_guid r"
        using tables_rowD [OF t row] by blast
      obtain g' where "gs_groups w' p = Some g'" "gcore g' = gcore g" using grp' [OF g(1)] by blast
      then show ?thesis using g gcore_eqD by metis
    qed
    moreover have "\<exists>g. gs_groups w' p = Some g \<and> m_dbStoreId g = i \<and> i \<noteq> 0" if pool: "GetGroupByDbStoreId w i = Some p" for i p
    proof -
      obtain g where g: "gs_groups w p = Some g" "m_dbStoreId g = i" "i \<noteq> 0" using tables_poolD [OF t pool] by blast
      obtain g' where "gs_groups w' p = Some g'" "gcore g' = gcore g" using grp' [OF g(1)] by blast
      then show ?thesis using g gcore_eqD by metis
    qed
    ultimately show ?thesis using t view eq by (simp add: tables_ok_def pool_ok_def)
  qed
  ultimately show ?thesis
    using each assms(1,3) eq by (simp add: consistent_def)
qed

section \<open>Changes to one group\<close>

text \<open>
  The operations below change the group at one address \<open>p\<close> (which they may create or delete), the slots and rows
  of some players \<open>U\<close> who have to do with no other group, whom they may load or unload, and the pool and the
  row of the storage ids that the group had or gets. Whatever they do there, the rest of the state stays
  consistent.
\<close>

definition store_ids :: "gworld \<Rightarrow> gworld \<Rightarrow> gptr \<Rightarrow> u32 set" where
  "store_ids w w' p = {i. i \<noteq> 0 \<and> (\<exists>g. (gs_groups w p = Some g \<or> gs_groups w' p = Some g) \<and> m_dbStoreId g = i)}"

definition footprint :: "gworld \<Rightarrow> gworld \<Rightarrow> gptr \<Rightarrow> u64 set \<Rightarrow> bool" where
  "footprint w w' p U \<longleftrightarrow>
     (consistent w \<and> sane w' \<and> players_ok (gs_world w') \<and> gs_fault w' = None \<and> gs_next w \<le> gs_next w')
     \<and> (\<forall>q. q \<noteq> p \<longrightarrow> gs_groups w' q = gs_groups w q)
     \<and> (\<forall>v. v \<notin> U \<longrightarrow> loaded w' v = loaded w v \<and> pg_group (gs_pl w' v) = pg_group (gs_pl w v)
          \<and> pg_originalGroup (gs_pl w' v) = pg_originalGroup (gs_pl w v) \<and> pg_groupInvite (gs_pl w' v) = pg_groupInvite (gs_pl w v))
     \<and> (\<forall>u \<in> U. is_player u \<and> GetGroup w u \<in> {None, Some p} \<and> GetGroup w' u \<in> {None, Some p}
          \<and> invite_of w u \<in> {None, Some p} \<and> invite_of w' u \<in> {None, Some p})
     \<and> (\<forall>q h s. q \<noteq> p \<longrightarrow> gs_groups w q = Some h \<longrightarrow> s \<in> set (m_memberSlots h) \<longrightarrow> ms_guid s \<notin> U)
     \<and> (\<forall>m. m \<notin> GUID_LOPART ` U \<longrightarrow> map_find (member_rows w') m = map_find (member_rows w) m)
     \<and> (map_wf (member_rows w') \<and> map_wf (group_rows w') \<and> pool_ok w')
     \<and> (\<forall>i. i \<notin> store_ids w w' p \<longrightarrow> GetGroupByDbStoreId w' i = GetGroupByDbStoreId w i
          \<and> map_find (group_rows w') i = map_find (group_rows w) i)
     \<and> (\<forall>i \<in> store_ids w w' p. GetGroupByDbStoreId w i \<in> {None, Some p}
          \<and> (map_find (group_rows w') i \<noteq> None \<longrightarrow> GetGroupByDbStoreId w' i \<noteq> None)
          \<and> (\<forall>q. GetGroupByDbStoreId w' i = Some q \<longrightarrow> q = p \<and> (\<exists>g'. gs_groups w' p = Some g' \<and> m_dbStoreId g' = i)))
     \<and> (\<forall>g s. gs_groups w p = Some g \<longrightarrow> s \<in> set (m_memberSlots g) \<longrightarrow> ms_guid s \<notin> U \<longrightarrow>
          (\<exists>g'. gs_groups w' p = Some g' \<and> m_dbStoreId g' = m_dbStoreId g
            \<and> (\<exists>s' \<in> set (m_memberSlots g'). ms_guid s' = ms_guid s \<and> ms_group s' = ms_group s)))
     \<and> (\<forall>v. v \<notin> U \<longrightarrow> invite_of w v = Some p \<longrightarrow> gs_groups w' p \<noteq> None)
     \<and> (\<forall>u \<in> U. \<forall>r. map_find (member_rows w') (GUID_LOPART u) = Some r \<longrightarrow>
          (\<exists>g'. gs_groups w' p = Some g' \<and> mw_guid r = m_dbStoreId g' \<and> (\<exists>s' \<in> set (m_memberSlots g'). ms_guid s' = u)))"

lemma footprintD:
  assumes "footprint w w' p U"
  shows fp_before: "consistent w" and fp_same: "sane w'" "players_ok (gs_world w')" "gs_fault w' = None" "gs_next w \<le> gs_next w'"
    and fp_groups: "q \<noteq> p \<Longrightarrow> gs_groups w' q = gs_groups w q"
    and fp_others: "v \<notin> U \<Longrightarrow> loaded w' v = loaded w v \<and> pg_group (gs_pl w' v) = pg_group (gs_pl w v)
      \<and> pg_originalGroup (gs_pl w' v) = pg_originalGroup (gs_pl w v) \<and> pg_groupInvite (gs_pl w' v) = pg_groupInvite (gs_pl w v)"
    and fp_ref: "u \<in> U \<Longrightarrow> is_player u \<and> GetGroup w u \<in> {None, Some p} \<and> GetGroup w' u \<in> {None, Some p}
      \<and> invite_of w u \<in> {None, Some p} \<and> invite_of w' u \<in> {None, Some p}"
    and fp_elsewhere: "q \<noteq> p \<Longrightarrow> gs_groups w q = Some h \<Longrightarrow> s \<in> set (m_memberSlots h) \<Longrightarrow> ms_guid s \<notin> U"
    and fp_rows: "m \<notin> GUID_LOPART ` U \<Longrightarrow> map_find (member_rows w') m = map_find (member_rows w) m"
    and fp_wf: "map_wf (member_rows w')" "map_wf (group_rows w')" "pool_ok w'"
    and fp_ids: "i \<notin> store_ids w w' p \<Longrightarrow> GetGroupByDbStoreId w' i = GetGroupByDbStoreId w i
      \<and> map_find (group_rows w') i = map_find (group_rows w) i"
    and fp_own_ids: "i \<in> store_ids w w' p \<Longrightarrow> GetGroupByDbStoreId w i \<in> {None, Some p}
      \<and> (map_find (group_rows w') i \<noteq> None \<longrightarrow> GetGroupByDbStoreId w' i \<noteq> None)
      \<and> (\<forall>q. GetGroupByDbStoreId w' i = Some q \<longrightarrow> q = p \<and> (\<exists>g'. gs_groups w' p = Some g' \<and> m_dbStoreId g' = i))"
    and fp_keep: "gs_groups w p = Some g \<Longrightarrow> s \<in> set (m_memberSlots g) \<Longrightarrow> ms_guid s \<notin> U \<Longrightarrow>
      \<exists>g'. gs_groups w' p = Some g' \<and> m_dbStoreId g' = m_dbStoreId g
        \<and> (\<exists>s' \<in> set (m_memberSlots g'). ms_guid s' = ms_guid s \<and> ms_group s' = ms_group s)"
    and fp_invited: "v \<notin> U \<Longrightarrow> invite_of w v = Some p \<Longrightarrow> gs_groups w' p \<noteq> None"
    and fp_urow: "u \<in> U \<Longrightarrow> map_find (member_rows w') (GUID_LOPART u) = Some r \<Longrightarrow>
      \<exists>g'. gs_groups w' p = Some g' \<and> mw_guid r = m_dbStoreId g' \<and> (\<exists>s' \<in> set (m_memberSlots g'). ms_guid s' = u)"
  using assms unfolding footprint_def by (elim conjE; (assumption | metis))+

lemma fp_view:
  assumes fp: "footprint w w' p U"
  shows "v \<notin> U \<Longrightarrow> GetGroup w' v = GetGroup w v" "v \<notin> U \<Longrightarrow> GetOriginalGroup w' v = GetOriginalGroup w v"
  "v \<notin> U \<Longrightarrow> invite_of w' v = invite_of w v" "v \<notin> U \<Longrightarrow> subgroup_of w' v = subgroup_of w v"
  "v \<notin> U \<Longrightarrow> loaded w' v = loaded w v"
  using fp_others [OF fp, of v] by (simp_all add: GetGroup_def GetOriginalGroup_def invite_of_def subgroup_of_def)

lemma fp_other_groups:
  assumes fp: "footprint w w' p U" and q: "q \<noteq> p" "gs_groups w q = Some h"
  shows "each_group_ok w' q h"
proof -
  have h: "each_group_ok w q h" using consistentD(6) [OF fp_before [OF fp] q(2)] .
  have "GetGroup w' v = Some q \<longleftrightarrow> GetGroup w v = Some q" for v
    using fp_view(1) [OF fp, of v] fp_ref [OF fp, of v] q(1) by (cases "v \<in> U") auto
  moreover have "invite_of w' v = Some q \<longleftrightarrow> invite_of w v = Some q" for v
    using fp_view(3) [OF fp, of v] fp_ref [OF fp, of v] q(1) by (cases "v \<in> U") auto
  moreover have "map_find (member_rows w') (GUID_LOPART (ms_guid s)) = map_find (member_rows w) (GUID_LOPART (ms_guid s))"
    if "s \<in> set (m_memberSlots h)" for s
  proof -
    have "is_player (ms_guid s)" "ms_guid s \<notin> U" using h that fp_elsewhere [OF fp q that] by (auto simp: each_group_ok_def members_ok_def)
    then have "GUID_LOPART (ms_guid s) \<notin> GUID_LOPART ` U" using fp_ref [OF fp] lopart_inj by blast
    then show ?thesis by (rule fp_rows [OF fp])
  qed
  moreover have "m_dbStoreId h \<noteq> 0 \<Longrightarrow> m_dbStoreId h \<notin> store_ids w w' p"
    using h fp_own_ids [OF fp, of "m_dbStoreId h"] q(1) by (auto simp: each_group_ok_def stored_ok_def)
  moreover have "loaded w' (ms_guid s) = loaded w (ms_guid s)" if "s \<in> set (m_memberSlots h)" for s
    using fp_elsewhere [OF fp q that] fp_view(5) [OF fp] by blast
  ultimately show ?thesis
    using h fp_same(4) [OF fp] fp_ids [OF fp, of "m_dbStoreId h"]
    by (simp add: each_group_ok_def linked_ok_def invited_ok_def members_ok_def stored_ok_def)
qed

lemma fp_other_players:
  assumes fp: "footprint w w' p U" and "v \<notin> U"
  shows "player_ok w' v"
proof -
  have v: "player_ok w v" by (rule consistentD(5) [OF fp_before [OF fp]])
  have "\<exists>h s. gs_groups w' q = Some h \<and> s \<in> set (m_memberSlots h) \<and> ms_guid s = v \<and> ms_group s = subgroup_of w v"
    if q: "GetGroup w v = Some q" for q
  proof -
    obtain h s where h: "gs_groups w q = Some h" "s \<in> set (m_memberSlots h)" "ms_guid s = v" "ms_group s = subgroup_of w v"
      using v q unfolding player_ok_def by blast
    show ?thesis
    proof (cases "q = p")
      case True
      then show ?thesis using fp_keep [OF fp, of h s] h assms(2) by auto
    next
      case False
      then show ?thesis using h fp_groups [OF fp] by auto
    qed
  qed
  moreover have "gs_groups w' q \<noteq> None" if "invite_of w v = Some q" for q
    using that v fp_invited [OF fp assms(2)] fp_groups [OF fp] unfolding player_ok_def by (cases "q = p") auto
  ultimately show ?thesis using v fp_view [OF fp] assms(2) unfolding player_ok_def by auto
qed

lemma fp_tables:
  assumes fp: "footprint w w' p U"
  shows "tables_ok w'"
proof -
  have t: "tables_ok w" by (rule consistentD(4) [OF fp_before [OF fp]])
  have "\<exists>q h s. gs_groups w' q = Some h \<and> s \<in> set (m_memberSlots h) \<and> GUID_LOPART (ms_guid s) = m \<and> m_dbStoreId h = mw_guid r"
    if r: "map_find (member_rows w') m = Some r" for m r
  proof (cases "m \<in> GUID_LOPART ` U")
    case True
    then show ?thesis using fp_urow [OF fp] r by force
  next
    case False
    then obtain q h s where h: "gs_groups w q = Some h" "s \<in> set (m_memberSlots h)" "GUID_LOPART (ms_guid s) = m" "m_dbStoreId h = mw_guid r"
      using tables_rowD [OF t, of m r] fp_rows [OF fp] r by auto
    then show ?thesis
    proof (cases "q = p")
      case True
      have "ms_guid s \<notin> U" using h False by auto
      then show ?thesis using fp_keep [OF fp, of h s] h True by metis
    next
      case False
      then show ?thesis using h fp_groups [OF fp] by metis
    qed
  qed
  moreover have "\<exists>h. gs_groups w' q = Some h \<and> m_dbStoreId h = i \<and> i \<noteq> 0" if i: "GetGroupByDbStoreId w' i = Some q" for i q
  proof (cases "i \<in> store_ids w w' p")
    case True
    then show ?thesis using fp_own_ids [OF fp True] i by (auto simp: store_ids_def)
  next
    case False
    then obtain h where h: "gs_groups w q = Some h" "m_dbStoreId h = i" "i \<noteq> 0"
      using tables_poolD [OF t, of i q] fp_ids [OF fp False] i by auto
    then have "q \<noteq> p" using False by (auto simp: store_ids_def)
    then show ?thesis using h fp_groups [OF fp] by simp
  qed
  moreover have "GetGroupByDbStoreId w' i \<noteq> None" if i: "map_find (group_rows w') i \<noteq> None" for i
    using fp_own_ids [OF fp, of i] fp_ids [OF fp, of i] i t by (cases "i \<in> store_ids w w' p") (auto simp: tables_ok_def)
  ultimately show ?thesis using fp_wf [OF fp] unfolding tables_ok_def by simp
qed

text \<open>It remains to look at the group and the players that change.\<close>

lemma fp_consistent:
  assumes fp: "footprint w w' p U"
    and ok: "\<And>g'. gs_groups w' p = Some g' \<Longrightarrow> each_group_ok w' p g'" "\<And>u. u \<in> U \<Longrightarrow> player_ok w' u"
  shows "consistent w'"
proof -
  have "each_group_ok w' q h" if "gs_groups w' q = Some h" for q h
    using that ok(1) fp_groups [OF fp] fp_other_groups [OF fp] by (cases "q = p") auto
  moreover have "player_ok w' v" for v using fp_other_players [OF fp, of v] ok(2) by (cases "v \<in> U") auto
  ultimately show ?thesis using fp_same [OF fp] fp_tables [OF fp] by (simp add: consistent_def)
qed

text \<open>Most operations leave the address and the storage id of the group alone.\<close>

lemma footprint_local:
  assumes c: "consistent w" and g: "gs_groups w p = Some g" "gs_groups w' = (gs_groups w)(p \<mapsto> g')" "m_dbStoreId g' = m_dbStoreId g"
    and same: "sane w'" "players_ok (gs_world w')" "gs_fault w' = None" "gs_next w' = gs_next w" "GroupDbStore w' = GroupDbStore w"
      "NextGroupDbStoreId w' = NextGroupDbStoreId w"
    and others: "\<And>v. v \<notin> U \<Longrightarrow> loaded w' v = loaded w v \<and> pg_group (gs_pl w' v) = pg_group (gs_pl w v)
      \<and> pg_originalGroup (gs_pl w' v) = pg_originalGroup (gs_pl w v) \<and> pg_groupInvite (gs_pl w' v) = pg_groupInvite (gs_pl w v)"
    and ref: "\<And>u. u \<in> U \<Longrightarrow> is_player u \<and> GetGroup w u \<in> {None, Some p} \<and> GetGroup w' u \<in> {None, Some p}
      \<and> invite_of w u \<in> {None, Some p} \<and> invite_of w' u \<in> {None, Some p}"
    and elsewhere: "\<And>q h s. q \<noteq> p \<Longrightarrow> gs_groups w q = Some h \<Longrightarrow> s \<in> set (m_memberSlots h) \<Longrightarrow> ms_guid s \<notin> U"
    and rows: "\<And>m. m \<notin> GUID_LOPART ` U \<Longrightarrow> map_find (member_rows w') m = map_find (member_rows w) m" "map_wf (member_rows w')"
    and grows: "\<And>i. i \<noteq> m_dbStoreId g \<or> i = 0 \<Longrightarrow> map_find (group_rows w') i = map_find (group_rows w) i" "map_wf (group_rows w')"
    and keep: "\<And>s. s \<in> set (m_memberSlots g) \<Longrightarrow> ms_guid s \<notin> U \<Longrightarrow>
      \<exists>s' \<in> set (m_memberSlots g'). ms_guid s' = ms_guid s \<and> ms_group s' = ms_group s"
    and urow: "\<And>u r. u \<in> U \<Longrightarrow> map_find (member_rows w') (GUID_LOPART u) = Some r \<Longrightarrow>
      mw_guid r = m_dbStoreId g \<and> (\<exists>s' \<in> set (m_memberSlots g'). ms_guid s' = u)"
  shows "footprint w w' p U"
proof -
  have ids: "store_ids w w' p = {i. i \<noteq> 0 \<and> i = m_dbStoreId g}" using g by (auto simp: store_ids_def)
  have pool: "GetGroupByDbStoreId w' i = GetGroupByDbStoreId w i" for i using same by (simp add: GetGroupByDbStoreId_def)
  have own: "GetGroupByDbStoreId w (m_dbStoreId g) = Some p" if "m_dbStoreId g \<noteq> 0"
    using consistentD(6) [OF c g(1)] that by (simp add: each_group_ok_def stored_ok_def)
  have ok: "pool_ok w'" using consistentD(4) [OF c] same by (simp add: tables_ok_def pool_ok_def)
  show ?thesis
    unfolding footprint_def
  proof (intro conjI allI ballI impI)
    show "gs_next w \<le> gs_next w'" using same by simp
    show "gs_groups w' q = gs_groups w q" if "q \<noteq> p" for q using g that by simp
    show "GetGroupByDbStoreId w' i = GetGroupByDbStoreId w i" for i by (rule pool)
    show "map_find (group_rows w') i = map_find (group_rows w) i" if "i \<notin> store_ids w w' p" for i
      using that by (intro grows(1)) (auto simp: ids)
    show "GetGroupByDbStoreId w i \<in> {None, Some p}" if "i \<in> store_ids w w' p" for i using that own by (auto simp: ids)
    show "GetGroupByDbStoreId w' i \<noteq> None" if "i \<in> store_ids w w' p" for i using that own pool by (auto simp: ids)
    show "q = p" if "i \<in> store_ids w w' p" "GetGroupByDbStoreId w' i = Some q" for i q using that own pool by (auto simp: ids)
    show "\<exists>g'. gs_groups w' p = Some g' \<and> m_dbStoreId g' = i" if "i \<in> store_ids w w' p" for i using that g by (simp add: ids)
    show "\<exists>g'. gs_groups w' p = Some g' \<and> m_dbStoreId g' = m_dbStoreId ga \<and> (\<exists>s' \<in> set (m_memberSlots g'). ms_guid s' = ms_guid s \<and> ms_group s' = ms_group s)"
      if "gs_groups w p = Some ga" "s \<in> set (m_memberSlots ga)" "ms_guid s \<notin> U" for ga s
      using keep [of s] that g by simp
    show "gs_groups w' p \<noteq> None" using g by simp
    show "\<exists>g'. gs_groups w' p = Some g' \<and> mw_guid r = m_dbStoreId g' \<and> (\<exists>s' \<in> set (m_memberSlots g'). ms_guid s' = u)"
      if "u \<in> U" "map_find (member_rows w') (GUID_LOPART u) = Some r" for u r
      using urow [OF that] g by simp
    show "map_find (member_rows w') m = map_find (member_rows w) m" if "m \<notin> GUID_LOPART ` U" for m using that by (rule rows(1))
    show "ms_guid s \<notin> U" if "q \<noteq> p" "gs_groups w q = Some h" "s \<in> set (m_memberSlots h)" for q h s using elsewhere [OF that] .
  qed (fact c same rows(2) grows(2) ok | (drule others, blast) | (drule ref, blast))+
qed

end
