(* ===== verification/Group_Steps.thy ===== *)
theory Group_Steps
  imports Group_Inv
begin

text \<open>
  Operations on the fields that the invariant is about, players without a group, and invitations: \<^verbatim>\<open>AddInvite\<close> and
  \<^verbatim>\<open>RemoveInvite\<close> keep the state consistent.
\<close>

section \<open>Operations and the core\<close>

text \<open>An operation on the fields that matter sees nothing but the core.\<close>

lemma core_gfault: "core (gfault e w) = gfault e (core w)"
  by (simp add: core_def gfault_def)

lemma core_modg_eq:
  assumes "\<And>g. gcore (f g) = f (gcore g)"
  shows "core (modg p f w) = modg p f (core w)"
  using assms
proof (cases "gs_groups w p")
  case None
  then show ?thesis by (simp add: modg_def with_group_def core_gfault core_sel)
qed (auto simp: modg_def with_group_def core_def fun_eq_iff)

lemma core_modp_eq: "(\<And>d. pcore (f d) = f (pcore d)) \<Longrightarrow> core (modp u f w) = modp u f (core w)"
  by (auto simp: modp_def core_def fun_eq_iff)

lemma core_sql_eq: "core (sql s w) = (core w)\<lparr>gs_db := exec_group s (gs_db w)\<rparr>"
  by (simp add: sql_def core_act) (simp add: core_def)

lemma core_sql_cong: "core x = core y \<Longrightarrow> core (sql s x) = core (sql s y)"
  using core_eqD(3) [of x y] by (simp add: core_sql_eq)

lemma core_ref_unlink_eq: "core (ref_unlink u orig w) = ref_unlink u orig (core w)"
proof -
  have r: "ref_get orig (pcore d) = ref_get orig d" for d by (simp add: ref_get_def pcore_sel)
  have "pcore (ref_upd orig f d) = ref_upd orig f (pcore d)" for f d by (simp add: ref_upd_def pcore_def)
  then show ?thesis
    by (cases "gr_target (ref_get orig (gs_pl w u))")
      (simp_all add: ref_unlink_def Let_def r core_sel core_modp_eq core_modg_eq gcore_def)
qed

lemma core_ref_unlink_cong: "core x = core y \<Longrightarrow> core (ref_unlink u orig x) = core (ref_unlink u orig y)"
  by (simp add: core_ref_unlink_eq)

section \<open>Players without a group\<close>

definition ungrouped :: "gworld \<Rightarrow> u64 \<Rightarrow> bool" where
  "ungrouped w u \<longleftrightarrow> loaded w u \<and> GetGroup w u = None"

lemma ungrouped_elsewhere:
  "consistent w \<Longrightarrow> ungrouped w u \<Longrightarrow> gs_groups w q = Some h \<Longrightarrow> s \<in> set (m_memberSlots h) \<Longrightarrow> ms_guid s \<noteq> u"
  using consistentD(6) [of w q h] by (auto simp: ungrouped_def each_group_ok_def members_ok_def)

lemma ungrouped_no_row:
  assumes "consistent w" "ungrouped w u"
  shows "map_find (member_rows w) (GUID_LOPART u) = None"
proof (rule ccontr)
  assume "map_find (member_rows w) (GUID_LOPART u) \<noteq> None"
  then obtain p g s where s: "gs_groups w p = Some g" "s \<in> set (m_memberSlots g)" "GUID_LOPART (ms_guid s) = GUID_LOPART u"
    using tables_rowD [OF consistentD(4) [OF assms(1)]] by blast
  have "is_player u" using assms loaded_player_guid by (auto simp: ungrouped_def)
  moreover have "is_player (ms_guid s)" using consistentD(6) [OF assms(1) s(1)] s(2) by (auto simp: each_group_ok_def members_ok_def)
  ultimately have "ms_guid s = u" using s(3) by (intro lopart_inj)
  then show False using ungrouped_elsewhere [OF assms s(1,2)] by simp
qed

lemma invited_ungrouped: "consistent w \<Longrightarrow> invite_of w u = Some p \<Longrightarrow> ungrouped w u \<and> gs_groups w p \<noteq> None"
  using consistentD(5) [of w u] by (auto simp: player_ok_def ungrouped_def)

lemma consistent_tables: "consistent w \<Longrightarrow> map_wf (member_rows w) \<and> map_wf (group_rows w)"
  using consistentD(4) by (auto simp: tables_ok_def)

section \<open>Invitations\<close>

text \<open>Changing who is invited to a group.\<close>

definition set_invited :: "gptr \<Rightarrow> (u64 stdset \<Rightarrow> u64 stdset) \<Rightarrow> u64 \<Rightarrow> gptr option \<Rightarrow> gworld \<Rightarrow> gworld" where
  "set_invited p f u q w = SetGroupInvite u q (modg p (\<lambda>g. g\<lparr>m_invitees := f (m_invitees g)\<rparr>) w)"

lemma set_invited_consistent:
  assumes c: "consistent w" and g: "gs_groups w p = Some g" and free: "ungrouped w u"
    and i: "invite_of w u = None \<or> invite_of w u = Some p" and q: "q = None \<or> q = Some p"
    and f: "set_wf (f (m_invitees g))" "\<And>v. v \<in> set (f (m_invitees g)) \<longleftrightarrow> (if v = u then q = Some p else v \<in> set (m_invitees g))"
  shows "consistent (set_invited p f u q w)"
proof -
  let ?w' = "set_invited p f u q w" and ?g' = "g\<lparr>m_invitees := f (m_invitees g)\<rparr>"
  have groups: "gs_groups ?w' = (gs_groups w)(p \<mapsto> ?g')"
    using g by (simp add: set_invited_def SetGroupInvite_def modg_def with_group_def)
  have pl: "gs_pl ?w' = (gs_pl w)(u := (gs_pl w u)\<lparr>pg_groupInvite := q\<rparr>)"
    using g by (simp add: set_invited_def SetGroupInvite_def modp_def modg_def with_group_def)
  have same: "gs_world ?w' = gs_world w" "gs_next ?w' = gs_next w" "gs_fault ?w' = gs_fault w" "gs_db ?w' = gs_db w"
      "NextGroupDbStoreId ?w' = NextGroupDbStoreId w" "GroupDbStore ?w' = GroupDbStore w"
    using g by (simp_all add: set_invited_def SetGroupInvite_def modp_def modg_def with_group_def)
  have view: "GetGroup ?w' v = GetGroup w v" "GetOriginalGroup ?w' v = GetOriginalGroup w v" "loaded ?w' v = loaded w v"
      "subgroup_of ?w' v = subgroup_of w v" "GetGroupByDbStoreId ?w' k = GetGroupByDbStoreId w k"
      "invite_of ?w' v = (if v = u then q else invite_of w v)" for v k
    using same by (simp_all add: pl GetGroup_def GetOriginalGroup_def loaded_def subgroup_of_def GetGroupByDbStoreId_def invite_of_def)
  have sane': "sane ?w'"
    unfolding set_invited_def using consistentD(2) [OF c] by (auto intro!: sane_intros)
  have isu: "is_player u" using c free loaded_player_guid by (auto simp: ungrouped_def)
  note G = consistentD(6) [OF c g]
  have row: "map_find (member_rows w) (GUID_LOPART u) = None" by (rule ungrouped_no_row [OF c free])
  have "footprint w ?w' p {u}"
  proof (rule footprint_local [OF c g groups])
    show "players_ok (gs_world ?w')" using consistentD(3) [OF c] same by simp
    show "gs_fault ?w' = None" using consistentD(1) [OF c] same by simp
    show "map_wf (member_rows ?w')" "map_wf (group_rows ?w')" using consistent_tables [OF c] same by simp_all
    show "is_player v \<and> GetGroup w v \<in> {None, Some p} \<and> GetGroup ?w' v \<in> {None, Some p} \<and> invite_of w v \<in> {None, Some p}
        \<and> invite_of ?w' v \<in> {None, Some p}" if "v \<in> {u}" for v
      using that isu free i q view by (auto simp: ungrouped_def)
    show "ms_guid s \<notin> {u}" if "gs_groups w q' = Some h" "s \<in> set (m_memberSlots h)" for q' h s
      using ungrouped_elsewhere [OF c free that] by simp
  qed (use sane' same row view pl in auto)
  then show ?thesis
  proof (rule fp_consistent)
    show "each_group_ok ?w' p g'" if g': "gs_groups ?w' p = Some g'" for g'
    proof -
      have eq: "g' = ?g'" using g' groups by simp
      have "group_ok ?g'" using G by (simp add: each_group_ok_def group_ok_def counts_ok_def isRaidGroup_def)
      moreover have "linked_ok ?w' p ?g'" "members_ok ?w' p ?g'" "stored_ok ?w' p ?g'"
        using G view same by (simp_all add: each_group_ok_def linked_ok_def members_ok_def stored_ok_def)
      moreover have "invited_ok ?w' p ?g'" using G f view by (auto simp: each_group_ok_def invited_ok_def)
      ultimately show ?thesis unfolding eq using G same by (simp add: each_group_ok_def)
    qed
    show "player_ok ?w' v" if "v \<in> {u}" for v
      using that consistentD(5) [OF c, of u] free q view groups by (auto simp: player_ok_def ungrouped_def)
  qed
qed

lemma RemoveInvite_eq: "RemoveInvite p u w = set_invited p (set_erase u) u None w"
  by (simp add: RemoveInvite_def set_invited_def)

lemma RemoveInvite_consistent:
  assumes "consistent w" "gs_groups w p = Some g" "ungrouped w u" "invite_of w u = None \<or> invite_of w u = Some p"
  shows "consistent (RemoveInvite p u w)"
proof -
  have "set_wf (m_invitees g)" using consistentD(6) [OF assms(1,2)] by (simp add: each_group_ok_def invited_ok_def)
  then show ?thesis
    unfolding RemoveInvite_eq using assms by (intro set_invited_consistent) (auto simp: container_simps intro: set_wf_rules)
qed

lemma RemoveInvite_sel:
  assumes "gs_groups w p = Some g"
  shows "gs_groups (RemoveInvite p u w) = (gs_groups w)(p \<mapsto> g\<lparr>m_invitees := set_erase u (m_invitees g)\<rparr>)"
    "gs_world (RemoveInvite p u w) = gs_world w" "gs_env (RemoveInvite p u w) = gs_env w" "GetGroup (RemoveInvite p u w) v = GetGroup w v"
    "invite_of (RemoveInvite p u w) v = (if v = u then None else invite_of w v)" "gs_next (RemoveInvite p u w) = gs_next w"
    "GroupDbStore (RemoveInvite p u w) = GroupDbStore w"
  using assms by (simp_all add: RemoveInvite_def SetGroupInvite_def modg_def modp_def with_group_def GetGroup_def invite_of_def)

definition invite_in :: "gptr \<Rightarrow> u64 \<Rightarrow> gworld \<Rightarrow> gworld" where
  "invite_in p u w = act (OnGroupInviteMember p u) (set_invited p (set_ins u) u (Some p) (RemoveInvite p u w))"

lemma AddInvite_eq:
  "AddInvite p u w = (if invite_of w u \<noteq> None \<or> invite_group w u \<noteq> None then (False, w) else (True, invite_in p u w))"
  by (simp add: AddInvite_def invite_of_def invite_in_def set_invited_def Let_def)

lemma invite_in_consistent:
  assumes "consistent w" "gs_groups w p = Some g" "ungrouped w u" "invite_of w u = None"
  shows "consistent (invite_in p u w)"
proof -
  let ?w1 = "RemoveInvite p u w"
  let ?g1 = "g\<lparr>m_invitees := set_erase u (m_invitees g)\<rparr>"
  have c1: "consistent ?w1" using RemoveInvite_consistent [OF assms(1-3)] assms(4) by blast
  note sel = RemoveInvite_sel [OF assms(2), of u]
  have g1: "gs_groups ?w1 p = Some ?g1" using sel(1) by simp
  have wf1: "set_wf (m_invitees ?g1)" using consistentD(6) [OF c1 g1] by (simp add: each_group_ok_def invited_ok_def)
  have c2: "consistent (set_invited p (set_ins u) u (Some p) ?w1)"
    using assms(3,4) sel wf1
    by (intro set_invited_consistent [OF c1 g1]) (auto simp: ungrouped_def loaded_def container_simps intro: set_wf_rules)
  show ?thesis unfolding invite_in_def by (rule consistent_core [OF c2]) (simp_all add: core_act sane_simple consistentD(2) [OF c2])
qed

lemma invite_in_sel:
  assumes "gs_groups w p = Some g"
  shows "gs_groups (invite_in p u w) = (gs_groups w)(p \<mapsto> g\<lparr>m_invitees := set_ins u (set_erase u (m_invitees g))\<rparr>)"
    "gs_world (invite_in p u w) = gs_world w" "GetGroup (invite_in p u w) v = GetGroup w v"
    "invite_of (invite_in p u w) v = (if v = u then Some p else invite_of w v)"
  using assms
  by (simp_all add: invite_in_def set_invited_def RemoveInvite_def SetGroupInvite_def modg_def modp_def with_group_def GetGroup_def
      invite_of_def act_def)

lemma invite_group_ungrouped: "GetGroup w u = None \<Longrightarrow> invite_group w u = None"
  by (simp add: invite_group_def)

lemma invite_group_grouped:
  assumes "consistent w" "GetGroup w u = Some p"
  shows "invite_group w u = Some p"
proof -
  obtain g where g: "gs_groups w p = Some g" using consistentD(5) [OF assms(1), of u] assms(2) by (auto simp: player_ok_def)
  then have "\<not> isBGGroup g \<and> \<not> isBFGroup g"
    using consistentD(6) [OF assms(1)] by (auto simp: each_group_ok_def group_ok_def isBGGroup_def isBFGroup_def)
  then show ?thesis using g assms(2) by (simp add: invite_group_def)
qed

end
