(* ===== verification/Group_Join.thy ===== *)
theory Group_Join
  imports Group_Steps
begin

text \<open>
  Forming and joining a group keeps the state consistent: a new group object, the changes that concern one group
  only, storing a new group under an id of the pool, and \<^verbatim>\<open>AddMember\<close>.
\<close>

section \<open>A new group object\<close>

lemma group_ok_new: "group_ok Group_new"
  by (simp add: group_ok_def counts_ok_def isRaidGroup_def Group_new_def group_types)

lemma group_fine_new: "group_fine Group_new"
  by (auto simp: group_fine_def binds_fine_def Group_new_def DUNGEON_DIFFICULTY_NORMAL_def RAID_DIFFICULTY_10MAN_NORMAL_def group_sizes)

lemma new_group_consistent:
  assumes c: "consistent w" and n: "new_group w = (p, w')"
  shows "consistent w'"
proof -
  have p: "p = gs_next w" "gs_next w' = Suc (gs_next w)" "gs_groups w' = (gs_groups w)(p \<mapsto> Group_new)"
    "gs_pl w' = gs_pl w" "gs_world w' = gs_world w" "gs_db w' = gs_db w" "gs_env w' = gs_env w" "gs_fault w' = gs_fault w"
    "GroupDbStore w' = GroupDbStore w" "NextGroupDbStoreId w' = NextGroupDbStoreId w"
    using n by (auto simp: new_group_def)
  have fresh: "gs_groups w p = None" using consistentD(6) [OF c, of p] p(1) by (cases "gs_groups w p") (auto simp: each_group_ok_def)
  have view: "GetGroup w' = GetGroup w" "GetOriginalGroup w' = GetOriginalGroup w" "invite_of w' = invite_of w" "loaded w' = loaded w"
    "subgroup_of w' = subgroup_of w" "GetGroupByDbStoreId w' = GetGroupByDbStoreId w"
    using p by (auto simp: GetGroup_def GetOriginalGroup_def invite_of_def loaded_def subgroup_of_def GetGroupByDbStoreId_def fun_eq_iff)
  have ids: "store_ids w w' p = {}" using fresh p(3) by (simp add: store_ids_def Group_new_def)
  have nobody: "GetGroup w u \<noteq> Some p" "invite_of w u \<noteq> Some p" for u using consistentD(5) [OF c, of u] fresh by (auto simp: player_ok_def)
  have "sane w'" using consistentD(2) [OF c] p group_fine_new by (auto simp: sane_def)
  moreover have "pool_ok w'" using consistentD(4) [OF c] p by (simp add: tables_ok_def pool_ok_def)
  ultimately have "footprint w w' p {}"
    using c consistentD(1,3) [OF c] consistent_tables [OF c] p fresh ids view nobody unfolding footprint_def by simp
  then show ?thesis
  proof (rule fp_consistent)
    show "each_group_ok w' p g'" if "gs_groups w' p = Some g'" for g'
    proof -
      have "g' = Group_new" using that p(3) by simp
      then show ?thesis
        using group_ok_new nobody p(1,2) view
        by (simp add: each_group_ok_def linked_ok_def invited_ok_def members_ok_def stored_ok_def Group_new_def set_wf_def)
    qed
  qed simp
qed

section \<open>Changes to one group object\<close>

text \<open>Nothing but the fields of one group and its row in \<^verbatim>\<open>groups\<close>.\<close>

definition same_players :: "gworld \<Rightarrow> gworld \<Rightarrow> bool" where
  "same_players w w' \<longleftrightarrow> gs_world w' = gs_world w \<and> gs_next w' = gs_next w \<and> gs_fault w' = gs_fault w
     \<and> GroupDbStore w' = GroupDbStore w \<and> NextGroupDbStoreId w' = NextGroupDbStoreId w
     \<and> (\<forall>u. pg_group (gs_pl w' u) = pg_group (gs_pl w u) \<and> pg_originalGroup (gs_pl w' u) = pg_originalGroup (gs_pl w u)
          \<and> pg_groupInvite (gs_pl w' u) = pg_groupInvite (gs_pl w u))"

lemma same_players_view:
  assumes "same_players w w'"
  shows "GetGroup w' = GetGroup w" "GetOriginalGroup w' = GetOriginalGroup w" "invite_of w' = invite_of w" "loaded w' = loaded w"
    "subgroup_of w' = subgroup_of w" "GetGroupByDbStoreId w' = GetGroupByDbStoreId w"
  using assms
  by (auto simp: same_players_def GetGroup_def GetOriginalGroup_def invite_of_def loaded_def subgroup_of_def GetGroupByDbStoreId_def fun_eq_iff)

abbreviation places :: "group \<Rightarrow> (u64 \<times> u8) list" where
  "places g \<equiv> map (\<lambda>s. (ms_guid s, ms_group s)) (m_memberSlots g)"

lemma places_set:
  assumes "places g' = places g" "s \<in> set (m_memberSlots g)"
  shows "\<exists>s' \<in> set (m_memberSlots g'). ms_guid s' = ms_guid s \<and> ms_group s' = ms_group s"
proof -
  have "(ms_guid s, ms_group s) \<in> set (places g')" using assms by simp
  then show ?thesis by auto
qed

lemma local_consistent:
  assumes c: "consistent w" and g: "gs_groups w p = Some g" "gs_groups w' = (gs_groups w)(p \<mapsto> g')"
    and same: "same_players w w'" "sane w'" "member_rows w' = member_rows w"
    and keep: "m_memberMgr g' = m_memberMgr g" "m_invitees g' = m_invitees g" "m_dbStoreId g' = m_dbStoreId g" "places g' = places g"
    and ok: "group_ok g'"
    and rows: "map_wf (group_rows w')" "\<And>i. i \<noteq> m_dbStoreId g \<or> i = 0 \<Longrightarrow> map_find (group_rows w') i = map_find (group_rows w) i"
      "m_dbStoreId g = 0 \<Longrightarrow> m_groupType g' = m_groupType g"
      "m_dbStoreId g \<noteq> 0 \<Longrightarrow> \<exists>r. map_find (group_rows w') (m_dbStoreId g) = Some r \<and> gw_leaderGuid r = GUID_LOPART (m_leaderGuid g')
         \<and> gw_groupType r = m_groupType g'"
  shows "consistent w'"
proof -
  note view = same_players_view [OF same(1)]
  note G = consistentD(6) [OF c g(1)]
  have "footprint w w' p {}"
    by (rule footprint_local [OF c g keep(3)])
      (use same rows view consistentD(1,3) [OF c] consistent_tables [OF c] places_set [OF keep(4)] in \<open>simp_all add: same_players_def\<close>)
  then show ?thesis
  proof (rule fp_consistent)
    show "each_group_ok w' p h" if "gs_groups w' p = Some h" for h
    proof -
      have h: "h = g'" using that g(2) by simp
      have orig: "\<exists>s \<in> set (m_memberSlots g). ms_guid s = ms_guid s' \<and> ms_group s = ms_group s'" if "s' \<in> set (m_memberSlots g')" for s'
        using places_set [of g g' s'] keep(4) that by simp
      have "members_ok w' p g'" using G orig view by (fastforce simp: each_group_ok_def members_ok_def)
      moreover have "stored_ok w' p g'"
      proof (cases "m_dbStoreId g = 0")
        case True
        then show ?thesis using G keep rows(3) by (auto simp: each_group_ok_def stored_ok_def)
      next
        case False
        have "\<exists>r. map_find (member_rows w) (GUID_LOPART (ms_guid s')) = Some r \<and> mw_guid r = m_dbStoreId g \<and> mw_subgroup r = ms_group s'"
          if s': "s' \<in> set (m_memberSlots g')" for s'
        proof -
          obtain s where s: "s \<in> set (m_memberSlots g)" "ms_guid s = ms_guid s'" "ms_group s = ms_group s'" using orig [OF s'] by blast
          then show ?thesis using stored_rowD(3) [of w p g s] G by (simp add: each_group_ok_def)
        qed
        then show ?thesis using G False rows(4) view same(3) keep(3) by (simp add: each_group_ok_def stored_ok_def)
      qed
      ultimately show ?thesis
        unfolding h using G ok view keep same(1) by (simp add: each_group_ok_def linked_ok_def invited_ok_def same_players_def)
    qed
  qed simp
qed

section \<open>Creating the group\<close>

definition created :: "player \<Rightarrow> u32 \<Rightarrow> u32 \<Rightarrow> group \<Rightarrow> group" where
  "created leader low method g = g\<lparr>m_guid := MAKE_NEW_GUID low 0 HIGHGUID_GROUP, m_leaderGuid := pl_guid leader, m_leaderName := pl_name leader,
     m_groupType := GROUPTYPE_NORMAL, m_lootMethod := method, m_lootThreshold := ITEM_QUALITY_UNCOMMON, m_looterGuid := pl_guid leader,
     m_dungeonDifficulty := DUNGEON_DIFFICULTY_NORMAL, m_raidDifficulty := RAID_DIFFICULTY_10MAN_NORMAL\<rparr>"

lemma create_fields_eq:
  assumes "gs_groups w p = Some g" "group_ok g" "m_groupType g = GROUPTYPE_NORMAL"
  shows "\<exists>method. create_fields p leader low w = w\<lparr>gs_groups := (gs_groups w)(p \<mapsto> created leader low method g)\<rparr>"
proof -
  have "\<not> isBGGroup g" "\<not> isBFGroup g" using assms(2) by (simp_all add: group_ok_def isBGGroup_def isBFGroup_def)
  then show ?thesis
    using assms(1,3)
    by (intro exI [of _ "if pg_haveBot (gs_pl w (pl_guid leader)) then FREE_FOR_ALL else ge_bot_loot_method (gs_env w)"])
      (simp add: create_fields_def with_group_def modg_def Let_def group_types created_def isLFGGroup_def)
qed

lemma created_consistent:
  assumes c: "consistent w" and g: "gs_groups w p = Some g" "m_dbStoreId g = 0" and w': "w' = w\<lparr>gs_groups := (gs_groups w)(p \<mapsto> created leader low method g)\<rparr>"
  shows "consistent w'"
proof -
  note G = consistentD(6) [OF c g(1)]
  have "sane w'"
    using consistentD(2) [OF c] g(1) w'
    by (auto simp: sane_def group_fine_def created_def DUNGEON_DIFFICULTY_NORMAL_def RAID_DIFFICULTY_10MAN_NORMAL_def group_sizes)
  moreover have "group_ok (created leader low method g)"
    using G g(2) by (simp add: each_group_ok_def group_ok_def created_def counts_ok_def isRaidGroup_def stored_ok_def group_types)
  ultimately show ?thesis
    using g consistent_tables [OF c] w' G
    by (intro local_consistent [OF c g(1), of w' "created leader low method g"])
      (simp_all add: same_players_def created_def each_group_ok_def stored_ok_def)
qed

text \<open>The pool gives the group an id, and its row is inserted.\<close>

definition stored_group :: "gworld \<Rightarrow> player \<Rightarrow> u32 \<Rightarrow> group \<Rightarrow> group" where
  "stored_group w leader i g = g\<lparr>m_dungeonDifficulty := pg_dungeonDifficulty (gs_pl w (pl_guid leader)),
     m_raidDifficulty := pg_raidDifficulty (gs_pl w (pl_guid leader)), m_dbStoreId := i\<rparr>"

lemma create_stored_sel:
  fixes leader :: player
  assumes c: "consistent w" and g: "gs_groups w p = Some g" "m_dbStoreId g = 0" and room: "pool_room w"
  defines "w' \<equiv> create_stored p leader w" and "i \<equiv> NextGroupDbStoreId w"
  shows "gs_groups w' = (gs_groups w)(p \<mapsto> stored_group w leader i g)" "gs_pl w' = gs_pl w" "gs_world w' = gs_world w"
    "gs_env w' = gs_env w" "gs_next w' = gs_next w" "gs_fault w' = None" "pool_ok w'" "i \<noteq> 0"
    "GetGroupByDbStoreId w i = None" "GetGroupByDbStoreId w' j = (if j = i then Some p else GetGroupByDbStoreId w j)"
    "member_rows w' = member_rows w" "group_rows w' = map_set i (create_row (stored_group w leader i g)) (group_rows w)"
    "gs_env w' = gs_env w"
proof -
  let ?w1 = "modg p (\<lambda>g. g\<lparr>m_dungeonDifficulty := pg_dungeonDifficulty (gs_pl w (pl_guid leader)),
      m_raidDifficulty := pg_raidDifficulty (gs_pl w (pl_guid leader))\<rparr>) w"
  let ?g1 = "g\<lparr>m_dungeonDifficulty := pg_dungeonDifficulty (gs_pl w (pl_guid leader)),
      m_raidDifficulty := pg_raidDifficulty (gs_pl w (pl_guid leader))\<rparr>"
  have w1: "?w1 = w\<lparr>gs_groups := (gs_groups w)(p \<mapsto> ?g1)\<rparr>" using g by (simp add: modg_def with_group_def)
  have ok1: "pool_ok ?w1" "pool_room ?w1" using consistentD(4) [OF c] room by (simp_all add: w1 tables_ok_def pool_ok_def pool_room_def)
  obtain j w2 where gen: "GenerateNewGroupDbStoreId ?w1 = (j, w2)" by fastforce
  note fr = GenerateNewGroupDbStoreId_frame [OF gen]
  have j: "j = i" using fr by (simp add: w1 i_def)
  let ?w3 = "modg p (\<lambda>g. g\<lparr>m_dbStoreId := i\<rparr>) w2"
  let ?g3 = "stored_group w leader i g"
  have w3: "?w3 = w2\<lparr>gs_groups := (gs_groups w)(p \<mapsto> ?g3)\<rparr>"
    using fr w1 by (simp add: modg_def with_group_def stored_group_def)
  have reg: "RegisterGroupDbStoreId i p ?w3 = (RegisterGroupDbStoreId i p w2)\<lparr>gs_groups := (gs_groups w)(p \<mapsto> ?g3)\<rparr>"
    unfolding w3 by (simp add: RegisterGroupDbStoreId_def Let_def gfault_def)
  let ?w4 = "RegisterGroupDbStoreId i p ?w3"
  note pool = pool_generate_register [OF ok1 gen, unfolded j]
  have same: "gs_groups ?w4 = (gs_groups w)(p \<mapsto> ?g3)" "gs_pl ?w4 = gs_pl w" "gs_world ?w4 = gs_world w" "gs_env ?w4 = gs_env w"
      "gs_next ?w4 = gs_next w" "gs_db ?w4 = gs_db w"
    unfolding reg using fr by (simp_all add: RegisterGroupDbStoreId_def Let_def gfault_def w1)
  have w': "w' = sql (INS_GROUP i (create_row ?g3)) ?w4"
    using gen j same(1) by (simp add: w'_def create_stored_def Let_def with_group_def stored_group_def)
  have free: "GetGroupByDbStoreId w i = None"
    using pool(3) by (auto simp: GetGroupByDbStoreId_def id_used_def w1)
  have norow: "map_find (group_rows w) i = None" using consistentD(4) [OF c] free by (auto simp: tables_ok_def)
  show "gs_groups w' = (gs_groups w)(p \<mapsto> ?g3)" "gs_pl w' = gs_pl w" "gs_world w' = gs_world w" "gs_env w' = gs_env w" "gs_next w' = gs_next w"
      "member_rows w' = member_rows w" "gs_env w' = gs_env w"
    using same by (simp_all add: w' sql_def act_def)
  show "group_rows w' = map_set i (create_row ?g3) (group_rows w)" using same norow by (simp add: w' sql_def act_def ins_row_def)
  show "gs_fault w' = None" using pool(2) consistentD(1) [OF c] reg by (simp add: w' sql_def act_def w1)
  show "pool_ok w'" using pool(1) reg by (simp add: w' sql_def act_def pool_ok_def)
  show "i \<noteq> 0" using consistentD(4) [OF c] by (auto simp: i_def tables_ok_def pool_ok_def)
  show "GetGroupByDbStoreId w i = None" by (rule free)
  show "GetGroupByDbStoreId w' k = (if k = i then Some p else GetGroupByDbStoreId w k)" for k
  proof -
    have "GetGroupByDbStoreId w' k = GetGroupByDbStoreId (RegisterGroupDbStoreId i p w2) k" "GetGroupByDbStoreId ?w1 k = GetGroupByDbStoreId w k"
      using reg by (simp_all add: w' sql_def act_def GetGroupByDbStoreId_def w1)
    then show ?thesis using pool(4) [of p k] by simp
  qed
qed

lemma create_stored_consistent:
  assumes c: "consistent w" and g: "gs_groups w p = Some g" "m_dbStoreId g = 0" and room: "pool_room w"
  shows "consistent (create_stored p leader w)"
proof -
  let ?w' = "create_stored p leader w" and ?i = "NextGroupDbStoreId w"
  let ?g' = "stored_group w leader ?i g"
  note sel = create_stored_sel [OF c g room]
  note G = consistentD(6) [OF c g(1)]
  have view: "GetGroup ?w' = GetGroup w" "GetOriginalGroup ?w' = GetOriginalGroup w" "invite_of ?w' = invite_of w" "loaded ?w' = loaded w"
    "subgroup_of ?w' = subgroup_of w"
    using sel by (auto simp: GetGroup_def GetOriginalGroup_def invite_of_def loaded_def subgroup_of_def fun_eq_iff)
  have ids: "store_ids w ?w' p = {?i}" using g sel(1,8) by (auto simp: store_ids_def stored_group_def)
  have empty: "m_memberSlots g = []" "m_groupType g = GROUPTYPE_NORMAL" using G g(2) by (simp_all add: each_group_ok_def stored_ok_def)
  have "sane ?w'"
    using consistentD(2) [OF c] sel(1,2,4) g(1) by (auto simp: sane_def group_fine_def stored_group_def player_fine_def)
  then have "footprint w ?w' p {}"
    using c consistentD(1,3) [OF c] consistent_tables [OF c] sel g empty ids view unfolding footprint_def
    by (simp add: container_simps wf_intros stored_group_def)
  then show ?thesis
  proof (rule fp_consistent)
    show "each_group_ok ?w' p h" if "gs_groups ?w' p = Some h" for h
    proof -
      have h: "h = ?g'" using that sel(1) by simp
      have "group_ok ?g'" using G by (simp add: each_group_ok_def group_ok_def counts_ok_def isRaidGroup_def stored_group_def)
      moreover have "stored_ok ?w' p ?g'"
        using empty sel(8,10,12) by (simp add: stored_ok_def stored_group_def container_simps create_row_def)
      ultimately show ?thesis
        unfolding h using G view sel(5) empty
        by (simp add: each_group_ok_def linked_ok_def invited_ok_def members_ok_def stored_group_def)
    qed
  qed simp
qed

section \<open>Joining\<close>

text \<open>What \<^verbatim>\<open>AddMember\<close> does to the group, the player and the table, the notifications left aside.\<close>

definition joined_group :: "player \<Rightarrow> u8 \<Rightarrow> group \<Rightarrow> group" where
  "joined_group pl sub g =
     (let g1 = g\<lparr>m_memberSlots := m_memberSlots g @ [new_slot pl sub],
                 m_subGroupsCounts := map_option (\<lambda>c. c[unat sub := c ! unat sub + 1]) (m_subGroupsCounts g),
                 m_memberMgr := (pl_guid pl, False) # m_memberMgr g\<rparr>
      in if isRaidGroup g then g1 else g1\<lparr>m_targetIcons := replicate TARGETICONCOUNT 0\<rparr>)"

lemma joined_group_sel [simp]:
  "m_memberSlots (joined_group pl sub g) = m_memberSlots g @ [new_slot pl sub]"
  "m_memberMgr (joined_group pl sub g) = (pl_guid pl, False) # m_memberMgr g"
  "m_subGroupsCounts (joined_group pl sub g) = map_option (\<lambda>c. c[unat sub := c ! unat sub + 1]) (m_subGroupsCounts g)"
  "m_groupType (joined_group pl sub g) = m_groupType g" "m_bgGroup (joined_group pl sub g) = m_bgGroup g"
  "m_bfGroup (joined_group pl sub g) = m_bfGroup g" "m_invitees (joined_group pl sub g) = m_invitees g"
  "m_dbStoreId (joined_group pl sub g) = m_dbStoreId g" "m_leaderGuid (joined_group pl sub g) = m_leaderGuid g"
  by (simp_all add: joined_group_def Let_def)

definition joined_player :: "gptr \<Rightarrow> u8 \<Rightarrow> player_group \<Rightarrow> player_group" where
  "joined_player p sub d = d\<lparr>pg_groupInvite := None, pg_group := (pg_group d)\<lparr>gr_target := Some p, gr_subGroup := sub\<rparr>\<rparr>"

definition joined :: "gptr \<Rightarrow> player \<Rightarrow> u8 \<Rightarrow> group \<Rightarrow> gworld \<Rightarrow> gworld" where
  "joined p pl sub g w =
     sql (INS_GROUP_MEMBER (m_dbStoreId g) (GUID_LOPART (pl_guid pl)) 0 sub 0)
       (w\<lparr>gs_groups := (gs_groups w)(p \<mapsto> joined_group pl sub g), gs_pl := (gs_pl w)(pl_guid pl := joined_player p sub (gs_pl w (pl_guid pl)))\<rparr>)"

lemma core_reset_icons: "core (reset_icons p w) = reset_icons p (core w)"
proof (cases "gs_groups w p")
  case (Some g)
  then show ?thesis by (auto simp: reset_icons_def with_group_def core_sel isRaidGroup_def gcore_sel core_modg_eq gcore_def)
qed (simp add: reset_icons_def with_group_def core_sel core_gfault)

lemma core_add_row_cong: "core x = core y \<Longrightarrow> core (add_row p s x) = core (add_row p s y)"
proof -
  assume eq: "core x = core y"
  show ?thesis
  proof (cases "gs_groups y p")
    case None
    then have "gs_groups x p = None" using core_group_iff [OF eq] by simp
    then show ?thesis using None eq by (simp add: add_row_def with_group_def core_gfault)
  next
    case (Some g)
    then obtain g' where "gs_groups x p = Some g'" "gcore g' = gcore g" using core_group [OF eq] by blast
    then show ?thesis
      using Some eq core_sql_cong [OF eq] gcore_eqD [of g' g] by (simp add: add_row_def with_group_def isBGGroup_def isBFGroup_def)
  qed
qed

text \<open>The free subgroup that \<^verbatim>\<open>AddMember\<close> picks exists in the array.\<close>

lemma first_free_ok:
  assumes "group_ok g" "first_free_subgroup g = Some sub"
  shows "m_subGroupsCounts g = None \<and> sub = 0 \<and> \<not> isRaidGroup g
     \<or> (\<exists>c. m_subGroupsCounts g = Some c \<and> isRaidGroup g \<and> unat sub < length c \<and> length c = MAX_RAID_SUBGROUPS
          \<and> unat (c ! unat sub) < MAXGROUPSIZE)"
proof (cases "m_subGroupsCounts g")
  case None
  then show ?thesis using assms by (auto simp: first_free_subgroup_def group_ok_def counts_ok_def split: if_splits)
next
  case (Some c)
  then have raid: "isRaidGroup g" "length c = MAX_RAID_SUBGROUPS" using assms(1) by (auto simp: group_ok_def counts_ok_def split: if_splits)
  obtain k where k: "find (\<lambda>i. unat (c ! i) < MAXGROUPSIZE) [0..<MAX_RAID_SUBGROUPS] = Some k" "sub = of_nat k"
    using assms(2) Some by (auto simp: first_free_subgroup_def)
  then have "k < MAX_RAID_SUBGROUPS" "unat (c ! k) < MAXGROUPSIZE" by (auto simp: find_Some_iff)
  moreover from this have "unat sub = k" using k(2) by (simp add: group_sizes unat_of_nat_small)
  ultimately show ?thesis using Some raid by auto
qed

lemma sub_count_snoc: "sub_count (ss @ [s]) i = sub_count ss i + of_bool (unat (ms_group s) = i)"
  by (simp add: sub_count_def)

lemma suc_u8: "unat x < 255 \<Longrightarrow> unat (x + 1) = Suc (unat x)" for x :: u8
  by (simp add: unat_add_lem [THEN iffD1])

text \<open>A further member fits into a group with a free place in his subgroup.\<close>

definition seat_fits :: "group \<Rightarrow> u8 \<Rightarrow> bool" where
  "seat_fits g sub =
     (if isRaidGroup g then unat sub < MAX_RAID_SUBGROUPS \<and> sub_count (m_memberSlots g) (unat sub) < MAXGROUPSIZE
      else sub = 0 \<and> length (m_memberSlots g) < MAXGROUPSIZE)"

definition seated :: "member_slot \<Rightarrow> group \<Rightarrow> group" where
  "seated s g = g\<lparr>m_memberSlots := m_memberSlots g @ [s],
     m_subGroupsCounts := map_option (\<lambda>c. c[unat (ms_group s) := c ! unat (ms_group s) + 1]) (m_subGroupsCounts g)\<rparr>"

lemma seated_ok:
  assumes g: "group_ok g" "seat_fits g (ms_group s)" and new: "ms_guid s \<notin> ms_guid ` set (m_memberSlots g)"
  shows "group_ok (seated s g)"
proof -
  let ?g' = "seated s g" and ?sub = "ms_group s"
  have slots: "m_memberSlots ?g' = m_memberSlots g @ [s]" "isRaidGroup ?g' = isRaidGroup g" by (simp_all add: seated_def isRaidGroup_def)
  have "counts_ok ?g'"
  proof (cases "isRaidGroup g")
    case False
    then show ?thesis using g slots by (auto simp: counts_ok_def group_ok_def seat_fits_def seated_def)
  next
    case True
    then obtain c where c: "m_subGroupsCounts g = Some c" "length c = MAX_RAID_SUBGROUPS"
        "\<And>i. i < MAX_RAID_SUBGROUPS \<Longrightarrow> unat (c ! i) = sub_count (m_memberSlots g) i"
      using g(1) by (auto simp: group_ok_def counts_ok_def)
    have sub: "unat ?sub < MAX_RAID_SUBGROUPS" "unat (c ! unat ?sub) < MAXGROUPSIZE" using g(2) True c(3) by (auto simp: seat_fits_def)
    then have less: "unat (c ! unat ?sub + 1) = Suc (unat (c ! unat ?sub))" by (intro suc_u8) (simp add: group_sizes)
    let ?c' = "c[unat ?sub := c ! unat ?sub + 1]"
    have cs: "m_subGroupsCounts ?g' = Some ?c'" by (simp add: seated_def c(1))
    have "unat (?c' ! i) = sub_count (m_memberSlots ?g') i" if "i < MAX_RAID_SUBGROUPS" for i
      using c(3) [OF that] less that c(2) sub(1) by (cases "i = unat ?sub") (auto simp: slots sub_count_snoc)
    moreover have "sub_count (m_memberSlots ?g') i \<le> MAXGROUPSIZE" if "i < MAX_RAID_SUBGROUPS" for i
      using g(1) True c(3) [OF sub(1)] sub that by (cases "i = unat ?sub") (auto simp: slots sub_count_snoc group_ok_def counts_ok_def)
    ultimately show ?thesis
      using g(1) True slots sub(1) cs c(2) by (auto simp: counts_ok_def group_ok_def)
  qed
  then show ?thesis using g(1) new by (auto simp: group_ok_def seated_def)
qed

lemma joined_group_ok:
  assumes g: "group_ok g" "first_free_subgroup g = Some sub" "\<not> IsFull g" and new: "pl_guid pl \<notin> ms_guid ` set (m_memberSlots g)"
  shows "group_ok (joined_group pl sub g)"
proof -
  have "seat_fits g sub"
    using first_free_ok [OF g(1,2)] g(1,3) by (auto simp: seat_fits_def group_ok_def counts_ok_def IsFull_def split: if_splits)
  then have ok: "group_ok (seated (new_slot pl sub) g)" using g(1) new by (intro seated_ok) (simp_all add: new_slot_def)
  let ?h = "seated (new_slot pl sub) g"
  have eq: "m_memberSlots (joined_group pl sub g) = m_memberSlots ?h" "m_groupType (joined_group pl sub g) = m_groupType ?h"
    "m_subGroupsCounts (joined_group pl sub g) = m_subGroupsCounts ?h" "m_bgGroup (joined_group pl sub g) = m_bgGroup ?h"
    "m_bfGroup (joined_group pl sub g) = m_bfGroup ?h"
    by (simp_all add: seated_def new_slot_def)
  show ?thesis using ok unfolding group_ok_def counts_ok_def isRaidGroup_def eq .
qed

lemma no_counts: "m_subGroupsCounts g = None \<Longrightarrow> g\<lparr>m_subGroupsCounts := None\<rparr> = g"
  by (cases g) simp

lemma add_slot_eq:
  assumes "gs_groups w p = Some g" "group_ok g" "first_free_subgroup g = Some sub"
  shows "add_slot p pl sub w = w\<lparr>gs_groups := (gs_groups w)(p \<mapsto> g\<lparr>m_memberSlots := m_memberSlots g @ [new_slot pl sub],
     m_subGroupsCounts := map_option (\<lambda>c. c[unat sub := c ! unat sub + 1]) (m_subGroupsCounts g)\<rparr>)\<rparr>"
  using first_free_ok [OF assms(2,3)] assms(1)
  by (auto simp: add_slot_def SubGroupCounterIncrease_def count_change_def modg_def with_group_def no_counts)

lemma add_link_eq:
  assumes "gs_groups w p = Some g" "GetGroup w u = None" "unat sub < 128"
  shows "add_link p u sub w = act (Call u UpdateObjectVisibility)
     (w\<lparr>gs_groups := (gs_groups w)(p \<mapsto> g\<lparr>m_memberMgr := (u, False) # m_memberMgr g\<rparr>), gs_pl := (gs_pl w)(u := joined_player p sub (gs_pl w u))\<rparr>)"
proof -
  have "\<not> sub \<ge> 0x80" using assms(3) by (simp add: word_le_nat_alt)
  then show ?thesis
    using assms(1,2)
    by (simp add: add_link_def with_group_def Let_def SetGroupInvite_def modp_def GetGroup_def SetGroup_def ref_link_def ref_get_def
        ref_upd_def LinkMember_def modg_def ref_setSubGroup_def joined_player_def)
qed

lemma AddMember_core:
  assumes c: "consistent w" and g: "gs_groups w p = Some g" "first_free_subgroup g = Some sub" and free: "ungrouped w (pl_guid pl)"
  shows "\<exists>w'. AddMember p pl w = (True, w') \<and> core w' = core (joined p pl sub g w) \<and> sane w'"
proof -
  let ?u = "pl_guid pl"
  note G = consistentD(6) [OF c g(1)]
  have ok: "group_ok g" using G by (simp add: each_group_ok_def)
  have isu: "IS_PLAYER_GUID ?u" using c free loaded_player_guid is_player_GUID by (auto simp: ungrouped_def)
  have sub: "unat sub < 128" using first_free_ok [OF ok g(2)] by (auto simp: group_sizes)
  define wA where "wA = add_link p ?u sub (add_slot p pl sub w)"
  define wB where "wB = add_homebind p ?u wA"
  define wC where "wC = add_row p (new_slot pl sub) (reset_icons p wB)"
  define wD where "wD = act (OnGroupAddMember p ?u) (SendUpdate p wC)"
  have wA: "wA = act (Call ?u UpdateObjectVisibility)
     (w\<lparr>gs_groups := (gs_groups w)(p \<mapsto> g\<lparr>m_memberSlots := m_memberSlots g @ [new_slot pl sub],
          m_subGroupsCounts := map_option (\<lambda>c. c[unat sub := c ! unat sub + 1]) (m_subGroupsCounts g),
          m_memberMgr := (?u, False) # m_memberMgr g\<rparr>), gs_pl := (gs_pl w)(?u := joined_player p sub (gs_pl w ?u))\<rparr>)"
    unfolding wA_def add_slot_eq [OF g(1) ok g(2)]
    by (subst add_link_eq [where g = "g\<lparr>m_memberSlots := m_memberSlots g @ [new_slot pl sub],
          m_subGroupsCounts := map_option (\<lambda>c. c[unat sub := c ! unat sub + 1]) (m_subGroupsCounts g)\<rparr>"])
      (use free sub in \<open>simp_all add: ungrouped_def GetGroup_def\<close>)
  have saneA: "sane wA" using consistentD(2) [OF c] g(1) by (auto simp: wA sane_def act_def group_fine_def joined_player_def player_fine_def)
  have aliveA: "gs_groups wA p \<noteq> None" by (simp add: wA act_def)
  have B: "core wB = core wA" "sane wB" using add_homebind_quiet [OF aliveA saneA] by (simp_all add: wB_def)
  have C: "core wC = core (add_row p (new_slot pl sub) (reset_icons p wA))"
    unfolding wC_def by (intro core_add_row_cong) (simp add: core_reset_icons B)
  also have "add_row p (new_slot pl sub) (reset_icons p wA) = act (Sql (INS_GROUP_MEMBER (m_dbStoreId g) (GUID_LOPART ?u) 0 sub 0))
      ((joined p pl sub g w)\<lparr>gs_log := gs_log w @ [Call ?u UpdateObjectVisibility]\<rparr>)"
    using ok by (auto simp: wA add_row_def reset_icons_def with_group_def modg_def act_def sql_def joined_def joined_group_def Let_def isRaidGroup_def
        isBGGroup_def isBFGroup_def group_ok_def new_slot_def)
  finally have core_C: "core wC = core (joined p pl sub g w)" by (simp add: core_act) (simp add: core_def joined_def sql_def act_def)
  have saneC: "sane wC"
    unfolding wC_def add_row_def reset_icons_def
    by (auto intro!: sane_with_group sane_simple sane_modg_fields B(2))
  have aliveC: "gs_groups wC p \<noteq> None" using core_group_iff [OF core_C, of p] by (simp add: joined_def sql_def act_def)
  have D: "core wD = core (joined p pl sub g w)" "sane wD" "gs_groups wD p \<noteq> None"
    using core_C saneC aliveC core_SendUpdate [OF aliveC] core_group_iff [OF core_SendUpdate [OF aliveC], of p]
    by (auto simp: wD_def core_act intro!: sane_intros)
  have "AddMember p pl w = (True, member_joined p pl wD)"
    using g isu by (simp add: AddMember_def Let_def wA_def wB_def wC_def wD_def)
  then show ?thesis using member_joined_quiet [OF D(3,2)] D(1) by auto
qed

lemma joined_sel:
  "gs_groups (joined p pl sub g w) = (gs_groups w)(p \<mapsto> joined_group pl sub g)"
  "gs_pl (joined p pl sub g w) = (gs_pl w)(pl_guid pl := joined_player p sub (gs_pl w (pl_guid pl)))"
  "gs_world (joined p pl sub g w) = gs_world w" "gs_next (joined p pl sub g w) = gs_next w" "gs_fault (joined p pl sub g w) = gs_fault w"
  "GroupDbStore (joined p pl sub g w) = GroupDbStore w" "NextGroupDbStoreId (joined p pl sub g w) = NextGroupDbStoreId w"
  "gs_env (joined p pl sub g w) = gs_env w" "group_rows (joined p pl sub g w) = group_rows w"
  "member_rows (joined p pl sub g w) = ins_row (GUID_LOPART (pl_guid pl))
     \<lparr>mw_guid = m_dbStoreId g, mw_memberFlags = 0, mw_subgroup = sub, mw_roles = 0\<rparr> (member_rows w)"
  by (simp_all add: joined_def sql_def act_def)

lemma joined_view:
  assumes "w' = joined p pl sub g w"
  shows "GetGroup w' v = (if v = pl_guid pl then Some p else GetGroup w v)" "GetOriginalGroup w' v = GetOriginalGroup w v"
    "invite_of w' v = (if v = pl_guid pl then None else invite_of w v)" "loaded w' v = loaded w v"
    "subgroup_of w' v = (if v = pl_guid pl then sub else subgroup_of w v)" "GetGroupByDbStoreId w' i = GetGroupByDbStoreId w i"
  using assms
  by (simp_all add: joined_sel joined_player_def GetGroup_def GetOriginalGroup_def invite_of_def loaded_def subgroup_of_def GetGroupByDbStoreId_def)

lemma joined_consistent:
  assumes c: "consistent w" and g: "gs_groups w p = Some g" "m_dbStoreId g \<noteq> 0" "first_free_subgroup g = Some sub" "\<not> IsFull g"
    and free: "ungrouped w (pl_guid pl)" "invite_of w (pl_guid pl) = None"
  shows "consistent (joined p pl sub g w)"
proof -
  let ?u = "pl_guid pl" and ?w' = "joined p pl sub g w" and ?g' = "joined_group pl sub g"
  let ?row = "\<lparr>mw_guid = m_dbStoreId g, mw_memberFlags = 0, mw_subgroup = sub, mw_roles = 0\<rparr>"
  note G = consistentD(6) [OF c g(1)] and view = joined_view [OF refl, of p pl sub g w]
  have isu: "is_player ?u" using c free loaded_player_guid by (auto simp: ungrouped_def)
  have new: "ms_guid s \<noteq> ?u" if "gs_groups w q = Some h" "s \<in> set (m_memberSlots h)" for q h s
    by (rule ungrouped_elsewhere [OF c free(1) that])
  have rows: "member_rows ?w' = map_set (GUID_LOPART ?u) ?row (member_rows w)"
    using ungrouped_no_row [OF c free(1)] by (simp add: joined_sel ins_row_def)
  have keyed: "GUID_LOPART v \<noteq> GUID_LOPART ?u" if "is_player v" "v \<noteq> ?u" for v using lopart_inj [OF that(1) isu] that(2) by blast
  have sane': "sane ?w'"
    using consistentD(2) [OF c] g(1)
    by (auto simp: joined_sel sane_def group_fine_def player_fine_def joined_player_def joined_group_def Let_def)
  have "footprint w ?w' p {?u}"
  proof (rule footprint_local [OF c g(1) joined_sel(1)])
    show "is_player v \<and> GetGroup w v \<in> {None, Some p} \<and> GetGroup ?w' v \<in> {None, Some p} \<and> invite_of w v \<in> {None, Some p}
        \<and> invite_of ?w' v \<in> {None, Some p}" if "v \<in> {?u}" for v
      using that isu free view by (auto simp: ungrouped_def)
    show "map_wf (member_rows ?w')" using consistent_tables [OF c] by (simp add: rows wf_intros)
    show "map_find (member_rows ?w') m = map_find (member_rows w) m" if "m \<notin> GUID_LOPART ` {?u}" for m
      using that by (simp add: rows container_simps)
    show "mw_guid r = m_dbStoreId g \<and> (\<exists>s' \<in> set (m_memberSlots ?g'). ms_guid s' = v)"
      if "v \<in> {?u}" "map_find (member_rows ?w') (GUID_LOPART v) = Some r" for v r
      using that by (auto simp: rows container_simps new_slot_def)
  qed (use sane' view new consistentD(1,3) [OF c] consistent_tables [OF c] in \<open>auto simp: joined_sel joined_player_def\<close>)
  then show ?thesis
  proof (rule fp_consistent)
    show "each_group_ok ?w' p h" if "gs_groups ?w' p = Some h" for h
    proof -
      have h: "h = ?g'" using that by (simp add: joined_sel)
      have "?u \<notin> ms_guid ` set (m_memberSlots g)"
      proof
        assume "?u \<in> ms_guid ` set (m_memberSlots g)"
        then obtain s where "s \<in> set (m_memberSlots g)" "ms_guid s = ?u" by auto
        then show False using new [OF g(1)] by simp
      qed
      then have "group_ok ?g'" using G g by (intro joined_group_ok) (simp_all add: each_group_ok_def)
      moreover have "linked_ok ?w' p ?g'"
        using G free(1) view by (auto simp: each_group_ok_def linked_ok_def ungrouped_def)
      moreover have "invited_ok ?w' p ?g'" using G free(2) view by (auto simp: each_group_ok_def invited_ok_def)
      moreover have "members_ok ?w' p ?g'" using G isu view by (auto simp: each_group_ok_def members_ok_def new_slot_def)
      moreover have "stored_ok ?w' p ?g'"
      proof -
        have st: "stored_ok w p g" using G by (simp add: each_group_ok_def)
        have old: "map_find (member_rows ?w') (GUID_LOPART (ms_guid s)) = map_find (member_rows w) (GUID_LOPART (ms_guid s))"
          if "s \<in> set (m_memberSlots g)" for s
          using keyed [of "ms_guid s"] new [OF g(1) that] G that by (simp add: rows container_simps each_group_ok_def members_ok_def)
        have "\<exists>r. map_find (member_rows ?w') (GUID_LOPART (ms_guid s)) = Some r \<and> mw_guid r = m_dbStoreId g \<and> mw_subgroup r = ms_group s"
          if s: "s \<in> set (m_memberSlots ?g')" for s
        proof (cases "s \<in> set (m_memberSlots g)")
          case True
          then show ?thesis using stored_rowD(3) [OF st True] old [OF True] by simp
        next
          case False
          then have "s = new_slot pl sub" using s by simp
          then show ?thesis by (simp add: rows container_simps new_slot_def)
        qed
        then show ?thesis using st g(2) unfolding stored_ok_def by (simp add: view(6) joined_sel(9))
      qed
      ultimately show ?thesis unfolding h using G by (simp add: each_group_ok_def joined_sel)
    qed
    show "player_ok ?w' v" if "v \<in> {?u}" for v
      using that consistentD(5) [OF c, of ?u] free view by (auto simp: player_ok_def joined_sel new_slot_def ungrouped_def)
  qed
qed

lemma AddMember_consistent:
  assumes "consistent w" "gs_groups w p = Some g" "m_dbStoreId g \<noteq> 0" "first_free_subgroup g = Some sub" "\<not> IsFull g"
    and "ungrouped w (pl_guid pl)" "invite_of w (pl_guid pl) = None"
  obtains w' where "AddMember p pl w = (True, w')" "consistent w'" "core w' = core (joined p pl sub g w)"
  using AddMember_core [OF assms(1,2,4,6)] consistent_core [OF joined_consistent [OF assms]] by blast

section \<open>Forming a group\<close>

text \<open>The registry of group ids is no part of the invariant.\<close>

lemma consistent_registry:
  assumes "consistent w" and w': "w' = w\<lparr>NextGroupId := n, GroupStore := m\<rparr>"
  shows "consistent w'"
proof -
  have v: "GetGroup w' = GetGroup w" "GetOriginalGroup w' = GetOriginalGroup w" "invite_of w' = invite_of w" "loaded w' = loaded w"
    "subgroup_of w' = subgroup_of w" "GetGroupByDbStoreId w' = GetGroupByDbStoreId w"
    by (auto simp: w' GetGroup_def GetOriginalGroup_def invite_of_def loaded_def subgroup_of_def GetGroupByDbStoreId_def fun_eq_iff)
  have s: "gs_groups w' = gs_groups w" "gs_next w' = gs_next w" "gs_db w' = gs_db w" "gs_fault w' = gs_fault w" "gs_world w' = gs_world w"
    by (simp_all add: w')
  have "each_group_ok w' p g = each_group_ok w p g" for p g
    by (simp only: each_group_ok_def linked_ok_def invited_ok_def members_ok_def stored_ok_def v s)
  moreover have "player_ok w' u = player_ok w u" for u by (simp only: player_ok_def v s)
  moreover have "pool_ok w' = pool_ok w" by (simp add: pool_ok_def w')
  then have "tables_ok w' = tables_ok w" by (simp only: tables_ok_def v s)
  moreover have "sane w' = sane w" by (simp add: sane_def w')
  ultimately show ?thesis using assms(1) by (simp add: consistent_def s)
qed

definition others_same :: "gptr \<Rightarrow> gworld \<Rightarrow> gworld \<Rightarrow> bool" where
  "others_same p w w' \<longleftrightarrow> (\<forall>q. q \<noteq> p \<longrightarrow> map_option gcore (gs_groups w' q) = map_option gcore (gs_groups w q))"

lemma others_same_core: "core w' = core w'' \<Longrightarrow> others_same p w w'' \<Longrightarrow> others_same p w w'"
  using core_eqD(10) [of w' w''] by (simp add: others_same_def)

lemma others_same_trans: "others_same p w w' \<Longrightarrow> others_same p w' w'' \<Longrightarrow> others_same p w w''"
  by (simp add: others_same_def)

lemma others_same_fields: "gs_groups w' = (gs_groups w)(p := x) \<Longrightarrow> others_same p w w'"
  by (simp add: others_same_def)

text \<open>A group with one member, its leader, and the invitations it had.\<close>

lemma Create_consistent:
  assumes c: "consistent w" and g: "gs_groups w p = Some g" "m_dbStoreId g = 0" and room: "pool_room w"
    and free: "ungrouped w (pl_guid leader)" "invite_of w (pl_guid leader) = None"
  obtains w' g' where "snd (Create p leader w) = w'" "consistent w'" "gs_groups w' p = Some g'"
    "m_memberSlots g' = [new_slot leader 0]" "m_dbStoreId g' \<noteq> 0" "m_groupType g' = GROUPTYPE_NORMAL" "m_subGroupsCounts g' = None"
    "m_invitees g' = m_invitees g" "others_same p w w'" "gs_world w' = gs_world w"
    "\<And>v. GetGroup w' v = (if v = pl_guid leader then Some p else GetGroup w v)" "\<And>v. invite_of w' v = invite_of w v"
proof -
  obtain low w1 where gen: "GenerateGroupId w = (low, w1)" by fastforce
  have keep: "x\<lparr>GroupStore := GroupStore x\<rparr> = x" for x :: gworld by simp
  have w1: "\<exists>n. w1 = w\<lparr>NextGroupId := n, GroupStore := GroupStore w\<rparr> \<or> w1 = (act StopNow w)\<lparr>NextGroupId := n, GroupStore := GroupStore w\<rparr>"
    using gen keep [of "w\<lparr>NextGroupId := NextGroupId w + 1\<rparr>"] keep [of "(act StopNow w)\<lparr>NextGroupId := NextGroupId w + 1\<rparr>"]
    by (auto simp: GenerateGroupId_def Let_def act_def split: if_splits)
  have "consistent (act StopNow w)" by (rule consistent_core [OF c]) (simp_all add: core_act sane_simple consistentD(2) [OF c])
  then have c1: "consistent w1" using w1 c consistent_registry by metis
  have same1: "gs_groups w1 = gs_groups w" "gs_pl w1 = gs_pl w" "gs_world w1 = gs_world w" "gs_env w1 = gs_env w"
      "GroupDbStore w1 = GroupDbStore w" "NextGroupDbStoreId w1 = NextGroupDbStoreId w"
    using w1 by (auto simp: act_def)
  have g1: "gs_groups w1 p = Some g" "m_dbStoreId g = 0" using g same1 by simp_all
  note G = consistentD(6) [OF c1 g1(1)]
  have gok: "group_ok g" "m_groupType g = GROUPTYPE_NORMAL" "m_memberSlots g = []"
    using G g1(2) by (simp_all add: each_group_ok_def stored_ok_def)
  obtain meth where w2: "create_fields p leader low w1 = w1\<lparr>gs_groups := (gs_groups w1)(p \<mapsto> created leader low meth g)\<rparr>"
    using create_fields_eq [OF g1(1) gok(1,2)] by blast
  define w2 where "w2 = create_fields p leader low w1"
  let ?g2 = "created leader low meth g"
  have c2: "consistent w2" using created_consistent [OF c1 g1 w2] by (simp add: w2_def)
  have g2: "gs_groups w2 p = Some ?g2" "m_dbStoreId ?g2 = 0" using g1(2) by (simp_all add: w2_def w2 created_def)
  have room2: "pool_room w2" using room same1 by (simp add: pool_room_def w2_def w2)
  define w3 where "w3 = create_stored p leader w2"
  let ?i = "NextGroupDbStoreId w2"
  let ?g3 = "stored_group w2 leader ?i ?g2"
  note sel0 = create_stored_sel [OF c2 g2 room2]
  note sel = sel0(1) [of leader, folded w3_def] sel0(2) [of leader, folded w3_def] sel0(3) [of leader, folded w3_def] sel0(8)
  have c3: "consistent w3" unfolding w3_def by (rule create_stored_consistent [OF c2 g2 room2])
  have g3: "gs_groups w3 p = Some ?g3" "m_dbStoreId ?g3 \<noteq> 0" using sel(1,4) by (simp_all add: stored_group_def)
  have f3: "m_memberSlots ?g3 = []" "m_groupType ?g3 = GROUPTYPE_NORMAL" "m_subGroupsCounts ?g3 = None" "m_invitees ?g3 = m_invitees g"
    using gok by (auto simp: stored_group_def created_def group_ok_def counts_ok_def isRaidGroup_def group_types)
  have v3: "GetGroup w3 = GetGroup w" "invite_of w3 = invite_of w" "gs_world w3 = gs_world w" "loaded w3 = loaded w"
    using sel(2,3) same1 by (auto simp: w2_def w2 GetGroup_def invite_of_def loaded_def fun_eq_iff)
  have free3: "ungrouped w3 (pl_guid leader)" "invite_of w3 (pl_guid leader) = None" using free v3 by (simp_all add: ungrouped_def)
  have "first_free_subgroup ?g3 = Some 0" "\<not> IsFull ?g3"
    using f3 by (simp_all add: first_free_subgroup_def IsFull_def isRaidGroup_def group_types group_sizes)
  then obtain w4 where w4: "AddMember p leader w3 = (True, w4)" "consistent w4" "core w4 = core (joined p leader 0 ?g3 w3)"
    using AddMember_consistent [OF c3 g3 _ _ free3] by blast
  have alive4: "gs_groups w4 p \<noteq> None" using core_group_iff [OF w4(3), of p] by (simp add: joined_sel)
  define w5 where "w5 = ConvertInstancesToGroup (pl_guid leader) p False w4"
  have w5: "core w5 = core (joined p leader 0 ?g3 w3)" "consistent w5"
    using ConvertInstancesToGroup_quiet [OF alive4 consistentD(2) [OF w4(2)], of "pl_guid leader" False] w4 consistent_core [OF w4(2)]
    by (simp_all add: w5_def)
  have "\<not> isBGGroup ?g2" "\<not> isBFGroup ?g2" using gok(1) by (simp_all add: created_def isBGGroup_def isBFGroup_def group_ok_def)
  then have cr: "snd (Create p leader w) = w5"
    using gen g2(1) w4(1) by (simp add: Create_def Let_def w2_def w3_def w5_def)
  obtain g' where g': "gs_groups w5 p = Some g'" "gcore g' = gcore (joined_group leader 0 ?g3)"
    using core_group [OF w5(1), of p] by (auto simp: joined_sel)
  note f = gcore_eqD [OF g'(2)]
  have "others_same p w (joined p leader 0 ?g3 w3)" using sel(1) same1 by (simp add: others_same_def joined_sel w2_def w2)
  then have os: "others_same p w w5" by (rule others_same_core [OF w5(1)])
  have wv: "gs_world w5 = gs_world w" using core_eqD(1) [OF w5(1)] v3 by (simp add: joined_sel)
  have gv: "GetGroup w5 v = (if v = pl_guid leader then Some p else GetGroup w v)" for v
    using core_player(4) [OF w5(1), of v] v3 by (simp add: joined_view [OF refl])
  have iv: "invite_of w5 v = invite_of w v" for v
    using core_player(3) [OF w5(1), of v] joined_view(3) [OF refl, of p leader 0 ?g3 w3 v] v3 free by (simp add: invite_of_def)
  show thesis
    by (rule that [OF cr w5(2) g'(1)]) (use f f3 g3(2) os wv gv iv in simp_all)
qed

end
