(* ===== verification/Group_Leave.thy ===== *)
theory Group_Leave
  imports Group_Join
begin

text \<open>
  Leaving and dissolving a group keeps the state consistent: taking back the references to a group, deleting
  it with all pointers to it.
\<close>

section \<open>Taking back references\<close>

definition drop_ref :: "player_group \<Rightarrow> player_group" where
  "drop_ref d = d\<lparr>pg_group := (pg_group d)\<lparr>gr_target := None\<rparr>\<rparr>"

definition unlinked :: "gptr \<Rightarrow> u64 set \<Rightarrow> gworld \<Rightarrow> gworld" where
  "unlinked p S w = (modg p (\<lambda>g. g\<lparr>m_memberMgr := filter (\<lambda>r. fst r \<notin> S) (m_memberMgr g)\<rparr>) w)
     \<lparr>gs_pl := (\<lambda>u. if u \<in> S \<and> GetGroup w u = Some p then drop_ref (gs_pl w u) else gs_pl w u)\<rparr>"

lemma unlinked_sel:
  assumes "gs_groups w p = Some g"
  shows "gs_groups (unlinked p S w) = (gs_groups w)(p \<mapsto> g\<lparr>m_memberMgr := filter (\<lambda>r. fst r \<notin> S) (m_memberMgr g)\<rparr>)"
    "gs_pl (unlinked p S w) u = (if u \<in> S \<and> GetGroup w u = Some p then drop_ref (gs_pl w u) else gs_pl w u)"
    "gs_world (unlinked p S w) = gs_world w" "gs_env (unlinked p S w) = gs_env w" "gs_db (unlinked p S w) = gs_db w"
    "gs_fault (unlinked p S w) = gs_fault w" "gs_next (unlinked p S w) = gs_next w" "GroupDbStore (unlinked p S w) = GroupDbStore w"
    "NextGroupDbStoreId (unlinked p S w) = NextGroupDbStoreId w"
    "GetGroup (unlinked p S w) u = (if u \<in> S \<and> GetGroup w u = Some p then None else GetGroup w u)"
    "GetOriginalGroup (unlinked p S w) u = GetOriginalGroup w u" "invite_of (unlinked p S w) u = invite_of w u"
    "loaded (unlinked p S w) u = loaded w u" "subgroup_of (unlinked p S w) u = subgroup_of w u"
    "find_player (unlinked p S w) u = find_player w u"
  using assms
  by (simp_all add: unlinked_def modg_def with_group_def drop_ref_def GetGroup_def GetOriginalGroup_def invite_of_def loaded_def subgroup_of_def
      find_player_def)

lemma unlinked_empty: "gs_groups w p = Some g \<Longrightarrow> unlinked p {} w = w"
  by (simp add: unlinked_def modg_def with_group_def fun_upd_idem)

lemma drop_ref_none: "gr_target (pg_group d) = None \<Longrightarrow> drop_ref d = d"
  by (cases d; cases "pg_group d") (simp add: drop_ref_def)

lemma unlink_one:
  assumes c: "consistent w" and g: "gs_groups w p = Some g" and u: "GetGroup w u \<in> {None, Some p}"
  shows "ref_unlink u False (unlinked p S w) = unlinked p (insert u S) w"
proof -
  have mgr: "(v, orig) \<in> set (m_memberMgr g) \<longleftrightarrow> \<not> orig \<and> GetGroup w v = Some p" for v orig
    using consistentD(6) [OF c g] by (simp add: each_group_ok_def linked_ok_def)
  have upd: "ref_upd False (\<lambda>r. r\<lparr>gr_target := None\<rparr>) = drop_ref" by (simp add: fun_eq_iff ref_upd_def drop_ref_def)
  show ?thesis
  proof (cases "GetGroup (unlinked p S w) u")
    case None
    then have no: "u \<in> S \<or> GetGroup w u = None" by (auto simp: unlinked_sel(10) [OF g] split: if_splits)
    have "fst r \<notin> S \<longleftrightarrow> fst r \<notin> insert u S" if "r \<in> set (m_memberMgr g)" for r
      using mgr [of "fst r" "snd r"] that no by auto
    then have "filter (\<lambda>r. fst r \<notin> S) (m_memberMgr g) = filter (\<lambda>r. fst r \<notin> insert u S) (m_memberMgr g)"
      by (intro filter_cong) simp_all
    moreover have "(gs_pl (unlinked p S w))(u := drop_ref (gs_pl (unlinked p S w) u)) = gs_pl (unlinked p (insert u S) w)"
      using None drop_ref_none [of "gs_pl (unlinked p S w) u"] by (auto simp: fun_eq_iff unlinked_sel(2,10) [OF g] GetGroup_def split: if_splits)
    ultimately show ?thesis
      using None g by (simp add: ref_unlink_def Let_def ref_get_def GetGroup_def upd modp_def) (simp add: unlinked_def modg_def with_group_def)
  next
    case (Some q)
    then have q: "q = p" "u \<notin> S" "GetGroup w u = Some p" using u by (auto simp: unlinked_sel(10) [OF g] split: if_splits)
    have "removeAll (u, False) (filter (\<lambda>r. fst r \<notin> S) (m_memberMgr g)) = filter (\<lambda>r. fst r \<notin> insert u S) (m_memberMgr g)"
    proof -
      have "(fst r \<notin> S \<and> (u, False) \<noteq> r) = (fst r \<notin> insert u S)" if "r \<in> set (m_memberMgr g)" for r
        using mgr [of "fst r" "snd r"] that by (cases r) auto
      then show ?thesis unfolding removeAll_filter_not_eq filter_filter by (intro filter_cong) simp_all
    qed
    moreover have "(gs_pl (unlinked p S w))(u := drop_ref (gs_pl (unlinked p S w) u)) = gs_pl (unlinked p (insert u S) w)"
      using q by (auto simp: fun_eq_iff unlinked_sel(2) [OF g])
    ultimately show ?thesis
      using Some q g by (simp add: ref_unlink_def Let_def ref_get_def GetGroup_def upd modp_def)
        (simp add: unlinked_def modg_def with_group_def)
  qed
qed

lemma member_ref:
  assumes c: "consistent w" and g: "gs_groups w p = Some g" and s: "s \<in> set (m_memberSlots g)"
  shows "is_player (ms_guid s)" "GetGroup w (ms_guid s) \<in> {None, Some p}" "invite_of w (ms_guid s) = None"
    "loaded w (ms_guid s) \<Longrightarrow> GetGroup w (ms_guid s) = Some p"
proof -
  have m: "is_player (ms_guid s)" "loaded w (ms_guid s) \<Longrightarrow> GetGroup w (ms_guid s) = Some p"
    using consistentD(6) [OF c g] s by (auto simp: each_group_ok_def members_ok_def)
  note pl = consistentD(5) [OF c, of "ms_guid s", unfolded player_ok_def]
  show "is_player (ms_guid s)" "loaded w (ms_guid s) \<Longrightarrow> GetGroup w (ms_guid s) = Some p" using m by blast+
  show "GetGroup w (ms_guid s) \<in> {None, Some p}" using pl m(2) by (cases "GetGroup w (ms_guid s)") auto
  show "invite_of w (ms_guid s) = None" using pl m(2) by (cases "invite_of w (ms_guid s)") auto
qed

lemma drop_group_core:
  assumes c: "consistent w" and g: "gs_groups w p = Some g" and u: "GetGroup w u \<in> {None, Some p}"
    and x: "core x = core (unlinked p S w)" and h: "gcore h = gcore (g\<lparr>m_memberMgr := mgr\<rparr>)"
  shows "core (drop_group p h u x) = core (unlinked p (insert u S) w)"
proof -
  have "\<not> isBGGroup h" "\<not> isBFGroup h"
    using consistentD(6) [OF c g] gcore_eqD(6,7) [OF h] by (simp_all add: each_group_ok_def group_ok_def isBGGroup_def isBFGroup_def)
  moreover have "GetOriginalGroup x u = None"
    using core_player(5) [OF x, of u] consistentD(5) [OF c, of u] by (simp add: unlinked_sel(11) [OF g] player_ok_def)
  ultimately have "drop_group p h u x = act (Call u UpdateObjectVisibility) (ref_unlink u False x)"
    by (simp add: drop_group_def SetGroup_def)
  then show ?thesis using core_ref_unlink_cong [OF x, of u False] unlink_one [OF c g u, of S] by (simp add: core_act)
qed

section \<open>Deleting a group\<close>

definition forget_player :: "gptr \<Rightarrow> player_group \<Rightarrow> player_group" where
  "forget_player p d =
     (let d1 = (if gr_target (pg_group d) = Some p then drop_ref d else d)
      in if pg_groupInvite d1 = Some p then d1\<lparr>pg_groupInvite := None\<rparr> else d1)"

lemma forget_player_sel [simp]:
  "gr_target (pg_group (forget_player p d)) = (if gr_target (pg_group d) = Some p then None else gr_target (pg_group d))"
  "pg_originalGroup (forget_player p d) = pg_originalGroup d"
  "pg_groupInvite (forget_player p d) = (if pg_groupInvite d = Some p then None else pg_groupInvite d)"
  "player_fine (forget_player p d) = player_fine d"
  by (simp_all add: forget_player_def drop_ref_def Let_def player_fine_def)

lemma forget_player_none:
  "gr_target (pg_group d) \<noteq> Some p \<Longrightarrow> pg_groupInvite d \<noteq> Some p \<Longrightarrow> forget_player p d = d"
  by (simp add: forget_player_def)

text \<open>A row names the group its member is in.\<close>

lemma row_owner:
  assumes c: "consistent w" and g: "gs_groups w p = Some g" and r: "map_find (member_rows w) m = Some r" "mw_guid r = m_dbStoreId g"
  shows "m_dbStoreId g \<noteq> 0" "\<exists>s \<in> set (m_memberSlots g). GUID_LOPART (ms_guid s) = m"
proof -
  obtain q h s where h: "gs_groups w q = Some h" "s \<in> set (m_memberSlots h)" "GUID_LOPART (ms_guid s) = m" "m_dbStoreId h = mw_guid r"
    using tables_rowD [OF consistentD(4) [OF c] r(1)] by blast
  have st: "stored_ok w q h" "stored_ok w p g" using consistentD(6) [OF c] h(1) g by (auto simp: each_group_ok_def)
  show id: "m_dbStoreId g \<noteq> 0" using stored_rowD(1) [OF st(1) h(2)] h(4) r(2) by simp
  have "q = p" using stored_rowD(2) [OF st(1) h(2)] st(2) id h(4) r(2) by (simp add: stored_ok_def)
  then show "\<exists>s \<in> set (m_memberSlots g). GUID_LOPART (ms_guid s) = m" using h(1,2,3) g by auto
qed

lemma zero_id:
  assumes "consistent w"
  shows "GetGroupByDbStoreId w 0 = None" "map_find (group_rows w) 0 = None"
proof -
  show none: "GetGroupByDbStoreId w 0 = None"
    using tables_poolD [OF consistentD(4) [OF assms], of 0] by (cases "GetGroupByDbStoreId w 0") auto
  then show "map_find (group_rows w) 0 = None" using consistentD(4) [OF assms] by (auto simp: tables_ok_def)
qed

lemma dissolved_consistent:
  assumes c: "consistent w" and g: "gs_groups w p = Some g"
    and w': "gs_groups w' = (gs_groups w)(p := None)" "gs_pl w' = (\<lambda>u. forget_player p (gs_pl w u))"
      "gs_world w' = gs_world w" "gs_env w' = gs_env w" "gs_next w' = gs_next w" "gs_fault w' = gs_fault w"
    and pool: "pool_ok w'" "\<And>i. GetGroupByDbStoreId w' i = (if i = m_dbStoreId g then None else GetGroupByDbStoreId w i)"
    and rows: "map_wf (member_rows w')" "map_wf (group_rows w')"
      "\<And>i. map_find (group_rows w') i = (if i = m_dbStoreId g then None else map_find (group_rows w) i)"
      "\<And>m. map_find (member_rows w') m =
         (case map_find (member_rows w) m of None \<Rightarrow> None | Some r \<Rightarrow> if mw_guid r = m_dbStoreId g then None else Some r)"
  shows "consistent w'"
proof -
  let ?U = "ms_guid ` set (m_memberSlots g) \<union> {u. invite_of w u = Some p}"
  note G = consistentD(6) [OF c g]
  have view: "GetGroup w' u = (if GetGroup w u = Some p then None else GetGroup w u)" "GetOriginalGroup w' u = GetOriginalGroup w u"
      "invite_of w' u = (if invite_of w u = Some p then None else invite_of w u)" "loaded w' u = loaded w u" for u
    using w' by (simp_all add: GetGroup_def GetOriginalGroup_def invite_of_def loaded_def)
  have member: "u \<in> ?U" if "GetGroup w u = Some p" for u
    using consistentD(5) [OF c, of u] that g by (auto simp: player_ok_def)
  have inside: "is_player u \<and> GetGroup w u \<in> {None, Some p} \<and> invite_of w u \<in> {None, Some p}" if "u \<in> ?U" for u
    using that
  proof
    assume "u \<in> ms_guid ` set (m_memberSlots g)"
    then show ?thesis using member_ref [OF c g] by auto
  next
    assume "u \<in> {u. invite_of w u = Some p}"
    then show ?thesis using invited_ungrouped [OF c, of u p] loaded_player_guid [OF c, of u] by (simp add: ungrouped_def)
  qed
  have others: "gs_pl w' v = gs_pl w v" if "v \<notin> ?U" for v
  proof -
    have "gr_target (pg_group (gs_pl w v)) \<noteq> Some p" "pg_groupInvite (gs_pl w v) \<noteq> Some p"
      using that member [of v] by (auto simp: GetGroup_def invite_of_def)
    then show ?thesis by (simp add: w'(2) forget_player_none)
  qed
  have ids: "store_ids w w' p = {i. i \<noteq> 0 \<and> i = m_dbStoreId g}" using g w'(1) by (auto simp: store_ids_def)
  have own: "GetGroupByDbStoreId w (m_dbStoreId g) = Some p" if "m_dbStoreId g \<noteq> 0" using G that by (simp add: each_group_ok_def stored_ok_def)
  have "footprint w w' p ?U"
    unfolding footprint_def
  proof (intro conjI allI ballI impI)
    show "sane w'" using consistentD(2) [OF c] w' by (auto simp: sane_def)
    show "players_ok (gs_world w')" "gs_fault w' = None" "gs_next w \<le> gs_next w'" using consistentD(1,3) [OF c] w' by simp_all
    show "gs_groups w' q = gs_groups w q" if "q \<noteq> p" for q using that w' by simp
    show "loaded w' v = loaded w v" for v by (rule view)
    show "pg_group (gs_pl w' v) = pg_group (gs_pl w v)" "pg_originalGroup (gs_pl w' v) = pg_originalGroup (gs_pl w v)"
        "pg_groupInvite (gs_pl w' v) = pg_groupInvite (gs_pl w v)" if "v \<notin> ?U" for v
      using others [OF that] by simp_all
    show "is_player u" "GetGroup w u \<in> {None, Some p}" "invite_of w u \<in> {None, Some p}" if "u \<in> ?U" for u using inside [OF that] by auto
    show "GetGroup w' u \<in> {None, Some p}" "invite_of w' u \<in> {None, Some p}" if "u \<in> ?U" for u using inside [OF that] view by auto
    show "ms_guid s \<notin> ?U" if q: "q \<noteq> p" "gs_groups w q = Some h" "s \<in> set (m_memberSlots h)" for q h s
    proof -
      have "ms_guid s \<notin> ms_guid ` set (m_memberSlots g)" using one_group [OF c q(2,3) g] q(1) by (metis imageE)
      moreover have "invite_of w (ms_guid s) = None" by (rule member_ref [OF c q(2,3)])
      ultimately show ?thesis by simp
    qed
    show "map_find (member_rows w') m = map_find (member_rows w) m" if "m \<notin> GUID_LOPART ` ?U" for m
    proof (cases "map_find (member_rows w) m")
      case (Some r)
      then have "mw_guid r \<noteq> m_dbStoreId g" using row_owner(2) [OF c g Some] that by auto
      then show ?thesis using rows(4) [of m] Some by simp
    qed (simp add: rows(4))
    show "GetGroupByDbStoreId w' i = GetGroupByDbStoreId w i" "map_find (group_rows w') i = map_find (group_rows w) i"
      if "i \<notin> store_ids w w' p" for i
      using that zero_id [OF c] by (auto simp: ids pool(2) rows(3))
    show "GetGroupByDbStoreId w i \<in> {None, Some p}" if "i \<in> store_ids w w' p" for i using that own by (auto simp: ids)
    show "GetGroupByDbStoreId w' i \<noteq> None" if "i \<in> store_ids w w' p" "map_find (group_rows w') i \<noteq> None" for i
      using that by (simp add: ids rows(3))
    show "q = p" if "i \<in> store_ids w w' p" "GetGroupByDbStoreId w' i = Some q" for i q using that by (simp add: ids pool(2))
    show "\<exists>g'. gs_groups w' p = Some g' \<and> m_dbStoreId g' = i" if "i \<in> store_ids w w' p" "GetGroupByDbStoreId w' i = Some q" for i q
      using that by (simp add: ids pool(2))
    show "\<exists>g'. gs_groups w' p = Some g' \<and> mw_guid r = m_dbStoreId g' \<and> (\<exists>s' \<in> set (m_memberSlots g'). ms_guid s' = u)"
      if "u \<in> ?U" "map_find (member_rows w') (GUID_LOPART u) = Some r" for u r
    proof -
      from that(1) have False
      proof
        assume "u \<in> ms_guid ` set (m_memberSlots g)"
        then show False using stored_rowD(3) [of w p g] G that(2) by (fastforce simp: each_group_ok_def rows(4))
      next
        assume "u \<in> {u. invite_of w u = Some p}"
        then show False using ungrouped_no_row [OF c, of u] invited_ungrouped [OF c, of u p] that(2) by (simp add: rows(4))
      qed
      then show ?thesis ..
    qed
  qed (use c rows(1,2) pool(1) g in \<open>auto simp: image_iff\<close>)
  then show ?thesis
  proof (rule fp_consistent)
    show "player_ok w' u" if "u \<in> ?U" for u
      using inside [OF that] consistentD(5) [OF c, of u] by (auto simp: player_ok_def view)
  qed (simp add: w')
qed

end
