(* ===== verification/Group_Disband.thy ===== *)
theory Group_Disband
  imports Group_Leave
begin

text \<open>
  \<^verbatim>\<open>Disband\<close> and the deletion of a group that was never created keep the state consistent: all
  references and invitations to the group are taken back, its rows are deleted and its storage id returns to the pool.
\<close>

section \<open>The steps of the deletion\<close>

lemma uninvite_fold:
  "fold (\<lambda>i. SetGroupInvite i None) is w
     = w\<lparr>gs_pl := (\<lambda>u. if u \<in> set is then (gs_pl w u)\<lparr>pg_groupInvite := None\<rparr> else gs_pl w u)\<rparr>"
  by (induction "is" arbitrary: w) (auto simp: SetGroupInvite_def modp_def fun_eq_iff)

lemma RemoveAllInvites_eq:
  assumes "gs_groups w p = Some g"
  shows "RemoveAllInvites p w = w\<lparr>gs_groups := (gs_groups w)(p \<mapsto> g\<lparr>m_invitees := []\<rparr>),
     gs_pl := (\<lambda>u. if u \<in> set (m_invitees g) then (gs_pl w u)\<lparr>pg_groupInvite := None\<rparr> else gs_pl w u)\<rparr>"
  using assms by (simp add: RemoveAllInvites_def with_group_def uninvite_fold modg_def)

lemma pcore_cong:
  assumes "pcore d = pcore d'"
  shows "pcore (drop_ref d) = pcore (drop_ref d')" "pcore (d\<lparr>pg_groupInvite := q\<rparr>) = pcore (d'\<lparr>pg_groupInvite := q\<rparr>)"
proof -
  have "pcore (drop_ref d) = drop_ref (pcore d)" "pcore (d\<lparr>pg_groupInvite := q\<rparr>) = (pcore d)\<lparr>pg_groupInvite := q\<rparr>" for d
    by (simp_all add: pcore_def drop_ref_def)
  then show "pcore (drop_ref d) = pcore (drop_ref d')" "pcore (d\<lparr>pg_groupInvite := q\<rparr>) = pcore (d'\<lparr>pg_groupInvite := q\<rparr>)"
    using assms by simp_all
qed

lemma gcore_cong: "gcore g = gcore g' \<Longrightarrow> gcore (g\<lparr>m_invitees := i\<rparr>) = gcore (g'\<lparr>m_invitees := i\<rparr>)"
proof -
  have "gcore (g\<lparr>m_invitees := i\<rparr>) = (gcore g)\<lparr>m_invitees := i\<rparr>" for g by (simp add: gcore_def)
  then show "gcore g = gcore g' \<Longrightarrow> gcore (g\<lparr>m_invitees := i\<rparr>) = gcore (g'\<lparr>m_invitees := i\<rparr>)" by simp
qed

lemma core_upd_cong:
  assumes "core x = core y" "\<And>q. map_option gcore (G q) = map_option gcore (G' q)" "\<And>u. pcore (P u) = pcore (P' u)"
  shows "core (x\<lparr>gs_groups := G, gs_pl := P\<rparr>) = core (y\<lparr>gs_groups := G', gs_pl := P'\<rparr>)"
  using core_eqD(1-9) [OF assms(1)] assms(2,3) by (intro core_eqI) simp_all

lemma core_RemoveAllInvites_cong:
  assumes "core x = core y" "gs_groups y p = Some g"
  shows "core (RemoveAllInvites p x) = core (RemoveAllInvites p y)"
proof -
  obtain h where h: "gs_groups x p = Some h" "gcore h = gcore g" using core_group [OF assms] by blast
  have inv: "m_invitees h = m_invitees g" by (rule gcore_eqD(3) [OF h(2)])
  show ?thesis
    unfolding RemoveAllInvites_eq [OF h(1)] RemoveAllInvites_eq [OF assms(2)] inv
  proof (rule core_upd_cong [OF assms(1)])
    show "map_option gcore (((gs_groups x)(p \<mapsto> h\<lparr>m_invitees := []\<rparr>)) q) = map_option gcore (((gs_groups y)(p \<mapsto> g\<lparr>m_invitees := []\<rparr>)) q)" for q
      using core_eqD(10) [OF assms(1), of q] gcore_cong [OF h(2)] by simp
    show "pcore (if u \<in> set (m_invitees g) then gs_pl x u\<lparr>pg_groupInvite := None\<rparr> else gs_pl x u)
        = pcore (if u \<in> set (m_invitees g) then gs_pl y u\<lparr>pg_groupInvite := None\<rparr> else gs_pl y u)" for u
      using core_eqD(11) [OF assms(1), of u] pcore_cong(2) [of "gs_pl x u" "gs_pl y u" None] by simp
  qed
qed

lemma core_Free: "core (FreeGroupDbStoreId i w) = FreeGroupDbStoreId i (core w)"
  by (auto simp: FreeGroupDbStoreId_def Let_def core_def gfault_def)

lemma core_Free_cong: "core x = core y \<Longrightarrow> core (FreeGroupDbStoreId i x) = core (FreeGroupDbStoreId i y)"
  by (simp add: core_Free)

lemma sane_Free [sane_intros]: "sane w \<Longrightarrow> sane (FreeGroupDbStoreId i w)"
  by (auto simp: FreeGroupDbStoreId_def Let_def sane_def gfault_def)

lemma sane_RemoveAllInvites [sane_intros]: "sane w \<Longrightarrow> sane (RemoveAllInvites p w)"
  unfolding RemoveAllInvites_def by (auto intro!: sane_with_group sane_intros sane_fold)

lemma disband_stored_core:
  assumes x: "core x = core y" "sane x" and g: "gs_groups y p = Some g" "m_bgGroup g = None" "m_bfGroup g = None"
  shows "core (disband_stored p x) =
      core (FreeGroupDbStoreId (m_dbStoreId g) (y\<lparr>gs_db := exec_group (DEL_GROUP_MEMBER_ALL (m_dbStoreId g))
        (exec_group (DEL_GROUP (m_dbStoreId g)) (gs_db y))\<rparr>))"
    "sane (disband_stored p x)"
proof -
  obtain h where h: "gs_groups x p = Some h" "gcore h = gcore g" using core_group [OF x(1) g(1)] by blast
  note f = gcore_eqD [OF h(2)]
  let ?i = "m_dbStoreId g"
  define x1 where "x1 = sql (DEL_GROUP_MEMBER_ALL ?i) (sql (DEL_GROUP ?i) x)"
  define x2 where "x2 = Group_ResetInstances p INSTANCE_RESET_GROUP_DISBAND False None x1"
  define x3 where "x3 = Group_ResetInstances p INSTANCE_RESET_GROUP_DISBAND True None x2"
  let ?y1 = "y\<lparr>gs_db := exec_group (DEL_GROUP_MEMBER_ALL ?i) (exec_group (DEL_GROUP ?i) (gs_db y))\<rparr>"
  have eq: "disband_stored p x = FreeGroupDbStoreId ?i (sql (DEL_LFG_DATA ?i) x3)"
    using h(1) f g(2,3) by (simp add: disband_stored_def with_group_def Let_def x1_def x2_def x3_def isBGGroup_def isBFGroup_def)
  have db: "gs_db x1 = exec_group (DEL_GROUP_MEMBER_ALL ?i) (exec_group (DEL_GROUP ?i) (gs_db y))"
    using core_eqD(3) [OF x(1)] by (simp add: x1_def sql_def act_def)
  have c1: "core x1 = core ?y1"
    by (rule core_eqI) (use core_eqD [OF x(1)] db in \<open>simp_all add: x1_def sql_def act_def\<close>)
  have s1: "sane x1" using x(2) by (simp add: x1_def sane_simple)
  have a1: "gs_groups x1 p \<noteq> None" using h(1) by (simp add: x1_def sql_def act_def)
  note q2 = Group_ResetInstances_quiet [OF a1 s1, of INSTANCE_RESET_GROUP_DISBAND False None, folded x2_def]
  have a2: "gs_groups x2 p \<noteq> None" using core_group_iff [OF q2(1), of p] a1 by simp
  note q3 = Group_ResetInstances_quiet [OF a2 q2(2), of INSTANCE_RESET_GROUP_DISBAND True None, folded x3_def]
  have "core (sql (DEL_LFG_DATA ?i) x3) = core ?y1" using q3 q2 c1 by (simp add: core_sql_none)
  then show "core (disband_stored p x) = core (FreeGroupDbStoreId ?i ?y1)" unfolding eq by (rule core_Free_cong)
  show "sane (disband_stored p x)" unfolding eq using q3(2) by (intro sane_Free sane_simple)
qed

lemma clearReferences_eq:
  assumes "\<forall>r \<in> set rs. \<not> snd r"
  shows "clearReferences rs w = w\<lparr>gs_pl := (\<lambda>u. if (u, False) \<in> set rs then drop_ref (gs_pl w u) else gs_pl w u)\<rparr>"
  using assms
proof (induction rs arbitrary: w)
  case (Cons r rs)
  obtain v where r: "r = (v, False)" using Cons.prems by (cases r) auto
  have upd: "ref_upd False (\<lambda>r. r\<lparr>gr_target := None\<rparr>) = drop_ref" by (simp add: fun_eq_iff ref_upd_def drop_ref_def)
  have twice: "drop_ref (drop_ref d) = drop_ref d" for d by (simp add: drop_ref_def)
  show ?case
    using Cons.IH [of "modp v drop_ref w"] Cons.prems by (auto simp: clearReferences_def r upd modp_def twice fun_eq_iff)
qed (simp add: clearReferences_def)

lemma delete_group_core:
  assumes x: "core x = core y" "sane x" and g: "gs_groups y p = Some g" "m_bgGroup g = None" "\<forall>r \<in> set (m_memberMgr g). \<not> snd r"
  shows "core (delete_group p x) = core (y\<lparr>gs_groups := (gs_groups y)(p := None),
      gs_pl := (\<lambda>u. if (u, False) \<in> set (m_memberMgr g) then drop_ref (gs_pl y u) else gs_pl y u)\<rparr>)"
    "sane (delete_group p x)"
proof -
  obtain h where h: "gs_groups x p = Some h" "gcore h = gcore g" using core_group [OF x(1) g(1)] by blast
  note f = gcore_eqD [OF h(2)]
  let ?f = "\<lambda>(k :: u32, b) w. case ib_save b of None \<Rightarrow> gfault NullDeref w | Some s \<Rightarrow> act (SaveRemoveGroup (is_instance s) p) w"
  let ?x1 = "fold ?f (concat (m_boundInstances h)) x"
  have fine: "binds_fine (m_boundInstances h)" using sane_group [OF x(2) h(1)] by (simp add: group_fine_def)
  have x1: "core ?x1 = core x \<and> sane ?x1"
  proof (rule quiet_fold [OF _ x(2), of p])
    show "gs_groups x p \<noteq> None" using h(1) by simp
    fix kb w' assume "kb \<in> set (concat (m_boundInstances h))" "sane w'"
    moreover from this have "bind_fine kb" using fine by (auto simp: binds_fine_def)
    ultimately show "core (?f kb w') = core w' \<and> sane (?f kb w')"
      by (auto simp: bind_fine_def core_simps sane_simple split: prod.split)
  qed
  let ?x2 = "clearReferences (m_memberMgr g) ?x1"
  have eq: "delete_group p x = ?x2\<lparr>gs_groups := (gs_groups ?x2)(p := None)\<rparr>"
    using h(1) f(2,6) g(2) by (simp add: delete_group_def with_group_def Let_def)
  have x2: "?x2 = ?x1\<lparr>gs_pl := (\<lambda>u. if (u, False) \<in> set (m_memberMgr g) then drop_ref (gs_pl ?x1 u) else gs_pl ?x1 u)\<rparr>"
    by (rule clearReferences_eq [OF g(3)])
  have c1: "core ?x1 = core y" using x1 x(1) by simp
  show "core (delete_group p x) = core (y\<lparr>gs_groups := (gs_groups y)(p := None),
      gs_pl := (\<lambda>u. if (u, False) \<in> set (m_memberMgr g) then drop_ref (gs_pl y u) else gs_pl y u)\<rparr>)"
  proof -
    have "core (?x1\<lparr>gs_groups := (gs_groups ?x1)(p := None), gs_pl := (\<lambda>u. if (u, False) \<in> set (m_memberMgr g) then drop_ref (gs_pl ?x1 u) else gs_pl ?x1 u)\<rparr>)
      = core (y\<lparr>gs_groups := (gs_groups y)(p := None), gs_pl := (\<lambda>u. if (u, False) \<in> set (m_memberMgr g) then drop_ref (gs_pl y u) else gs_pl y u)\<rparr>)"
    proof (rule core_upd_cong [OF c1])
      show "map_option gcore (((gs_groups ?x1)(p := None)) q) = map_option gcore (((gs_groups y)(p := None)) q)" for q
        using core_eqD(10) [OF c1, of q] by simp
      show "pcore (if (u, False) \<in> set (m_memberMgr g) then drop_ref (gs_pl ?x1 u) else gs_pl ?x1 u)
          = pcore (if (u, False) \<in> set (m_memberMgr g) then drop_ref (gs_pl y u) else gs_pl y u)" for u
        using core_eqD(11) [OF c1, of u] pcore_cong(1) [of "gs_pl ?x1 u" "gs_pl y u"] by simp
    qed
    moreover have "delete_group p x = ?x1\<lparr>gs_groups := (gs_groups ?x1)(p := None),
        gs_pl := (\<lambda>u. if (u, False) \<in> set (m_memberMgr g) then drop_ref (gs_pl ?x1 u) else gs_pl ?x1 u)\<rparr>"
      unfolding eq x2 by simp
    ultimately show ?thesis by (simp only:)
  qed
  show "sane (delete_group p x)"
    unfolding eq x2 using x1 by (auto simp: sane_def player_fine_def drop_ref_def)
qed

section \<open>Deleting a group that was never created\<close>

lemma linked_all: "consistent w \<Longrightarrow> gs_groups w p = Some g \<Longrightarrow> (u, orig) \<in> set (m_memberMgr g) \<longleftrightarrow> \<not> orig \<and> GetGroup w u = Some p"
  using consistentD(6) [of w p g] by (simp add: each_group_ok_def linked_ok_def)

lemma invited_all: "consistent w \<Longrightarrow> gs_groups w p = Some g \<Longrightarrow> u \<in> set (m_invitees g) \<longleftrightarrow> invite_of w u = Some p"
  using consistentD(6) [of w p g] by (simp add: each_group_ok_def invited_ok_def)

text \<open>Whoever was taken out before the object is deleted, nobody points to it afterwards.\<close>

lemma forgotten:
  fixes S :: "u64 set"
  assumes c: "consistent w" and g: "gs_groups w p = Some g"
  defines "P \<equiv> \<lambda>u. if u \<in> set (m_invitees g) then (gs_pl (unlinked p S w) u)\<lparr>pg_groupInvite := None\<rparr> else gs_pl (unlinked p S w) u"
  shows "(if (u, False) \<in> set (filter (\<lambda>r. fst r \<notin> S) (m_memberMgr g)) then drop_ref (P u) else P u) = forget_player p (gs_pl w u)"
proof -
  have i: "u \<in> set (m_invitees g) \<longleftrightarrow> pg_groupInvite (gs_pl w u) = Some p" using invited_all [OF c g, of u] by (simp add: invite_of_def)
  have m: "(u, False) \<in> set (m_memberMgr g) \<longleftrightarrow> gr_target (pg_group (gs_pl w u)) = Some p"
    using linked_all [OF c g, of u False] by (simp add: GetGroup_def)
  show ?thesis
    using i m by (auto simp: P_def unlinked_sel(2) [OF g] GetGroup_def forget_player_def Let_def drop_ref_def)
qed

lemma delete_uncreated_consistent:
  assumes c: "consistent w" and g: "gs_groups w p = Some g" "m_dbStoreId g = 0"
  shows "consistent (delete_group p (RemoveAllInvites p w))"
    "core (delete_group p (RemoveAllInvites p w)) = core (w\<lparr>gs_groups := (gs_groups w)(p := None), gs_pl := (\<lambda>u. forget_player p (gs_pl w u))\<rparr>)"
proof -
  let ?z = "w\<lparr>gs_groups := (gs_groups w)(p := None), gs_pl := (\<lambda>u. forget_player p (gs_pl w u))\<rparr>"
  let ?y = "RemoveAllInvites p w"
  have y: "gs_groups ?y p = Some (g\<lparr>m_invitees := []\<rparr>)" by (simp add: RemoveAllInvites_eq [OF g(1)])
  have bg: "m_bgGroup (g\<lparr>m_invitees := []\<rparr>) = None" using consistentD(6) [OF c g(1)] by (simp add: each_group_ok_def group_ok_def)
  have mgr: "\<forall>r \<in> set (m_memberMgr (g\<lparr>m_invitees := []\<rparr>)). \<not> snd r" using linked_all [OF c g(1)] by force
  have sane: "sane ?y" by (intro sane_intros consistentD(2) [OF c])
  note d = delete_group_core [OF refl sane y bg mgr]
  have "?y\<lparr>gs_groups := (gs_groups ?y)(p := None),
      gs_pl := (\<lambda>u. if (u, False) \<in> set (m_memberMgr (g\<lparr>m_invitees := []\<rparr>)) then drop_ref (gs_pl ?y u) else gs_pl ?y u)\<rparr> = ?z"
  proof -
    have "(if (u, False) \<in> set (m_memberMgr g) then drop_ref (gs_pl ?y u) else gs_pl ?y u) = forget_player p (gs_pl w u)" for u
      using forgotten [OF c g(1), of u "{}"] unfolding unlinked_empty [OF g(1)] RemoveAllInvites_eq [OF g(1)] by (auto split: if_splits)
    then show ?thesis by (simp add: RemoveAllInvites_eq [OF g(1)])
  qed
  then show core: "core (delete_group p ?y) = core ?z" using d(1) by (simp only:)
  have "consistent ?z"
  proof (rule dissolved_consistent [OF c g(1)])
    show "pool_ok ?z" using consistentD(4) [OF c] by (simp add: tables_ok_def pool_ok_def)
    show "GetGroupByDbStoreId ?z i = (if i = m_dbStoreId g then None else GetGroupByDbStoreId w i)" for i
      using zero_id(1) [OF c] g(2) by (auto simp: GetGroupByDbStoreId_def split: if_splits)
    show "map_find (group_rows ?z) i = (if i = m_dbStoreId g then None else map_find (group_rows w) i)" for i using zero_id(2) [OF c] g(2) by simp
    show "map_find (member_rows ?z) m = (case map_find (member_rows w) m of None \<Rightarrow> None | Some r \<Rightarrow> if mw_guid r = m_dbStoreId g then None else Some r)"
      for m using row_owner(1) [OF c g(1), of m] g(2) by (cases "map_find (member_rows w) m") auto
  qed (use consistent_tables [OF c] in simp_all)
  then show "consistent (delete_group p ?y)" using consistent_core core d(2) by blast
qed

section \<open>\<^verbatim>\<open>Disband\<close>\<close>

lemma disband_member_core:
  assumes c: "consistent w" and g: "gs_groups w p = Some g" and s: "s \<in> set (m_memberSlots g)"
    and x: "core x = core (unlinked p S w)" "sane x"
  shows "\<exists>S'. core (disband_member p h s x) = core (unlinked p S' w) \<and> sane (disband_member p h s x)"
proof (cases "find_player x (ms_guid s) = None")
  case True
  obtain k where "gs_groups x p = Some k" using core_group [OF x(1), of p] by (auto simp: unlinked_sel(1) [OF g])
  then show ?thesis using x True by (auto simp: disband_member_def with_group_def)
next
  case False
  let ?u = "ms_guid s"
  obtain pl where pl: "find_player x ?u = Some pl" using False by auto
  obtain k where k: "gs_groups x p = Some k" "gcore k = gcore (g\<lparr>m_memberMgr := filter (\<lambda>r. fst r \<notin> S) (m_memberMgr g)\<rparr>)"
    using core_group [OF x(1), of p] by (auto simp: unlinked_sel(1) [OF g])
  define x1 where "x1 = drop_group p k ?u x"
  define x2 where "x2 = (if isRaidGroup k then act (Call ?u UpdateForQuestWorldObjects) x1 else x1)"
  define x3 where "x3 = (if \<not> h then send ?u (WorldPacket SMSG_GROUP_DESTROYED) x2 else x2)"
  have c1: "core x1 = core (unlinked p (insert ?u S) w)" "sane x1"
    using drop_group_core [OF c g member_ref(2) [OF c g s] x(1) k(2)] x(2)
    by (auto simp: x1_def drop_group_def RemoveFromBattlegroundOrBattlefieldRaid_def Let_def intro!: sane_intros split: option.split)
  have c3: "core x3 = core (unlinked p (insert ?u S) w)" "sane x3"
    using c1 by (auto simp: x3_def x2_def core_simps intro!: sane_intros)
  have "GetGroup x3 ?u = None"
    using core_player(4) [OF c3(1), of ?u] member_ref(2) [OF c g s] by (auto simp: unlinked_sel(10) [OF g])
  moreover have "disband_member p h s x =
      homebindIfInstance ?u (case GetGroup x3 ?u of Some q \<Rightarrow> SendUpdate q x3 | None \<Rightarrow> send ?u (empty_list_packet k) x3)"
    using k(1) pl unfolding x3_def x2_def x1_def by (simp add: disband_member_def with_group_def Let_def)
  ultimately have "disband_member p h s x = homebindIfInstance ?u (send ?u (empty_list_packet k) x3)" by simp
  moreover have "sane (send ?u (empty_list_packet k) x3)" using c3(2) by (rule sane_simple)
  ultimately show ?thesis using c3 by (auto simp: core_simps intro!: sane_intros exI [of _ "insert ?u S"])
qed

lemma disband_fold_core:
  assumes c: "consistent w" and g: "gs_groups w p = Some g"
  shows "set ss \<subseteq> set (m_memberSlots g) \<Longrightarrow> core x = core (unlinked p S w) \<Longrightarrow> sane x \<Longrightarrow>
    \<exists>S'. core (fold (disband_member p h) ss x) = core (unlinked p S' w) \<and> sane (fold (disband_member p h) ss x)"
proof (induction ss arbitrary: x S)
  case (Cons s ss)
  obtain S' where "core (disband_member p h s x) = core (unlinked p S' w)" "sane (disband_member p h s x)"
    using disband_member_core [OF c g _ Cons.prems(2,3), of s h] Cons.prems(1) by auto
  then show ?case using Cons.IH Cons.prems(1) by simp
qed auto

text \<open>What is left in the tables after the two deletions.\<close>

lemma filter_rows:
  fixes m :: "(u32, member_row) stdmap"
  assumes "map_wf m"
  shows "map_wf (filter (\<lambda>(k, r). mw_guid r \<noteq> i) m)"
    "map_find (filter (\<lambda>(k, r). mw_guid r \<noteq> i) m) k =
       (case map_find m k of None \<Rightarrow> None | Some r \<Rightarrow> if mw_guid r = i then None else Some r)"
proof -
  have wf: "sorted_wrt (<) (map fst (filter P m))" if "sorted_wrt (<) (map fst m)" for P and m :: "(u32, member_row) stdmap"
    using that by (induction m) auto
  then show "map_wf (filter (\<lambda>(k, r). mw_guid r \<noteq> i) m)" using assms by (simp add: map_wf_def)
  then have "(k, r) \<in> set (filter (\<lambda>(k, r). mw_guid r \<noteq> i) m) \<longleftrightarrow> map_find (filter (\<lambda>(k, r). mw_guid r \<noteq> i) m) k = Some r" for r
    by (rule map_wf_mem_iff)
  then have iff: "map_find (filter (\<lambda>(k, r). mw_guid r \<noteq> i) m) k = Some r \<longleftrightarrow> map_find m k = Some r \<and> mw_guid r \<noteq> i" for r
    using map_wf_mem_iff [OF assms] by auto
  have cases: "x = (case y of None \<Rightarrow> None | Some r \<Rightarrow> if P r then None else Some r)" if "\<And>r. x = Some r \<longleftrightarrow> y = Some r \<and> \<not> P r"
    for x y :: "member_row option" and P
  proof (cases x)
    case None
    then show ?thesis using that [of "the y"] by (cases y) auto
  next
    case (Some r)
    then show ?thesis using that [of r] by simp
  qed
  show "map_find (filter (\<lambda>(k, r). mw_guid r \<noteq> i) m) k =
      (case map_find m k of None \<Rightarrow> None | Some r \<Rightarrow> if mw_guid r = i then None else Some r)"
    by (rule cases) (rule iff)
qed

lemma Disband_core:
  assumes c: "consistent w" and g: "gs_groups w p = Some g" and id: "m_dbStoreId g \<noteq> 0"
  shows "\<exists>z. core (Disband p h w) = core z \<and> sane (Disband p h w) \<and> gs_groups z = (gs_groups w)(p := None)
      \<and> gs_pl z = (\<lambda>u. forget_player p (gs_pl w u)) \<and> gs_world z = gs_world w \<and> gs_env z = gs_env w \<and> gs_next z = gs_next w
      \<and> gs_fault z = gs_fault w \<and> pool_ok z
      \<and> (\<forall>i. GetGroupByDbStoreId z i = (if i = m_dbStoreId g then None else GetGroupByDbStoreId w i))
      \<and> gs_db z = exec_group (DEL_GROUP_MEMBER_ALL (m_dbStoreId g)) (exec_group (DEL_GROUP (m_dbStoreId g)) (gs_db w))"
proof -
  let ?i = "m_dbStoreId g"
  note G = consistentD(6) [OF c g]
  define x1 where "x1 = act (OnGroupDisband p) w"
  define x2 where "x2 = fold (disband_member p h) (m_memberSlots g) x1"
  define f where "f = (\<lambda>g :: group. g\<lparr>RollId := [], m_memberSlots := []\<rparr>)"
  define x3 where "x3 = modg p f x2"
  define x4 where "x4 = RemoveAllInvites p x3"
  define x5 where "x5 = disband_stored p x4"
  have "core x1 = core (unlinked p {} w)" "sane x1" using consistentD(2) [OF c] by (simp_all add: x1_def core_act unlinked_empty [OF g] sane_simple)
  then obtain S where x2: "core x2 = core (unlinked p S w)" "sane x2"
    unfolding x2_def using disband_fold_core [OF c g order_refl, of x1 "{}" h] by blast
  define y3 where "y3 = modg p f (unlinked p S w)"
  define y4 where "y4 = RemoveAllInvites p y3"
  let ?g2 = "g\<lparr>m_memberMgr := filter (\<lambda>r. fst r \<notin> S) (m_memberMgr g)\<rparr>"
  have y3: "y3 = (unlinked p S w)\<lparr>gs_groups := (gs_groups w)(p \<mapsto> f ?g2)\<rparr>"
    by (simp add: y3_def modg_def with_group_def unlinked_sel(1) [OF g])
  have g3: "gs_groups y3 p = Some (f ?g2)" by (simp add: y3)
  have x3: "core x3 = core y3" unfolding x3_def y3_def using x2(1) by (subst (1 2) core_modg_eq) (simp_all add: f_def gcore_def)
  have s3: "sane x3" unfolding x3_def f_def by (rule sane_modg [OF x2(2)]) (auto simp: group_fine_def)
  have x4: "core x4 = core y4" "sane x4"
    unfolding x4_def y4_def using core_RemoveAllInvites_cong [OF x3 g3] s3 by (auto intro: sane_intros)
  let ?g4 = "(f ?g2)\<lparr>m_invitees := []\<rparr>"
  have g4: "gs_groups y4 p = Some ?g4" by (simp add: y4_def RemoveAllInvites_eq [OF g3])
  have bg: "m_bgGroup ?g4 = None" "m_bfGroup ?g4 = None" "m_dbStoreId ?g4 = ?i" "m_memberMgr ?g4 = m_memberMgr ?g2"
    using G by (simp_all add: each_group_ok_def group_ok_def f_def)
  let ?D = "exec_group (DEL_GROUP_MEMBER_ALL ?i) (exec_group (DEL_GROUP ?i) (gs_db w))"
  have sel4: "gs_pl y4 = (\<lambda>u. if u \<in> set (m_invitees g) then gs_pl (unlinked p S w) u\<lparr>pg_groupInvite := None\<rparr> else gs_pl (unlinked p S w) u)"
      "gs_groups y4 = (gs_groups w)(p \<mapsto> ?g4)" "gs_world y4 = gs_world w" "gs_env y4 = gs_env w" "gs_next y4 = gs_next w" "gs_db y4 = gs_db w"
      "gs_fault y4 = gs_fault w" "GroupDbStore y4 = GroupDbStore w" "NextGroupDbStoreId y4 = NextGroupDbStoreId w"
  proof -
    have pl: "gs_pl y3 = gs_pl (unlinked p S w)" by (simp add: y3)
    have i: "m_invitees (f ?g2) = m_invitees g" by (simp add: f_def)
    show "gs_pl y4 = (\<lambda>u. if u \<in> set (m_invitees g) then gs_pl (unlinked p S w) u\<lparr>pg_groupInvite := None\<rparr> else gs_pl (unlinked p S w) u)"
      unfolding y4_def RemoveAllInvites_eq [OF g3] pl i by simp
  qed (simp_all add: RemoveAllInvites_eq [OF g3, folded y4_def] y3 unlinked_sel [OF g])
  let ?y = "y4\<lparr>gs_db := ?D\<rparr>"
  define y5 where "y5 = FreeGroupDbStoreId ?i ?y"
  have x5: "core x5 = core y5" "sane x5"
    unfolding x5_def y5_def using disband_stored_core [OF x4 g4 bg(1,2)] bg(3) sel4(6) by simp_all
  have own: "GetGroupByDbStoreId w ?i = Some p" using G id by (simp add: each_group_ok_def stored_ok_def)
  have used: "pool_ok ?y" "id_used (GroupDbStore ?y) (unat ?i)" "0 < ?i"
    using consistentD(4) [OF c] own id
    by (auto simp: tables_ok_def pool_ok_def sel4 id_used_def GetGroupByDbStoreId_def word_gt_0 split: if_splits)
  note free = pool_free [OF used]
  have sel5: "gs_pl y5 = gs_pl y4" "gs_groups y5 = gs_groups y4" "gs_world y5 = gs_world w" "gs_env y5 = gs_env w" "gs_next y5 = gs_next w" "gs_db y5 = ?D"
    using used(2) sel4 by (simp_all add: y5_def FreeGroupDbStoreId_def Let_def id_used_def)
  have f5: "gs_fault y5 = gs_fault w" "pool_ok y5" "GetGroupByDbStoreId y5 j = (if j = ?i then None else GetGroupByDbStoreId w j)" for j
    using free(1,2) free(3) [of j] sel4 by (simp_all add: y5_def GetGroupByDbStoreId_def)
  obtain k where k: "gs_groups x5 p = Some k" using core_group [OF x5(1), of p] g4 sel5(2) by auto
  define m where "m = map_erase (GUID_LOPART (m_guid k)) (GroupStore x5)"
  have x6: "core (RemoveGroup p x5) = core (y5\<lparr>GroupStore := m\<rparr>)" "sane (RemoveGroup p x5)"
    using k core_eqD [OF x5(1)] x5(2) by (auto simp: RemoveGroup_def with_group_def m_def sane_def intro!: core_eqI)
  have "\<forall>r \<in> set (m_memberMgr ?g4). \<not> snd r" using linked_all [OF c g] bg(4) by fastforce
  note mgr = this
  define y6 where "y6 = y5\<lparr>GroupStore := m\<rparr>"
  have sel6: "gs_groups y6 = (gs_groups w)(p \<mapsto> ?g4)" "gs_pl y6 = gs_pl y4" using sel5 sel4(2) by (simp_all add: y6_def)
  have g6: "gs_groups y6 p = Some ?g4" using sel6 by simp
  note d = delete_group_core [OF x6 [folded y6_def] g6 bg(1) mgr]
  let ?z = "y6\<lparr>gs_groups := (gs_groups w)(p := None), gs_pl := (\<lambda>u. forget_player p (gs_pl w u))\<rparr>"
  have "(\<lambda>u. if (u, False) \<in> set (m_memberMgr ?g4) then drop_ref (gs_pl y6 u) else gs_pl y6 u) = (\<lambda>u. forget_player p (gs_pl w u))"
    unfolding sel6(2) sel4(1) bg(4) using forgotten [OF c g, of _ S] by simp
  moreover have "(gs_groups y6)(p := None) = (gs_groups w)(p := None)" using sel6 by simp
  ultimately have z: "core (delete_group p (RemoveGroup p x5)) = core ?z" "sane (delete_group p (RemoveGroup p x5))"
    using d by (simp_all only:)
  have "Disband p h w = delete_group p (RemoveGroup p x5)"
    using g by (simp add: Disband_def with_group_def Let_def x1_def x2_def x3_def x4_def x5_def f_def)
  moreover have "pool_ok ?z" "GetGroupByDbStoreId ?z j = GetGroupByDbStoreId y5 j" for j
    using f5(2) by (simp_all add: y6_def pool_ok_def GetGroupByDbStoreId_def)
  ultimately show ?thesis using z f5 sel5 by (intro exI [of _ ?z]) (simp add: y6_def)
qed

lemma Disband_consistent:
  assumes c: "consistent w" and g: "gs_groups w p = Some g" and id: "m_dbStoreId g \<noteq> 0"
  obtains z where "consistent (Disband p h w)" "core (Disband p h w) = core z" "gs_groups z = (gs_groups w)(p := None)"
    "gs_pl z = (\<lambda>u. forget_player p (gs_pl w u))" "gs_world z = gs_world w" "gs_env z = gs_env w"
proof -
  obtain z where z: "core (Disband p h w) = core z" "sane (Disband p h w)" "gs_groups z = (gs_groups w)(p := None)"
      "gs_pl z = (\<lambda>u. forget_player p (gs_pl w u))" "gs_world z = gs_world w" "gs_env z = gs_env w" "gs_next z = gs_next w"
      "gs_fault z = gs_fault w" "pool_ok z" "\<forall>i. GetGroupByDbStoreId z i = (if i = m_dbStoreId g then None else GetGroupByDbStoreId w i)"
      "gs_db z = exec_group (DEL_GROUP_MEMBER_ALL (m_dbStoreId g)) (exec_group (DEL_GROUP (m_dbStoreId g)) (gs_db w))"
    using Disband_core [OF assms, of h] by blast
  have "consistent z"
    by (rule dissolved_consistent [OF c g z(3-9)])
      (use z(10,11) consistent_tables [OF c] filter_rows in \<open>auto simp: container_simps wf_intros\<close>)
  then have "consistent (Disband p h w)" using consistent_core z(1,2) by blast
  then show thesis using that z(1,3-6) by blast
qed

end
