(* ===== verification/Group_Remove.thy ===== *)
theory Group_Remove
  imports Group_Disband
begin

text \<open>
  \<^verbatim>\<open>ChangeLeader\<close> and \<^verbatim>\<open>RemoveMember\<close> keep the state consistent: the leaving member loses reference,
  slot, row and subgroup count, and an online member succeeds a leaving leader.
\<close>

section \<open>Changes to the slots of a group\<close>

lemma places_upd_slot:
  assumes "\<And>s. ms_guid (f s) = ms_guid s \<and> ms_group (f s) = ms_group s"
  shows "map (\<lambda>s. (ms_guid s, ms_group s)) (upd_slot u f ss) = map (\<lambda>s. (ms_guid s, ms_group s)) ss"
  using assms by (induction ss) auto

lemma sub_count_places:
  assumes "map (\<lambda>s. (ms_guid s, ms_group s)) ss' = map (\<lambda>s. (ms_guid s, ms_group s)) ss"
  shows "sub_count ss' i = sub_count ss i"
proof -
  have eq: "sub_count ss i = length (filter (\<lambda>x. unat (snd x) = i) (map (\<lambda>s. (ms_guid s, ms_group s)) ss))" for ss
    by (simp add: sub_count_def filter_map comp_def)
  show ?thesis unfolding eq assms ..
qed

lemma group_ok_places:
  assumes "group_ok g" "places g' = places g" "m_bgGroup g' = m_bgGroup g" "m_bfGroup g' = m_bfGroup g" "m_groupType g' = m_groupType g"
    "m_subGroupsCounts g' = m_subGroupsCounts g"
  shows "group_ok g'"
proof -
  have fst: "map ms_guid (m_memberSlots h) = map fst (places h)" for h by (simp add: comp_def)
  have d: "map ms_guid (m_memberSlots g') = map ms_guid (m_memberSlots g)" unfolding fst assms(2) ..
  have len: "length (m_memberSlots g') = length (m_memberSlots g)" using arg_cong [OF assms(2), of length] by simp
  have snd: "(\<forall>s \<in> set (m_memberSlots h). P (ms_group s)) \<longleftrightarrow> (\<forall>x \<in> set (places h). P (snd x))" for P h by auto
  have all: "(\<forall>s \<in> set (m_memberSlots g'). P (ms_group s)) \<longleftrightarrow> (\<forall>s \<in> set (m_memberSlots g). P (ms_group s))" for P
    unfolding snd assms(2) ..
  show ?thesis
    using assms(1,3-6) d len all [of "\<lambda>x. unat x < MAX_RAID_SUBGROUPS"] all [of "\<lambda>x. x = 0"] sub_count_places [OF assms(2)]
    by (simp add: group_ok_def counts_ok_def isRaidGroup_def)
qed

text \<open>An operation on one group object whose effect, up to notifications, is a new value of the group and of its row.\<close>

lemma local_op:
  assumes c: "consistent w" and g: "gs_groups w p = Some g"
    and x: "core x = core (w\<lparr>gs_groups := (gs_groups w)(p \<mapsto> g'), gs_db := d\<rparr>)" "sane x"
    and keep: "m_memberMgr g' = m_memberMgr g" "m_invitees g' = m_invitees g" "m_dbStoreId g' = m_dbStoreId g" "places g' = places g"
      "group_fine g'"
    and ok: "group_ok g'"
    and rows: "db_group_member d = member_rows w" "map_wf (db_groups d)"
      "\<And>i. i \<noteq> m_dbStoreId g \<or> i = 0 \<Longrightarrow> map_find (db_groups d) i = map_find (group_rows w) i"
      "m_dbStoreId g = 0 \<Longrightarrow> m_groupType g' = m_groupType g"
      "m_dbStoreId g \<noteq> 0 \<Longrightarrow> \<exists>r. map_find (db_groups d) (m_dbStoreId g) = Some r \<and> gw_leaderGuid r = GUID_LOPART (m_leaderGuid g')
         \<and> gw_groupType r = m_groupType g'"
  shows "consistent x"
proof -
  let ?y = "w\<lparr>gs_groups := (gs_groups w)(p \<mapsto> g'), gs_db := d\<rparr>"
  have "sane ?y" using consistentD(2) [OF c] keep(5) by (auto simp: sane_def)
  then have "consistent ?y"
    using keep ok rows by (intro local_consistent [OF c g, of ?y g']) (simp_all add: same_players_def)
  then show ?thesis using consistent_core x by blast
qed

text \<open>The same when leader and type stay, so that the tables need not change.\<close>

lemma local_op_quiet:
  assumes c: "consistent w" and g: "gs_groups w p = Some g"
    and x: "core x = core (w\<lparr>gs_groups := (gs_groups w)(p \<mapsto> g'), gs_db := d\<rparr>)" "sane x"
    and d: "db_groups d = group_rows w" "db_group_member d = member_rows w"
    and keep: "m_memberMgr g' = m_memberMgr g" "m_invitees g' = m_invitees g" "m_dbStoreId g' = m_dbStoreId g" "places g' = places g"
      "group_fine g'" "group_ok g'" "m_groupType g' = m_groupType g" "m_leaderGuid g' = m_leaderGuid g"
  shows "consistent x"
proof (rule local_op [OF c g x keep(1-6) d(2)])
  show "map_wf (db_groups d)" using d consistent_tables [OF c] by simp
  show "\<exists>r. map_find (db_groups d) (m_dbStoreId g) = Some r \<and> gw_leaderGuid r = GUID_LOPART (m_leaderGuid g') \<and> gw_groupType r = m_groupType g'"
    if "m_dbStoreId g \<noteq> 0"
    using consistentD(6) [OF c g] that d keep(7,8) by (simp add: each_group_ok_def stored_ok_def)
qed (use d keep in simp_all)

section \<open>\<^verbatim>\<open>ChangeLeader\<close>\<close>

lemma exec_leader:
  fixes l :: u32
  assumes c: "consistent w" and g: "gs_groups w p = Some g" "m_dbStoreId g \<noteq> 0"
  defines "d \<equiv> exec_group (UPD_GROUP_LEADER l (m_dbStoreId g)) (gs_db w)"
  shows "db_group_member d = member_rows w" "map_wf (db_groups d)" "i \<noteq> m_dbStoreId g \<Longrightarrow> map_find (db_groups d) i = map_find (group_rows w) i"
    "\<exists>r. map_find (db_groups d) (m_dbStoreId g) = Some r \<and> gw_leaderGuid r = l \<and> gw_groupType r = m_groupType g"
proof -
  obtain r where r: "map_find (group_rows w) (m_dbStoreId g) = Some r" "gw_groupType r = m_groupType g"
    using consistentD(6) [OF c g(1)] g(2) by (auto simp: each_group_ok_def stored_ok_def)
  then have "db_groups d = map_set (m_dbStoreId g) (r\<lparr>gw_leaderGuid := l\<rparr>) (group_rows w)" by (simp add: d_def upd_row_def)
  then show "map_wf (db_groups d)" "i \<noteq> m_dbStoreId g \<Longrightarrow> map_find (db_groups d) i = map_find (group_rows w) i"
      "\<exists>r. map_find (db_groups d) (m_dbStoreId g) = Some r \<and> gw_leaderGuid r = l \<and> gw_groupType r = m_groupType g"
    using r(2) consistent_tables [OF c] by (simp_all add: container_simps wf_intros)
  show "db_group_member d = member_rows w" by (simp add: d_def)
qed

definition led_by :: "player \<Rightarrow> group \<Rightarrow> group" where
  "led_by pl g = g\<lparr>m_leaderGuid := pl_guid pl, m_leaderName := pl_name pl,
     m_memberSlots := upd_slot (pl_guid pl) (ToggleFlag MEMBER_FLAG_ASSISTANT False) (m_memberSlots g)\<rparr>"

lemma led_by_sel [simp]:
  "m_memberMgr (led_by pl g) = m_memberMgr g" "m_invitees (led_by pl g) = m_invitees g" "m_dbStoreId (led_by pl g) = m_dbStoreId g"
  "m_leaderGuid (led_by pl g) = pl_guid pl" "m_groupType (led_by pl g) = m_groupType g" "m_bgGroup (led_by pl g) = m_bgGroup g"
  "m_bfGroup (led_by pl g) = m_bfGroup g" "m_subGroupsCounts (led_by pl g) = m_subGroupsCounts g" "group_fine (led_by pl g) = group_fine g"
  by (simp_all add: led_by_def group_fine_def)

lemma places_led_by: "places (led_by pl g) = places g"
  by (simp add: led_by_def places_upd_slot ToggleFlag_def)

lemma leader_stored_core:
  assumes g: "gs_groups w p = Some g" "m_bgGroup g = None" "m_bfGroup g = None" and "sane w"
  shows "core (leader_stored p u w) = core (w\<lparr>gs_db := exec_group (UPD_GROUP_LEADER (GUID_LOPART u) (m_dbStoreId g)) (gs_db w)\<rparr>)"
    "sane (leader_stored p u w)"
proof -
  let ?i = "m_dbStoreId g" and ?l = "GUID_LOPART u"
  define x1 where "x1 = unbind_permanent p w"
  define x2 where "x2 = sql (DEL_GROUP_INSTANCE_PERM_BINDING ?i ?l) x1"
  define x3 where "x3 = ConvertInstancesToGroup u p True x2"
  have x1: "core x1 = core w" "sane x1" using unbind_permanent_quiet [of w p] g(1) assms(4) by (simp_all add: x1_def)
  have x2: "core x2 = core w" "sane x2" using x1 by (simp_all add: x2_def core_sql_none sane_simple)
  have a2: "gs_groups x2 p \<noteq> None" using core_group_iff [OF x2(1), of p] g(1) by simp
  have x3: "core x3 = core w" "sane x3" using ConvertInstancesToGroup_quiet [OF a2 x2(2)] x2(1) by (simp_all add: x3_def)
  have eq: "leader_stored p u w = sql (UPD_GROUP_LEADER ?l ?i) x3"
    using g by (simp add: leader_stored_def with_group_def Let_def x1_def x2_def x3_def isBGGroup_def isBFGroup_def)
  show "core (leader_stored p u w) = core (w\<lparr>gs_db := exec_group (UPD_GROUP_LEADER ?l ?i) (gs_db w)\<rparr>)"
    unfolding eq using core_sql_cong [OF x3(1), of "UPD_GROUP_LEADER ?l ?i"] by (simp add: core_sql_eq) (simp add: core_def)
  show "sane (leader_stored p u w)" unfolding eq using x3(2) by (rule sane_simple)
qed

lemma ChangeLeader_core:
  assumes c: "consistent w" and g: "gs_groups w p = Some g" "GetMemberSlot g u = Some s" and pl: "find_player w u = Some pl"
  shows "core (ChangeLeader p u w) = core (w\<lparr>gs_groups := (gs_groups w)(p \<mapsto> led_by pl g),
      gs_db := exec_group (UPD_GROUP_LEADER (GUID_LOPART u) (m_dbStoreId g)) (gs_db w)\<rparr>)"
    "sane (ChangeLeader p u w)"
proof -
  let ?d = "exec_group (UPD_GROUP_LEADER (GUID_LOPART u) (m_dbStoreId g)) (gs_db w)"
  have u: "pl_guid pl = u" using find_player_loaded [OF pl] by simp
  have bg: "m_bgGroup g = None" "m_bfGroup g = None" using consistentD(6) [OF c g(1)] by (simp_all add: each_group_ok_def group_ok_def)
  define x1 where "x1 = act (OnGroupChangeLeader p (m_leaderGuid g) u) w"
  have x1: "gs_groups x1 p = Some g" "sane x1" using g(1) consistentD(2) [OF c] by (simp_all add: x1_def act_def sane_def)
  define x2 where "x2 = leader_stored p u x1"
  have x2: "core x2 = core (w\<lparr>gs_db := ?d\<rparr>)" "sane x2"
    using leader_stored_core [OF x1(1) bg x1(2), of u] by (simp_all add: x2_def) (simp add: x1_def act_def core_def)
  define f where "f = (\<lambda>g :: group. g\<lparr>m_leaderGuid := pl_guid pl, m_leaderName := pl_name pl\<rparr>)"
  define t where "t = (\<lambda>g :: group. g\<lparr>m_memberSlots := upd_slot u (ToggleFlag MEMBER_FLAG_ASSISTANT False) (m_memberSlots g)\<rparr>)"
  define x4 where "x4 = modg p t (modg p f x2)"
  have "core x4 = modg p t (modg p f (core x2))"
    unfolding x4_def by (simp add: core_modg_eq f_def t_def gcore_def)
  also have "\<dots> = core (modg p t (modg p f (w\<lparr>gs_db := ?d\<rparr>)))"
    unfolding x2(1) by (simp add: core_modg_eq f_def t_def gcore_def)
  also have "modg p t (modg p f (w\<lparr>gs_db := ?d\<rparr>)) = w\<lparr>gs_groups := (gs_groups w)(p \<mapsto> led_by pl g), gs_db := ?d\<rparr>"
    using g(1) u by (simp add: modg_def with_group_def f_def t_def led_by_def)
  finally have x4: "core x4 = core (w\<lparr>gs_groups := (gs_groups w)(p \<mapsto> led_by pl g), gs_db := ?d\<rparr>)" .
  have s4: "sane x4" unfolding x4_def f_def t_def using x2(2) by (auto intro!: sane_modg_fields)
  have a4: "gs_groups x4 p \<noteq> None" using core_group_iff [OF x4, of p] by simp
  have eq: "ChangeLeader p u w = BroadcastPacket p (stream [FStr (ms_name s)] (WorldPacket SMSG_GROUP_SET_LEADER)) True None 0 x4"
    using g pl by (simp add: ChangeLeader_def with_group_def Let_def x1_def x2_def x4_def f_def t_def ToggleGroupMemberFlag_def mod_slot_def)
  show "core (ChangeLeader p u w) = core (w\<lparr>gs_groups := (gs_groups w)(p \<mapsto> led_by pl g), gs_db := ?d\<rparr>)"
    unfolding eq using core_BroadcastPacket [OF a4] x4 by simp
  show "sane (ChangeLeader p u w)" unfolding eq using s4 by (rule sane_broadcasts)
qed

lemma ChangeLeader_consistent:
  assumes c: "consistent w" and g: "gs_groups w p = Some g" "GetMemberSlot g u = Some s" and pl: "find_player w u = Some pl"
  shows "consistent (ChangeLeader p u w)"
proof -
  have id: "m_dbStoreId g \<noteq> 0"
    using consistentD(6) [OF c g(1)] GetMemberSlot_Some [OF g(2)] stored_rowD(1) [of w p g s] by (simp add: each_group_ok_def)
  have u: "pl_guid pl = u" using find_player_loaded [OF pl] by simp
  note ex = exec_leader [OF c g(1) id, where l = "GUID_LOPART u"]
  have ok: "group_ok g" using consistentD(6) [OF c g(1)] by (simp add: each_group_ok_def)
  show ?thesis
    by (rule local_op [OF c g(1) ChangeLeader_core [OF c g pl]])
      (use ex id u sane_group [OF consistentD(2) [OF c] g(1)] group_ok_places [OF ok places_led_by] in \<open>simp_all add: places_led_by\<close>)
qed

section \<open>Leaving a group\<close>

lemma erase_slot_filter: "distinct (map ms_guid ss) \<Longrightarrow> erase_slot u ss = filter (\<lambda>s. ms_guid s \<noteq> u) ss"
proof (induction ss)
  case (Cons a ss)
  have "filter (\<lambda>s. ms_guid s \<noteq> ms_guid a) ss = ss" using Cons.prems by (intro filter_True) (force simp: image_iff)
  then show ?case using Cons by auto
qed simp

lemma erase_slot_count:
  assumes "find (\<lambda>s. ms_guid s = u) ss = Some s"
  shows "sub_count ss i = sub_count (erase_slot u ss) i + of_bool (unat (ms_group s) = i)" "length ss = Suc (length (erase_slot u ss))"
proof -
  show "sub_count ss i = sub_count (erase_slot u ss) i + of_bool (unat (ms_group s) = i)"
    using assms by (induction ss) (auto simp: sub_count_def split: if_splits)
  show "length ss = Suc (length (erase_slot u ss))" using assms by (induction ss) (auto split: if_splits)
qed

definition left_group :: "u64 \<Rightarrow> u8 \<Rightarrow> group \<Rightarrow> group" where
  "left_group u sub g = g\<lparr>m_memberMgr := filter (\<lambda>r. fst r \<noteq> u) (m_memberMgr g),
     m_subGroupsCounts := map_option (\<lambda>c. c[unat sub := c ! unat sub - 1]) (m_subGroupsCounts g),
     m_memberSlots := erase_slot u (m_memberSlots g)\<rparr>"

lemma left_group_sel [simp]:
  "m_memberSlots (left_group u sub g) = erase_slot u (m_memberSlots g)" "m_memberMgr (left_group u sub g) = filter (\<lambda>r. fst r \<noteq> u) (m_memberMgr g)"
  "m_subGroupsCounts (left_group u sub g) = map_option (\<lambda>c. c[unat sub := c ! unat sub - 1]) (m_subGroupsCounts g)"
  "m_groupType (left_group u sub g) = m_groupType g" "m_bgGroup (left_group u sub g) = m_bgGroup g" "m_bfGroup (left_group u sub g) = m_bfGroup g"
  "m_invitees (left_group u sub g) = m_invitees g" "m_dbStoreId (left_group u sub g) = m_dbStoreId g"
  "m_leaderGuid (left_group u sub g) = m_leaderGuid g" "group_fine (left_group u sub g) = group_fine g"
  by (simp_all add: left_group_def group_fine_def)

definition left :: "gptr \<Rightarrow> u64 \<Rightarrow> u8 \<Rightarrow> group \<Rightarrow> gworld \<Rightarrow> gworld" where
  "left p u sub g w = w\<lparr>gs_groups := (gs_groups w)(p \<mapsto> left_group u sub g),
     gs_pl := (gs_pl w)(u := drop_ref (gs_pl w u)), gs_db := exec_group (DEL_GROUP_MEMBER (GUID_LOPART u)) (gs_db w)\<rparr>"

lemma pred_u8: "0 < unat x \<Longrightarrow> unat (x - 1) = unat x - 1" for x :: u8
  using unat_sub [of 1 x] by (simp add: word_le_nat_alt)

lemma left_group_ok:
  assumes g: "group_ok g" and s: "GetMemberSlot g u = Some s"
  shows "group_ok (left_group u (ms_group s) g)"
proof -
  let ?g' = "left_group u (ms_group s) g" and ?ss = "m_memberSlots g"
  have f: "find (\<lambda>s. ms_guid s = u) ?ss = Some s" using s by (simp add: GetMemberSlot_def)
  have d: "distinct (map ms_guid ?ss)" using g by (simp add: group_ok_def)
  note er = erase_slot_filter [OF d, of u] and cnt = erase_slot_count [OF f]
  have le: "sub_count (erase_slot u ?ss) i \<le> sub_count ?ss i" for i using cnt(1) [of i] by simp
  have type: "isRaidGroup ?g' = isRaidGroup g" by (simp add: isRaidGroup_def)
  have mem: "s \<in> set ?ss" using GetMemberSlot_Some [OF s] by simp
  have "counts_ok ?g'"
  proof (cases "isRaidGroup g")
    case True
    then obtain c where c: "m_subGroupsCounts g = Some c" "length c = MAX_RAID_SUBGROUPS"
        "\<And>i. i < MAX_RAID_SUBGROUPS \<Longrightarrow> unat (c ! i) = sub_count ?ss i" "\<And>s. s \<in> set ?ss \<Longrightarrow> unat (ms_group s) < MAX_RAID_SUBGROUPS"
        "\<And>i. i < MAX_RAID_SUBGROUPS \<Longrightarrow> sub_count ?ss i \<le> MAXGROUPSIZE"
      using g by (auto simp: group_ok_def counts_ok_def)
    let ?n = "unat (ms_group s)"
    have n: "?n < MAX_RAID_SUBGROUPS" using c(4) mem by blast
    have "unat (c ! ?n - 1) = sub_count (erase_slot u ?ss) ?n"
      using c(3) [OF n] cnt(1) [of ?n] pred_u8 [of "c ! ?n"] by simp
    then have "unat (c[?n := c ! ?n - 1] ! i) = sub_count (erase_slot u ?ss) i" if "i < MAX_RAID_SUBGROUPS" for i
      using c(2) c(3) [OF that] cnt(1) [of i] n that by (cases "i = ?n") auto
    moreover have "sub_count (erase_slot u ?ss) i \<le> MAXGROUPSIZE" if "i < MAX_RAID_SUBGROUPS" for i using c(5) [OF that] le [of i] by simp
    ultimately show ?thesis using True type c(1,2,4) er by (simp add: counts_ok_def)
  next
    case False
    then show ?thesis using g type er cnt(2) by (auto simp: group_ok_def counts_ok_def)
  qed
  then show ?thesis using g d er by (simp add: group_ok_def distinct_map_filter)
qed

lemma left_consistent:
  assumes c: "consistent w" and g: "gs_groups w p = Some g" and s: "GetMemberSlot g u = Some s"
  shows "consistent (left p u (ms_group s) g w)"
proof -
  let ?w' = "left p u (ms_group s) g w" and ?g' = "left_group u (ms_group s) g"
  note G = consistentD(6) [OF c g]
  have su: "s \<in> set (m_memberSlots g)" "ms_guid s = u" using GetMemberSlot_Some [OF s] by auto
  note ref = member_ref [OF c g su(1), unfolded su(2)]
  have er: "erase_slot u (m_memberSlots g) = filter (\<lambda>s. ms_guid s \<noteq> u) (m_memberSlots g)"
    using G by (intro erase_slot_filter) (simp add: each_group_ok_def group_ok_def)
  have view: "GetGroup ?w' v = (if v = u then None else GetGroup w v)" "GetOriginalGroup ?w' v = GetOriginalGroup w v"
      "invite_of ?w' v = invite_of w v" "loaded ?w' v = loaded w v" "subgroup_of ?w' v = subgroup_of w v" for v
    by (simp_all add: left_def drop_ref_def GetGroup_def GetOriginalGroup_def invite_of_def loaded_def subgroup_of_def)
  have pool: "GetGroupByDbStoreId ?w' i = GetGroupByDbStoreId w i" for i by (simp add: left_def GetGroupByDbStoreId_def)
  have rows: "member_rows ?w' = map_erase (GUID_LOPART u) (member_rows w)" "group_rows ?w' = group_rows w" by (simp_all add: left_def)
  have groups: "gs_groups ?w' = (gs_groups w)(p \<mapsto> ?g')" by (simp add: left_def)
  have sane': "sane ?w'"
    using consistentD(2) [OF c] g by (auto simp: left_def sane_def player_fine_def drop_ref_def)
  have "footprint w ?w' p {u}"
  proof (rule footprint_local [OF c g groups])
    show "is_player v \<and> GetGroup w v \<in> {None, Some p} \<and> GetGroup ?w' v \<in> {None, Some p} \<and> invite_of w v \<in> {None, Some p}
        \<and> invite_of ?w' v \<in> {None, Some p}" if "v \<in> {u}" for v
      using that ref view by auto
    show "ms_guid t \<notin> {u}" if "q \<noteq> p" "gs_groups w q = Some h" "t \<in> set (m_memberSlots h)" for q h t
      using one_group [OF c that(2,3) g su(1)] that(1) su(2) by auto
    show "map_wf (member_rows ?w')" using consistent_tables [OF c] by (simp add: rows wf_intros)
    show "map_find (member_rows ?w') m = map_find (member_rows w) m" if "m \<notin> GUID_LOPART ` {u}" for m
      using that by (simp add: rows container_simps)
    show "\<exists>s' \<in> set (m_memberSlots ?g'). ms_guid s' = ms_guid t \<and> ms_group s' = ms_group t"
      if "t \<in> set (m_memberSlots g)" "ms_guid t \<notin> {u}" for t
      using that by (auto simp: er)
    show "mw_guid r = m_dbStoreId g \<and> (\<exists>s' \<in> set (m_memberSlots ?g'). ms_guid s' = v)"
      if "v \<in> {u}" "map_find (member_rows ?w') (GUID_LOPART v) = Some r" for v r
      using that by (simp add: rows container_simps)
  qed (use sane' consistentD(1,3) [OF c] consistent_tables [OF c] in \<open>auto simp: left_def loaded_def\<close>)
  then show ?thesis
  proof (rule fp_consistent)
    show "each_group_ok ?w' p h" if "gs_groups ?w' p = Some h" for h
    proof -
      have h: "h = ?g'" using that groups by simp
      have "group_ok ?g'" using G s by (intro left_group_ok) (simp_all add: each_group_ok_def)
      moreover have "linked_ok ?w' p ?g'" using G view by (auto simp: each_group_ok_def linked_ok_def)
      moreover have "invited_ok ?w' p ?g'" using G view by (auto simp: each_group_ok_def invited_ok_def)
      moreover have "members_ok ?w' p ?g'" using G view er by (auto simp: each_group_ok_def members_ok_def)
      moreover have "stored_ok ?w' p ?g'"
      proof -
        have st: "stored_ok w p g" using G by (simp add: each_group_ok_def)
        have "map_find (member_rows ?w') (GUID_LOPART (ms_guid t)) = map_find (member_rows w) (GUID_LOPART (ms_guid t))"
          if "t \<in> set (m_memberSlots g)" "ms_guid t \<noteq> u" for t
          using lopart_inj [OF member_ref(1) [OF c g that(1)] ref(1)] that(2) by (auto simp: rows container_simps)
        then show ?thesis using st stored_rowD(1) [OF st su(1)] er unfolding stored_ok_def by (simp add: pool rows(2))
      qed
      ultimately show ?thesis unfolding h using G by (simp add: each_group_ok_def left_def)
    qed
    show "player_ok ?w' v" if "v \<in> {u}" for v
      using that consistentD(5) [OF c, of u] ref(3) view by (simp add: player_ok_def)
  qed
qed

section \<open>\<^verbatim>\<open>RemoveMember\<close>\<close>

lemma unlinked_absent:
  assumes c: "consistent w" and g: "gs_groups w p = Some g" and u: "GetGroup w u \<noteq> Some p"
  shows "unlinked p (insert u S) w = unlinked p S w"
proof -
  have "fst r \<notin> insert u S \<longleftrightarrow> fst r \<notin> S" if "r \<in> set (m_memberMgr g)" for r
    using linked_all [OF c g, of "fst r" "snd r"] that u by auto
  then have "filter (\<lambda>r. fst r \<notin> insert u S) (m_memberMgr g) = filter (\<lambda>r. fst r \<notin> S) (m_memberMgr g)" by (intro filter_cong) simp_all
  moreover have "(\<lambda>v. if v \<in> insert u S \<and> GetGroup w v = Some p then drop_ref (gs_pl w v) else gs_pl w v)
      = (\<lambda>v. if v \<in> S \<and> GetGroup w v = Some p then drop_ref (gs_pl w v) else gs_pl w v)"
    using u by auto
  ultimately show ?thesis using g by (simp add: unlinked_def modg_def with_group_def)
qed

lemma unlinked_single:
  assumes g: "gs_groups w p = Some g" and u: "GetGroup w u \<in> {None, Some p}"
  shows "unlinked p {u} w = w\<lparr>gs_groups := (gs_groups w)(p \<mapsto> g\<lparr>m_memberMgr := filter (\<lambda>r. fst r \<noteq> u) (m_memberMgr g)\<rparr>),
      gs_pl := (gs_pl w)(u := drop_ref (gs_pl w u))\<rparr>"
proof -
  have "(\<lambda>v. if v \<in> {u} \<and> GetGroup w v = Some p then drop_ref (gs_pl w v) else gs_pl w v) = (gs_pl w)(u := drop_ref (gs_pl w u))"
    using u drop_ref_none [of "gs_pl w u"] by (auto simp: fun_eq_iff GetGroup_def)
  then show ?thesis using g by (simp add: unlinked_def modg_def with_group_def)
qed

lemma core_unlink_sql: "core (ref_unlink u orig (sql s w)) = core (sql s (ref_unlink u orig w))"
proof -
  have "ref_unlink u orig (x\<lparr>gs_db := d\<rparr>) = (ref_unlink u orig x)\<lparr>gs_db := d\<rparr>" for x d
    by (auto simp: ref_unlink_def Let_def modp_def modg_def with_group_def gfault_def split: option.split)
  moreover have "gs_db (ref_unlink u orig w) = gs_db w"
    by (auto simp: ref_unlink_def Let_def modp_def modg_def with_group_def gfault_def split: option.split)
  ultimately show ?thesis by (simp add: core_ref_unlink_eq core_sql_eq)
qed

lemma leave_player_core:
  assumes c: "consistent w" and g: "gs_groups w p = Some g" and u: "GetGroup w u \<in> {None, Some p}"
    and x: "core x = core w" "sane x"
  shows "\<exists>S \<subseteq> {u}. core (leave_player p u m x) = core (unlinked p S w)" "sane (leave_player p u m x)"
proof -
  obtain k where k: "gs_groups x p = Some k" "gcore k = gcore g" using core_group [OF x(1) g] by blast
  have x0: "core x = core (unlinked p {} w)" using x(1) by (simp add: unlinked_empty [OF g])
  have k': "gcore k = gcore (g\<lparr>m_memberMgr := m_memberMgr g\<rparr>)" using k(2) by simp
  note d = drop_group_core [OF c g u x0 k']
  have sd: "sane (drop_group p k u x)"
    using x(2) by (auto simp: drop_group_def RemoveFromBattlegroundOrBattlefieldRaid_def Let_def intro!: sane_intros split: option.split)
  show sane: "sane (leave_player p u m x)"
    using k(1) x(2) sd by (auto simp: leave_player_def with_group_def Let_def intro!: sane_intros)
  show "\<exists>S \<subseteq> {u}. core (leave_player p u m x) = core (unlinked p S w)"
  proof (cases "find_player x u = None")
    case True
    then show ?thesis using k(1) x0 by (auto simp: leave_player_def with_group_def)
  next
    case False
    define x2 where "x2 = (if isBGGroup k \<or> isBFGroup k then drop_group p k u x else act (Call u UpdateForQuestWorldObjects) (drop_group p k u x))"
    define x3 where "x3 = (if m = GROUP_REMOVEMETHOD_KICK \<or> m = GROUP_REMOVEMETHOD_KICK_LFG then send u (WorldPacket SMSG_GROUP_UNINVITE) x2 else x2)"
    have eq: "leave_player p u m x = homebindIfInstance u (send u (empty_list_packet k) x3)"
      using k(1) False unfolding x3_def x2_def by (auto simp: leave_player_def with_group_def Let_def)
    have "sane (send u (empty_list_packet k) x3)" using sd by (auto simp: x3_def x2_def intro!: sane_intros)
    then have "core (leave_player p u m x) = core (unlinked p {u} w)" using d by (simp add: eq core_simps) (simp add: x3_def x2_def core_simps)
    then show ?thesis by blast
  qed
qed

lemma find_Some_sat: "find P xs = Some x \<Longrightarrow> x \<in> set xs \<and> P x"
  by (auto simp: find_Some_iff)

lemma leave_row_core:
  assumes c: "consistent w" and g: "gs_groups w p = Some g" and u: "GetGroup w u \<in> {None, Some p}"
    and x: "core x = core (unlinked p S w)" "S \<subseteq> {u}" "sane x"
  shows "core (leave_row p u x) = core (sql (DEL_GROUP_MEMBER (GUID_LOPART u)) (unlinked p {u} w))" "sane (leave_row p u x)"
proof -
  let ?s = "DEL_GROUP_MEMBER (GUID_LOPART u)"
  obtain k where k: "gs_groups x p = Some k" "gcore k = gcore (g\<lparr>m_memberMgr := filter (\<lambda>r. fst r \<notin> S) (m_memberMgr g)\<rparr>)"
    using core_group [OF x(1), of p] by (auto simp: unlinked_sel(1) [OF g])
  note f = gcore_eqD [OF k(2)]
  have bg: "\<not> isBGGroup k" "\<not> isBFGroup k"
    using consistentD(6) [OF c g] f by (simp_all add: each_group_ok_def group_ok_def isBGGroup_def isBFGroup_def)
  have eq: "leave_row p u x = (case find (\<lambda>r. fst r = u) (m_memberMgr k) of None \<Rightarrow> sql ?s x | Some (v, orig) \<Rightarrow> ref_unlink v orig (sql ?s x))"
  proof -
    have "gs_groups (sql ?s x) p = Some k" using k(1) by (simp add: sql_def act_def)
    then show ?thesis using k(1) bg by (simp add: leave_row_def DelinkMember_def with_group_def)
  qed
  show "sane (leave_row p u x)" unfolding eq using x(3) by (auto intro!: sane_intros split: option.split)
  have sq: "core (sql ?s x) = core (sql ?s (unlinked p S w))" by (rule core_sql_cong [OF x(1)])
  show "core (leave_row p u x) = core (sql ?s (unlinked p {u} w))"
  proof (cases "find (\<lambda>r. fst r = u) (m_memberMgr k)")
    case None
    then have no: "\<forall>r \<in> set (m_memberMgr g). fst r \<notin> S \<longrightarrow> fst r \<noteq> u" using f(2) by (auto simp: find_None_iff)
    have "unlinked p {u} w = unlinked p S w"
    proof (cases "u \<in> S")
      case True
      then have "S = {u}" using x(2) by blast
      then show ?thesis by simp
    next
      case False
      then have S: "S = {}" using x(2) by blast
      then have "GetGroup w u \<noteq> Some p" using no linked_all [OF c g, of u False] by force
      then show ?thesis using unlinked_absent [OF c g, of u "{}"] S by simp
    qed
    then show ?thesis using None eq sq by simp
  next
    case (Some r)
    obtain v orig where r: "r = (v, orig)" by fastforce
    have "v = u" "(u, orig) \<in> set (m_memberMgr g)" using find_Some_sat [OF Some] r f(2) by auto
    then have v: "v = u" "\<not> orig" using linked_all [OF c g] by auto
    have "core (leave_row p u x) = core (ref_unlink u False (sql ?s (unlinked p S w)))"
      using Some v r eq core_ref_unlink_cong [OF sq, of u False] by simp
    also have "\<dots> = core (sql ?s (unlinked p (insert u S) w))" unfolding core_unlink_sql unlink_one [OF c g u] ..
    also have "insert u S = {u}" using x(2) by blast
    finally show ?thesis .
  qed
qed

lemma leave_slot_eq:
  assumes g: "gs_groups w p = Some g" and s: "GetMemberSlot g u = Some s"
    and c: "\<And>c. m_subGroupsCounts g = Some c \<Longrightarrow> unat (ms_group s) < length c"
  shows "leave_slot p u w = w\<lparr>gs_groups := (gs_groups w)(p \<mapsto> g\<lparr>m_subGroupsCounts :=
       map_option (\<lambda>c. c[unat (ms_group s) := c ! unat (ms_group s) - 1]) (m_subGroupsCounts g),
     m_memberSlots := erase_slot u (m_memberSlots g)\<rparr>)\<rparr>"
proof (cases "m_subGroupsCounts g")
  case None
  then show ?thesis
    using g s by (simp add: leave_slot_def with_group_def SubGroupCounterDecrease_def count_change_def modg_def no_counts)
next
  case (Some cs)
  then show ?thesis
    using g s c [OF Some] by (simp add: leave_slot_def with_group_def SubGroupCounterDecrease_def count_change_def modg_def)
qed

lemma counts_index:
  assumes "group_ok g" "s \<in> set (m_memberSlots g)" "m_subGroupsCounts g = Some c"
  shows "unat (ms_group s) < length c"
  using assms by (auto simp: group_ok_def counts_ok_def split: if_splits)

lemma sane_leave_slot: "sane w \<Longrightarrow> sane (leave_slot p u w)"
  by (auto simp: leave_slot_def intro!: sane_with_group sane_intros split: option.split)

lemma leave_core:
  fixes m :: RemoveMethod
  assumes c: "consistent w" and g: "gs_groups w p = Some g" and s: "GetMemberSlot g u = Some s" and x: "core x = core w" "sane x"
  defines "y \<equiv> leave_slot p u (leave_rolls p u (leave_enchanting p u (leave_row p u (leave_player p u m x))))"
  shows "core y = core (left p u (ms_group s) g w)" "sane y"
proof -
  have su: "s \<in> set (m_memberSlots g)" "ms_guid s = u" using GetMemberSlot_Some [OF s] by auto
  note ref = member_ref(2) [OF c g su(1), unfolded su(2)]
  define x1 where "x1 = leave_player p u m x"
  define x2 where "x2 = leave_row p u x1"
  define x4 where "x4 = leave_rolls p u (leave_enchanting p u x2)"
  obtain S where x1: "S \<subseteq> {u}" "core x1 = core (unlinked p S w)" "sane x1"
    using leave_player_core [OF c g ref x, of m] unfolding x1_def by blast
  let ?y2 = "sql (DEL_GROUP_MEMBER (GUID_LOPART u)) (unlinked p {u} w)"
  have x2: "core x2 = core ?y2" "sane x2" using leave_row_core [OF c g ref x1(2,1,3)] by (simp_all add: x2_def)
  let ?g2 = "g\<lparr>m_memberMgr := filter (\<lambda>r. fst r \<noteq> u) (m_memberMgr g)\<rparr>"
  have g2: "gs_groups ?y2 p = Some ?g2" by (simp add: sql_def act_def unlinked_single [OF g ref])
  have a2: "gs_groups x2 p \<noteq> None" using core_group_iff [OF x2(1), of p] g2 by simp
  note e = leave_enchanting_quiet [OF a2 x2(2), of u]
  have a3: "gs_groups (leave_enchanting p u x2) p \<noteq> None" using core_group_iff [OF e(1), of p] a2 by simp
  have x4: "core x4 = core ?y2" "sane x4" using leave_rolls_quiet [OF a3 e(2), of u] e(1) x2(1) by (simp_all add: x4_def)
  obtain k where k: "gs_groups x4 p = Some k" "gcore k = gcore ?g2" using core_group [OF x4(1) g2] by blast
  have fk: "m_memberSlots k = m_memberSlots g" "m_subGroupsCounts k = m_subGroupsCounts g" using gcore_eqD [OF k(2)] by simp_all
  have sk: "GetMemberSlot k u = Some s" using s fk by (simp add: GetMemberSlot_def)
  have idx: "unat (ms_group s) < length cs" if "m_subGroupsCounts g = Some cs" for cs
    using consistentD(6) [OF c g] su(1) that by (intro counts_index) (simp_all add: each_group_ok_def)
  define t where "t = (\<lambda>h :: group. h\<lparr>m_subGroupsCounts :=
       map_option (\<lambda>c. c[unat (ms_group s) := c ! unat (ms_group s) - 1]) (m_subGroupsCounts g), m_memberSlots := erase_slot u (m_memberSlots g)\<rparr>)"
  have y: "y = modg p t x4"
    using leave_slot_eq [OF k(1) sk] idx fk k(1) by (simp add: y_def x1_def x2_def x4_def modg_def with_group_def t_def)
  have "core y = core (modg p t ?y2)"
    unfolding y using x4(1) by (subst (1 2) core_modg_eq) (simp_all add: t_def gcore_def)
  also have "\<dots> = core (left p u (ms_group s) g w)"
    using g by (simp add: modg_def with_group_def sql_def act_def unlinked_single [OF g ref] left_def left_group_def t_def core_def fun_eq_iff)
  finally show "core y = core (left p u (ms_group s) g w)" .
  show "sane y" unfolding y_def by (rule sane_leave_slot) (use x4(2) in \<open>simp add: x4_def x2_def x1_def\<close>)
qed

end
