(* ===== verification/Group_Kick.thy ===== *)
theory Group_Kick
  imports Group_Remove
begin

text \<open>
  \<^verbatim>\<open>RemoveMember\<close>, \<^verbatim>\<open>Player::RemoveFromGroup\<close> and \<^verbatim>\<open>Player::UninviteFromGroup\<close> keep the invariant: a group
  that would be left with one member is disbanded, one that was never created is deleted with its last answer.
\<close>

section \<open>The invariant after a change to one group\<close>

lemma settled_gcore: "gcore g' = gcore g \<Longrightarrow> settled g' = settled g"
  using gcore_eqD [of g' g] by (simp add: settled_def)

lemma group_inv_one:
  assumes "group_inv w" "consistent w'" "others_same p w w'" "\<And>g. gs_groups w' p = Some g \<Longrightarrow> settled g"
  shows "group_inv w'"
proof -
  have "settled h" if h: "gs_groups w' q = Some h" for q h
  proof (cases "q = p")
    case False
    then have eq: "map_option gcore (gs_groups w' q) = map_option gcore (gs_groups w q)" using assms(3) by (simp add: others_same_def)
    then obtain g where "gs_groups w q = Some g" "gcore h = gcore g" using h by (cases "gs_groups w q") auto
    then show ?thesis using assms(1) settled_gcore [of h g] by (simp add: group_inv_def)
  qed (use h assms(4) in auto)
  then show ?thesis using assms(2) by (simp add: group_inv_def)
qed

lemma group_inv_core:
  assumes "group_inv w" "core w' = core w" "sane w'"
  shows "group_inv w'"
proof -
  have "consistent w'" using assms consistent_core by (auto simp: group_inv_def)
  moreover have "settled h" if "gs_groups w' q = Some h" for q h
    using core_group [of w w' q h] assms(1,2) that settled_gcore by (metis group_inv_def)
  ultimately show ?thesis by (simp add: group_inv_def)
qed

lemma group_inv_act: "group_inv w \<Longrightarrow> group_inv (act a w)"
  by (rule group_inv_core) (simp_all add: core_act sane_simple consistentD(2) group_inv_def)

lemma group_inv_send: "group_inv w \<Longrightarrow> group_inv (send u pkt w)"
  by (simp add: send_def group_inv_act)

lemma alive_core: "core w' = core w \<Longrightarrow> gs_groups w p \<noteq> None \<Longrightarrow> gs_groups w' p \<noteq> None"
  using core_group_iff [of w' w p] by simp

lemma not_LFG: "group_ok g \<Longrightarrow> \<not> isLFGGroup g \<and> \<not> isBGGroup g \<and> \<not> isBFGroup g"
  by (auto simp: group_ok_def isLFGGroup_def isBGGroup_def isBFGroup_def group_types)

section \<open>\<^verbatim>\<open>RemoveMember\<close>\<close>

text \<open>What remains when a member leaves a group of three or more.\<close>

definition new_leader :: "gworld \<Rightarrow> u64 \<Rightarrow> group \<Rightarrow> u64" where
  "new_leader w u g =
     (if m_leaderGuid g = u
      then (case find (\<lambda>s. online w (ms_guid s)) (m_memberSlots g) of None \<Rightarrow> u | Some s \<Rightarrow> ms_guid s) else m_leaderGuid g)"

lemma leave_leader_core:
  assumes c: "consistent y" and g: "gs_groups y p = Some g"
  obtains g' d where "core (leave_leader p u y) = core (y\<lparr>gs_groups := (gs_groups y)(p \<mapsto> g'), gs_db := d\<rparr>)" "consistent (leave_leader p u y)"
    "places g' = places g" "m_dbStoreId g' = m_dbStoreId g" "m_leaderGuid g' = new_leader y u g"
proof (cases "m_leaderGuid g = u \<and> find (\<lambda>s. online y (ms_guid s)) (m_memberSlots g) \<noteq> None")
  case False
  then have eq: "leave_leader p u y = y" using g by (auto simp: leave_leader_def with_group_def)
  have "y\<lparr>gs_groups := (gs_groups y)(p \<mapsto> g), gs_db := gs_db y\<rparr> = y" using g by (simp add: fun_upd_idem)
  moreover have "m_leaderGuid g = new_leader y u g" using False by (auto simp: new_leader_def)
  ultimately show ?thesis using that [of "gs_db y" g] eq c by simp
next
  case True
  then obtain s where s: "find (\<lambda>s. online y (ms_guid s)) (m_memberSlots g) = Some s" by auto
  then have m: "s \<in> set (m_memberSlots g)" "online y (ms_guid s)" using find_Some_sat [OF s] by auto
  obtain t where t: "GetMemberSlot g (ms_guid s) = Some t" using m(1) GetMemberSlot_None [of g "ms_guid s"] by (cases "GetMemberSlot g (ms_guid s)") auto
  obtain pl where pl: "find_player y (ms_guid s) = Some pl" using m(2) by auto
  have eq: "leave_leader p u y = ChangeLeader p (ms_guid s) y" using g True s by (simp add: leave_leader_def with_group_def)
  have "m_leaderGuid (led_by pl g) = new_leader y u g" using True s find_player_loaded [OF pl] by (simp add: new_leader_def)
  then show ?thesis
    using that [of "exec_group (UPD_GROUP_LEADER (GUID_LOPART (ms_guid s)) (m_dbStoreId g)) (gs_db y)" "led_by pl g"]
      ChangeLeader_core [OF c g t pl] ChangeLeader_consistent [OF c g t pl] eq by (simp add: places_led_by)
qed

lemma leave_group_consistent:
  assumes c: "consistent w" and g: "gs_groups w p = Some g" and s: "GetMemberSlot g u = Some s" and x: "core x = core w" "sane x"
  obtains g' where "consistent (leave_group p u m x)" "gs_groups (leave_group p u m x) p = Some g'" "others_same p w (leave_group p u m x)"
    "Suc (length (m_memberSlots g')) = length (m_memberSlots g)" "m_dbStoreId g' = m_dbStoreId g"
    "gs_world (leave_group p u m x) = gs_world w" "\<And>v. GetGroup (leave_group p u m x) v = (if v = u then None else GetGroup w v)"
    "\<And>v. invite_of (leave_group p u m x) v = invite_of w v"
    "m_leaderGuid g' = new_leader w u (left_group u (ms_group s) g)" "places g' = places (left_group u (ms_group s) g)"
proof -
  define y where "y = leave_slot p u (leave_rolls p u (leave_enchanting p u (leave_row p u (leave_player p u m x))))"
  let ?l = "left p u (ms_group s) g w" and ?g1 = "left_group u (ms_group s) g"
  note y = leave_core [OF c g s x, of m, folded y_def]
  have cy: "consistent y" using consistent_core [OF left_consistent [OF c g s] y] .
  have "gs_groups ?l p = Some ?g1" by (simp add: left_def)
  then obtain k where k: "gs_groups y p = Some k" "gcore k = gcore ?g1" using core_group [OF y(1)] by blast
  obtain g' d where z: "core (leave_leader p u y) = core (y\<lparr>gs_groups := (gs_groups y)(p \<mapsto> g'), gs_db := d\<rparr>)" "consistent (leave_leader p u y)"
      "places g' = places k" "m_dbStoreId g' = m_dbStoreId k" "m_leaderGuid g' = new_leader y u k"
    using leave_leader_core [OF cy k(1), of u] by blast
  let ?z = "leave_leader p u y" and ?e = "leave_group p u m x"
  have az: "gs_groups ?z p \<noteq> None" using core_group_iff [OF z(1), of p] by simp
  have e: "?e = SendUpdate p ?z" by (simp add: leave_group_def Let_def y_def)
  have ce: "core ?e = core ?z" "consistent ?e"
    using core_SendUpdate [OF az] consistent_core [OF z(2) core_SendUpdate [OF az] sane_SendUpdate [OF consistentD(2) [OF z(2)]]] e by simp_all
  have core: "core ?e = core (y\<lparr>gs_groups := (gs_groups y)(p \<mapsto> g'), gs_db := d\<rparr>)" using ce(1) z(1) by simp
  obtain h where h: "gs_groups ?e p = Some h" "gcore h = gcore g'" using core_group [OF core, of p] by auto
  have len: "length (m_memberSlots g') = length (m_memberSlots k)" using arg_cong [OF z(3), of length] by simp
  have "Suc (length (m_memberSlots h)) = length (m_memberSlots g)"
    using gcore_eqD(1) [OF h(2)] gcore_eqD(1) [OF k(2)] len erase_slot_count(2) [of u "m_memberSlots g" s] s by (simp add: GetMemberSlot_def)
  moreover have "m_dbStoreId h = m_dbStoreId g" using gcore_eqD(9) [OF h(2)] gcore_eqD(9) [OF k(2)] z(4) by simp
  moreover have "others_same p w ?e"
  proof -
    have "others_same p w y" by (rule others_same_core [OF y(1)]) (simp add: others_same_def left_def)
    then have "others_same p w (y\<lparr>gs_groups := (gs_groups y)(p \<mapsto> g'), gs_db := d\<rparr>)" by (simp add: others_same_def)
    then show ?thesis by (rule others_same_core [OF core])
  qed
  moreover have "gs_world ?e = gs_world w" using core_eqD(1) [OF core] core_eqD(1) [OF y(1)] by (simp add: left_def)
  moreover have "GetGroup ?e v = (if v = u then None else GetGroup w v)" "invite_of ?e v = invite_of w v" for v
    using core_player(1,3) [OF core, of v] core_player(1,3) [OF y(1), of v] by (simp_all add: GetGroup_def invite_of_def left_def drop_ref_def)
  moreover have "new_leader y u k = new_leader w u ?g1"
    using gcore_eqD(1,4) [OF k(2)] core_player(6) [OF y(1)] by (simp add: new_leader_def) (simp add: left_def find_player_def)
  then have "m_leaderGuid h = new_leader w u ?g1" using gcore_eqD(4) [OF h(2)] z(5) by simp
  moreover have "places h = places ?g1" using gcore_eqD(1) [OF h(2)] gcore_eqD(1) [OF k(2)] z(3) by simp
  ultimately show thesis using that [OF ce(2) h(1)] by blast
qed

lemma group_invD:
  assumes "group_inv w"
  shows "consistent w" "gs_groups w p = Some g \<Longrightarrow> settled g" "gs_groups w p = Some g \<Longrightarrow> group_ok g" "sane w"
  using assms consistentD(6) [of w p g] consistentD(2) [of w] by (auto simp: group_inv_def each_group_ok_def)

lemma Disband_inv:
  assumes inv: "group_inv w" and g: "gs_groups w p = Some g" "m_dbStoreId g \<noteq> 0"
  shows "group_inv (Disband p h w)" "gs_world (Disband p h w) = gs_world w"
    "GetGroup (Disband p h w) u = (if GetGroup w u = Some p then None else GetGroup w u)"
    "invite_of (Disband p h w) u = (if invite_of w u = Some p then None else invite_of w u)"
proof -
  obtain z where z: "consistent (Disband p h w)" "core (Disband p h w) = core z" "gs_groups z = (gs_groups w)(p := None)"
      "gs_pl z = (\<lambda>u. forget_player p (gs_pl w u))" "gs_world z = gs_world w"
    using Disband_consistent [OF group_invD(1) [OF inv] g] by blast
  have none: "gs_groups (Disband p h w) p = None" using core_group_iff [OF z(2), of p] z(3) by simp
  have "others_same p w (Disband p h w)" by (rule others_same_core [OF z(2)]) (simp add: others_same_def z(3))
  then show "group_inv (Disband p h w)" using none by (intro group_inv_one [OF inv z(1), where p = p]) simp_all
  show "gs_world (Disband p h w) = gs_world w" using core_eqD(1) [OF z(2)] z(5) by simp
  show "GetGroup (Disband p h w) u = (if GetGroup w u = Some p then None else GetGroup w u)"
      "invite_of (Disband p h w) u = (if invite_of w u = Some p then None else invite_of w u)"
    using core_player(1,3) [OF z(2), of u] z(4) by (simp_all add: GetGroup_def invite_of_def)
qed

lemma RemoveMember_inv:
  fixes m :: RemoveMethod and kicker :: u64 and reason :: string
  assumes inv: "group_inv w" and g: "gs_groups w p = Some g" and u: "IsMember g u"
  defines "w' \<equiv> snd (RemoveMember p u m kicker reason w)"
  shows "group_inv w'" "gs_world w' = gs_world w" "GetGroup w' u = None" "invite_of w' u = None"
proof -
  note c = group_invD(1) [OF inv]
  obtain s where s: "GetMemberSlot g u = Some s" using u by (auto simp: IsMember_def)
  have su: "s \<in> set (m_memberSlots g)" "ms_guid s = u" using GetMemberSlot_Some [OF s] by auto
  note ref = member_ref [OF c g su(1), unfolded su(2)]
  have id: "m_dbStoreId g \<noteq> 0" using consistentD(6) [OF c g] stored_rowD(1) [of w p g s] su(1) by (simp add: each_group_ok_def)
  have plain: "\<not> isLFGGroup h \<and> \<not> isBGGroup h \<and> \<not> isBFGroup h" if "consistent x" "gs_groups x p = Some h" for x h
    using consistentD(6) [OF that] not_LFG by (simp add: each_group_ok_def)
  define w1 where "w1 = act (OnGroupRemoveMember p u m kicker reason) (BroadcastGroupUpdate p w)"
  have w1: "core w1 = core w" "sane w1"
    using core_BroadcastGroupUpdate [of w p] g group_invD(4) [OF inv] by (auto simp: w1_def core_act intro!: sane_intros)
  note inv1 = group_inv_core [OF inv w1]
  have "group_inv w' \<and> gs_world w' = gs_world w \<and> GetGroup w' u = None \<and> invite_of w' u = None"
  proof (cases "length (m_memberSlots g) > 2")
    case True
    let ?e = "leave_group p u m w1"
    obtain h where e: "consistent ?e" "gs_groups ?e p = Some h" "others_same p w ?e" "Suc (length (m_memberSlots h)) = length (m_memberSlots g)"
        "gs_world ?e = gs_world w" "GetGroup ?e u = None" "invite_of ?e u = invite_of w u"
      using leave_group_consistent [OF c g s w1, of m] by metis
    have "settled h" using e(4) True consistentD(6) [OF e(1,2)] by (auto simp: settled_def each_group_ok_def stored_ok_def)
    then have inv': "group_inv ?e" using e(2) by (intro group_inv_one [OF inv e(1,3)]) simp
    have "w' = ?e"
      using g plain [OF c g] plain [OF e(1,2)] True e(2,4)
      by (simp add: w'_def RemoveMember_def Let_def w1_def [symmetric] GetMembersCount_def)
    then show "group_inv w' \<and> gs_world w' = gs_world w \<and> GetGroup w' u = None \<and> invite_of w' u = None" using inv' e ref(3) by simp
  next
    case False
    then have w': "w' = Disband p False w1"
      using g plain [OF c g] by (simp add: w'_def RemoveMember_def Let_def w1_def [symmetric] GetMembersCount_def)
    obtain g1 where g1: "gs_groups w1 p = Some g1" "gcore g1 = gcore g" using core_group [OF w1(1) g] by blast
    have "m_dbStoreId g1 \<noteq> 0" using gcore_eqD(9) [OF g1(2)] id by simp
    note d = Disband_inv [OF inv1 g1(1) this, of False]
    show "group_inv w' \<and> gs_world w' = gs_world w \<and> GetGroup w' u = None \<and> invite_of w' u = None"
      unfolding w' using d(1,2) d(3,4) [of u] core_player(3,4) [OF w1(1), of u] core_eqD(1) [OF w1(1)] ref(2,3) by (auto simp: invite_of_def)
  qed
  then show "group_inv w'" "gs_world w' = gs_world w" "GetGroup w' u = None" "invite_of w' u = None" by simp_all
qed

text \<open>The new leader of a group of which the leader leaves.\<close>

lemma RemoveMember_leader:
  assumes inv: "group_inv w" and g: "gs_groups w p = Some g" and u: "GetMemberSlot g u = Some s" "2 < length (m_memberSlots g)"
  obtains g' where "gs_groups (snd (RemoveMember p u m kicker reason w)) p = Some g'"
    "m_leaderGuid g' = new_leader w u (left_group u (ms_group s) g)" "places g' = places (left_group u (ms_group s) g)"
proof -
  note c = group_invD(1) [OF inv]
  have plain: "\<not> isLFGGroup h \<and> \<not> isBGGroup h \<and> \<not> isBFGroup h" if "consistent x" "gs_groups x p = Some h" for x h
    using consistentD(6) [OF that] not_LFG by (simp add: each_group_ok_def)
  define w1 where "w1 = act (OnGroupRemoveMember p u m kicker reason) (BroadcastGroupUpdate p w)"
  have w1: "core w1 = core w" "sane w1"
    using core_BroadcastGroupUpdate [of w p] g group_invD(4) [OF inv] by (auto simp: w1_def core_act intro!: sane_intros)
  obtain h where e: "consistent (leave_group p u m w1)" "gs_groups (leave_group p u m w1) p = Some h"
      "Suc (length (m_memberSlots h)) = length (m_memberSlots g)" "m_leaderGuid h = new_leader w u (left_group u (ms_group s) g)"
      "places h = places (left_group u (ms_group s) g)"
    by (rule leave_group_consistent [OF c g u(1) w1, of m]) blast
  have "snd (RemoveMember p u m kicker reason w) = leave_group p u m w1"
    using g plain [OF c g] plain [OF e(1,2)] u(2) e(2,3)
    by (simp add: RemoveMember_def Let_def w1_def [symmetric] GetMembersCount_def)
  then show thesis using that [of h] e by simp
qed

section \<open>The calls of \<^verbatim>\<open>Player\<close>\<close>

lemma GetGroup_member:
  assumes "consistent w" "GetGroup w u = Some p"
  obtains g where "gs_groups w p = Some g" "IsMember g u"
proof -
  obtain g s where "gs_groups w p = Some g" "s \<in> set (m_memberSlots g)" "ms_guid s = u"
    using consistentD(5) [OF assms(1), of u] assms(2) by (auto simp: player_ok_def)
  then show thesis using that [of g] GetMemberSlot_None [of g u] by (auto simp: IsMember_def)
qed

lemma remove_bots_core: "core (remove_bots u n w) = core w" "sane w \<Longrightarrow> sane (remove_bots u n w)"
  by (auto simp: remove_bots_def Let_def core_act intro!: sane_intros)

lemma RemoveFromGroup_inv:
  fixes m :: RemoveMethod and kicker :: u64 and reason :: string
  assumes inv: "group_inv w" and g: "gs_groups w p = Some g" and u: "IsMember g u"
  defines "w' \<equiv> RemoveFromGroup (Some p) u m kicker reason w"
  shows "group_inv w'" "gs_world w' = gs_world w" "GetGroup w' u = None" "invite_of w' u = None"
proof -
  note c = group_invD(1) [OF inv]
  have "group_inv w' \<and> gs_world w' = gs_world w \<and> GetGroup w' u = None \<and> invite_of w' u = None"
  proof (cases "online w u")
    case False
    then have "w' = snd (RemoveMember p u m kicker reason w)" using g by (simp add: w'_def RemoveFromGroup_def with_group_def)
    then show "group_inv w' \<and> gs_world w' = gs_world w \<and> GetGroup w' u = None \<and> invite_of w' u = None"
      using RemoveMember_inv [OF inv g u] by simp
  next
    case True
    let ?n = "of_nat (human_members w g)"
    define w1 where "w1 = remove_bots u ?n w"
    have w1: "core w1 = core w" "sane w1" using remove_bots_core group_invD(4) [OF inv] by (simp_all add: w1_def)
    obtain s where s: "s \<in> set (m_memberSlots g)" "ms_guid s = u" using u GetMemberSlot_Some by (auto simp: IsMember_def)
    have "loaded w u" using True find_player_loaded by auto
    then have "GetGroup w u = Some p" using member_ref(4) [OF c g s(1)] s(2) by simp
    then have gg: "GetGroup w1 u = Some p" using core_player(4) [OF w1(1)] by simp
    obtain g1 where g1: "gs_groups w1 p = Some g1" "gcore g1 = gcore g" using core_group [OF w1(1) g] by blast
    have m1: "IsMember g1 u" using u gcore_eqD(1) [OF g1(2)] by (simp add: IsMember_def GetMemberSlot_def)
    obtain pl where "find_player w u = Some pl" using True by auto
    then have "w' = snd (RemoveMember p u m kicker reason w1)"
      using g gg by (simp add: w'_def RemoveFromGroup_def with_group_def Let_def w1_def)
    then show "group_inv w' \<and> gs_world w' = gs_world w \<and> GetGroup w' u = None \<and> invite_of w' u = None"
      using RemoveMember_inv [OF group_inv_core [OF inv w1] g1(1) m1] core_eqD(1) [OF w1(1)] by simp
  qed
  then show "group_inv w'" "gs_world w' = gs_world w" "GetGroup w' u = None" "invite_of w' u = None" by simp_all
qed

lemma UninviteFromGroup_inv:
  fixes u :: u64
  assumes inv: "group_inv w"
  defines "w' \<equiv> UninviteFromGroup u w"
  shows "group_inv w'" "gs_world w' = gs_world w" "GetGroup w' u = GetGroup w u" "invite_of w' u = None"
proof -
  note c = group_invD(1) [OF inv]
  have "group_inv w' \<and> gs_world w' = gs_world w \<and> GetGroup w' u = GetGroup w u \<and> invite_of w' u = None"
  proof (cases "invite_of w u")
    case None
    then show "group_inv w' \<and> gs_world w' = gs_world w \<and> GetGroup w' u = GetGroup w u \<and> invite_of w' u = None"
      using inv by (simp add: w'_def UninviteFromGroup_def invite_of_def)
  next
    case (Some p)
    then obtain g where g: "gs_groups w p = Some g" and free: "ungrouped w u" using invited_ungrouped [OF c, of u p] by auto
    let ?w1 = "RemoveInvite p u w" and ?g1 = "g\<lparr>m_invitees := set_erase u (m_invitees g)\<rparr>"
    have c1: "consistent ?w1" using RemoveInvite_consistent [OF c g free] Some by blast
    note sel = RemoveInvite_sel [OF g, of u]
    have g1: "gs_groups ?w1 p = Some ?g1" using sel(1) by simp
    have grp: "GetGroup ?w1 u = None" "invite_of ?w1 u = None" using sel(4,5) [of u] free by (simp_all add: ungrouped_def)
    show "group_inv w' \<and> gs_world w' = gs_world w \<and> GetGroup w' u = GetGroup w u \<and> invite_of w' u = None"
    proof (cases "m_dbStoreId g = 0")
      case True
      let ?z = "?w1\<lparr>gs_groups := (gs_groups ?w1)(p := None), gs_pl := (\<lambda>u. forget_player p (gs_pl ?w1 u))\<rparr>"
      have empty: "m_memberSlots g = []" using consistentD(6) [OF c g] True by (simp add: each_group_ok_def stored_ok_def)
      then have w': "w' = delete_group p (RemoveAllInvites p ?w1)"
        using Some g1 by (simp add: w'_def UninviteFromGroup_def invite_of_def with_group_def GetMembersCount_def IsCreated_def)
      have "m_dbStoreId ?g1 = 0" using True by simp
      note d = delete_uncreated_consistent [OF c1 g1 this, folded w']
      have "gs_groups w' p = None" using core_group_iff [OF d(2), of p] by simp
      moreover have "others_same p w w'" by (rule others_same_core [OF d(2)]) (simp add: others_same_def sel(1))
      ultimately have "group_inv w'" by (intro group_inv_one [OF inv d(1), where p = p]) simp_all
      then show ?thesis
        using core_eqD(1) [OF d(2)] core_player(1,3) [OF d(2), of u] sel(2) grp free by (simp add: GetGroup_def invite_of_def ungrouped_def)
    next
      case False
      then have "2 \<le> length (m_memberSlots g)" using group_invD(2) [OF inv g] by (simp add: settled_def)
      then have "w' = ?w1" using Some g1 by (simp add: w'_def UninviteFromGroup_def invite_of_def with_group_def GetMembersCount_def)
      moreover have "group_inv ?w1"
        using group_invD(2) [OF inv g] False g1 by (intro group_inv_one [OF inv c1, where p = p]) (auto simp: others_same_def sel(1) settled_def)
      ultimately show ?thesis using sel(2) grp free by (simp add: ungrouped_def)
    qed
  qed
  then show "group_inv w'" "gs_world w' = gs_world w" "GetGroup w' u = GetGroup w u" "invite_of w' u = None" by simp_all
qed

end
