(* ===== verification/Group_Answer.thy ===== *)
theory Group_Answer
  imports Group_Kick
begin

text \<open>
  The handlers of the way into a group keep the invariant: invitation, acceptance (which forms the group when its
  first member joins) and refusal.
\<close>

section \<open>Room in a group\<close>

lemma sum_sub_count:
  assumes "\<forall>s \<in> set ss. unat (ms_group s) < n"
  shows "(\<Sum>i < n. sub_count ss i) = length ss"
  using assms
proof (induction ss)
  case (Cons s ss)
  have "sub_count (s # ss) i = of_bool (i = unat (ms_group s)) + sub_count ss i" for i by (auto simp: sub_count_def)
  then have "(\<Sum>i < n. sub_count (s # ss) i) = (\<Sum>i < n. of_bool (i = unat (ms_group s))) + (\<Sum>i < n. sub_count ss i)"
    by (simp add: sum.distrib)
  also have "(\<Sum>i < n. of_bool (i = unat (ms_group s)) :: nat) = 1" using Cons.prems by (simp add: of_bool_def sum.delta)
  finally show ?case using Cons by simp
qed (simp add: sub_count_def)

text \<open>A raid that is not full has a subgroup that is not full.\<close>

lemma first_free_exists:
  assumes g: "group_ok g" "\<not> IsFull g"
  obtains sub where "first_free_subgroup g = Some sub"
proof (cases "m_subGroupsCounts g")
  case None
  then show ?thesis using that by (simp add: first_free_subgroup_def)
next
  case (Some c)
  then have raid: "isRaidGroup g" "\<And>i. i < MAX_RAID_SUBGROUPS \<Longrightarrow> unat (c ! i) = sub_count (m_memberSlots g) i"
      "\<forall>s \<in> set (m_memberSlots g). unat (ms_group s) < MAX_RAID_SUBGROUPS"
    using g(1) by (auto simp: group_ok_def counts_ok_def split: if_splits)
  have "find (\<lambda>i. unat (c ! i) < MAXGROUPSIZE) [0..<MAX_RAID_SUBGROUPS] \<noteq> None"
  proof
    assume "find (\<lambda>i. unat (c ! i) < MAXGROUPSIZE) [0..<MAX_RAID_SUBGROUPS] = None"
    then have "MAXGROUPSIZE \<le> sub_count (m_memberSlots g) i" if "i < MAX_RAID_SUBGROUPS" for i
      using that raid(2) [OF that] by (metis atLeastLessThan_iff find_None_iff le0 not_less set_upt)
    then have "(\<Sum>i < MAX_RAID_SUBGROUPS. MAXGROUPSIZE) \<le> (\<Sum>i < MAX_RAID_SUBGROUPS. sub_count (m_memberSlots g) i)" by (intro sum_mono) simp
    then have "MAX_RAID_SUBGROUPS * MAXGROUPSIZE \<le> length (m_memberSlots g)" using sum_sub_count [OF raid(3)] by simp
    then show False using g(2) raid(1) by (simp add: IsFull_def group_sizes)
  qed
  then show ?thesis using that Some by (auto simp: first_free_subgroup_def)
qed

section \<open>Inviting\<close>

lemma handler_group_eq:
  assumes "consistent w"
  shows "handler_group w u = GetGroup w u"
proof (cases "GetGroup w u")
  case (Some p)
  then obtain g where "gs_groups w p = Some g" using GetGroup_member [OF assms] by blast
  then show ?thesis using Some consistentD(6) [OF assms, of p g] by (simp add: handler_group_def each_group_ok_def group_ok_def isBGGroup_def)
qed (simp add: handler_group_def)

lemma grouped_stored:
  assumes "consistent w" "GetGroup w u = Some p"
  obtains g where "gs_groups w p = Some g" "IsMember g u" "m_dbStoreId g \<noteq> 0"
proof -
  obtain g where g: "gs_groups w p = Some g" "IsMember g u" using GetGroup_member [OF assms] by blast
  then obtain s where "s \<in> set (m_memberSlots g)" using GetMemberSlot_Some by (auto simp: IsMember_def)
  then show thesis using that [OF g] consistentD(6) [OF assms(1) g(1)] stored_rowD(1) [of w p g s] by (simp add: each_group_ok_def)
qed

lemma delete_empty_inv:
  assumes inv: "group_inv w" and n: "new_group w = (p, w1)"
  shows "group_inv (delete_group p w1)"
proof -
  have c1: "consistent w1" by (rule new_group_consistent [OF group_invD(1) [OF inv] n])
  have g1: "gs_groups w1 p = Some Group_new" and os: "others_same p w w1" using n by (auto simp: new_group_def others_same_def)
  have "RemoveAllInvites p w1 = w1" using g1 by (simp add: RemoveAllInvites_eq [OF g1] Group_new_def fun_upd_idem)
  moreover have "m_dbStoreId Group_new = 0" by (simp add: Group_new_def)
  ultimately have d: "consistent (delete_group p w1)"
      "core (delete_group p w1) = core (w1\<lparr>gs_groups := (gs_groups w1)(p := None), gs_pl := (\<lambda>u. forget_player p (gs_pl w1 u))\<rparr>)"
    using delete_uncreated_consistent [OF c1 g1] by simp_all
  have "others_same p w (delete_group p w1)" by (rule others_same_core [OF d(2)]) (use os in \<open>simp add: others_same_def\<close>)
  moreover have "gs_groups (delete_group p w1) p = None" using core_group_iff [OF d(2), of p] by simp
  ultimately show ?thesis by (intro group_inv_one [OF inv d(1), where p = p]) simp_all
qed

lemma set_leader_consistent:
  assumes c: "consistent w" and g: "gs_groups w p = Some g" "m_dbStoreId g = 0"
  shows "consistent (modg p (\<lambda>g. g\<lparr>m_leaderGuid := a, m_leaderName := b\<rparr>) w)"
proof -
  let ?g' = "g\<lparr>m_leaderGuid := a, m_leaderName := b\<rparr>"
  have "modg p (\<lambda>g. g\<lparr>m_leaderGuid := a, m_leaderName := b\<rparr>) w = w\<lparr>gs_groups := (gs_groups w)(p \<mapsto> ?g'), gs_db := gs_db w\<rparr>"
    using g by (simp add: modg_def with_group_def)
  moreover have "group_ok ?g'" using consistentD(6) [OF c g(1)] group_ok_places [of g ?g'] by (simp add: each_group_ok_def)
  moreover have "group_fine ?g'" using sane_group [OF consistentD(2) [OF c] g(1)] by (simp add: group_fine_def)
  ultimately show ?thesis
    using g(2) consistent_tables [OF c] consistentD(2) [OF c]
    by (intro local_op [OF c g(1), where g' = ?g' and d = "gs_db w"]) (auto simp: sane_def)
qed

lemma do_invite_inv:
  assumes inv: "group_inv w" and me: "loaded w (pl_guid me)" and other: "ungrouped w u" "invite_of w u = None" "u \<noteq> pl_guid me"
    and grp: "grp = GetGroup w (pl_guid me)"
  shows "group_inv (snd (do_invite me u grp w))"
proof (cases grp)
  case (Some p)
  note c = group_invD(1) [OF inv]
  obtain g where g: "gs_groups w p = Some g" "m_dbStoreId g \<noteq> 0" using grouped_stored [OF c] Some grp by metis
  have "do_invite me u grp w = (True, invite_in p u w)"
    using Some other(1,2) invite_group_ungrouped [of w u] by (simp add: do_invite_def AddInvite_eq ungrouped_def)
  moreover have "group_inv (invite_in p u w)"
    using group_invD(2) [OF inv g(1)] g
    by (intro group_inv_one [OF inv invite_in_consistent [OF c g(1) other(1,2)], where p = p])
      (auto simp: others_same_def invite_in_sel(1) [OF g(1)] settled_def)
  ultimately show ?thesis by simp
next
  case None
  note c = group_invD(1) [OF inv]
  let ?m = "pl_guid me"
  obtain p w1 where n: "new_group w = (p, w1)" by fastforce
  have c1: "consistent w1" by (rule new_group_consistent [OF c n])
  have sel1: "gs_groups w1 = (gs_groups w)(p \<mapsto> Group_new)" "gs_pl w1 = gs_pl w" "gs_world w1 = gs_world w" using n by (auto simp: new_group_def)
  have g1: "gs_groups w1 p = Some Group_new" using sel1 by simp
  have view1: "GetGroup w1 v = GetGroup w v" "invite_of w1 v = invite_of w v" "loaded w1 v = loaded w v" for v
    using sel1 by (simp_all add: GetGroup_def invite_of_def loaded_def)
  show ?thesis
  proof (cases "invite_of w ?m")
    case (Some q)
    then have "do_invite me u grp w = (False, delete_group p w1)"
      using None n view1 by (simp add: do_invite_def AddLeaderInvite_def AddInvite_eq)
    then show ?thesis using delete_empty_inv [OF inv n] by simp
  next
    case free: None
    have um: "ungrouped w1 ?m" "invite_of w1 ?m = None" using me None grp free view1 by (simp_all add: ungrouped_def)
    define w2 where "w2 = invite_in p ?m w1"
    note sel2 = invite_in_sel [OF g1, of ?m, folded w2_def]
    have c2: "consistent w2" unfolding w2_def by (rule invite_in_consistent [OF c1 g1 um])
    let ?g2 = "Group_new\<lparr>m_invitees := [?m]\<rparr>"
    have g2: "gs_groups w2 p = Some ?g2" "m_dbStoreId ?g2 = 0" using sel2(1) by (simp_all add: Group_new_def set_erase_def)
    let ?f = "\<lambda>g. g\<lparr>m_leaderGuid := pl_guid me, m_leaderName := pl_name me\<rparr>"
    define w3 where "w3 = modg p ?f w2"
    have c3: "consistent w3" unfolding w3_def by (rule set_leader_consistent [OF c2 g2])
    have sel3: "gs_groups w3 = (gs_groups w2)(p \<mapsto> ?f ?g2)" "gs_pl w3 = gs_pl w2" "gs_world w3 = gs_world w2"
      using g2 by (simp_all add: w3_def modg_def with_group_def)
    have g3: "gs_groups w3 p = Some (?f ?g2)" using sel3 by simp
    have v3: "ungrouped w3 u" "invite_of w3 u = None"
      using other sel2(2,3,4) sel3 sel1 view1 by (simp_all add: ungrouped_def loaded_def GetGroup_def invite_of_def)
    have eq: "do_invite me u grp w = (True, invite_in p u w3)"
      using None n um v3 invite_group_ungrouped [of w1 ?m] invite_group_ungrouped [of w3 u]
      by (simp add: do_invite_def AddLeaderInvite_def AddInvite_eq ungrouped_def w2_def [symmetric] w3_def [symmetric])
    have c4: "consistent (invite_in p u w3)" by (rule invite_in_consistent [OF c3 g3 v3])
    note sel4 = invite_in_sel [OF g3, of u]
    have "others_same p w (invite_in p u w3)" using sel4(1) sel3(1) sel2(1) sel1(1) by (simp add: others_same_def)
    then have "group_inv (invite_in p u w3)"
    proof (rule group_inv_one [OF inv c4])
      show "settled h" if "gs_groups (invite_in p u w3) p = Some h" for h
      proof -
        have "m_leaderGuid h = ?m" "?m \<in> set (m_invitees h)" "m_dbStoreId h = 0"
          using that other(3) unfolding sel4(1) by (auto simp: set_ins_set set_erase_def Group_new_def)
        then show ?thesis by (simp add: settled_def)
      qed
    qed
    then show ?thesis using eq by simp
  qed
qed

text \<open>The handler: its sender is in the world, and does not invite himself.\<close>

definition in_world :: "player \<Rightarrow> gworld \<Rightarrow> bool" where
  "in_world me w \<longleftrightarrow> find_player w (pl_guid me) = Some me"

definition invites_other :: "player \<Rightarrow> string \<Rightarrow> gworld \<Rightarrow> bool" where
  "invites_other me name w =
     (case ge_normalize (gs_env w) name of
        None \<Rightarrow> True
      | Some n \<Rightarrow> (case FindPlayerByName (gs_world w) n of None \<Rightarrow> True | Some other \<Rightarrow> pl_guid other \<noteq> pl_guid me))"

lemma in_world_loaded: "in_world me w \<Longrightarrow> loaded w (pl_guid me)"
  using find_player_loaded [of w "pl_guid me" me] by (simp add: in_world_def)

lemma SendPartyResult_inv: "group_inv w \<Longrightarrow> group_inv (SendPartyResult u op n r w)"
  by (simp add: SendPartyResult_def group_inv_send)

lemma FindPlayerByName_loaded: "FindPlayerByName (gs_world w) n = Some pl \<Longrightarrow> loaded w (pl_guid pl)"
  using find_Some_sat by (fastforce simp: FindPlayerByName_def loaded_def)

lemma invite_inv:
  assumes inv: "group_inv w" and me: "in_world me w" "invites_other me name w"
  shows "group_inv (HandleGroupInviteOpcode me name w)"
proof (cases "ge_normalize (gs_env w) name")
  case None
  then show ?thesis using inv by (simp add: HandleGroupInviteOpcode_def Let_def SendPartyResult_inv)
next
  case (Some n)
  show ?thesis
  proof (cases "FindPlayerByName (gs_world w) n")
    case None
    then show ?thesis using inv Some by (simp add: HandleGroupInviteOpcode_def Let_def SendPartyResult_inv)
  next
    case found: (Some other)
    let ?m = "pl_guid me" and ?u = "pl_guid other"
    note c = group_invD(1) [OF inv]
    have hg: "handler_group w v = GetGroup w v" for v by (rule handler_group_eq [OF c])
    have ne: "?u \<noteq> ?m" using me(2) Some found by (simp add: invites_other_def)
    have "loaded w ?m" by (rule in_world_loaded [OF me(1)])
    then have ok: "group_inv (snd (do_invite me ?u (GetGroup w ?m) w))" if "GetGroup w ?u = None" "pg_groupInvite (gs_pl w ?u) = None"
      using that FindPlayerByName_loaded [OF found] ne by (intro do_invite_inv [OF inv]) (simp_all add: ungrouped_def invite_of_def)
    obtain b x where d: "do_invite me ?u (GetGroup w ?m) w = (b, x)" by fastforce
    note unf = HandleGroupInviteOpcode_def Let_def Some found option.case hg
    consider err where "invite_error w me other = Some err" | "invite_error w me other = None" by (cases "invite_error w me other") auto
    then show ?thesis
    proof cases
      case 1
      then show ?thesis unfolding unf by (simp add: SendPartyResult_inv [OF inv])
    next
      case allowed: 2
      show ?thesis
      proof (cases "GetGroup w ?u \<noteq> None \<or> pg_groupInvite (gs_pl w ?u) \<noteq> None")
        case True
        then show ?thesis unfolding unf allowed using SendPartyResult_inv [OF inv] group_inv_send by simp
      next
        case False
        then have x: "group_inv x" using ok d by simp
        from False show ?thesis
          unfolding unf allowed by (cases b) (simp_all add: d x SendPartyResult_inv inv group_inv_send split: option.split)
      qed
    qed
  qed
qed

section \<open>Accepting and declining\<close>

lemma accept_join_consistent:
  assumes c: "consistent w" and g: "gs_groups w p = Some g" "m_dbStoreId g \<noteq> 0" "\<not> IsFull g"
    and free: "ungrouped w (pl_guid me)" "invite_of w (pl_guid me) = None"
  obtains g' where "consistent (accept_join p me w)" "gs_groups (accept_join p me w) p = Some g'" "others_same p w (accept_join p me w)"
    "length (m_memberSlots g') = Suc (length (m_memberSlots g))" "m_dbStoreId g' = m_dbStoreId g"
    "GetGroup (accept_join p me w) (pl_guid me) = Some p" "invite_of (accept_join p me w) (pl_guid me) = None"
proof -
  have ok: "group_ok g" using consistentD(6) [OF c g(1)] by (simp add: each_group_ok_def)
  obtain sub where sub: "first_free_subgroup g = Some sub" using first_free_exists [OF ok g(3)] by blast
  obtain x where x: "AddMember p me w = (True, x)" "consistent x" "core x = core (joined p me sub g w)"
    using AddMember_consistent [OF c g(1,2) sub g(3) free] by blast
  have ax: "gs_groups x p \<noteq> None" using core_group_iff [OF x(3), of p] by (simp add: joined_sel)
  have eq: "accept_join p me w = BroadcastGroupUpdate p x" using x(1) by (simp add: accept_join_def)
  have core: "core (accept_join p me w) = core (joined p me sub g w)" unfolding eq using core_BroadcastGroupUpdate [OF ax] x(3) by simp
  have cons: "consistent (accept_join p me w)"
    unfolding eq by (rule consistent_core [OF x(2) core_BroadcastGroupUpdate [OF ax]]) (intro sane_broadcasts consistentD(2) [OF x(2)])
  obtain g' where g': "gs_groups (accept_join p me w) p = Some g'" "gcore g' = gcore (joined_group me sub g)"
    using core_group [OF core, of p] by (auto simp: joined_sel)
  have "others_same p w (accept_join p me w)" by (rule others_same_core [OF core]) (simp add: others_same_def joined_sel)
  moreover have "GetGroup (accept_join p me w) (pl_guid me) = Some p" "invite_of (accept_join p me w) (pl_guid me) = None"
    using core_player(1,3) [OF core, of "pl_guid me"] by (simp_all add: joined_sel joined_player_def GetGroup_def invite_of_def)
  ultimately show thesis using that [OF cons g'(1)] gcore_eqD [OF g'(2)] by simp
qed

lemma uninvite_all_fold:
  assumes "gs_groups w p = Some g"
  shows "fold (RemoveInvite p) is w = w\<lparr>gs_groups := (gs_groups w)(p \<mapsto> g\<lparr>m_invitees := filter (\<lambda>v. v \<notin> set is) (m_invitees g)\<rparr>),
     gs_pl := (\<lambda>u. if u \<in> set is then (gs_pl w u)\<lparr>pg_groupInvite := None\<rparr> else gs_pl w u)\<rparr>"
  using assms
proof (induction "is" arbitrary: w g)
  case Nil
  then show ?case by (simp add: fun_upd_idem)
next
  case (Cons i "is")
  let ?w1 = "RemoveInvite p i w" and ?g1 = "g\<lparr>m_invitees := set_erase i (m_invitees g)\<rparr>"
  have w1: "?w1 = w\<lparr>gs_groups := (gs_groups w)(p \<mapsto> ?g1), gs_pl := (gs_pl w)(i := (gs_pl w i)\<lparr>pg_groupInvite := None\<rparr>)\<rparr>"
    using Cons.prems by (simp add: RemoveInvite_def SetGroupInvite_def modp_def modg_def with_group_def)
  have "gs_groups ?w1 p = Some ?g1" by (simp add: w1)
  note IH = Cons.IH [OF this]
  have fl: "filter (\<lambda>v. v \<notin> set is) (set_erase i (m_invitees g)) = filter (\<lambda>v. v \<notin> set (i # is)) (m_invitees g)"
    by (auto simp: set_erase_def intro: filter_cong)
  have pl: "(\<lambda>u. if u \<in> set is then (gs_pl ?w1 u)\<lparr>pg_groupInvite := None\<rparr> else gs_pl ?w1 u)
      = (\<lambda>u. if u \<in> set (i # is) then (gs_pl w u)\<lparr>pg_groupInvite := None\<rparr> else gs_pl w u)"
    by (auto simp: w1 fun_eq_iff)
  have gr: "(gs_groups ?w1)(p \<mapsto> h) = (gs_groups w)(p \<mapsto> h)" for h by (simp add: w1)
  have base: "?w1\<lparr>gs_groups := G, gs_pl := P\<rparr> = w\<lparr>gs_groups := G, gs_pl := P\<rparr>" for G P by (simp add: w1)
  have inv: "?g1\<lparr>m_invitees := j\<rparr> = g\<lparr>m_invitees := j\<rparr>" "m_invitees ?g1 = set_erase i (m_invitees g)" for j by simp_all
  show ?case unfolding fold_Cons comp_apply IH pl gr base inv fl ..
qed

lemma RemoveAllInvites_consistent:
  assumes c: "consistent w" and g: "gs_groups w p = Some g"
  shows "consistent (RemoveAllInvites p w)"
proof -
  have eq: "RemoveAllInvites p w = fold (RemoveInvite p) (m_invitees g) w"
    unfolding RemoveAllInvites_eq [OF g] uninvite_all_fold [OF g] by (simp add: filter_empty_conv)
  have "consistent (fold (RemoveInvite p) is x) \<and> gs_groups (fold (RemoveInvite p) is x) p \<noteq> None"
    if "consistent x" "gs_groups x p \<noteq> None" "\<forall>i \<in> set is. ungrouped x i \<and> (invite_of x i = None \<or> invite_of x i = Some p)" for "is" x
    using that
  proof (induction "is" arbitrary: x)
    case (Cons i "is")
    obtain h where h: "gs_groups x p = Some h" using Cons.prems(2) by auto
    note sel = RemoveInvite_sel [OF h, of i]
    have "consistent (RemoveInvite p i x)" using RemoveInvite_consistent [OF Cons.prems(1) h] Cons.prems(3) by simp
    then show ?case using Cons.IH [of "RemoveInvite p i x"] Cons.prems(3) sel by (auto simp: ungrouped_def loaded_def)
  qed simp
  moreover have "ungrouped w i \<and> (invite_of w i = None \<or> invite_of w i = Some p)" if "i \<in> set (m_invitees g)" for i
    using invited_all [OF c g, of i] that invited_ungrouped [OF c, of i p] by simp
  ultimately show ?thesis unfolding eq using c g by blast
qed

text \<open>The sender is not the leader of the group he is invited to: he would be, had he formed it.\<close>

definition accepts_other :: "player \<Rightarrow> gworld \<Rightarrow> bool" where
  "accepts_other me w =
     (case pg_groupInvite (gs_pl w (pl_guid me)) of
        None \<Rightarrow> True
      | Some p \<Rightarrow> (case gs_groups w p of None \<Rightarrow> True | Some g \<Rightarrow> m_leaderGuid g \<noteq> pl_guid me))"

lemma not_created: "settled g \<Longrightarrow> \<not> IsCreated g \<longleftrightarrow> m_memberSlots g = []" "settled g \<Longrightarrow> m_memberSlots g = [] \<Longrightarrow> m_dbStoreId g = 0"
  by (auto simp: settled_def IsCreated_def GetMembersCount_def split: if_splits)

lemma accept_create_consistent:
  assumes c: "consistent w" and g: "gs_groups w p = Some g" "m_dbStoreId g = 0" and room: "pool_room w"
    and leader: "invite_of w (pl_guid leader) = Some p"
  obtains g' where "consistent (accept_create p leader w)" "gs_groups (accept_create p leader w) p = Some g'"
    "others_same p w (accept_create p leader w)" "m_memberSlots g' = [new_slot leader 0]" "m_dbStoreId g' \<noteq> 0" "\<not> IsFull g'"
    "gs_world (accept_create p leader w) = gs_world w"
    "\<And>v. v \<noteq> pl_guid leader \<Longrightarrow> GetGroup (accept_create p leader w) v = GetGroup w v \<and> invite_of (accept_create p leader w) v = invite_of w v"
proof -
  let ?l = "pl_guid leader" and ?w1 = "RemoveInvite p (pl_guid leader) w" and ?g1 = "g\<lparr>m_invitees := set_erase (pl_guid leader) (m_invitees g)\<rparr>"
  have free: "ungrouped w ?l" using invited_ungrouped [OF c leader] by simp
  have c1: "consistent ?w1" using RemoveInvite_consistent [OF c g(1) free] leader by blast
  note sel = RemoveInvite_sel [OF g(1), of ?l]
  have g1: "gs_groups ?w1 p = Some ?g1" "m_dbStoreId ?g1 = 0" using sel(1) g(2) by simp_all
  have room1: "pool_room ?w1" using room sel(7) by (simp add: pool_room_def)
  have free1: "ungrouped ?w1 ?l" "invite_of ?w1 ?l = None" using free sel by (simp_all add: ungrouped_def loaded_def)
  obtain x h where x: "snd (Create p leader ?w1) = x" "consistent x" "gs_groups x p = Some h" "m_memberSlots h = [new_slot leader 0]"
      "m_dbStoreId h \<noteq> 0" "m_groupType h = GROUPTYPE_NORMAL" "others_same p ?w1 x" "gs_world x = gs_world ?w1"
      "\<And>v. GetGroup x v = (if v = ?l then Some p else GetGroup ?w1 v)" "\<And>v. invite_of x v = invite_of ?w1 v"
    using Create_consistent [OF c1 g1 room1 free1] by metis
  let ?m = "map_set (GUID_LOPART (m_guid h)) p (GroupStore x)"
  have eq: "accept_create p leader w = x\<lparr>NextGroupId := NextGroupId x, GroupStore := ?m\<rparr>"
    using x(1,3) by (simp add: accept_create_def AddGroup_def with_group_def)
  have cons: "consistent (accept_create p leader w)" by (rule consistent_registry [OF x(2) eq])
  have h: "gs_groups (accept_create p leader w) p = Some h" using x(3) by (simp add: eq)
  have os: "others_same p w (accept_create p leader w)" using x(7) sel(1) by (simp add: others_same_def eq)
  have "\<not> IsFull h" using x(4,6) by (simp add: IsFull_def isRaidGroup_def group_types group_sizes)
  moreover have "GetGroup (accept_create p leader w) v = GetGroup w v \<and> invite_of (accept_create p leader w) v = invite_of w v" if "v \<noteq> ?l" for v
    using x(9,10) [of v] that sel(4,5) [of v] by (simp add: eq GetGroup_def invite_of_def)
  ultimately show thesis using that [OF cons h os x(4,5)] x(8) sel(2) by (simp add: eq)
qed

definition can_accept :: "player \<Rightarrow> gworld \<Rightarrow> bool" where
  "can_accept me w =
     (case pg_groupInvite (gs_pl w (pl_guid me)) of
        None \<Rightarrow> False
      | Some p \<Rightarrow> (case gs_groups w p of None \<Rightarrow> False | Some g \<Rightarrow> \<not> IsFull g \<and> (IsCreated g \<or> online w (m_leaderGuid g))))"

lemma accept_inv_outcome:
  assumes inv: "group_inv w" and me: "accepts_other me w" and room: "pool_room w"
  shows "group_inv (HandleGroupAcceptOpcode me w) \<and> (can_accept me w \<longrightarrow>
    GetGroup (HandleGroupAcceptOpcode me w) (pl_guid me) = invite_of w (pl_guid me) \<and> invite_of (HandleGroupAcceptOpcode me w) (pl_guid me) = None)"
proof (cases "invite_of w (pl_guid me)")
  case None
  then show ?thesis using inv by (simp add: HandleGroupAcceptOpcode_def invite_of_def can_accept_def)
next
  case (Some p)
  note c = group_invD(1) [OF inv]
  let ?u = "pl_guid me" and ?w1 = "RemoveInvite p (pl_guid me) w"
  obtain g where g: "gs_groups w p = Some g" and free: "ungrouped w ?u" using invited_ungrouped [OF c Some] by auto
  let ?g1 = "g\<lparr>m_invitees := set_erase ?u (m_invitees g)\<rparr>"
  have c1: "consistent ?w1" using RemoveInvite_consistent [OF c g free] Some by blast
  note sel = RemoveInvite_sel [OF g, of ?u]
  have g1: "gs_groups ?w1 p = Some ?g1" using sel(1) by simp
  have free1: "ungrouped ?w1 ?u" "invite_of ?w1 ?u = None" using free sel by (simp_all add: ungrouped_def loaded_def)
  have os: "others_same p w ?w1" by (simp add: others_same_def sel(1))
  have lead: "m_leaderGuid g \<noteq> ?u" using me Some g by (simp add: accepts_other_def invite_of_def)
  note set_g = group_invD(2) [OF inv g]
  have stored: "group_inv ?w1" if "m_dbStoreId g \<noteq> 0"
    using set_g that g1 by (intro group_inv_one [OF inv c1 os]) (auto simp: settled_def)
  have slots: "m_memberSlots ?g1 = m_memberSlots g" "m_leaderGuid ?g1 = m_leaderGuid g" "m_dbStoreId ?g1 = m_dbStoreId g"
      "IsFull ?g1 = IsFull g" "IsCreated ?g1 = IsCreated g"
    by (simp_all add: IsFull_def isRaidGroup_def IsCreated_def GetMembersCount_def)
  have main: "HandleGroupAcceptOpcode me w =
      (if IsFull g then SendPartyResult ?u PARTY_OP_INVITE [] ERR_GROUP_FULL ?w1
       else if \<not> IsCreated g
       then (case find_player ?w1 (m_leaderGuid g) of None \<Rightarrow> RemoveAllInvites p ?w1 | Some leader \<Rightarrow> accept_join p me (accept_create p leader ?w1))
       else accept_join p me ?w1)"
    using Some g1 lead slots unfolding HandleGroupAcceptOpcode_def by (simp add: invite_of_def with_group_def Let_def)
  have can: "can_accept me w \<longleftrightarrow> \<not> IsFull g \<and> (IsCreated g \<or> find_player ?w1 (m_leaderGuid g) \<noteq> None)"
    using Some g sel(2) by (simp add: can_accept_def invite_of_def find_player_def)
  have finish: "group_inv x" if "consistent x" "others_same p w x" "gs_groups x p = Some h" "settled h" for x h
    using that(3,4) by (intro group_inv_one [OF inv that(1,2)]) simp
  consider "IsFull g" | "\<not> IsFull g" "\<not> IsCreated g" "find_player ?w1 (m_leaderGuid g) = None"
    | leader where "\<not> IsFull g" "\<not> IsCreated g" "find_player ?w1 (m_leaderGuid g) = Some leader" | "\<not> IsFull g" "IsCreated g"
    by (cases "find_player ?w1 (m_leaderGuid g)") auto
  then show ?thesis
  proof cases
    case 1
    then have "m_memberSlots g \<noteq> []" by (auto simp: IsFull_def group_sizes split: if_splits)
    then have "m_dbStoreId g \<noteq> 0" using consistentD(6) [OF c g] by (auto simp: each_group_ok_def stored_ok_def)
    then show ?thesis using main 1 stored can by (simp add: SendPartyResult_inv)
  next
    case 2
    then have w': "HandleGroupAcceptOpcode me w = RemoveAllInvites p ?w1" using main by simp
    have "m_dbStoreId g = 0" using 2(2) not_created [OF set_g] by simp
    then have "group_inv (RemoveAllInvites p ?w1)"
      using os by (intro finish [OF RemoveAllInvites_consistent [OF c1 g1]]) (auto simp: others_same_def RemoveAllInvites_eq [OF g1] settled_def)
    then show ?thesis using w' can 2 by simp
  next
    case 3
    have id: "m_dbStoreId g = 0" using 3(2) not_created [OF set_g] by simp
    have pl: "pl_guid leader = m_leaderGuid g" using find_player_loaded [OF 3(3)] by simp
    have "?u \<in> set (m_invitees g)" using invited_all [OF c g] Some by simp
    then have "m_leaderGuid g \<in> set (m_invitees g)" using set_g id by (auto simp: settled_def)
    then have li: "invite_of ?w1 (pl_guid leader) = Some p" using invited_all [OF c g] sel(5) pl lead by simp
    have id1: "m_dbStoreId ?g1 = 0" using id by simp
    have room1: "pool_room ?w1" using room sel(7) by (simp add: pool_room_def)
    obtain h where y: "consistent (accept_create p leader ?w1)" "gs_groups (accept_create p leader ?w1) p = Some h"
        "others_same p ?w1 (accept_create p leader ?w1)" "m_memberSlots h = [new_slot leader 0]" "m_dbStoreId h \<noteq> 0" "\<not> IsFull h"
        "gs_world (accept_create p leader ?w1) = gs_world ?w1"
        "\<And>v. v \<noteq> pl_guid leader \<Longrightarrow> GetGroup (accept_create p leader ?w1) v = GetGroup ?w1 v \<and> invite_of (accept_create p leader ?w1) v = invite_of ?w1 v"
      by (rule accept_create_consistent [OF c1 g1 id1 room1 li]) blast
    have ul: "?u \<noteq> pl_guid leader" using pl lead by simp
    have free2: "ungrouped (accept_create p leader ?w1) ?u" "invite_of (accept_create p leader ?w1) ?u = None"
      using free1 y(7) y(8) [OF ul] by (simp_all add: ungrouped_def loaded_def)
    obtain h' where z: "consistent (accept_join p me (accept_create p leader ?w1))" "gs_groups (accept_join p me (accept_create p leader ?w1)) p = Some h'"
        "others_same p (accept_create p leader ?w1) (accept_join p me (accept_create p leader ?w1))"
        "length (m_memberSlots h') = Suc (length (m_memberSlots h))" "m_dbStoreId h' = m_dbStoreId h"
        "GetGroup (accept_join p me (accept_create p leader ?w1)) ?u = Some p" "invite_of (accept_join p me (accept_create p leader ?w1)) ?u = None"
      by (rule accept_join_consistent [OF y(1,2,5,6) free2]) blast
    have "settled h'" using z(4,5) y(4,5) by (simp add: settled_def)
    then have "group_inv (accept_join p me (accept_create p leader ?w1))"
      by (rule finish [OF z(1) others_same_trans [OF others_same_trans [OF os y(3)] z(3)] z(2)])
    then show ?thesis using main 3 z(6,7) Some by simp
  next
    case 4
    then have ne: "m_memberSlots g \<noteq> []" using not_created(1) [OF set_g] by blast
    then have id: "m_dbStoreId ?g1 \<noteq> 0" using consistentD(6) [OF c g] by (auto simp: each_group_ok_def stored_ok_def)
    have "\<not> IsFull ?g1" using 4 slots by simp
    then obtain h where z: "consistent (accept_join p me ?w1)" "gs_groups (accept_join p me ?w1) p = Some h" "others_same p ?w1 (accept_join p me ?w1)"
        "length (m_memberSlots h) = Suc (length (m_memberSlots ?g1))" "m_dbStoreId h = m_dbStoreId ?g1"
        "GetGroup (accept_join p me ?w1) ?u = Some p" "invite_of (accept_join p me ?w1) ?u = None"
      by (rule accept_join_consistent [OF c1 g1 id _ free1]) blast+
    have "settled h" using z(4,5) ne id by (cases "m_memberSlots g") (auto simp: settled_def)
    then have "group_inv (accept_join p me ?w1)" by (rule finish [OF z(1) others_same_trans [OF os z(3)] z(2)])
    then show ?thesis using main 4 z(6,7) Some by simp
  qed
qed

lemma accept_inv: "group_inv w \<Longrightarrow> accepts_other me w \<Longrightarrow> pool_room w \<Longrightarrow> group_inv (HandleGroupAcceptOpcode me w)"
  using accept_inv_outcome by blast

lemma decline_inv: "group_inv w \<Longrightarrow> group_inv (HandleGroupDeclineOpcode me w)"
  using UninviteFromGroup_inv(1) [of w] invited_ungrouped [of w "pl_guid me"] group_invD(1) [of w]
  by (auto simp: HandleGroupDeclineOpcode_def with_group_def invite_of_def Let_def group_inv_send split: option.split)

end
