(* ===== verification/Group_Lead.thy ===== *)
theory Group_Lead
  imports Group_Answer
begin

text \<open>
  The handlers that remove members, hand over the lead, change the loot rules or only pass on messages keep the invariant.
\<close>

section \<open>Removing members\<close>

lemma kick_inv:
  assumes "group_inv w" "gs_groups w p = Some g" "IsMember g u"
  shows "group_inv (kick_member me p u reason w)"
  using RemoveFromGroup_inv(1) [OF assms] group_inv_act [OF assms(1)] by (simp add: kick_member_def)

lemma with_own_group:
  assumes "group_inv w" "GetGroup w u = Some p" "\<And>g. gs_groups w p = Some g \<Longrightarrow> IsMember g u \<Longrightarrow> group_inv (f g)"
  shows "group_inv (with_group p w f)"
proof -
  obtain g where "gs_groups w p = Some g" "IsMember g u" using GetGroup_member [OF group_invD(1) [OF assms(1)] assms(2)] by blast
  then show ?thesis using assms(3) by (simp add: with_group_def)
qed

lemma uninvite_guid_inv:
  assumes inv: "group_inv w"
  shows "group_inv (HandleGroupUninviteGuidOpcode me u reason w)"
proof (cases "u = pl_guid me \<or> CanUninviteFromGroup w (pl_guid me) \<noteq> ERR_PARTY_RESULT_OK \<or> GetGroup w (pl_guid me) = None")
  case True
  then show ?thesis using inv by (auto simp: HandleGroupUninviteGuidOpcode_def Let_def SendPartyResult_inv split: option.split)
next
  case False
  then obtain p where p: "GetGroup w (pl_guid me) = Some p" by auto
  have "group_inv (if IsLeader g u then SendPartyResult (pl_guid me) PARTY_OP_UNINVITE [] ERR_NOT_LEADER w
      else if IsMember g u then kick_member (pl_guid me) p u reason w
      else if GetInvited g u \<noteq> None then UninviteFromGroup u w
      else SendPartyResult (pl_guid me) PARTY_OP_UNINVITE [] ERR_TARGET_NOT_IN_GROUP_S w)" if "gs_groups w p = Some g" for g
    using SendPartyResult_inv [OF inv] kick_inv [OF inv that] UninviteFromGroup_inv(1) [OF inv] by simp
  then show ?thesis
    using False p with_own_group [OF inv p] by (simp add: HandleGroupUninviteGuidOpcode_def Let_def)
qed

lemma GetMemberGUID_member: "GetMemberGUID g n \<noteq> 0 \<Longrightarrow> IsMember g (GetMemberGUID g n)"
  using find_Some_sat [of "\<lambda>s. ms_name s = n" "m_memberSlots g"] GetMemberSlot_None [of g]
  by (fastforce simp: GetMemberGUID_def IsMember_def split: option.splits)

lemma uninvite_name_inv:
  assumes inv: "group_inv w"
  shows "group_inv (HandleGroupUninviteOpcode me n w)"
proof (cases "ge_normalize (gs_env w) n")
  case None
  then show ?thesis using inv by (simp add: HandleGroupUninviteOpcode_def Let_def)
next
  case name: (Some m)
  show ?thesis
  proof (cases "pl_name me = m \<or> CanUninviteFromGroup w (pl_guid me) \<noteq> ERR_PARTY_RESULT_OK \<or> GetGroup w (pl_guid me) = None")
    case True
    then show ?thesis using inv name by (auto simp: HandleGroupUninviteOpcode_def Let_def SendPartyResult_inv split: option.split)
  next
    case False
    then obtain p where p: "GetGroup w (pl_guid me) = Some p" by auto
    have "group_inv (if GetMemberGUID g m \<noteq> 0 then kick_member (pl_guid me) p (GetMemberGUID g m) [] w
        else case GetInvited_name w g m of Some i \<Rightarrow> UninviteFromGroup i w
             | None \<Rightarrow> SendPartyResult (pl_guid me) PARTY_OP_UNINVITE m ERR_TARGET_NOT_IN_GROUP_S w)" if "gs_groups w p = Some g" for g
      using SendPartyResult_inv [OF inv] kick_inv [OF inv that GetMemberGUID_member] UninviteFromGroup_inv(1) [OF inv]
      by (simp split: option.split)
    then show ?thesis
      using False name p with_own_group [OF inv p] by (simp add: HandleGroupUninviteOpcode_def Let_def)
  qed
qed

lemma leave_inv:
  assumes inv: "group_inv w"
  shows "group_inv (HandleGroupDisbandOpcode me w)"
proof (cases "GetGroup w (pl_guid me)")
  case None
  then show ?thesis using inv by (simp add: HandleGroupDisbandOpcode_def Let_def)
next
  case (Some p)
  let ?w1 = "SendPartyResult (pl_guid me) PARTY_OP_LEAVE (pl_name me) ERR_PARTY_RESULT_OK w"
  have inv1: "group_inv ?w1" by (rule SendPartyResult_inv [OF inv])
  have p1: "GetGroup ?w1 (pl_guid me) = Some p" using Some by (simp add: SendPartyResult_def send_def act_def GetGroup_def)
  then obtain g where "gs_groups ?w1 p = Some g" "IsMember g (pl_guid me)" using GetGroup_member [OF group_invD(1) [OF inv1]] by blast
  then show ?thesis
    using Some p1 RemoveFromGroup_inv(1) [OF inv1] SendPartyResult_inv [OF inv] by (simp add: HandleGroupDisbandOpcode_def Let_def)
qed

section \<open>Lead and loot rules\<close>

lemma my_group_inv:
  assumes "group_inv w" "\<And>p g. GetGroup w (pl_guid me) = Some p \<Longrightarrow> gs_groups w p = Some g \<Longrightarrow> IsMember g (pl_guid me) \<Longrightarrow> group_inv (f p g)"
  shows "group_inv (my_group me w f)"
  using assms with_own_group [OF assms(1), of "pl_guid me"] by (simp add: my_group_def split: option.split)

lemma SendUpdate_inv: "group_inv w \<Longrightarrow> gs_groups w p \<noteq> None \<Longrightarrow> group_inv (SendUpdate p w)"
  by (rule group_inv_core) (simp_all add: core_simps sane_intros group_invD)

lemma BroadcastPacket_inv: "group_inv w \<Longrightarrow> gs_groups w p \<noteq> None \<Longrightarrow> group_inv (BroadcastPacket p pkt i s u w)"
  by (rule group_inv_core) (simp_all add: core_simps sane_intros group_invD)

lemma set_leader_inv:
  assumes inv: "group_inv w"
  shows "group_inv (HandleGroupSetLeaderOpcode me u w)"
  unfolding HandleGroupSetLeaderOpcode_def
proof (rule my_group_inv [OF inv])
  fix p g assume p: "GetGroup w (pl_guid me) = Some p" and g: "gs_groups w p = Some g"
  note c = group_invD(1) [OF inv]
  have "group_inv (SendUpdate p (ChangeLeader p u w))" if pl: "find_player w u = Some pl" and u: "GetGroup w u = Some p" for pl
  proof -
    obtain s where s: "GetMemberSlot g u = Some s" using GetGroup_member [OF c u] g by (auto simp: IsMember_def)
    note core = ChangeLeader_core(1) [OF c g s pl]
    have alive: "gs_groups (ChangeLeader p u w) p \<noteq> None" using core_group_iff [OF core, of p] by simp
    obtain h where h: "gs_groups (ChangeLeader p u w) p = Some h" "gcore h = gcore (led_by pl g)" using core_group [OF core, of p] by auto
    have id: "m_dbStoreId g \<noteq> 0" using grouped_stored [OF c p] g by auto
    have "length (m_memberSlots (led_by pl g)) = length (m_memberSlots g)" using arg_cong [OF places_led_by [of pl g], of length] by simp
    then have "settled h" using gcore_eqD [OF h(2)] group_invD(2) [OF inv g] id by (simp add: settled_def)
    moreover have "others_same p w (ChangeLeader p u w)" by (rule others_same_core [OF core]) (simp add: others_same_def)
    ultimately have "group_inv (ChangeLeader p u w)" using h(1) by (intro group_inv_one [OF inv ChangeLeader_consistent [OF c g s pl], where p = p]) simp_all
    then show ?thesis using alive by (rule SendUpdate_inv)
  qed
  then show "group_inv (if find_player w u = None then w
      else if \<not> IsLeader g (pl_guid me) \<or> GetGroup w u \<noteq> Some p then w else SendUpdate p (ChangeLeader p u w))"
    using inv by (cases "find_player w u") simp_all
qed

lemma loot_method_inv:
  assumes inv: "group_inv w"
  shows "group_inv (HandleLootMethodOpcode me m u t w)"
  unfolding HandleLootMethodOpcode_def
proof (rule my_group_inv [OF inv])
  fix p g assume g: "gs_groups w p = Some g"
  let ?x = "SetLootThreshold p t (SetLooterGuid p u (SetLootMethod p m w))"
  have "?x = modg p (\<lambda>g. g\<lparr>m_lootMethod := m, m_looterGuid := u, m_lootThreshold := t\<rparr>) w"
    using g by (simp add: SetLootThreshold_def SetLooterGuid_def SetLootMethod_def modg_def with_group_def)
  moreover have "core (modg p (\<lambda>g. g\<lparr>m_lootMethod := m, m_looterGuid := u, m_lootThreshold := t\<rparr>) w) = core w"
    by (rule core_modg [OF g]) (simp add: gcore_def)
  ultimately have x: "core ?x = core w" "sane ?x" using group_invD(4) [OF inv] by (auto intro: sane_modg_fields)
  have "gs_groups ?x p \<noteq> None" using core_group_iff [OF x(1), of p] g by simp
  then have "group_inv (SendUpdate p ?x)" using group_inv_core [OF inv x] by (intro SendUpdate_inv)
  then show "group_inv (if \<not> IsLeader g (pl_guid me) then w else SendUpdate p ?x)" using inv by simp
qed

lemma opt_out_inv:
  assumes inv: "group_inv w"
  shows "group_inv (HandleOptOutOfLootOpcode me b w)"
  unfolding HandleOptOutOfLootOpcode_def
  by (rule group_inv_core [OF inv]) (auto simp: pcore_def group_invD(4) [OF inv] intro!: core_modp sane_intros)

section \<open>Messages\<close>

lemma random_roll_inv:
  assumes inv: "group_inv w"
  shows "group_inv (HandleRandomRollOpcode me lo hi w)"
proof -
  obtain r w1 where u: "urand lo hi w = (r, w1)" by fastforce
  have w1: "w1 = w\<lparr>gs_draws := Suc (gs_draws w)\<rparr>" using u by (simp add: urand_def)
  have "core w1 = core w" "sane w1" using group_invD(4) [OF inv] by (simp_all add: w1 core_def sane_def)
  then have inv1: "group_inv w1" by (rule group_inv_core [OF inv])
  have "group_inv (BroadcastPacket p pkt False None 0 w1)" if "GetGroup w1 (pl_guid me) = Some p" for p pkt
    using BroadcastPacket_inv [OF inv1] GetGroup_member [OF group_invD(1) [OF inv1] that] by (metis option.distinct(1))
  then show ?thesis
    using inv inv1 by (auto simp: HandleRandomRollOpcode_def u Let_def group_inv_send split: option.split)
qed

lemma ready_check_inv:
  assumes inv: "group_inv w"
  shows "group_inv (HandleRaidReadyCheckOpcode me a w)"
  unfolding HandleRaidReadyCheckOpcode_def
proof (rule my_group_inv [OF inv])
  fix p g assume g: "gs_groups w p = Some g"
  let ?b = "BroadcastPacket p (stream [FU64 (pl_guid me)] (WorldPacket MSG_RAID_READY_CHECK)) False None 0 w"
  have a: "gs_groups w p \<noteq> None" using g by simp
  have b: "core ?b = core w" "group_inv ?b" using core_BroadcastPacket [OF a] BroadcastPacket_inv [OF inv a] by simp_all
  have ab: "gs_groups ?b p \<noteq> None" using core_group_iff [OF b(1), of p] g by simp
  have ready: "sane (BroadcastReadyCheck p pkt x)" if "sane x" for pkt x
    using that unfolding BroadcastReadyCheck_def by (rule sane_with_fold) (auto intro: sane_simple)
  have "sane (OfflineReadyCheck p ?b)"
    unfolding OfflineReadyCheck_def by (rule sane_with_fold) (use group_invD(4) [OF b(2)] in \<open>auto intro: ready\<close>)
  then have "group_inv (OfflineReadyCheck p ?b)" by (rule group_inv_core [OF b(2) core_OfflineReadyCheck [OF ab]])
  moreover have "group_inv (BroadcastReadyCheck p pkt w)" for pkt
    by (rule group_inv_core [OF inv core_BroadcastReadyCheck [OF a] ready [OF group_invD(4) [OF inv]]])
  ultimately show "group_inv (case a of None \<Rightarrow> if \<not> leads g me then w else OfflineReadyCheck p ?b
      | Some state \<Rightarrow> BroadcastReadyCheck p (stream [FU64 (pl_guid me), FU8 state] (WorldPacket MSG_RAID_READY_CHECK_CONFIRM)) w)"
    using inv by (simp split: option.split)
qed

end
