(* ===== verification/Group_Slots.thy ===== *)
theory Group_Slots
  imports Group_Lead
begin

text \<open>
  Target icons and the conversion to a raid keep the invariant; the counters of a new raid count its members.
\<close>

section \<open>Target icons\<close>

definition with_icons :: "gptr \<Rightarrow> group \<Rightarrow> u64 list \<Rightarrow> gworld \<Rightarrow> gworld" where
  "with_icons p g ic w = w\<lparr>gs_groups := (gs_groups w)(p \<mapsto> g\<lparr>m_targetIcons := ic\<rparr>), gs_db := gs_db w\<rparr>"

lemma put_icon_core:
  assumes x: "core x = core (with_icons p g ic w)" "sane x"
  shows "\<exists>ic'. core (put_icon p i a b x) = core (with_icons p g ic' w) \<and> sane (put_icon p i a b x)"
proof -
  obtain h where h: "gs_groups x p = Some h" "gcore h = gcore (g\<lparr>m_targetIcons := ic\<rparr>)" using core_group [OF x(1), of p] by (auto simp: with_icons_def)
  let ?f = "\<lambda>h. h\<lparr>m_targetIcons := (m_targetIcons h)[unat i := b]\<rparr>" and ?ic = "ic[unat i := b]"
  have "core (modg p ?f x) = modg p ?f (core x)" by (rule core_modg_eq) (simp add: gcore_def)
  also have "\<dots> = core (modg p ?f (with_icons p g ic w))" unfolding x(1) by (rule core_modg_eq [symmetric]) (simp add: gcore_def)
  also have "modg p ?f (with_icons p g ic w) = with_icons p g ?ic w" by (simp add: modg_def with_group_def with_icons_def)
  finally have m: "core (modg p ?f x) = core (with_icons p g ?ic w)" .
  have alive: "gs_groups (modg p ?f x) p \<noteq> None" using core_group_iff [OF m, of p] by (simp add: with_icons_def)
  have "core (put_icon p i a b x) = core (with_icons p g ?ic w)" unfolding put_icon_def core_BroadcastPacket [OF alive] m ..
  moreover have "sane (put_icon p i a b x)" unfolding put_icon_def using x(2) by (auto intro!: sane_broadcasts sane_modg_fields)
  ultimately show ?thesis by blast
qed

lemma clean_icons_core:
  assumes "core x = core (with_icons p g ic w)" "sane x"
  shows "\<exists>ic'. core (fold (clean_icon p t) is x) = core (with_icons p g ic' w) \<and> sane (fold (clean_icon p t) is x)"
  using assms
proof (induction "is" arbitrary: x ic)
  case (Cons i "is")
  obtain h where h: "gs_groups x p = Some h" using core_group [OF Cons.prems(1), of p] by (auto simp: with_icons_def)
  have "clean_icon p t i x = (if m_targetIcons h ! i = t then put_icon p (of_nat i) 0 0 x else x)" using h by (simp add: clean_icon_def with_group_def)
  then have "\<exists>ic'. core (clean_icon p t i x) = core (with_icons p g ic' w) \<and> sane (clean_icon p t i x)"
    using put_icon_core [OF Cons.prems, of "of_nat i" 0 0] Cons.prems by (cases "m_targetIcons h ! i = t") auto
  then obtain ic' where "core (clean_icon p t i x) = core (with_icons p g ic' w)" "sane (clean_icon p t i x)" by blast
  then show ?case using Cons.IH by simp
qed auto

lemma SetTargetIcon_inv:
  assumes inv: "group_inv w" and g: "gs_groups w p = Some g"
  shows "group_inv (SetTargetIcon p i a b w)"
proof (cases "unat i \<ge> TARGETICONCOUNT")
  case True
  then show ?thesis using inv by (simp add: SetTargetIcon_def)
next
  case False
  note c = group_invD(1) [OF inv]
  have "with_icons p g (m_targetIcons g) w = w" using g by (simp add: with_icons_def fun_upd_idem)
  then have start: "core w = core (with_icons p g (m_targetIcons g) w)" "sane w" using group_invD(4) [OF inv] by simp_all
  obtain ic1 where ic1: "core (if b \<noteq> 0 then fold (clean_icon p b) [0..<TARGETICONCOUNT] w else w) = core (with_icons p g ic1 w)"
      "sane (if b \<noteq> 0 then fold (clean_icon p b) [0..<TARGETICONCOUNT] w else w)"
    using clean_icons_core [OF start, of b "[0..<TARGETICONCOUNT]"] start by (cases "b = 0") auto
  obtain ic where ic: "core (SetTargetIcon p i a b w) = core (with_icons p g ic w)" "sane (SetTargetIcon p i a b w)"
    using put_icon_core [OF ic1, of i a b] False by (auto simp: SetTargetIcon_def)
  let ?g' = "g\<lparr>m_targetIcons := ic\<rparr>"
  have ok: "group_ok ?g'" "group_fine ?g'"
    using group_ok_places [OF group_invD(3) [OF inv g], of ?g'] sane_group [OF start(2) g] by (simp_all add: group_fine_def)
  have cons: "consistent (SetTargetIcon p i a b w)"
    by (rule local_op_quiet [OF c g ic [unfolded with_icons_def]]) (use ok in simp_all)
  show ?thesis
  proof (rule group_inv_one [OF inv cons])
    show "others_same p w (SetTargetIcon p i a b w)" by (rule others_same_core [OF ic(1)]) (simp add: others_same_def with_icons_def)
    show "settled h" if h: "gs_groups (SetTargetIcon p i a b w) p = Some h" for h
    proof -
      obtain k where "gs_groups (SetTargetIcon p i a b w) p = Some k" "gcore k = gcore ?g'"
        using core_group [OF ic(1), of p] by (auto simp: with_icons_def)
      then show ?thesis using h settled_gcore [of k ?g'] group_invD(2) [OF inv g] by (simp add: settled_def)
    qed
  qed
qed

lemma target_update_inv:
  assumes inv: "group_inv w"
  shows "group_inv (HandleRaidTargetUpdateOpcode me x u w)"
  unfolding HandleRaidTargetUpdateOpcode_def
proof (rule my_group_inv [OF inv])
  fix p g assume g: "gs_groups w p = Some g"
  then show "group_inv (if x = 0xFF then SendTargetIconList p (pl_guid me) w else if \<not> leads g me then w else SetTargetIcon p x (pl_guid me) u w)"
    using inv SetTargetIcon_inv [OF inv g] by (simp add: SendTargetIconList_def with_group_def group_inv_send)
qed

section \<open>A party becomes a raid\<close>

definition count_members :: "u8 list \<Rightarrow> member_slot list \<Rightarrow> u8 list" where
  "count_members c ss = fold (\<lambda>s c. c[unat (ms_group s) := c ! unat (ms_group s) + 1]) ss c"

lemma count_members_ok:
  assumes "length c = MAX_RAID_SUBGROUPS" "\<forall>s \<in> set ss. unat (ms_group s) < MAX_RAID_SUBGROUPS"
    "\<And>i. i < MAX_RAID_SUBGROUPS \<Longrightarrow> unat (c ! i) + sub_count ss i < 255"
  shows "length (count_members c ss) = MAX_RAID_SUBGROUPS \<and> (\<forall>i < MAX_RAID_SUBGROUPS. unat (count_members c ss ! i) = unat (c ! i) + sub_count ss i)"
  using assms
proof (induction ss arbitrary: c)
  case (Cons s ss)
  let ?n = "unat (ms_group s)" and ?c = "c[unat (ms_group s) := c ! unat (ms_group s) + 1]"
  have n: "?n < MAX_RAID_SUBGROUPS" using Cons.prems(2) by simp
  have cons: "sub_count (s # ss) i = of_bool (?n = i) + sub_count ss i" for i by (simp add: sub_count_def)
  have "unat (c ! ?n + 1) = Suc (unat (c ! ?n))" using Cons.prems(3) [OF n] by (intro suc_u8) (simp add: cons)
  then have c: "unat (?c ! i) = unat (c ! i) + of_bool (?n = i)" if "i < MAX_RAID_SUBGROUPS" for i
    using that n Cons.prems(1) by (cases "?n = i") auto
  have "length ?c = MAX_RAID_SUBGROUPS" using Cons.prems(1) by simp
  moreover have "unat (?c ! i) + sub_count ss i < 255" if "i < MAX_RAID_SUBGROUPS" for i using Cons.prems(3) [OF that] c [OF that] cons [of i] by simp
  ultimately show ?case
    using Cons.IH [of ?c] Cons.prems(2) c cons by (simp add: count_members_def)
qed (simp add: count_members_def sub_count_def)

lemma count_fold_eq:
  assumes "gs_groups w p = Some g" "m_subGroupsCounts g = Some c" "\<forall>s \<in> set ss. unat (ms_group s) < length c"
  shows "fold (\<lambda>s. SubGroupCounterIncrease p (ms_group s)) ss w
     = w\<lparr>gs_groups := (gs_groups w)(p \<mapsto> g\<lparr>m_subGroupsCounts := Some (count_members c ss)\<rparr>)\<rparr>"
  using assms
proof (induction ss arbitrary: w g c)
  case Nil
  then have "g\<lparr>m_subGroupsCounts := Some c\<rparr> = g" by (cases g) simp
  then show ?case using Nil by (simp add: count_members_def fun_upd_idem)
next
  case (Cons s ss)
  let ?c = "c[unat (ms_group s) := c ! unat (ms_group s) + 1]"
  let ?g = "g\<lparr>m_subGroupsCounts := Some ?c\<rparr>" and ?w = "SubGroupCounterIncrease p (ms_group s) w"
  have w: "?w = w\<lparr>gs_groups := (gs_groups w)(p \<mapsto> ?g)\<rparr>"
    using Cons.prems by (simp add: SubGroupCounterIncrease_def count_change_def with_group_def modg_def)
  have "gs_groups ?w p = Some ?g" "m_subGroupsCounts ?g = Some ?c" "\<forall>s \<in> set ss. unat (ms_group s) < length ?c" using Cons.prems(3) by (simp_all add: w)
  note IH = Cons.IH [OF this]
  have "count_members ?c ss = count_members c (s # ss)" by (simp add: count_members_def)
  moreover have "?w\<lparr>gs_groups := (gs_groups ?w)(p \<mapsto> ?g\<lparr>m_subGroupsCounts := x\<rparr>)\<rparr> = w\<lparr>gs_groups := (gs_groups w)(p \<mapsto> g\<lparr>m_subGroupsCounts := x\<rparr>)\<rparr>" for x
    by (simp add: w)
  ultimately show ?case unfolding fold_Cons comp_apply IH by (simp only:)
qed

definition raided :: "group \<Rightarrow> group" where
  "raided g = g\<lparr>m_groupType := GROUPTYPE_RAID, m_subGroupsCounts := Some (count_members (replicate MAX_RAID_SUBGROUPS 0) (m_memberSlots g))\<rparr>"

lemma raided_sel [simp]:
  "m_memberSlots (raided g) = m_memberSlots g" "m_memberMgr (raided g) = m_memberMgr g" "m_invitees (raided g) = m_invitees g"
  "m_dbStoreId (raided g) = m_dbStoreId g" "m_leaderGuid (raided g) = m_leaderGuid g" "m_groupType (raided g) = GROUPTYPE_RAID"
  "m_bgGroup (raided g) = m_bgGroup g" "m_bfGroup (raided g) = m_bfGroup g" "group_fine (raided g) = group_fine g"
  by (simp_all add: raided_def group_fine_def)

lemma small_subgroups:
  assumes g: "group_ok g"
  shows "\<forall>s \<in> set (m_memberSlots g). unat (ms_group s) < MAX_RAID_SUBGROUPS" "i < MAX_RAID_SUBGROUPS \<Longrightarrow> sub_count (m_memberSlots g) i \<le> MAXGROUPSIZE"
proof -
  show "\<forall>s \<in> set (m_memberSlots g). unat (ms_group s) < MAX_RAID_SUBGROUPS"
    using g by (auto simp: group_ok_def counts_ok_def group_sizes split: if_splits)
  have "sub_count (m_memberSlots g) i \<le> length (m_memberSlots g)" by (simp add: sub_count_def)
  then show "i < MAX_RAID_SUBGROUPS \<Longrightarrow> sub_count (m_memberSlots g) i \<le> MAXGROUPSIZE"
    using g by (auto simp: group_ok_def counts_ok_def split: if_splits)
qed

lemma raided_ok:
  assumes g: "group_ok g"
  shows "group_ok (raided g)"
proof -
  let ?c = "count_members (replicate MAX_RAID_SUBGROUPS 0) (m_memberSlots g)"
  note small = small_subgroups [OF g]
  have "length ?c = MAX_RAID_SUBGROUPS \<and> (\<forall>i < MAX_RAID_SUBGROUPS. unat (?c ! i) = unat (replicate MAX_RAID_SUBGROUPS (0 :: u8) ! i) + sub_count (m_memberSlots g) i)"
  proof (rule count_members_ok [OF _ small(1)])
    show "unat (replicate MAX_RAID_SUBGROUPS (0 :: u8) ! i) + sub_count (m_memberSlots g) i < 255" if "i < MAX_RAID_SUBGROUPS" for i
      using small(2) [OF that] that by (simp add: group_sizes)
  qed simp
  then have "counts_ok (raided g)" using small by (simp add: counts_ok_def isRaidGroup_def group_types) (simp add: raided_def)
  then show ?thesis using g by (simp add: group_ok_def)
qed

lemma exec_type:
  fixes t :: u8
  assumes c: "consistent w" and g: "gs_groups w p = Some g" "m_dbStoreId g \<noteq> 0"
  defines "d \<equiv> exec_group (UPD_GROUP_TYPE t (m_dbStoreId g)) (gs_db w)"
  shows "db_group_member d = member_rows w" "map_wf (db_groups d)" "i \<noteq> m_dbStoreId g \<Longrightarrow> map_find (db_groups d) i = map_find (group_rows w) i"
    "\<exists>r. map_find (db_groups d) (m_dbStoreId g) = Some r \<and> gw_leaderGuid r = GUID_LOPART (m_leaderGuid g) \<and> gw_groupType r = t"
proof -
  obtain r where r: "map_find (group_rows w) (m_dbStoreId g) = Some r" "gw_leaderGuid r = GUID_LOPART (m_leaderGuid g)"
    using consistentD(6) [OF c g(1)] g(2) by (auto simp: each_group_ok_def stored_ok_def)
  then have "db_groups d = map_set (m_dbStoreId g) (r\<lparr>gw_groupType := t\<rparr>) (group_rows w)" by (simp add: d_def upd_row_def)
  then show "map_wf (db_groups d)" "i \<noteq> m_dbStoreId g \<Longrightarrow> map_find (db_groups d) i = map_find (group_rows w) i"
      "\<exists>r. map_find (db_groups d) (m_dbStoreId g) = Some r \<and> gw_leaderGuid r = GUID_LOPART (m_leaderGuid g) \<and> gw_groupType r = t"
    using r(2) consistent_tables [OF c] by (simp_all add: container_simps wf_intros)
  show "db_group_member d = member_rows w" by (simp add: d_def)
qed

lemma raid_fields_eq:
  assumes g: "gs_groups w p = Some g" "group_ok g"
  shows "initRaidSubGroupsCounter p (modg p (\<lambda>g. g\<lparr>m_groupType := m_groupType g OR GROUPTYPE_RAID\<rparr>) w) = w\<lparr>gs_groups := (gs_groups w)(p \<mapsto> raided g)\<rparr>"
proof -
  let ?z = "replicate MAX_RAID_SUBGROUPS (0 :: u8)"
  let ?g1 = "g\<lparr>m_groupType := GROUPTYPE_RAID\<rparr>" and ?g2 = "g\<lparr>m_groupType := GROUPTYPE_RAID, m_subGroupsCounts := Some ?z\<rparr>"
  let ?w2 = "w\<lparr>gs_groups := (gs_groups w)(p \<mapsto> ?g2)\<rparr>"
  have t: "m_groupType g OR GROUPTYPE_RAID = GROUPTYPE_RAID" using g(2) by (auto simp: group_ok_def group_types)
  have w1: "modg p (\<lambda>g. g\<lparr>m_groupType := m_groupType g OR GROUPTYPE_RAID\<rparr>) w = w\<lparr>gs_groups := (gs_groups w)(p \<mapsto> ?g1)\<rparr>"
    using g(1) by (simp add: modg_def with_group_def t)
  have "gs_groups ?w2 p = Some ?g2" "m_subGroupsCounts ?g2 = Some ?z" by simp_all
  moreover have "\<forall>s \<in> set (m_memberSlots g). unat (ms_group s) < length ?z" using small_subgroups(1) [OF g(2)] by simp
  ultimately have "fold (\<lambda>s. SubGroupCounterIncrease p (ms_group s)) (m_memberSlots g) ?w2
      = ?w2\<lparr>gs_groups := (gs_groups ?w2)(p \<mapsto> ?g2\<lparr>m_subGroupsCounts := Some (count_members ?z (m_memberSlots g))\<rparr>)\<rparr>"
    by (rule count_fold_eq)
  moreover have "\<dots> = w\<lparr>gs_groups := (gs_groups w)(p \<mapsto> raided g)\<rparr>" by (simp add: raided_def)
  moreover have "initRaidSubGroupsCounter p (w\<lparr>gs_groups := (gs_groups w)(p \<mapsto> ?g1)\<rparr>) = fold (\<lambda>s. SubGroupCounterIncrease p (ms_group s)) (m_memberSlots g) ?w2"
    by (simp add: initRaidSubGroupsCounter_def with_group_def modg_def)
  ultimately show ?thesis unfolding w1 by simp
qed

lemma ConvertToRaid_inv:
  assumes inv: "group_inv w" and g: "gs_groups w p = Some g" "m_dbStoreId g \<noteq> 0"
  shows "group_inv (ConvertToRaid p w)"
proof -
  note c = group_invD(1) [OF inv] and ok = group_invD(3) [OF inv g(1)]
  define w2 where "w2 = w\<lparr>gs_groups := (gs_groups w)(p \<mapsto> raided g)\<rparr>"
  let ?d = "exec_group (UPD_GROUP_TYPE GROUPTYPE_RAID (m_dbStoreId g)) (gs_db w)"
  let ?y = "w\<lparr>gs_groups := (gs_groups w)(p \<mapsto> raided g), gs_db := ?d\<rparr>"
  have "store_type p w2 = sql (UPD_GROUP_TYPE GROUPTYPE_RAID (m_dbStoreId g)) w2"
    using not_LFG [OF raided_ok [OF ok]] by (simp add: store_type_def with_group_def w2_def)
  then have x3: "core (store_type p w2) = core ?y" by (simp add: core_sql_eq) (simp add: core_def w2_def)
  have "sane w2" using group_invD(4) [OF inv] sane_group [OF group_invD(4) [OF inv] g(1)] by (auto simp: w2_def sane_def)
  then have s3: "sane (store_type p w2)" by (auto simp: store_type_def intro!: sane_with_group sane_simple)
  have a3: "gs_groups (store_type p w2) p \<noteq> None" using core_group_iff [OF x3, of p] by simp
  have a4: "gs_groups (SendUpdate p (store_type p w2)) p \<noteq> None" using core_group_iff [OF core_SendUpdate [OF a3], of p] a3 by simp
  have eq: "ConvertToRaid p w = quest_updates p (SendUpdate p (store_type p w2))"
    using raid_fields_eq [OF g(1) ok] by (simp add: ConvertToRaid_def Let_def w2_def)
  have core: "core (ConvertToRaid p w) = core ?y" unfolding eq core_quest_updates [OF a4] core_SendUpdate [OF a3] by (rule x3)
  have "sane (ConvertToRaid p w)" unfolding eq using s3 by (intro sane_broadcasts sane_SendUpdate)
  then have cons: "consistent (ConvertToRaid p w)"
    by (rule local_op [OF c g(1) core])
      (use exec_type [OF c g, where t = GROUPTYPE_RAID] g(2) raided_ok [OF ok] sane_group [OF group_invD(4) [OF inv] g(1)] in simp_all)
  obtain h where h: "gs_groups (ConvertToRaid p w) p = Some h" "gcore h = gcore (raided g)" using core_group [OF core, of p] by auto
  have "settled h" using settled_gcore [OF h(2)] group_invD(2) [OF inv g(1)] g(2) by (simp add: settled_def)
  moreover have "others_same p w (ConvertToRaid p w)" by (rule others_same_core [OF core]) (simp add: others_same_def)
  ultimately show ?thesis using h(1) by (intro group_inv_one [OF inv cons, where p = p]) simp_all
qed

lemma raid_convert_inv:
  assumes inv: "group_inv w"
  shows "group_inv (HandleGroupRaidConvertOpcode me w)"
  unfolding HandleGroupRaidConvertOpcode_def
proof (rule my_group_inv [OF inv])
  fix p g assume p: "GetGroup w (pl_guid me) = Some p" and g: "gs_groups w p = Some g"
  let ?w1 = "SendPartyResult (pl_guid me) PARTY_OP_INVITE [] ERR_PARTY_RESULT_OK w"
  have "m_dbStoreId g \<noteq> 0" using grouped_stored [OF group_invD(1) [OF inv] p] g by auto
  moreover have "gs_groups ?w1 p = Some g" using g by (simp add: SendPartyResult_def send_def act_def)
  ultimately show "group_inv (if pg_inBattleground (gs_pl w (pl_guid me)) then w
      else if \<not> IsLeader g (pl_guid me) \<or> GetMembersCount g < 2 then w else ConvertToRaid p ?w1)"
    using inv ConvertToRaid_inv [OF SendPartyResult_inv [OF inv]] by simp
qed

end
