(* ===== verification/Group_Subgroups.thy ===== *)
theory Group_Subgroups
  imports Group_Slots
begin

text \<open>
  Operations on one member of a raid keep the invariant: moving the member to another subgroup and setting the member
  flags, which both write the member's slot and row.
\<close>

section \<open>Changing one slot\<close>

definition moved :: "u64 \<Rightarrow> u8 \<Rightarrow> (u64 \<times> u8) list \<Rightarrow> (u64 \<times> u8) list" where
  "moved u sub = map (\<lambda>(v, x). if v = u then (v, sub) else (v, x))"

lemma placesD: "(v, x) \<in> set (places g) \<longleftrightarrow> (\<exists>s \<in> set (m_memberSlots g). ms_guid s = v \<and> ms_group s = x)"
  by auto

lemma slot_op:
  assumes c: "consistent w" and g: "gs_groups w p = Some g" "gs_groups y = (gs_groups w)(p \<mapsto> g')" and s: "GetMemberSlot g u = Some s"
    and others: "\<And>v. v \<noteq> u \<Longrightarrow> gs_pl y v = gs_pl w v"
    and player: "GetGroup y u = GetGroup w u" "GetOriginalGroup y u = GetOriginalGroup w u" "invite_of y u = invite_of w u"
      "GetGroup w u = Some p \<Longrightarrow> subgroup_of y u = sub"
    and same: "gs_world y = gs_world w" "gs_next y = gs_next w" "gs_fault y = gs_fault w" "GroupDbStore y = GroupDbStore w"
      "NextGroupDbStoreId y = NextGroupDbStoreId w" "group_rows y = group_rows w" "sane y"
    and row: "member_rows y = map_set (GUID_LOPART u) r (member_rows w)" "mw_guid r = m_dbStoreId g" "mw_subgroup r = sub"
    and keep: "m_memberMgr g' = m_memberMgr g" "m_invitees g' = m_invitees g" "m_dbStoreId g' = m_dbStoreId g" "m_groupType g' = m_groupType g"
      "m_leaderGuid g' = m_leaderGuid g" "places g' = moved u sub (places g)" "group_ok g'"
  shows "consistent y"
proof -
  note G = consistentD(6) [OF c g(1)]
  have su: "s \<in> set (m_memberSlots g)" "ms_guid s = u" using GetMemberSlot_Some [OF s] by auto
  note ref = member_ref [OF c g(1) su(1), unfolded su(2)]
  have id: "m_dbStoreId g \<noteq> 0" using G stored_rowD(1) [of w p g s] su(1) by (simp add: each_group_ok_def)
  have view: "GetGroup y v = GetGroup w v" "GetOriginalGroup y v = GetOriginalGroup w v" "invite_of y v = invite_of w v" "loaded y v = loaded w v" for v
    using others [of v] player same(1) by (cases "v = u"; simp add: GetGroup_def GetOriginalGroup_def invite_of_def loaded_def)+
  have pool: "GetGroupByDbStoreId y i = GetGroupByDbStoreId w i" for i using same(4) by (simp add: GetGroupByDbStoreId_def)
  have there: "\<exists>s' \<in> set (m_memberSlots g'). ms_guid s' = ms_guid t \<and> ms_group s' = (if ms_guid t = u then sub else ms_group t)"
    if "t \<in> set (m_memberSlots g)" for t
  proof -
    have "(ms_guid t, ms_group t) \<in> set (places g)" using that by auto
    then have "(ms_guid t, if ms_guid t = u then sub else ms_group t) \<in> set (moved u sub (places g))" by (force simp: moved_def)
    then show ?thesis unfolding keep(6) [symmetric] placesD .
  qed
  have orig: "\<exists>t \<in> set (m_memberSlots g). ms_guid t = ms_guid s' \<and> ms_group s' = (if ms_guid s' = u then sub else ms_group t)"
    if "s' \<in> set (m_memberSlots g')" for s'
  proof -
    have "(ms_guid s', ms_group s') \<in> set (places g')" using that by auto
    then obtain x where x: "(ms_guid s', x) \<in> set (places g)" "ms_group s' = (if ms_guid s' = u then sub else x)"
      unfolding keep(6) moved_def set_map by (force split: if_splits)
    then obtain t where "t \<in> set (m_memberSlots g)" "ms_guid t = ms_guid s'" "ms_group t = x" unfolding placesD by blast
    then show ?thesis using x(2) by blast
  qed
  have keyed: "GUID_LOPART (ms_guid t) \<noteq> GUID_LOPART u" if "t \<in> set (m_memberSlots g)" "ms_guid t \<noteq> u" for t
    using lopart_inj [OF member_ref(1) [OF c g(1) that(1)] ref(1)] that(2) by blast
  have "footprint w y p {u}"
  proof (rule footprint_local [OF c g keep(3)])
    show "ms_guid t \<notin> {u}" if "q \<noteq> p" "gs_groups w q = Some h" "t \<in> set (m_memberSlots h)" for q h t
      using one_group [OF c that(2,3) g(1) su(1)] that(1) su(2) by auto
    show "map_wf (member_rows y)" using consistent_tables [OF c] by (simp add: row wf_intros)
    show "\<exists>s' \<in> set (m_memberSlots g'). ms_guid s' = ms_guid t \<and> ms_group s' = ms_group t"
      if "t \<in> set (m_memberSlots g)" "ms_guid t \<notin> {u}" for t
      using there [OF that(1)] that(2) by simp
    show "mw_guid r' = m_dbStoreId g \<and> (\<exists>s' \<in> set (m_memberSlots g'). ms_guid s' = v)"
      if "v \<in> {u}" "map_find (member_rows y) (GUID_LOPART v) = Some r'" for v r'
      using that there [OF su(1)] su(2) row by (auto simp: container_simps)
  qed (use same consistentD(1,3) [OF c] consistent_tables [OF c] ref view others in \<open>auto simp: row container_simps\<close>)
  then show ?thesis
  proof (rule fp_consistent)
    show "each_group_ok y p h" if "gs_groups y p = Some h" for h
    proof -
      have h: "h = g'" using that g(2) by simp
      have "linked_ok y p g'" "invited_ok y p g'" using G view keep by (simp_all add: each_group_ok_def linked_ok_def invited_ok_def)
      moreover have "members_ok y p g'" using G view orig by (fastforce simp: each_group_ok_def members_ok_def)
      moreover have "stored_ok y p g'"
      proof -
        have st: "stored_ok w p g" using G by (simp add: each_group_ok_def)
        have "\<exists>r. map_find (member_rows y) (GUID_LOPART (ms_guid s')) = Some r \<and> mw_guid r = m_dbStoreId g \<and> mw_subgroup r = ms_group s'"
          if s': "s' \<in> set (m_memberSlots g')" for s'
        proof -
          obtain t where t: "t \<in> set (m_memberSlots g)" "ms_guid t = ms_guid s'" "ms_group s' = (if ms_guid s' = u then sub else ms_group t)"
            using orig [OF s'] by blast
          show ?thesis
          proof (cases "ms_guid s' = u")
            case True
            then show ?thesis using t(3) row by (simp add: container_simps)
          next
            case False
            then show ?thesis using stored_rowD(3) [OF st t(1)] keyed [OF t(1)] t(2,3) by (simp add: row(1) container_simps)
          qed
        qed
        then show ?thesis using st id keep same(6) unfolding stored_ok_def by (simp add: pool)
      qed
      ultimately show ?thesis unfolding h using G keep(7) same(2) by (simp add: each_group_ok_def)
    qed
    show "player_ok y v" if "v \<in> {u}" for v
    proof -
      have v: "v = u" using that by simp
      obtain s' where s': "s' \<in> set (m_memberSlots g')" "ms_guid s' = u" "ms_group s' = sub" using there [OF su(1)] su(2) by auto
      have "\<exists>h s. gs_groups y q = Some h \<and> s \<in> set (m_memberSlots h) \<and> ms_guid s = u \<and> ms_group s = subgroup_of y u" if "GetGroup w u = Some q" for q
        using that ref(2) player(4) s' g(2) by auto
      then show ?thesis
        unfolding v using consistentD(5) [OF c, of u] view ref(3) by (auto simp: player_ok_def)
    qed
  qed
qed

lemma places_move:
  assumes "distinct (map ms_guid ss)" "\<And>s. ms_guid (f s) = ms_guid s \<and> ms_group (f s) = sub"
  shows "map (\<lambda>s. (ms_guid s, ms_group s)) (upd_slot u f ss) = moved u sub (map (\<lambda>s. (ms_guid s, ms_group s)) ss)"
  using assms(1)
proof (induction ss)
  case (Cons s ss)
  have "map (\<lambda>s. (ms_guid s, ms_group s)) ss = moved u sub (map (\<lambda>s. (ms_guid s, ms_group s)) ss)" if "ms_guid s = u"
    using Cons.prems that by (force simp: moved_def image_iff)
  then show ?case using Cons assms(2) by (auto simp: moved_def)
qed (simp add: moved_def)

lemma moved_same:
  assumes "distinct (map ms_guid (m_memberSlots g))" "s \<in> set (m_memberSlots g)"
  shows "moved (ms_guid s) (ms_group s) (places g) = places g"
proof -
  have "(if ms_guid t = ms_guid s then (ms_guid t, ms_group s) else (ms_guid t, ms_group t)) = (ms_guid t, ms_group t)"
    if "t \<in> set (m_memberSlots g)" for t
    using assms that by (auto simp: distinct_map dest: inj_onD)
  then show ?thesis by (simp add: moved_def)
qed

lemma sub_count_move:
  assumes "find (\<lambda>s. ms_guid s = u) ss = Some s"
  shows "sub_count (upd_slot u (\<lambda>s. s\<lparr>ms_group := sub\<rparr>) ss) i + of_bool (i = unat (ms_group s)) = sub_count ss i + of_bool (i = unat sub)"
  using assms by (induction ss) (auto simp: sub_count_def split: if_splits)

lemma upd_slot_group:
  "\<forall>s \<in> set ss. unat (ms_group s) < n \<Longrightarrow> unat sub < n \<Longrightarrow> \<forall>t \<in> set (upd_slot u (\<lambda>s. s\<lparr>ms_group := sub\<rparr>) ss). unat (ms_group t) < n"
  by (induction ss) auto

lemma upd_slot_guids: "(\<And>s. ms_guid (f s) = ms_guid s) \<Longrightarrow> map ms_guid (upd_slot u f ss) = map ms_guid ss"
  by (induction ss) auto

section \<open>\<^verbatim>\<open>ChangeMembersGroup\<close>\<close>

definition moved_counts :: "u8 \<Rightarrow> u8 \<Rightarrow> u8 list \<Rightarrow> u8 list" where
  "moved_counts prev sub c = (let c1 = c[unat sub := c ! unat sub + 1] in c1[unat prev := c1 ! unat prev - 1])"

definition moved_group :: "u64 \<Rightarrow> u8 \<Rightarrow> u8 \<Rightarrow> u8 list \<Rightarrow> group \<Rightarrow> group" where
  "moved_group u prev sub c g = g\<lparr>m_memberSlots := upd_slot u (\<lambda>s. s\<lparr>ms_group := sub\<rparr>) (m_memberSlots g),
     m_subGroupsCounts := Some (moved_counts prev sub c)\<rparr>"

lemma moved_group_sel [simp]:
  "m_memberMgr (moved_group u prev sub c g) = m_memberMgr g" "m_invitees (moved_group u prev sub c g) = m_invitees g"
  "m_dbStoreId (moved_group u prev sub c g) = m_dbStoreId g" "m_groupType (moved_group u prev sub c g) = m_groupType g"
  "m_leaderGuid (moved_group u prev sub c g) = m_leaderGuid g" "group_fine (moved_group u prev sub c g) = group_fine g"
  "m_bgGroup (moved_group u prev sub c g) = m_bgGroup g" "m_bfGroup (moved_group u prev sub c g) = m_bfGroup g"
  by (simp_all add: moved_group_def group_fine_def)

lemma moved_group_ok:
  assumes g: "group_ok g" "isRaidGroup g" "m_subGroupsCounts g = Some c" and s: "GetMemberSlot g u = Some s"
    and sub: "unat sub < MAX_RAID_SUBGROUPS" "unat (c ! unat sub) < MAXGROUPSIZE" "sub \<noteq> ms_group s"
  shows "group_ok (moved_group u (ms_group s) sub c g)" "places (moved_group u (ms_group s) sub c g) = moved u sub (places g)"
proof -
  let ?g' = "moved_group u (ms_group s) sub c g" and ?ss = "m_memberSlots g" and ?ss' = "upd_slot u (\<lambda>s. s\<lparr>ms_group := sub\<rparr>) (m_memberSlots g)"
  have d: "distinct (map ms_guid ?ss)" using g(1) by (simp add: group_ok_def)
  show pl: "places ?g' = moved u sub (places g)" using places_move [OF d, of "\<lambda>s. s\<lparr>ms_group := sub\<rparr>" sub u] by (simp add: moved_group_def)
  have f: "find (\<lambda>s. ms_guid s = u) ?ss = Some s" using s by (simp add: GetMemberSlot_def)
  have c: "length c = MAX_RAID_SUBGROUPS" "\<And>i. i < MAX_RAID_SUBGROUPS \<Longrightarrow> unat (c ! i) = sub_count ?ss i"
      "\<And>i. i < MAX_RAID_SUBGROUPS \<Longrightarrow> sub_count ?ss i \<le> MAXGROUPSIZE" "\<forall>s \<in> set ?ss. unat (ms_group s) < MAX_RAID_SUBGROUPS"
    using g by (auto simp: group_ok_def counts_ok_def)
  let ?n = "unat sub" and ?m = "unat (ms_group s)"
  have m: "?m < MAX_RAID_SUBGROUPS" using c(4) GetMemberSlot_Some [OF s] by simp
  have ne: "?n \<noteq> ?m" using sub(3) by (simp add: word_unat_eq_iff)
  note cnt = sub_count_move [OF f, of sub]
  have "unat (c ! ?n + 1) = sub_count ?ss' ?n" using c(2) [OF sub(1)] cnt [of ?n] ne suc_u8 [of "c ! ?n"] sub(2) by (simp add: group_sizes)
  moreover have "unat (c ! ?m - 1) = sub_count ?ss' ?m" using c(2) [OF m] cnt [of ?m] ne pred_u8 [of "c ! ?m"] by simp
  ultimately have exact: "unat (moved_counts (ms_group s) sub c ! i) = sub_count ?ss' i" if "i < MAX_RAID_SUBGROUPS" for i
    using that c(1) c(2) [OF that] cnt [of i] ne m sub(1) by (cases "i = ?n"; cases "i = ?m") (auto simp: moved_counts_def Let_def)
  have le: "sub_count ?ss' i \<le> MAXGROUPSIZE" if "i < MAX_RAID_SUBGROUPS" for i
    using cnt [of i] c(3) [OF that] c(2) [OF sub(1)] sub(2) by (cases "i = ?n"; cases "i = ?m") auto
  have small: "\<forall>t \<in> set ?ss'. unat (ms_group t) < MAX_RAID_SUBGROUPS"
    using upd_slot_group [OF c(4) sub(1)] .
  have guids: "map ms_guid ?ss' = map ms_guid ?ss" by (rule upd_slot_guids) simp
  have type: "isRaidGroup ?g'" using g(2) by (simp add: isRaidGroup_def)
  have len: "length (moved_counts (ms_group s) sub c) = MAX_RAID_SUBGROUPS" using c(1) by (simp add: moved_counts_def Let_def)
  have sel: "m_memberSlots ?g' = ?ss'" "m_subGroupsCounts ?g' = Some (moved_counts (ms_group s) sub c)" by (simp_all add: moved_group_def)
  show "group_ok ?g'" using g(1) type exact le small guids len by (simp add: group_ok_def counts_ok_def sel)
qed

text \<open>The subgroup in the player's reference follows the slot, unless the player is loaded but between two maps.\<close>

definition not_between_maps :: "gworld \<Rightarrow> u64 \<Rightarrow> bool" where
  "not_between_maps w u \<longleftrightarrow> loaded w u \<longrightarrow> online w u"

lemma move_inv:
  assumes inv: "group_inv w" and g: "gs_groups w p = Some g" and u: "not_between_maps w u"
    and sub: "unat sub < MAX_RAID_SUBGROUPS" "HasFreeSlotSubGroup g sub"
  shows "group_inv (ChangeMembersGroup p u sub w)"
proof (cases "isRaidGroup g \<and> (\<exists>s. GetMemberSlot g u = Some s \<and> ms_group s \<noteq> sub)")
  case False
  then show ?thesis using inv g by (auto simp: ChangeMembersGroup_def with_group_def Let_def GetMemberGroup_def)
next
  case True
  then obtain s where s: "GetMemberSlot g u = Some s" "ms_group s \<noteq> sub" and raid: "isRaidGroup g" by blast
  note c = group_invD(1) [OF inv] and ok = group_invD(3) [OF inv g]
  have su: "s \<in> set (m_memberSlots g)" "ms_guid s = u" using GetMemberSlot_Some [OF s(1)] by auto
  note ref = member_ref [OF c g su(1), unfolded su(2)]
  obtain cs where cs: "m_subGroupsCounts g = Some cs" "unat (cs ! unat sub) < MAXGROUPSIZE" "length cs = MAX_RAID_SUBGROUPS"
    using sub(2) ok raid by (auto simp: HasFreeSlotSubGroup_def group_ok_def counts_ok_def split: option.splits)
  let ?g' = "moved_group u (ms_group s) sub cs g" and ?s = "UPD_GROUP_MEMBER_SUBGROUP sub (GUID_LOPART u)"
  have m: "unat (ms_group s) < length cs" using counts_index [OF ok su(1) cs(1)] .
  define w2 where "w2 = w\<lparr>gs_groups := (gs_groups w)(p \<mapsto> ?g')\<rparr>"
  define y where "y = (if online w u then ref_setSubGroup u False sub (sql ?s w2) else sql ?s w2)"
  have w2: "SubGroupCounterDecrease p (ms_group s) (SubGroupCounterIncrease p sub (mod_slot p u (\<lambda>s. s\<lparr>ms_group := sub\<rparr>) w)) = w2"
    using g cs m sub(1)
    by (simp add: SubGroupCounterDecrease_def SubGroupCounterIncrease_def count_change_def mod_slot_def modg_def with_group_def w2_def
        moved_group_def moved_counts_def Let_def)
  have on: "online w u \<Longrightarrow> GetGroup w u = Some p" using ref(4) find_player_loaded by auto
  have eq: "ChangeMembersGroup p u sub w = SendUpdate p y"
    using g raid s not_LFG [OF ok] w2 on
    by (auto simp: ChangeMembersGroup_def with_group_def Let_def GetMemberGroup_def y_def find_player_def sql_def act_def w2_def GetGroup_def)
  obtain r where r: "map_find (member_rows w) (GUID_LOPART u) = Some r" "mw_guid r = m_dbStoreId g"
    using stored_rowD(3) [of w p g s] consistentD(6) [OF c g] su by (auto simp: each_group_ok_def)
  have ysel: "gs_groups y = (gs_groups w)(p \<mapsto> ?g')" "gs_world y = gs_world w" "gs_next y = gs_next w" "gs_fault y = gs_fault w"
      "GroupDbStore y = GroupDbStore w" "NextGroupDbStoreId y = NextGroupDbStoreId w" "group_rows y = group_rows w"
      "member_rows y = map_set (GUID_LOPART u) (r\<lparr>mw_subgroup := sub\<rparr>) (member_rows w)" "\<And>v. v \<noteq> u \<Longrightarrow> gs_pl y v = gs_pl w v"
      "GetGroup y u = GetGroup w u" "GetOriginalGroup y u = GetOriginalGroup w u" "invite_of y u = invite_of w u"
    using r(1) by (simp_all add: y_def w2_def ref_setSubGroup_def modp_def sql_def act_def upd_row_def GetGroup_def GetOriginalGroup_def invite_of_def
        ref_upd_def)
  have "subgroup_of y u = sub" if "GetGroup w u = Some p"
  proof -
    have "loaded w u" using consistentD(5) [OF c, of u] that by (simp add: player_ok_def)
    then have "online w u" using u by (simp add: not_between_maps_def)
    then show ?thesis by (simp add: y_def ref_setSubGroup_def modp_def ref_upd_def subgroup_of_def)
  qed
  moreover have "sane w2" using group_invD(4) [OF inv] sane_group [OF group_invD(4) [OF inv] g] by (auto simp: w2_def sane_def)
  then have "sane y" by (auto simp: y_def intro!: sane_intros)
  ultimately have cy: "consistent y"
    using moved_group_ok [OF ok raid cs(1) s(1) sub(1) cs(2) s(2) [symmetric]] r(2)
    by (intro slot_op [OF c g ysel(1) s(1) ysel(9-12) _ ysel(2-7) _ ysel(8)]) simp_all
  have len: "length (m_memberSlots ?g') = length (m_memberSlots g)"
    using arg_cong [OF upd_slot_guids [of "\<lambda>s. s\<lparr>ms_group := sub\<rparr>" u "m_memberSlots g"], of length] by (simp add: moved_group_def)
  have "group_inv y"
    using group_invD(2) [OF inv g] len stored_rowD(1) [of w p g s] consistentD(6) [OF c g] su(1)
    by (intro group_inv_one [OF inv cy, where p = p]) (auto simp: ysel(1) others_same_def settled_def each_group_ok_def)
  then show ?thesis unfolding eq by (rule SendUpdate_inv) (simp add: ysel(1))
qed

definition moves_settled :: "string \<Rightarrow> gworld \<Rightarrow> bool" where
  "moves_settled name w =
     not_between_maps w (case FindPlayerByName (gs_world w) name of Some pl \<Rightarrow> pl_guid pl | None \<Rightarrow> ge_guid_by_name (gs_env w) name)"

lemma subgroup_inv:
  assumes inv: "group_inv w" and ok: "moves_settled name w"
  shows "group_inv (HandleGroupChangeSubGroupOpcode me name n w)"
  unfolding HandleGroupChangeSubGroupOpcode_def
proof (rule my_group_inv [OF inv])
  fix p g assume g: "gs_groups w p = Some g"
  let ?u = "case FindPlayerByName (gs_world w) name of Some pl \<Rightarrow> pl_guid pl | None \<Rightarrow> ge_guid_by_name (gs_env w) name"
  have "group_inv (ChangeMembersGroup p ?u n w)" if "\<not> unat n \<ge> MAX_RAID_SUBGROUPS" "HasFreeSlotSubGroup g n"
    using move_inv [OF inv g, of ?u n] that ok by (simp add: moves_settled_def)
  then show "group_inv (if unat n \<ge> MAX_RAID_SUBGROUPS then w else if \<not> leads g me then w else if \<not> HasFreeSlotSubGroup g n then w
      else let guid = ?u in ChangeMembersGroup p guid n w)"
    using inv by (simp add: Let_def)
qed

section \<open>Member flags\<close>

lemma slots_inv:
  assumes inv: "group_inv w" and g: "gs_groups w p = Some g" and pl: "map (\<lambda>s. (ms_guid s, ms_group s)) ss = places g"
  shows "group_inv (w\<lparr>gs_groups := (gs_groups w)(p \<mapsto> g\<lparr>m_memberSlots := ss\<rparr>)\<rparr>)"
proof -
  let ?g' = "g\<lparr>m_memberSlots := ss\<rparr>" and ?y = "w\<lparr>gs_groups := (gs_groups w)(p \<mapsto> g\<lparr>m_memberSlots := ss\<rparr>)\<rparr>"
  note c = group_invD(1) [OF inv]
  have ok: "group_ok ?g'" "group_fine ?g'"
    using group_ok_places [OF group_invD(3) [OF inv g], of ?g'] sane_group [OF group_invD(4) [OF inv] g] pl by (simp_all add: group_fine_def)
  have sane: "sane ?y" using group_invD(4) [OF inv] ok(2) by (auto simp: sane_def)
  have "core ?y = core (w\<lparr>gs_groups := (gs_groups w)(p \<mapsto> ?g'), gs_db := gs_db w\<rparr>)" by (simp add: core_def)
  then have cons: "consistent ?y"
    using sane by (rule local_op_quiet [OF c g]) (use ok pl in simp_all)
  have "length ss = length (m_memberSlots g)" using arg_cong [OF pl, of length] by simp
  then have "settled ?g'" using group_invD(2) [OF inv g] by (simp add: settled_def)
  then show ?thesis by (intro group_inv_one [OF inv cons, where p = p]) (auto simp: others_same_def)
qed

lemma unique_flag_inv:
  assumes inv: "group_inv w" and g: "gs_groups w p = Some g"
  shows "group_inv (RemoveUniqueGroupMemberFlag p f w)" "gs_groups (RemoveUniqueGroupMemberFlag p f w) p \<noteq> None"
proof -
  let ?h = "\<lambda>s. if has_flag (ms_flags s) f then s\<lparr>ms_flags := ms_flags s AND NOT f\<rparr> else s"
  have eq: "RemoveUniqueGroupMemberFlag p f w = w\<lparr>gs_groups := (gs_groups w)(p \<mapsto> g\<lparr>m_memberSlots := map ?h (m_memberSlots g)\<rparr>)\<rparr>"
    using g by (simp add: RemoveUniqueGroupMemberFlag_def modg_def with_group_def)
  show "group_inv (RemoveUniqueGroupMemberFlag p f w)" unfolding eq by (rule slots_inv [OF inv g]) simp
  show "gs_groups (RemoveUniqueGroupMemberFlag p f w) p \<noteq> None" by (simp add: eq)
qed

lemma find_upd_slot: "(\<And>s. ms_guid (f s) = ms_guid s) \<Longrightarrow> find (\<lambda>s. ms_guid s = u) (upd_slot u f ss) = map_option f (find (\<lambda>s. ms_guid s = u) ss)"
  by (induction ss) auto

lemma flag_row_inv:
  assumes inv: "group_inv w" and g: "gs_groups w p = Some g" and s: "GetMemberSlot g u = Some s"
  shows "group_inv (sql (UPD_GROUP_MEMBER_FLAG f (GUID_LOPART u)) w)"
proof -
  let ?y = "sql (UPD_GROUP_MEMBER_FLAG f (GUID_LOPART u)) w"
  note c = group_invD(1) [OF inv] and ok = group_invD(3) [OF inv g]
  have su: "s \<in> set (m_memberSlots g)" "ms_guid s = u" using GetMemberSlot_Some [OF s] by auto
  have d: "distinct (map ms_guid (m_memberSlots g))" using ok by (simp add: group_ok_def)
  obtain r where r: "map_find (member_rows w) (GUID_LOPART u) = Some r" "mw_guid r = m_dbStoreId g" "mw_subgroup r = ms_group s"
    using stored_rowD(3) [of w p g s] consistentD(6) [OF c g] su by (auto simp: each_group_ok_def)
  have "subgroup_of ?y u = ms_group s" if p: "GetGroup w u = Some p"
  proof -
    obtain t where t: "t \<in> set (m_memberSlots g)" "ms_guid t = u" "ms_group t = subgroup_of w u"
      using consistentD(5) [OF c, of u] p g by (auto simp: player_ok_def)
    then have "t = s" using su d by (auto simp: distinct_map dest: inj_onD)
    then show ?thesis using t(3) by (simp add: sql_def act_def subgroup_of_def)
  qed
  moreover have "places g = moved u (ms_group s) (places g)" using moved_same [OF d su(1)] su(2) by simp
  moreover have "gs_groups ?y = (gs_groups w)(p \<mapsto> g)" using g by (simp add: sql_def act_def fun_upd_idem)
  ultimately have "consistent ?y"
    using r ok group_invD(4) [OF inv]
    by (intro slot_op [OF c g _ s, where r = "r\<lparr>mw_memberFlags := f\<rparr>"])
      (simp_all add: sql_def act_def upd_row_def GetGroup_def GetOriginalGroup_def invite_of_def sane_def)
  then show ?thesis using inv by (simp add: group_inv_def sql_def act_def)
qed

lemma member_flag_inv:
  assumes inv: "group_inv w" and g: "gs_groups w p \<noteq> None"
  shows "group_inv (SetGroupMemberFlag p u apply f w)" "gs_groups (SetGroupMemberFlag p u apply f w) p \<noteq> None"
proof -
  obtain g where g: "gs_groups w p = Some g" using assms(2) by auto
  define w1 where "w1 = (if f = MEMBER_FLAG_ASSISTANT then w else RemoveUniqueGroupMemberFlag p f w)"
  have inv1: "group_inv w1" using inv unique_flag_inv [OF inv g] by (simp add: w1_def)
  have "\<exists>g1. gs_groups w1 p = Some g1 \<and> map ms_guid (m_memberSlots g1) = map ms_guid (m_memberSlots g)"
    using g by (cases "f = MEMBER_FLAG_ASSISTANT") (auto simp: w1_def RemoveUniqueGroupMemberFlag_def modg_def with_group_def)
  then obtain g1 where g1: "gs_groups w1 p = Some g1" "map ms_guid (m_memberSlots g1) = map ms_guid (m_memberSlots g)" by blast
  define w2 where "w2 = ToggleGroupMemberFlag p u f apply w1"
  let ?g2 = "g1\<lparr>m_memberSlots := upd_slot u (ToggleFlag f apply) (m_memberSlots g1)\<rparr>"
  have w2: "w2 = w1\<lparr>gs_groups := (gs_groups w1)(p \<mapsto> ?g2)\<rparr>"
    using g1(1) by (simp add: w2_def ToggleGroupMemberFlag_def mod_slot_def modg_def with_group_def)
  have inv2: "group_inv w2" unfolding w2 by (rule slots_inv [OF inv1 g1(1)]) (simp add: places_upd_slot ToggleFlag_def)
  have g2: "gs_groups w2 p = Some ?g2" by (simp add: w2)
  have mem: "GetMemberSlot g1 u = None \<longleftrightarrow> GetMemberSlot g u = None"
    using arg_cong [OF g1(2), of set] by (simp add: GetMemberSlot_None)
  have slot2: "GetMemberSlot ?g2 u = map_option (ToggleFlag f apply) (GetMemberSlot g1 u)"
    by (simp add: GetMemberSlot_def find_upd_slot ToggleFlag_def)
  define x where "x = with_group p w2 (\<lambda>g2. case GetMemberSlot g2 u of None \<Rightarrow> w2 | Some s \<Rightarrow> sql (UPD_GROUP_MEMBER_FLAG (ms_flags s) (GUID_LOPART u)) w2)"
  have x: "group_inv x" "gs_groups x p \<noteq> None"
    using inv2 flag_row_inv [OF inv2 g2] g2 by (auto simp: x_def with_group_def sql_def act_def split: option.split)
  have wg: "with_group p w F = F g" for F by (simp add: with_group_def g)
  have "SetGroupMemberFlag p u apply f w = w \<or> SetGroupMemberFlag p u apply f w = SendUpdate p x"
    unfolding SetGroupMemberFlag_def wg x_def w2_def w1_def Let_def by simp
  moreover have "gs_groups (SendUpdate p x) p \<noteq> None" using core_group_iff [OF core_SendUpdate [OF x(2)], of p] x(2) by simp
  ultimately show "group_inv (SetGroupMemberFlag p u apply f w)" "gs_groups (SetGroupMemberFlag p u apply f w) p \<noteq> None"
    using inv g SendUpdate_inv [OF x] by auto
qed

lemma assistant_inv:
  assumes inv: "group_inv w"
  shows "group_inv (HandleGroupAssistantLeaderOpcode me u a w)"
  unfolding HandleGroupAssistantLeaderOpcode_def
proof (rule my_group_inv [OF inv])
  fix p g assume "gs_groups w p = Some g"
  then show "group_inv (if \<not> IsLeader g (pl_guid me) then w else SendUpdate p (SetGroupMemberFlag p u a MEMBER_FLAG_ASSISTANT w))"
    using inv SendUpdate_inv [OF member_flag_inv [OF inv]] by simp
qed

lemma assignment_inv:
  assumes inv: "group_inv w"
  shows "group_inv (HandlePartyAssignmentOpcode me k a u w)"
  unfolding HandlePartyAssignmentOpcode_def
proof (rule my_group_inv [OF inv])
  fix p g assume g: "gs_groups w p = Some g"
  have "group_inv (SendUpdate p (SetGroupMemberFlag p u a f (RemoveUniqueGroupMemberFlag p f w)))" for f
    by (rule SendUpdate_inv) (rule member_flag_inv [OF unique_flag_inv [OF inv g]])+
  moreover have "group_inv (SendUpdate p w)" using SendUpdate_inv [OF inv] g by simp
  ultimately show "group_inv (if \<not> leads g me then w else SendUpdate p
      (if k = GROUP_ASSIGN_MAINASSIST then SetGroupMemberFlag p u a MEMBER_FLAG_MAINASSIST (RemoveUniqueGroupMemberFlag p MEMBER_FLAG_MAINASSIST w)
       else if k = GROUP_ASSIGN_MAINTANK then SetGroupMemberFlag p u a MEMBER_FLAG_MAINTANK (RemoveUniqueGroupMemberFlag p MEMBER_FLAG_MAINTANK w)
       else w))"
    using inv by simp
qed

end
