(* ===== verification/Group_Session.thy ===== *)
theory Group_Session
  imports Group_Subgroups
begin

text \<open>
  Login and logout keep the invariant: a player who logs in is linked to the group that the table \<^verbatim>\<open>group_member\<close> names,
  one who logs out gives up the invitation, leaves a party and unlinks from a raid.
\<close>

section \<open>Players without a group come and go\<close>

lemma lone_player_consistent:
  assumes c: "consistent w" and u: "is_player u" "GetGroup w u = None" "invite_of w u = None"
    and alone: "\<And>q h s. gs_groups w q = Some h \<Longrightarrow> s \<in> set (m_memberSlots h) \<Longrightarrow> ms_guid s \<noteq> u"
    and y: "gs_groups y = gs_groups w" "gs_next y = gs_next w" "gs_fault y = gs_fault w" "GroupDbStore y = GroupDbStore w"
      "NextGroupDbStoreId y = NextGroupDbStoreId w" "gs_db y = gs_db w" "sane y" "players_ok (gs_world y)"
    and others: "\<And>v. v \<noteq> u \<Longrightarrow> gs_pl y v = gs_pl w v \<and> loaded y v = loaded w v"
    and player: "GetGroup y u = None" "GetOriginalGroup y u = None" "invite_of y u = None"
  shows "consistent y"
proof -
  let ?p = "gs_next w"
  have none: "gs_groups w ?p = None" using consistentD(6) [OF c, of ?p] by (cases "gs_groups w ?p") (auto simp: each_group_ok_def)
  have ids: "store_ids w y ?p = {}" using none y(1) by (simp add: store_ids_def)
  have pool: "GetGroupByDbStoreId y i = GetGroupByDbStoreId w i" for i using y(4) by (simp add: GetGroupByDbStoreId_def)
  have ok: "pool_ok y" using consistentD(4) [OF c] y by (simp add: tables_ok_def pool_ok_def)
  have norow: "map_find (member_rows w) (GUID_LOPART u) = None"
  proof (rule ccontr)
    assume "map_find (member_rows w) (GUID_LOPART u) \<noteq> None"
    then obtain q h s where s: "gs_groups w q = Some h" "s \<in> set (m_memberSlots h)" "GUID_LOPART (ms_guid s) = GUID_LOPART u"
      using tables_rowD [OF consistentD(4) [OF c]] by blast
    then show False using lopart_inj [OF member_ref(1) [OF c s(1,2)] u(1)] alone by blast
  qed
  have nobody: "invite_of w v \<noteq> Some ?p" for v using consistentD(5) [OF c, of v] none by (auto simp: player_ok_def)
  have "footprint w y ?p {u}"
    unfolding footprint_def
    using c consistentD(1) [OF c] consistent_tables [OF c] y others u alone player none ids pool ok norow nobody by auto
  then show ?thesis
  proof (rule fp_consistent)
    show "player_ok y v" if "v \<in> {u}" for v using that player by (simp add: player_ok_def)
  qed (simp add: y(1) none)
qed

section \<open>Login\<close>

lemma players_ok_cons: "players_ok W \<Longrightarrow> is_player (pl_guid pl) \<Longrightarrow> pl_guid pl \<notin> pl_guid ` set (w_players W) \<Longrightarrow> players_ok (W\<lparr>w_players := pl # w_players W\<rparr>)"
  by (simp add: players_ok_def world_wf_def)

lemma absent_player:
  assumes "consistent w" "\<not> loaded w u"
  shows "GetGroup w u = None" "invite_of w u = None" "GetOriginalGroup w u = None"
  using consistentD(5) [OF assms(1), of u] assms(2) by (cases "GetGroup w u"; cases "invite_of w u"; simp add: player_ok_def)+

definition logged_in :: "gptr \<Rightarrow> player \<Rightarrow> group \<Rightarrow> player_group \<Rightarrow> gworld \<Rightarrow> gworld" where
  "logged_in p pl g d w = w\<lparr>gs_groups := (gs_groups w)(p \<mapsto> g\<lparr>m_memberMgr := (pl_guid pl, False) # m_memberMgr g\<rparr>),
     gs_pl := (gs_pl w)(pl_guid pl := d), gs_log := gs_log w @ [Call (pl_guid pl) UpdateObjectVisibility],
     gs_world := (gs_world w)\<lparr>w_players := pl # w_players (gs_world w)\<rparr>\<rparr>"

lemma logged_in_consistent:
  assumes c: "consistent w" and pl: "is_player (pl_guid pl)" "\<not> loaded w (pl_guid pl)"
    and g: "gs_groups w p = Some g" "s \<in> set (m_memberSlots g)" "ms_guid s = pl_guid pl"
    and d: "player_fine d" "gr_target (pg_originalGroup d) = None" "pg_groupInvite d = None" "pg_group d = \<lparr>gr_target = Some p, gr_subGroup = ms_group s\<rparr>"
  shows "consistent (logged_in p pl g d w)"
proof -
  let ?u = "pl_guid pl" and ?y = "logged_in p pl g d w" and ?g' = "g\<lparr>m_memberMgr := (pl_guid pl, False) # m_memberMgr g\<rparr>"
  note G = consistentD(6) [OF c g(1)] and none = absent_player [OF c pl(2)]
  have groups: "gs_groups ?y = (gs_groups w)(p \<mapsto> ?g')" by (simp add: logged_in_def)
  have view: "GetGroup ?y v = (if v = ?u then Some p else GetGroup w v)" "GetOriginalGroup ?y v = (if v = ?u then None else GetOriginalGroup w v)"
      "invite_of ?y v = (if v = ?u then None else invite_of w v)" "loaded ?y v = (v = ?u \<or> loaded w v)"
      "subgroup_of ?y v = (if v = ?u then ms_group s else subgroup_of w v)" for v
    using d by (auto simp: logged_in_def GetGroup_def GetOriginalGroup_def invite_of_def loaded_def subgroup_of_def)
  have same: "member_rows ?y = member_rows w" "group_rows ?y = group_rows w" "GetGroupByDbStoreId ?y i = GetGroupByDbStoreId w i" for i
    by (simp_all add: logged_in_def GetGroupByDbStoreId_def)
  have sane: "sane ?y"
    using consistentD(2) [OF c] g(1) d(1) by (auto simp: logged_in_def sane_def group_fine_def player_fine_def)
  have world: "players_ok (gs_world ?y)"
    using players_ok_cons [OF consistentD(3) [OF c] pl(1)] pl(2) by (simp add: logged_in_def loaded_def)
  have row: "\<exists>r. map_find (member_rows w) (GUID_LOPART ?u) = Some r \<and> mw_guid r = m_dbStoreId g"
    using stored_rowD(3) [of w p g s] G g(2,3) by (auto simp: each_group_ok_def)
  have "footprint w ?y p {?u}"
  proof (rule footprint_local [OF c g(1) groups])
    show "ms_guid t \<notin> {?u}" if "q \<noteq> p" "gs_groups w q = Some h" "t \<in> set (m_memberSlots h)" for q h t
      using one_group [OF c that(2,3) g(1,2)] that(1) g(3) by auto
  qed (use sane world consistentD(1) [OF c] consistent_tables [OF c] pl none view same row g in \<open>auto simp: logged_in_def loaded_def\<close>)
  then show ?thesis
  proof (rule fp_consistent)
    show "each_group_ok ?y p h" if "gs_groups ?y p = Some h" for h
    proof -
      have h: "h = ?g'" using that groups by simp
      have "group_ok ?g'" using group_ok_places [of g ?g'] G by (simp add: each_group_ok_def)
      moreover have "linked_ok ?y p ?g'" using G view none by (auto simp: each_group_ok_def linked_ok_def)
      moreover have "invited_ok ?y p ?g'" using G view none by (auto simp: each_group_ok_def invited_ok_def)
      moreover have "members_ok ?y p ?g'" using G view by (auto simp: each_group_ok_def members_ok_def)
      moreover have "stored_ok ?y p ?g'" using G same by (simp add: each_group_ok_def stored_ok_def)
      ultimately show ?thesis unfolding h using G by (simp add: each_group_ok_def) (simp add: logged_in_def)
    qed
    show "player_ok ?y v" if "v \<in> {?u}" for v
      using that view g groups by (auto simp: player_ok_def)
  qed
qed

lemma fresh_player_sel [simp]:
  "gr_target (pg_group (fresh_player d)) = None" "gr_target (pg_originalGroup (fresh_player d)) = None" "pg_groupInvite (fresh_player d) = None"
  "player_fine (fresh_player d) = player_fine d"
  by (simp_all add: fresh_player_def player_fine_def)

lemma link_new:
  assumes g: "gs_groups w p = Some g" "gr_target (pg_group (gs_pl w u)) = None" and sub: "unat sub < 128"
  shows "SetGroup u (Some (p, sub)) w = w\<lparr>gs_groups := (gs_groups w)(p \<mapsto> g\<lparr>m_memberMgr := (u, False) # m_memberMgr g\<rparr>),
     gs_pl := (gs_pl w)(u := (gs_pl w u)\<lparr>pg_group := \<lparr>gr_target = Some p, gr_subGroup = sub\<rparr>\<rparr>),
     gs_log := gs_log w @ [Call u UpdateObjectVisibility]\<rparr>"
proof -
  have "\<not> sub \<ge> 0x80" using sub by (simp add: word_le_nat_alt)
  then show ?thesis
    using g by (cases "pg_group (gs_pl w u)") (simp add: SetGroup_def ref_link_def ref_get_def LinkMember_def ref_setSubGroup_def modp_def modg_def with_group_def ref_upd_def act_def)
qed

lemma LoadGroup_none:
  assumes c: "consistent w" and u: "is_player (pl_guid pl)" and r: "map_find (member_rows w) (GUID_LOPART (pl_guid pl)) = None"
    and h: "gs_groups w q = Some h" "s \<in> set (m_memberSlots h)"
  shows "ms_guid s \<noteq> pl_guid pl"
  using stored_rowD(3) [of w q h s] consistentD(6) [OF c h(1)] h(2) r by (auto simp: each_group_ok_def)

lemma Player_login_consistent:
  assumes c: "consistent w" and pl: "is_player (pl_guid pl)" "\<not> loaded w (pl_guid pl)"
  shows "consistent (Player_login pl w)" "\<forall>q h. gs_groups (Player_login pl w) q = Some h \<longrightarrow> (\<exists>g. gs_groups w q = Some g \<and> settled h = settled g)"
proof -
  let ?u = "pl_guid pl"
  define w1 where "w1 = modp ?u fresh_player w"
  have sel1: "gs_groups w1 = gs_groups w" "gs_db w1 = gs_db w" "gs_world w1 = gs_world w" "GroupDbStore w1 = GroupDbStore w" "gs_pl w1 ?u = fresh_player (gs_pl w ?u)"
    by (simp_all add: w1_def modp_def)
  note none = absent_player [OF c pl(2)]
  have fine: "player_fine (gs_pl w ?u)" using consistentD(2) [OF c] by (simp add: sane_def)
  have "consistent (Player_login pl w) \<and> (\<forall>q h. gs_groups (Player_login pl w) q = Some h \<longrightarrow> (\<exists>g. gs_groups w q = Some g \<and> settled h = settled g))"
  proof (cases "map_find (member_rows w) (GUID_LOPART ?u)")
    case None
    let ?y = "Player_login pl w"
    have y: "?y = w1\<lparr>gs_world := (gs_world w)\<lparr>w_players := pl # w_players (gs_world w)\<rparr>\<rparr>"
      using None sel1 by (simp add: Player_login_def Let_def w1_def [symmetric] LoadGroup_def)
    have "players_ok (gs_world ?y)" using players_ok_cons [OF consistentD(3) [OF c] pl(1)] pl(2) by (simp add: y loaded_def)
    moreover have "sane ?y" using consistentD(2) [OF c] fine by (auto simp: y w1_def modp_def sane_def)
    ultimately have "consistent ?y"
      using LoadGroup_none [OF c pl(1) None] none sel1
      by (intro lone_player_consistent [OF c pl(1) none(1,2)])
        (auto simp: y w1_def modp_def loaded_def GetGroup_def GetOriginalGroup_def invite_of_def)
    moreover have "gs_groups ?y = gs_groups w" by (simp add: y sel1)
    ultimately show ?thesis by simp
  next
    case (Some r)
    obtain p g s where g: "gs_groups w p = Some g" "s \<in> set (m_memberSlots g)" "GUID_LOPART (ms_guid s) = GUID_LOPART ?u" "m_dbStoreId g = mw_guid r"
      using tables_rowD [OF consistentD(4) [OF c] Some] by blast
    have su: "ms_guid s = ?u" using lopart_inj [OF member_ref(1) [OF c g(1,2)] pl(1) g(3)] .
    have ok: "group_ok g" and st: "stored_ok w p g" using consistentD(6) [OF c g(1)] by (simp_all add: each_group_ok_def)
    have pool: "GetGroupByDbStoreId w1 (mw_guid r) = Some p"
      using stored_rowD(2) [OF st g(2)] g(4) sel1 by (simp add: GetGroupByDbStoreId_def split: if_splits)
    have slot: "GetMemberSlot g ?u = Some s"
    proof -
      obtain t where t: "GetMemberSlot g ?u = Some t" using imageI [OF g(2), of ms_guid] su GetMemberSlot_None [of g ?u] by (cases "GetMemberSlot g ?u") auto
      have "distinct (map ms_guid (m_memberSlots g))" using ok by (simp add: group_ok_def)
      then have "t = s" using GetMemberSlot_Some [OF t] g(2) su by (auto simp: distinct_map inj_on_def)
      then show ?thesis using t by simp
    qed
    have "unat (ms_group s) < 128" using small_subgroups(1) [OF ok] g(2) by (auto simp: group_sizes)
    moreover have "gs_groups w1 p = Some g" "gr_target (pg_group (gs_pl w1 ?u)) = None" using g(1) sel1 by simp_all
    ultimately have link: "SetGroup ?u (Some (p, ms_group s)) w1 = w1\<lparr>gs_groups := (gs_groups w1)(p \<mapsto> g\<lparr>m_memberMgr := (?u, False) # m_memberMgr g\<rparr>),
        gs_pl := (gs_pl w1)(?u := (gs_pl w1 ?u)\<lparr>pg_group := \<lparr>gr_target = Some p, gr_subGroup = ms_group s\<rparr>\<rparr>),
        gs_log := gs_log w1 @ [Call ?u UpdateObjectVisibility]\<rparr>"
      by (intro link_new)
    let ?d0 = "(fresh_player (gs_pl w ?u))\<lparr>pg_group := \<lparr>gr_target = Some p, gr_subGroup = ms_group s\<rparr>\<rparr>"
    define d where "d = (if pl_level pl \<ge> LEVELREQUIREMENT_HEROIC
      then ?d0\<lparr>pg_dungeonDifficulty := m_dungeonDifficulty g, pg_raidDifficulty := m_raidDifficulty g\<rparr> else ?d0)"
    have "Player_login pl w = logged_in p pl g d w"
      using Some pool g(1) sel1 slot link
      by (simp add: Player_login_def Let_def w1_def [symmetric] LoadGroup_def with_group_def GetMemberGroup_def)
        (simp add: logged_in_def d_def w1_def modp_def)
    moreover have "player_fine d" "gr_target (pg_originalGroup d) = None" "pg_groupInvite d = None"
        "pg_group d = \<lparr>gr_target = Some p, gr_subGroup = ms_group s\<rparr>"
      using fine sane_group [OF consistentD(2) [OF c] g(1)] by (auto simp: d_def player_fine_def group_fine_def fresh_player_def)
    ultimately show ?thesis
      using logged_in_consistent [OF c pl g(1,2) su, of d] g(1) by (simp add: logged_in_def settled_def)
  qed
  then show "consistent (Player_login pl w)"
    "\<forall>q h. gs_groups (Player_login pl w) q = Some h \<longrightarrow> (\<exists>g. gs_groups w q = Some g \<and> settled h = settled g)" by blast+
qed

lemma login_inv:
  assumes inv: "group_inv w" and pl: "is_player (pl_guid pl)" "\<not> loaded w (pl_guid pl)"
  shows "group_inv (Player_login pl w)"
  using Player_login_consistent [OF group_invD(1) [OF inv] pl] group_invD(2) [OF inv] unfolding group_inv_def by metis

section \<open>Logout\<close>

lemma players_ok_filter: "players_ok W \<Longrightarrow> players_ok (W\<lparr>w_players := filter P (w_players W)\<rparr>)"
  by (auto simp: players_ok_def world_wf_def distinct_map_filter)

definition logged_out :: "u64 \<Rightarrow> gworld \<Rightarrow> gworld" where
  "logged_out u w = w\<lparr>gs_world := (gs_world w)\<lparr>w_players := filter (\<lambda>pl. pl_guid pl \<noteq> u) (w_players (gs_world w))\<rparr>\<rparr>"

lemma unlink_nothing:
  assumes "gr_target (ref_get orig (gs_pl w u)) = None"
  shows "ref_unlink u orig w = w"
proof -
  have "ref_upd orig (\<lambda>r. r\<lparr>gr_target := None\<rparr>) (gs_pl w u) = gs_pl w u"
    using assms by (cases "gs_pl w u"; cases "pg_group (gs_pl w u)"; cases "pg_originalGroup (gs_pl w u)") (auto simp: ref_upd_def ref_get_def)
  then show ?thesis using assms by (simp add: ref_unlink_def modp_def fun_upd_idem)
qed

lemma delete_player_inv:
  assumes inv: "group_inv w" and u: "loaded w u" "invite_of w u = None"
  shows "group_inv (delete_player u w)"
proof -
  note c = group_invD(1) [OF inv]
  have isu: "is_player u" by (rule loaded_player_guid [OF c u(1)])
  have orig: "GetOriginalGroup w u = None" using consistentD(5) [OF c, of u] by (simp add: player_ok_def)
  show ?thesis
  proof (cases "GetGroup w u")
    case None
    let ?y = "delete_player u w"
    have y: "?y = logged_out u w"
      using None orig unlink_nothing [of False w u] unlink_nothing [of True w u]
      by (simp add: delete_player_def Let_def logged_out_def ref_get_def GetGroup_def GetOriginalGroup_def)
    have "ms_guid s \<noteq> u" if "gs_groups w q = Some h" "s \<in> set (m_memberSlots h)" for q h s
      using member_ref(4) [OF c that] u(1) None by auto
    then have "consistent ?y"
      using None orig u(2) players_ok_filter [OF consistentD(3) [OF c]] consistentD(2) [OF c]
      by (intro lone_player_consistent [OF c isu None u(2)])
        (auto simp: y logged_out_def loaded_def GetGroup_def GetOriginalGroup_def invite_of_def sane_def)
    then show ?thesis using group_invD(2) [OF inv] unfolding group_inv_def by (simp add: y logged_out_def)
  next
    case (Some p)
    obtain g where g: "gs_groups w p = Some g" "IsMember g u" using GetGroup_member [OF c Some] by blast
    obtain s where s: "s \<in> set (m_memberSlots g)" "ms_guid s = u" using g(2) GetMemberSlot_Some by (auto simp: IsMember_def)
    let ?w1 = "unlinked p {u} w" and ?y = "delete_player u w" and ?g' = "g\<lparr>m_memberMgr := filter (\<lambda>r. fst r \<noteq> u) (m_memberMgr g)\<rparr>"
    have "ref_unlink u False w = ?w1" using unlink_one [OF c g(1), of u "{}"] Some unlinked_empty [OF g(1)] by simp
    moreover have "ref_unlink u True ?w1 = ?w1"
      using orig unlinked_sel(11) [OF g(1), of "{u}" u] by (intro unlink_nothing) (simp add: ref_get_def GetOriginalGroup_def)
    ultimately have y: "?y = logged_out u ?w1" by (simp add: delete_player_def Let_def logged_out_def)
    note sel = unlinked_sel [OF g(1), of "{u}"]
    have groups: "gs_groups ?y = (gs_groups w)(p \<mapsto> ?g')" using sel(1) by (simp add: y logged_out_def)
    have view: "GetGroup ?y v = (if v = u then None else GetGroup w v)" "GetOriginalGroup ?y v = GetOriginalGroup w v" "invite_of ?y v = invite_of w v"
        "loaded ?y v = (v \<noteq> u \<and> loaded w v)" "subgroup_of ?y v = subgroup_of w v" for v
      using sel(3) sel(10) [of v] sel(11) [of v] sel(12) [of v] sel(14) [of v] Some by (auto simp: y logged_out_def GetGroup_def GetOriginalGroup_def invite_of_def loaded_def subgroup_of_def)
    have same: "gs_db ?y = gs_db w" "GroupDbStore ?y = GroupDbStore w" "NextGroupDbStoreId ?y = NextGroupDbStoreId w" "gs_next ?y = gs_next w"
        "gs_fault ?y = gs_fault w" "GetGroupByDbStoreId ?y i = GetGroupByDbStoreId w i" for i
      using sel by (simp_all add: y logged_out_def GetGroupByDbStoreId_def)
    have sane: "sane ?y"
      using consistentD(2) [OF c] g(1) sel(1,2,4) by (auto simp: y logged_out_def sane_def group_fine_def player_fine_def drop_ref_def)
    have world: "players_ok (gs_world ?y)" using players_ok_filter [OF consistentD(3) [OF c]] sel(3) by (simp add: y logged_out_def)
    note G = consistentD(6) [OF c g(1)]
    have row: "\<exists>r. map_find (member_rows w) (GUID_LOPART u) = Some r \<and> mw_guid r = m_dbStoreId g"
      using stored_rowD(3) [of w p g s] G s by (auto simp: each_group_ok_def)
    have pls: "gs_pl ?y v = gs_pl w v" if "v \<noteq> u" for v using sel(2) [of v] that by (simp add: y logged_out_def)
    have "footprint w ?y p {u}"
    proof (rule footprint_local [OF c g(1) groups])
      show "ms_guid t \<notin> {u}" if "q \<noteq> p" "gs_groups w q = Some h" "t \<in> set (m_memberSlots h)" for q h t
        using one_group [OF c that(2,3) g(1) s(1)] that(1) s(2) by auto
    qed (use sane world same view pls isu Some u(2) row s consistentD(1) [OF c] consistent_tables [OF c] in auto)
    then have "consistent ?y"
    proof (rule fp_consistent)
      show "each_group_ok ?y p h" if "gs_groups ?y p = Some h" for h
      proof -
        have h: "h = ?g'" using that groups by simp
        have "group_ok ?g'" using group_ok_places [of g ?g'] G by (simp add: each_group_ok_def)
        moreover have "linked_ok ?y p ?g'" using G view by (auto simp: each_group_ok_def linked_ok_def)
        moreover have "invited_ok ?y p ?g'" "stored_ok ?y p ?g'" using G view same by (simp_all add: each_group_ok_def invited_ok_def stored_ok_def)
        moreover have "members_ok ?y p ?g'" using G view by (auto simp: each_group_ok_def members_ok_def)
        ultimately show ?thesis unfolding h using G same by (simp add: each_group_ok_def)
      qed
      show "player_ok ?y v" if "v \<in> {u}" for v using that view orig u(2) by (simp add: player_ok_def)
    qed
    moreover have "settled ?g' = settled g" by (simp add: settled_def)
    ultimately show ?thesis
      using group_invD(2) [OF inv g(1)] by (intro group_inv_one [OF inv, where p = p]) (auto simp: groups others_same_def)
  qed
qed

lemma logout_inv:
  assumes inv: "group_inv w" and u: "loaded w u"
  shows "group_inv (Player_logout u normally instanceable w)"
proof -
  define w1 where "w1 = UninviteFromGroup u w"
  note i1 = UninviteFromGroup_inv [OF inv, of u, folded w1_def]
  define w2 where "w2 = (case GetGroup w1 u of None \<Rightarrow> w1 | Some p \<Rightarrow> with_group p w1 (\<lambda>g.
      if \<not> isRaidGroup g \<and> normally \<and> (\<not> pg_haveBot (gs_pl w1 u) \<or> \<not> instanceable)
      then RemoveFromGroup (Some p) u GROUP_REMOVEMETHOD_DEFAULT 0 [] w1 else w1))"
  have i2: "group_inv w2 \<and> gs_world w2 = gs_world w \<and> invite_of w2 u = None"
  proof (cases "GetGroup w1 u")
    case None
    then show ?thesis using i1 by (simp add: w2_def)
  next
    case (Some p)
    obtain g where "gs_groups w1 p = Some g" "IsMember g u" using GetGroup_member [OF group_invD(1) [OF i1(1)] Some] by blast
    then show ?thesis
      using Some i1 RemoveFromGroup_inv [OF i1(1), of p g u GROUP_REMOVEMETHOD_DEFAULT 0 "[]"] by (simp add: w2_def with_group_def)
  qed
  define w3 where "w3 = (case GetGroup w2 u of None \<Rightarrow> w2 | Some p \<Rightarrow> ResetMaxEnchantingLevel p (SendUpdate p w2))"
  have "core w3 = core w2 \<and> sane w3"
  proof (cases "GetGroup w2 u")
    case None
    then show ?thesis using group_invD(4) i2 by (simp add: w3_def)
  next
    case (Some p)
    obtain g where g: "gs_groups w2 p = Some g" using GetGroup_member [OF group_invD(1) Some] i2 by blast
    then have a: "gs_groups w2 p \<noteq> None" by simp
    have "gs_groups (SendUpdate p w2) p \<noteq> None" using core_group_iff [OF core_SendUpdate [OF a], of p] a by simp
    then show ?thesis using Some core_SendUpdate [OF a] group_invD(4) i2 by (auto simp: w3_def core_simps intro!: sane_intros)
  qed
  then have i3: "core w3 = core w2" "group_inv w3" using group_inv_core i2 by blast+
  have "loaded w3 u" "invite_of w3 u = None" using core_eqD(1) [OF i3(1)] core_player(3) [OF i3(1), of u] i2 u by (simp_all add: loaded_def invite_of_def)
  then have "group_inv (delete_player u w3)" by (rule delete_player_inv [OF i3(2)])
  then show ?thesis unfolding w3_def w2_def w1_def Player_logout_def logout_group_def Let_def .
qed

end
