(* ===== verification/Group_Sample.thy ===== *)
theory Group_Sample
  imports Group_Roll
begin

text \<open>
  A small state of the group system on which the properties of the other theories are evaluated: a party of the
  players 1 and 2 with one roll under way, and what the parts that are not modelled answer there.
\<close>

section \<open>Players and environment\<close>

definition sample_player :: "u64 \<Rightarrow> string \<Rightarrow> player" where
  "sample_player guid name = \<lparr>pl_guid = guid, pl_name = name, pl_security = SEC_PLAYER, pl_team = ALLIANCE, pl_in_world = True,
     pl_in_group = False, pl_visible = True, pl_gm_visible = True, pl_gm_chat = False, pl_afk = False, pl_dnd = False,
     pl_developer = False, pl_zone = 12, pl_level = 80, pl_class = 1\<rparr>"

definition sample_players :: world where
  "sample_players = \<lparr>w_players = [sample_player 1 ''Ann'', sample_player 2 ''Bob'', sample_player 3 ''Cid''],
     w_char_names = [1 \<mapsto> ''Ann'', 2 \<mapsto> ''Bob'', 3 \<mapsto> ''Cid''],
     cfg_restricted_lfg_channel = False, cfg_silently_gm_join_to_channel = False, cfg_two_side_channel = False,
     cfg_two_side_who_list = False, cfg_preserve_custom_channels = False, cfg_preserve_custom_channel_duration = 0,
     cfg_gm_level_in_who_list = 0\<rparr>"

definition sample_env :: group_env where
  "sample_env = \<lparr>ge_in_range = (\<lambda>_ _. True), ge_in_sight = (\<lambda>_ _. True), ge_have_at_client = (\<lambda>_ _. True), ge_item = (\<lambda>_. None),
     ge_allowed = (\<lambda>_ _. True), ge_can_roll_lfg = (\<lambda>_ _ _. True), ge_can_store = (\<lambda>_ _ _ _. 0),
     ge_map_entry = (\<lambda>_. Some \<lparr>me_isDungeon = False, me_isRaid = False\<rparr>), ge_map_difficulty = (\<lambda>_ _. True),
     ge_map_loaded = (\<lambda>_ _. False), ge_map_have_players = (\<lambda>_ _ _. False), ge_lfg_finished = (\<lambda>_. False),
     ge_lfg_boot = (\<lambda>_. False), ge_lfg_kicks_left = (\<lambda>_. True), ge_lfg_dungeon = (\<lambda>_. 0), ge_lfg_map = (\<lambda>_. 0),
     ge_bot_loot_method = FREE_FOR_ALL, ge_allow_gm_group = False, ge_two_side_group = False, ge_guid_by_name = (\<lambda>_. 0),
     ge_normalize = Some, ge_random = (\<lambda>n. of_nat n)\<rparr>"

definition no_ref :: group_ref where
  "no_ref = \<lparr>gr_target = None, gr_subGroup = 0\<rparr>"

definition sample_slots :: player_group where
  "sample_slots = \<lparr>pg_group = no_ref, pg_originalGroup = no_ref, pg_groupInvite = None, pg_passOnGroupLoot = False,
     pg_dungeonDifficulty = 0, pg_raidDifficulty = 0, pg_InstanceValid = True, pg_boundInstances = replicate MAX_DIFFICULTY [],
     pg_social = PlayerSocial_new, pg_enchanting = 0, pg_mapId = 0, pg_instanceId = 0, pg_alive = True,
     pg_gameMaster = False, pg_inBattleground = False, pg_inCombat = False, pg_haveBot = False, pg_isBot = False\<rparr>"

text \<open>The state after start-up with three players in the world and no group.\<close>

definition sample_start :: gworld where
  "sample_start = \<lparr>gs_world = sample_players, gs_env = sample_env, gs_groups = (\<lambda>_. None), gs_next = 0, gs_pl = (\<lambda>_. sample_slots),
     gs_loots = (\<lambda>_. None), gs_draws = 0, gs_hiItemGuid = 1, gs_db = \<lparr>db_groups = [], db_group_member = []\<rparr>, gs_log = [],
     gs_fault = None, NextGroupId = 1, NextGroupDbStoreId = 1, GroupStore = [], GroupDbStore = []\<rparr>"

section \<open>A roll\<close>

definition sample_item :: loot_item where
  "sample_item = \<lparr>li_itemid = 25, li_randomSuffix = 0, li_randomPropertyId = 0, li_count = 1, li_is_looted = False,
     li_is_blocked = True, li_freeforall = False, li_is_underthreshold = False, li_follow_loot_rules = False\<rparr>"

definition sample_loot :: loot where
  "sample_loot = \<lparr>l_items = [sample_item], l_quest_items = [], l_unlootedCount = 1\<rparr>"

definition sample_roll :: "RollVote \<Rightarrow> roll" where
  "sample_roll v = \<lparr>r_itemGUID = 7, r_itemid = 25, r_itemRandomPropId = 0, r_itemRandomSuffix = 0, r_itemCount = 1,
     r_playerVote = [(1, NEED), (2, v)], r_totalPlayersRolling = 2, r_totalNeed = 1, r_totalGreed = (if v = GREED then 1 else 0),
     r_totalPass = 0, r_itemSlot = 0, r_rollVoteMask = ROLL_ALL_TYPE_NO_DISENCHANT, r_loot = Some 0\<rparr>"

definition sample_party :: "RollVote \<Rightarrow> group" where
  "sample_party v = Group_new\<lparr>RollId := [sample_roll v], m_leaderGuid := 1\<rparr>"

definition sample_rolling :: "RollVote \<Rightarrow> gworld" where
  "sample_rolling v = sample_start\<lparr>gs_groups := [0 \<mapsto> sample_party v], gs_loots := [0 \<mapsto> sample_loot]\<rparr>"

lemma sample_sel [simp]:
  "gs_groups (sample_rolling v) = [0 \<mapsto> sample_party v]" "gs_loots (sample_rolling v) = [0 \<mapsto> sample_loot]"
  "RollId (sample_party v) = [sample_roll v]" "r_playerVote (sample_roll v) = [(1, NEED), (2, v)]" "r_itemGUID (sample_roll v) = 7"
  "r_loot (sample_roll v) = Some 0" "r_itemSlot (sample_roll v) = 0" "l_items sample_loot = [sample_item]"
  by (simp_all add: sample_rolling_def sample_party_def sample_roll_def sample_loot_def)

lemma sample_roll_ok: "v = GREED \<or> v = NOT_EMITED_YET \<Longrightarrow> roll_ok (sample_roll v)"
  by (auto simp: roll_ok_def sample_roll_def map_wf_def votes_for_def map_count_def)

lemma sample_votable: "votable (sample_rolling v) (sample_party v) 1 7 0" "votable (sample_rolling v) (sample_party v) 2 7 0"
  by (simp_all add: votable_def GetRoll_def roll_isValid_def map_find_def)

section \<open>The properties of rolls at work\<close>


theorem vote_outcome_witness:
  "gs_groups (CountRollVote 0 2 7 ROLL_PASS (sample_rolling NOT_EMITED_YET)) = [0 \<mapsto> (sample_party NOT_EMITED_YET)\<lparr>RollId := []\<rparr>]"
proof -
  have last: "(\<exists>k. k \<noteq> 2 \<and> map_find [(1 :: u64, NEED), (2, NOT_EMITED_YET)] k = Some NOT_EMITED_YET) = False"
    by (simp add: map_find_def)
  have first: "map_find [(1 :: u64, NEED), (2, NOT_EMITED_YET)] 2 = Some NOT_EMITED_YET" by (simp add: map_find_def)
  note w = vote_outcome [of "sample_rolling NOT_EMITED_YET" 0 "sample_party NOT_EMITED_YET" ROLL_PASS 2 7 0]
  show ?thesis
    using w sample_votable(2) [of NOT_EMITED_YET] sample_roll_ok [of NOT_EMITED_YET] first
    by (simp add: last nth_erase_def Let_def roll_types)
qed

theorem second_vote_ends_roll_witness:
  "gs_groups (CountRollVote 0 1 7 ROLL_NEED (sample_rolling NOT_EMITED_YET)) = [0 \<mapsto> (sample_party NOT_EMITED_YET)\<lparr>RollId := []\<rparr>]"
proof -
  have "map_find [(1 :: u64, NEED), (2, NOT_EMITED_YET)] 1 \<noteq> Some NOT_EMITED_YET" by (simp add: map_find_def)
  moreover have "votes_for (\<lambda>v. v = NOT_EMITED_YET) (sample_roll NOT_EMITED_YET) = 1" by (simp add: votes_for_def map_count_def)
  ultimately show ?thesis
    using second_vote_ends_roll [of "sample_rolling NOT_EMITED_YET" 0 "sample_party NOT_EMITED_YET" 1 7 0 ROLL_NEED]
      sample_votable(1) [of NOT_EMITED_YET] sample_roll_ok [of NOT_EMITED_YET]
    by (simp add: nth_erase_def roll_types)
qed


theorem leaving_withdraws_votes_witness:
  "gs_groups (leave_rolls 0 1 (sample_rolling NOT_EMITED_YET)) = [0 \<mapsto> (sample_party NOT_EMITED_YET)
       \<lparr>RollId := [withdraw_vote 1 NEED (sample_roll NOT_EMITED_YET)]\<rparr>]"
  using leaving_withdraws_votes [of "sample_rolling NOT_EMITED_YET" 0 "sample_party NOT_EMITED_YET" 1] sample_roll_ok [of NOT_EMITED_YET]
  by (simp add: leave_vote_def map_find_def)

end
