(* ===== verification/Group_Run.thy ===== *)
theory Group_Run
  imports Group_Session Group_Sample
begin

text \<open>
  Runs of the group system: any sequence of client packets, logins and logouts. Every handler of
  \<open>Group_Handlers\<close> is one step of an instance of \<open>step_system\<close>; the invariant holds after every run whose
  steps meet the stated conditions, and the properties of the reachable states follow from it.
\<close>

section \<open>Voting on a roll\<close>

lemma distinct_nth_erase: "distinct (map f xs) \<Longrightarrow> distinct (map f (nth_erase i xs))"
proof -
  have "distinct (map f (take i xs @ drop (Suc i) xs))" if "distinct (map f xs)"
  proof (cases "i < length xs")
    case True
    then have "xs = take i xs @ xs ! i # drop (Suc i) xs" by (simp add: id_take_nth_drop)
    then have "distinct (map f (take i xs @ xs ! i # drop (Suc i) xs))" using that by simp
    then show ?thesis by auto
  qed (use that in simp)
  then show "distinct (map f xs) \<Longrightarrow> distinct (map f (nth_erase i xs))" by (simp add: nth_erase_def)
qed

lemma shape_modg: "gs_groups w p = Some g \<Longrightarrow> shape (modg p f w) = (shape w)\<lparr>gs_groups := (gs_groups w)(p \<mapsto> f g)\<rparr>"
  by (simp add: shape_def modg_def with_group_def)

lemma shape_CountTheRoll:
  assumes "gs_groups w p = Some g"
  shows "shape (CountTheRoll p i w) = (shape w)\<lparr>gs_groups := (gs_groups w)(p \<mapsto> g\<lparr>RollId := nth_erase i (RollId g)\<rparr>)\<rparr>"
proof -
  have "shape (erase_roll p i x) = (shape w)\<lparr>gs_groups := (gs_groups w)(p \<mapsto> g\<lparr>RollId := nth_erase i (RollId g)\<rparr>)\<rparr>" if x: "shape x = shape w" for x
  proof -
    have "gs_groups x p = Some g" using shape_eqD(1) [OF x] assms by simp
    from shape_modg [OF this, of "\<lambda>g. g\<lparr>RollId := nth_erase i (RollId g)\<rparr>"] show ?thesis
      using x shape_eqD(1) [OF x] by (simp add: erase_roll_def)
  qed
  then show ?thesis using assms by (simp add: CountTheRoll_def with_group_def Let_def shape_simps split: option.split)
qed

lemma vote_shape:
  assumes g: "gs_groups w p = Some g" "distinct (map r_itemGUID (RollId g))"
  shows "\<exists>rs. shape (CountRollVote p u item c w) = (shape w)\<lparr>gs_groups := (gs_groups w)(p \<mapsto> g\<lparr>RollId := rs\<rparr>)\<rparr> \<and> distinct (map r_itemGUID rs)"
proof (cases "CountRollVote p u item c w = w")
  case True
  moreover have "(shape w)\<lparr>gs_groups := (gs_groups w)(p \<mapsto> g\<lparr>RollId := RollId g\<rparr>)\<rparr> = shape w" using g(1) by (simp add: shape_def fun_upd_idem)
  ultimately show ?thesis using g(2) by (intro exI [of _ "RollId g"]) simp
next
  case False
  then obtain i where i: "GetRoll g item = Some i" using g(1) by (cases "GetRoll g item") (auto simp: CountRollVote_def with_group_def)
  let ?r = "RollId g ! i" and ?r1 = "cast_vote u c (RollId g ! i)" and ?w1 = "send_vote u c (RollId g ! i) w"
  let ?f = "\<lambda>g :: group. g\<lparr>RollId := (RollId g)[i := ?r1]\<rparr>"
  let ?w2 = "modg p ?f ?w1"
  have eq: "CountRollVote p u item c w = (if all_voted ?r1 then CountTheRoll p i ?w2 else ?w2)"
    using False g(1) i by (auto simp: CountRollVote_def with_group_def Let_def split: if_splits)
  have w1: "shape ?w1 = shape w" by (simp add: shape_simps)
  have g1: "gs_groups ?w1 p = Some g" using shape_eqD(1) [OF w1] g(1) by simp
  have w2: "shape ?w2 = (shape w)\<lparr>gs_groups := (gs_groups w)(p \<mapsto> ?f g)\<rparr>" using shape_modg [OF g1] w1 shape_eqD(1) [OF w1] by simp
  have g2: "gs_groups ?w2 = (gs_groups w)(p \<mapsto> ?f g)" using arg_cong [OF w2, of gs_groups] by (simp add: shape_sel)
  have guid: "r_itemGUID ?r1 = r_itemGUID ?r" by (simp add: cast_vote_def)
  have "map r_itemGUID ((RollId g)[i := ?r1]) = map r_itemGUID (RollId g)"
    using guid by (cases "i < length (RollId g)") (simp_all add: map_update list_update_same_conv list_update_beyond)
  then have d2: "distinct (map r_itemGUID ((RollId g)[i := ?r1]))" using g(2) by simp
  show ?thesis
  proof (cases "all_voted ?r1")
    case True
    have "shape (CountTheRoll p i ?w2) = (shape ?w2)\<lparr>gs_groups := (gs_groups ?w2)(p \<mapsto> (?f g)\<lparr>RollId := nth_erase i (RollId (?f g))\<rparr>)\<rparr>"
      using g2 by (intro shape_CountTheRoll) simp
    also have "\<dots> = (shape w)\<lparr>gs_groups := (gs_groups w)(p \<mapsto> g\<lparr>RollId := nth_erase i ((RollId g)[i := ?r1])\<rparr>)\<rparr>" unfolding w2 g2 by simp
    finally show ?thesis using True eq distinct_nth_erase [OF d2] by auto
  next
    case False
    then show ?thesis using w2 eq d2 by auto
  qed
qed

text \<open>A vote that finds the loot it is about alive changes nothing but the rolls.\<close>

lemma loot_roll_inv:
  assumes inv: "group_inv w" and alive: "gs_fault (HandleLootRoll me item c w) = None"
  shows "group_inv (HandleLootRoll me item c w)"
proof (cases "GetGroup w (pl_guid me)")
  case None
  then show ?thesis using inv by (simp add: HandleLootRoll_def my_group_def)
next
  case (Some p)
  obtain g where g: "gs_groups w p = Some g" using GetGroup_member [OF group_invD(1) [OF inv] Some] by blast
  have fine: "group_fine g" by (rule sane_group [OF group_invD(4) [OF inv] g])
  let ?x = "CountRollVote p (pl_guid me) item c w"
  obtain rs where rs: "shape ?x = (shape w)\<lparr>gs_groups := (gs_groups w)(p \<mapsto> g\<lparr>RollId := rs\<rparr>)\<rparr>" "distinct (map r_itemGUID rs)"
    using vote_shape [OF g, of "pl_guid me" item c] fine unfolding group_fine_def by blast
  have eq: "HandleLootRoll me item c w = (if c = ROLL_NEED then act (Call (pl_guid me) UpdateAchievementCriteria_need) ?x
      else if c = ROLL_GREED then act (Call (pl_guid me) UpdateAchievementCriteria_greed) ?x else ?x)"
    using Some g by (simp add: HandleLootRoll_def my_group_def with_group_def Let_def)
  have fault: "gs_fault ?x = None" using alive unfolding eq by (auto simp: act_def split: if_splits)
  have sel: "gs_groups ?x = (gs_groups w)(p \<mapsto> g\<lparr>RollId := rs\<rparr>)" "gs_pl ?x = gs_pl w" "gs_world ?x = gs_world w" "gs_env ?x = gs_env w"
      "gs_db ?x = gs_db w" "gs_next ?x = gs_next w" "NextGroupId ?x = NextGroupId w" "NextGroupDbStoreId ?x = NextGroupDbStoreId w"
      "GroupStore ?x = GroupStore w" "GroupDbStore ?x = GroupDbStore w"
    using shape_sel [of ?x] unfolding rs(1) by (simp_all add: shape_sel)
  have "gcore (g\<lparr>RollId := rs\<rparr>) = gcore g" by (simp add: gcore_def)
  then have core: "core ?x = core w"
    using sel g fault consistentD(1) [OF group_invD(1) [OF inv]] by (intro core_eqI) auto
  have "group_fine (g\<lparr>RollId := rs\<rparr>)" using fine rs(2) by (simp add: group_fine_def)
  then have "sane ?x" using group_invD(4) [OF inv] sel(1,2,4) by (auto simp: sane_def)
  then have "group_inv ?x" by (rule group_inv_core [OF inv core])
  then show ?thesis unfolding eq using group_inv_act [of ?x] by auto
qed

section \<open>Steps\<close>

datatype group_event =
    GroupInvite player string
  | GroupAccept player
  | GroupDecline player
  | GroupUninviteGuid player u64 string
  | GroupUninvite player string
  | GroupDisband player
  | GroupSetLeader player u64
  | LootMethodSet player u32 u64 u32
  | LootRollVote player u64 u8
  | OptOutOfLoot player u32
  | RandomRoll player u32 u32
  | RaidTargetUpdate player u8 u64
  | GroupRaidConvert player
  | GroupChangeSubGroup player string u8
  | GroupAssistantLeader player u64 bool
  | PartyAssignment player u8 bool u64
  | RaidReadyCheck player "u8 option"
  | PlayerLogin player
  | PlayerLogout u64 bool bool

fun group_step :: "group_event \<Rightarrow> gworld \<Rightarrow> gworld" where
  "group_step (GroupInvite me name) w = HandleGroupInviteOpcode me name w"
| "group_step (GroupAccept me) w = HandleGroupAcceptOpcode me w"
| "group_step (GroupDecline me) w = HandleGroupDeclineOpcode me w"
| "group_step (GroupUninviteGuid me guid reason) w = HandleGroupUninviteGuidOpcode me guid reason w"
| "group_step (GroupUninvite me name) w = HandleGroupUninviteOpcode me name w"
| "group_step (GroupDisband me) w = HandleGroupDisbandOpcode me w"
| "group_step (GroupSetLeader me guid) w = HandleGroupSetLeaderOpcode me guid w"
| "group_step (LootMethodSet me m guid t) w = HandleLootMethodOpcode me m guid t w"
| "group_step (LootRollVote me item c) w = HandleLootRoll me item c w"
| "group_step (OptOutOfLoot me b) w = HandleOptOutOfLootOpcode me b w"
| "group_step (RandomRoll me lo hi) w = HandleRandomRollOpcode me lo hi w"
| "group_step (RaidTargetUpdate me x guid) w = HandleRaidTargetUpdateOpcode me x guid w"
| "group_step (GroupRaidConvert me) w = HandleGroupRaidConvertOpcode me w"
| "group_step (GroupChangeSubGroup me name n) w = HandleGroupChangeSubGroupOpcode me name n w"
| "group_step (GroupAssistantLeader me guid a) w = HandleGroupAssistantLeaderOpcode me guid a w"
| "group_step (PartyAssignment me k a guid) w = HandlePartyAssignmentOpcode me k a guid w"
| "group_step (RaidReadyCheck me a) w = HandleRaidReadyCheckOpcode me a w"
| "group_step (PlayerLogin pl) w = Player_login pl w"
| "group_step (PlayerLogout guid normally inst) w = Player_logout guid normally inst w"

text \<open>
  The conditions. The first two exclude the two ways in which a client can make the server lose track of a group
  object; the pool of storage ids must not be used up; a vote needs the loot that is rolled for; a member
  is not moved between subgroups while he is between two maps; a player logs in once and logs out when logged in.
\<close>

fun group_step_ok :: "group_event \<Rightarrow> gworld \<Rightarrow> bool" where
  "group_step_ok (GroupInvite me name) w \<longleftrightarrow> in_world me w \<and> invites_other me name w"
| "group_step_ok (GroupAccept me) w \<longleftrightarrow> accepts_other me w \<and> pool_room w"
| "group_step_ok (LootRollVote me item c) w \<longleftrightarrow> gs_fault (HandleLootRoll me item c w) = None"
| "group_step_ok (GroupChangeSubGroup me name n) w \<longleftrightarrow> moves_settled name w"
| "group_step_ok (PlayerLogin pl) w \<longleftrightarrow> is_player (pl_guid pl) \<and> \<not> loaded w (pl_guid pl)"
| "group_step_ok (PlayerLogout guid normally inst) w \<longleftrightarrow> loaded w guid"
| "group_step_ok _ w \<longleftrightarrow> True"

lemmas handlers_inv = invite_inv accept_inv decline_inv uninvite_guid_inv uninvite_name_inv leave_inv set_leader_inv loot_method_inv
  loot_roll_inv opt_out_inv random_roll_inv target_update_inv raid_convert_inv subgroup_inv assistant_inv assignment_inv ready_check_inv
  login_inv logout_inv

interpretation groups: step_system group_step group_step_ok group_inv
proof
  show "group_inv (group_step p w)" if "group_inv w" "group_step_ok p w" for p w
    using that by (cases p) (auto intro: handlers_inv)
qed

end
