(* ===== verification/Group_Load.thy ===== *)
theory Group_Load
  imports Group_Core
begin

text \<open>
  Loading the groups when the server starts: \<^verbatim>\<open>GroupMgr::LoadGroups\<close> (\<^verbatim>\<open>GroupMgr.cpp\<close>), \<^verbatim>\<open>Group::LoadGroupFromDB\<close> and
  \<^verbatim>\<open>Group::LoadMemberFromDB\<close> (\<^verbatim>\<open>Group.cpp\<close>) and \<^verbatim>\<open>InstanceSaveManager::AddInstanceSave\<close> (\<^verbatim>\<open>InstanceSaveMgr.cpp\<close>) without reset times.
  The table \<^verbatim>\<open>characters\<close> is read through the names of the existing characters. The query of \<^verbatim>\<open>group_member\<close> orders by
  group only: the order of the rows of one group is the database's choice and an argument here, as is the
  result of the query on the instance tables, which are not modelled.
\<close>

section \<open>Clean-up\<close>

definition char_exists :: "gworld \<Rightarrow> u32 \<Rightarrow> bool" where
  "char_exists w m \<longleftrightarrow> w_char_names (gs_world w) m \<noteq> None"

definition rows_of :: "u32 \<Rightarrow> (u32, member_row) stdmap \<Rightarrow> (u32 \<times> member_row) list" where
  "rows_of i ms = filter (\<lambda>(m, r). mw_guid r = i) ms"

definition delete_bad_groups :: "gworld \<Rightarrow> gworld" where
  "delete_bad_groups w =
     (let gs1 = filter (\<lambda>(i, r). char_exists w (gw_leaderGuid r)) (db_groups (gs_db w));
          gs2 = filter (\<lambda>(i, r). length (rows_of i (db_group_member (gs_db w))) > 1) gs1
      in w\<lparr>gs_db := (gs_db w)\<lparr>db_groups := gs2\<rparr>\<rparr>)"

definition delete_bad_members :: "gworld \<Rightarrow> gworld" where
  "delete_bad_members w =
     (let ms1 = filter (\<lambda>(m, r). map_find (db_groups (gs_db w)) (mw_guid r) \<noteq> None) (db_group_member (gs_db w));
          ms2 = filter (\<lambda>(m, r). char_exists w m) ms1
      in w\<lparr>gs_db := (gs_db w)\<lparr>db_group_member := ms2\<rparr>\<rparr>)"

section \<open>Groups\<close>

definition loaded_fields :: "string \<Rightarrow> group_row \<Rightarrow> group \<Rightarrow> group" where
  "loaded_fields name r g = g\<lparr>m_leaderName := name, m_lootMethod := ucast (gw_lootMethod r),
     m_looterGuid := MAKE_NEW_GUID (gw_looterGuid r) 0 HIGHGUID_PLAYER, m_lootThreshold := ucast (gw_lootThreshold r),
     m_targetIcons := map ucast (gw_icons r), m_groupType := gw_groupType r\<rparr>"

definition loaded_difficulty :: "group_row \<Rightarrow> group \<Rightarrow> group" where
  "loaded_difficulty r g =
     g\<lparr>m_dungeonDifficulty := (if gw_difficulty r \<ge> MAX_DUNGEON_DIFFICULTY then DUNGEON_DIFFICULTY_NORMAL else gw_difficulty r),
       m_raidDifficulty := (if gw_raiddifficulty r \<ge> MAX_RAID_DIFFICULTY then RAID_DIFFICULTY_10MAN_NORMAL else gw_raiddifficulty r)\<rparr>"

definition LoadGroupFromDB :: "gptr \<Rightarrow> u32 \<Rightarrow> group_row \<Rightarrow> gworld \<Rightarrow> gworld" where
  "LoadGroupFromDB p i r w =
     (let w1 = modg p (\<lambda>g. g\<lparr>m_dbStoreId := i\<rparr>) w;
          (low, w2) = GenerateGroupId w1;
          guid = MAKE_NEW_GUID low 0 HIGHGUID_GROUP;
          w3 = modg p (\<lambda>g. g\<lparr>m_guid := guid, m_leaderGuid := MAKE_NEW_GUID (gw_leaderGuid r) 0 HIGHGUID_PLAYER\<rparr>) w2
      in case GetPlayerNameByGUID (gs_world w3) (ucast (gw_leaderGuid r)) of
           None \<Rightarrow> w3
         | Some name \<Rightarrow>
             let w4 = modg p (loaded_fields name r) w3;
                 w5 = (if gw_groupType r AND GROUPTYPE_RAID \<noteq> 0 then initRaidSubGroupsCounter p w4 else w4);
                 w6 = modg p (loaded_difficulty r) w5
             in if gw_groupType r AND GROUPTYPE_LFG \<noteq> 0 then act (LfgLoadFromDB guid) w6 else w6)"

definition LoadMemberFromDB :: "gptr \<Rightarrow> u32 \<Rightarrow> u8 \<Rightarrow> u8 \<Rightarrow> u8 \<Rightarrow> gworld \<Rightarrow> gworld" where
  "LoadMemberFromDB p guidLow memberFlags subgroup roles w =
     (let guid = MAKE_NEW_GUID guidLow 0 HIGHGUID_PLAYER
      in case GetPlayerNameByGUID (gs_world w) guid of
           None \<Rightarrow> sql (DEL_GROUP_MEMBER guidLow) w
         | Some name \<Rightarrow>
             let s = \<lparr>ms_guid = guid, ms_name = name, ms_group = subgroup, ms_flags = memberFlags, ms_roles = roles\<rparr>;
                 w1 = modg p (\<lambda>g. g\<lparr>m_memberSlots := m_memberSlots g @ [s]\<rparr>) w;
                 w2 = SubGroupCounterIncrease p subgroup w1
             in with_group p w2 (\<lambda>g. act (LfgSetupGroupMember guid (m_guid g)) w2))"

section \<open>Instance saves\<close>

definition AddInstanceSave ::
  "group_env \<Rightarrow> u32 \<Rightarrow> u32 \<Rightarrow> u8 \<Rightarrow> bool \<Rightarrow> (u32, instance_save) stdmap \<Rightarrow> instance_save option \<times> (u32, instance_save) stdmap" where
  "AddInstanceSave e mapId instanceId difficulty canReset byId =
     (case map_find byId instanceId of
        Some old \<Rightarrow> (Some old, byId)
      | None \<Rightarrow>
          (case ge_map_entry e mapId of
             None \<Rightarrow> (None, byId)
           | Some entry \<Rightarrow>
               if instanceId = 0 then (None, byId)
               else if difficulty \<ge> (if me_isRaid entry then MAX_RAID_DIFFICULTY else MAX_DUNGEON_DIFFICULTY) then (None, byId)
               else let save = \<lparr>is_map = mapId, is_instance = instanceId, is_difficulty = difficulty, is_canReset = canReset\<rparr>
                    in (Some save, map_set instanceId save byId)))"

text \<open>A row of the query on \<^verbatim>\<open>group_instance\<close>, \<^verbatim>\<open>instance\<close> and \<^verbatim>\<open>character_instance\<close>.\<close>

record group_instance_row =
  gi_guid :: u32
  gi_map :: u32
  gi_instance :: u32
  gi_permanent :: bool
  gi_difficulty :: u8
  gi_canReset :: bool

type_synonym load_state = "gworld \<times> (u32, instance_save) stdmap"

definition load_instance_row :: "group_instance_row \<Rightarrow> load_state \<Rightarrow> load_state" where
  "load_instance_row r = (\<lambda>(w, byId).
     case ge_map_entry (gs_env w) (gi_map r) of
       None \<Rightarrow> (w, byId)
     | Some entry \<Rightarrow>
         if \<not> me_isDungeon entry then (w, byId)
         else
           let diff = (if gi_difficulty r \<ge> (if me_isRaid entry then MAX_RAID_DIFFICULTY else MAX_DUNGEON_DIFFICULTY)
                       then 0 else gi_difficulty r);
               (save, byId') = AddInstanceSave (gs_env w) (gi_map r) (gi_instance r) diff (gi_canReset r) byId
           in case GetGroupByDbStoreId w (gi_guid r) of
                None \<Rightarrow> (gfault NullDeref w, byId')
              | Some p \<Rightarrow> (BindToInstance p save (gi_permanent r) True w, byId'))"

section \<open>Start-up\<close>

definition load_group_row :: "u32 \<times> group_row \<Rightarrow> gworld \<Rightarrow> gworld" where
  "load_group_row = (\<lambda>(i, r) w.
     let (p, w1) = new_group w;
         w2 = LoadGroupFromDB p i r w1;
         w3 = AddGroup p w2
     in with_group p w3 (\<lambda>g.
          let storageId = m_dbStoreId g;
              w4 = RegisterGroupDbStoreId storageId p w3
          in if storageId = NextGroupDbStoreId w4 then w4\<lparr>NextGroupDbStoreId := NextGroupDbStoreId w4 + 1\<rparr> else w4))"

definition load_member_row :: "u32 \<times> member_row \<Rightarrow> gworld \<Rightarrow> gworld" where
  "load_member_row = (\<lambda>(m, r) w.
     case GetGroupByDbStoreId w (mw_guid r) of
       None \<Rightarrow> w
     | Some p \<Rightarrow> LoadMemberFromDB p m (mw_memberFlags r) (mw_subgroup r) (mw_roles r) w)"

definition LoadGroups ::
  "((u32, member_row) stdmap \<Rightarrow> (u32 \<times> member_row) list) \<Rightarrow> group_instance_row list \<Rightarrow> load_state \<Rightarrow> load_state" where
  "LoadGroups select_members instance_rows = (\<lambda>(w, byId).
     let w1 = delete_bad_groups w
     in if db_groups (gs_db w1) = [] then (w1, byId)
        else
          let w2 = fold load_group_row (db_groups (gs_db w1)) w1;
              w3 = delete_bad_members w2;
              ms = select_members (db_group_member (gs_db w3))
          in if ms = [] then (w3, byId)
             else fold load_instance_row instance_rows (fold load_member_row ms w3, byId))"

end
