(* ===== verification/Group_Reload.thy ===== *)
theory Group_Reload
  imports Group_Load Group_Session
begin

text \<open>
  The loops of \<^verbatim>\<open>LoadGroups\<close>: each row of \<^verbatim>\<open>groups\<close>, \<^verbatim>\<open>group_member\<close> and the instance query that is read keeps the state consistent
  with the rows read so far.
\<close>

section \<open>The pool while loading\<close>

lemma register_loaded:
  fixes p :: gptr
  assumes ok: "pool_ok w" and i: "i \<noteq> 0" "unat i < 0xFFFFFFFF" "\<not> id_used (GroupDbStore w) (Suc (unat i))"
  defines "x \<equiv> RegisterGroupDbStoreId i p w"
  defines "y \<equiv> (if i = NextGroupDbStoreId x then x\<lparr>NextGroupDbStoreId := NextGroupDbStoreId x + 1\<rparr> else x)"
  shows "pool_ok y" "gs_fault y = gs_fault w" "GetGroupByDbStoreId y j = (if j = i then Some p else GetGroupByDbStoreId w j)"
proof -
  let ?S = "GroupDbStore w" and ?n = "NextGroupDbStoreId w"
  have i1: "unat (i + 1) = Suc (unat i)" using i(2) by (simp add: unat_add_lem [THEN iffD1])
  define S1 where "S1 = (if unat i \<ge> length ?S then ?S @ replicate (Suc (unat i) - length ?S) None else ?S)"
  have len: "unat i < length S1" by (auto simp: S1_def)
  have x: "x = w\<lparr>GroupDbStore := S1[unat i := Some p]\<rparr>"
    using len i1 by (simp add: x_def RegisterGroupDbStoreId_def Let_def S1_def split: if_splits)
  have nth: "S1 ! k = (if k < length ?S then ?S ! k else None)" if "k < length S1" for k
    using that by (auto simp: S1_def nth_append split: if_splits)
  have y: "gs_fault y = gs_fault w" "GroupDbStore y = S1[unat i := Some p]" "NextGroupDbStoreId y = (if i = ?n then ?n + 1 else ?n)"
    using x by (auto simp: y_def)
  show "gs_fault y = gs_fault w" by (rule y(1))
  have used: "id_used (GroupDbStore y) k \<longleftrightarrow> k = unat i \<or> id_used ?S k" for k
  proof (cases "k < length S1")
    case True
    then show ?thesis using nth [OF True] len by (auto simp: y(2) id_used_def nth_list_update)
  next
    case False
    then have "\<not> k < length ?S" "k \<noteq> unat i" using len by (auto simp: S1_def split: if_splits)
    then show ?thesis using False by (simp add: y(2) id_used_def)
  qed
  show "GetGroupByDbStoreId y j = (if j = i then Some p else GetGroupByDbStoreId w j)"
  proof (cases "unat j < length S1")
    case True
    then show ?thesis using nth [OF True] len word_unat_eq_iff [of i j] by (auto simp: GetGroupByDbStoreId_def y(2) nth_list_update)
  next
    case False
    then have "\<not> unat j < length ?S" "j \<noteq> i" using len by (auto simp: S1_def split: if_splits)
    then show ?thesis using False by (simp add: GetGroupByDbStoreId_def y(2))
  qed
  show "pool_ok y"
  proof (cases "i = ?n")
    case True
    then have "unat (NextGroupDbStoreId y) = Suc (unat i)" using i1 y(3) by simp
    then show ?thesis using ok used True i(3) by (auto simp: pool_ok_def less_Suc_eq word_less_nat_alt)
  next
    case False
    have "\<not> id_used (GroupDbStore y) (unat ?n)" using ok used False word_unat_eq_iff [of i ?n] by (auto simp: pool_ok_def)
    then show ?thesis using ok used False y(3) by (auto simp: pool_ok_def)
  qed
qed

section \<open>Loading a group\<close>

definition loaded_group :: "u32 \<Rightarrow> string \<Rightarrow> u32 \<Rightarrow> group_row \<Rightarrow> group" where
  "loaded_group low name i r =
     (let g = loaded_fields name r (Group_new\<lparr>m_dbStoreId := i, m_guid := MAKE_NEW_GUID low 0 HIGHGUID_GROUP,
            m_leaderGuid := MAKE_NEW_GUID (gw_leaderGuid r) 0 HIGHGUID_PLAYER\<rparr>)
      in loaded_difficulty r (if gw_groupType r = GROUPTYPE_RAID then g\<lparr>m_subGroupsCounts := Some (replicate MAX_RAID_SUBGROUPS 0)\<rparr> else g))"

lemma loaded_group_sel [simp]:
  "m_memberSlots (loaded_group low name i r) = []" "m_memberMgr (loaded_group low name i r) = []" "m_invitees (loaded_group low name i r) = []"
  "m_leaderGuid (loaded_group low name i r) = MAKE_NEW_GUID (gw_leaderGuid r) 0 HIGHGUID_PLAYER" "m_dbStoreId (loaded_group low name i r) = i"
  "m_groupType (loaded_group low name i r) = gw_groupType r"
  by (simp_all add: loaded_group_def Let_def loaded_difficulty_def loaded_fields_def Group_new_def)

lemma loaded_group_ok:
  assumes "gw_groupType r = GROUPTYPE_NORMAL \<or> gw_groupType r = GROUPTYPE_RAID"
  shows "group_ok (loaded_group low name i r)" "group_fine (loaded_group low name i r)"
proof -
  have "m_bgGroup (loaded_group low name i r) = None" "m_bfGroup (loaded_group low name i r) = None"
    "m_subGroupsCounts (loaded_group low name i r) = (if gw_groupType r = GROUPTYPE_RAID then Some (replicate MAX_RAID_SUBGROUPS 0) else None)"
    by (simp_all add: loaded_group_def Let_def loaded_difficulty_def loaded_fields_def Group_new_def)
  then show "group_ok (loaded_group low name i r)"
    using assms by (auto simp: group_ok_def counts_ok_def isRaidGroup_def sub_count_def group_types)
  show "group_fine (loaded_group low name i r)"
    by (auto simp: loaded_group_def Let_def loaded_difficulty_def loaded_fields_def Group_new_def group_fine_def binds_fine_def group_sizes
        DUNGEON_DIFFICULTY_NORMAL_def RAID_DIFFICULTY_10MAN_NORMAL_def MAX_DUNGEON_DIFFICULTY_def MAX_RAID_DIFFICULTY_def word_le_nat_alt)
qed

lemma offline_name:
  assumes "w_players W = []"
  shows "GetPlayerNameByGUID W (ucast l) = w_char_names W l" "GetPlayerNameByGUID W (MAKE_NEW_GUID l 0 HIGHGUID_PLAYER) = w_char_names W l"
  using assms player_lopart by (simp_all add: GetPlayerNameByGUID_def FindPlayer_def player_guid)

lemma LoadGroupFromDB_eq:
  assumes g: "gs_groups w p = Some Group_new" and off: "w_players (gs_world w) = []" and name: "w_char_names (gs_world w) (gw_leaderGuid r) = Some name"
    and t: "gw_groupType r = GROUPTYPE_NORMAL \<or> gw_groupType r = GROUPTYPE_RAID"
  obtains low l n where "LoadGroupFromDB p i r w = w\<lparr>gs_groups := (gs_groups w)(p \<mapsto> loaded_group low name i r), gs_log := l, NextGroupId := n\<rparr>"
proof -
  define l where "l = (if NextGroupId w \<ge> 0xFFFFFFFE then gs_log w @ [StopNow] else gs_log w)"
  define n where "n = NextGroupId w + 1"
  have gen: "GenerateGroupId (w\<lparr>gs_groups := (gs_groups w)(p \<mapsto> Group_new\<lparr>m_dbStoreId := i\<rparr>)\<rparr>)
      = (NextGroupId w, w\<lparr>gs_groups := (gs_groups w)(p \<mapsto> Group_new\<lparr>m_dbStoreId := i\<rparr>), gs_log := l, NextGroupId := n\<rparr>)"
    by (auto simp: GenerateGroupId_def Let_def act_def l_def n_def intro!: gworld.equality)
  have "LoadGroupFromDB p i r w = w\<lparr>gs_groups := (gs_groups w)(p \<mapsto> loaded_group (NextGroupId w) name i r), gs_log := l, NextGroupId := n\<rparr>"
  proof (cases "gw_groupType r = GROUPTYPE_NORMAL")
    case True
    then show ?thesis
      using g off name gen
      by (simp add: LoadGroupFromDB_def modg_def with_group_def Let_def offline_name group_types loaded_group_def)
  next
    case False
    then show ?thesis
      using g off name gen t
      by (simp add: LoadGroupFromDB_def modg_def with_group_def Let_def offline_name group_types loaded_group_def initRaidSubGroupsCounter_def)
        (simp add: loaded_fields_def Group_new_def)
  qed
  then show thesis by (rule that)
qed

lemma load_group_row_sel:
  assumes off: "w_players (gs_world w) = []" and name: "w_char_names (gs_world w) (gw_leaderGuid r) = Some name"
    and t: "gw_groupType r = GROUPTYPE_NORMAL \<or> gw_groupType r = GROUPTYPE_RAID"
    and pool: "pool_ok w" "i \<noteq> 0" "unat i < 0xFFFFFFFF" "\<not> id_used (GroupDbStore w) (Suc (unat i))"
  obtains low where "gs_groups (load_group_row (i, r) w) = (gs_groups w)(gs_next w \<mapsto> loaded_group low name i r)"
    "gs_next (load_group_row (i, r) w) = Suc (gs_next w)" "gs_pl (load_group_row (i, r) w) = gs_pl w" "gs_world (load_group_row (i, r) w) = gs_world w"
    "gs_env (load_group_row (i, r) w) = gs_env w" "gs_db (load_group_row (i, r) w) = gs_db w" "gs_fault (load_group_row (i, r) w) = gs_fault w"
    "pool_ok (load_group_row (i, r) w)"
    "\<And>j. GetGroupByDbStoreId (load_group_row (i, r) w) j = (if j = i then Some (gs_next w) else GetGroupByDbStoreId w j)"
proof -
  let ?p = "gs_next w" and ?w1 = "w\<lparr>gs_next := Suc (gs_next w), gs_groups := (gs_groups w)(gs_next w \<mapsto> Group_new)\<rparr>"
  have g1: "gs_groups ?w1 ?p = Some Group_new" "w_players (gs_world ?w1) = []" "w_char_names (gs_world ?w1) (gw_leaderGuid r) = Some name"
    using off name by simp_all
  obtain low l n where L: "LoadGroupFromDB ?p i r ?w1 = ?w1\<lparr>gs_groups := (gs_groups ?w1)(?p \<mapsto> loaded_group low name i r), gs_log := l, NextGroupId := n\<rparr>"
    by (rule LoadGroupFromDB_eq [OF g1 t])
  define w3 where "w3 = AddGroup ?p (LoadGroupFromDB ?p i r ?w1)"
  have w3: "gs_groups w3 = (gs_groups w)(?p \<mapsto> loaded_group low name i r)" "gs_next w3 = Suc (gs_next w)" "gs_pl w3 = gs_pl w" "gs_world w3 = gs_world w"
      "gs_env w3 = gs_env w" "gs_db w3 = gs_db w" "gs_fault w3 = gs_fault w" "GroupDbStore w3 = GroupDbStore w" "NextGroupDbStoreId w3 = NextGroupDbStoreId w"
    by (simp_all add: w3_def L AddGroup_def with_group_def)
  define x where "x = RegisterGroupDbStoreId i ?p w3"
  have eq: "load_group_row (i, r) w = (if i = NextGroupDbStoreId x then x\<lparr>NextGroupDbStoreId := NextGroupDbStoreId x + 1\<rparr> else x)"
    using w3(1) by (simp add: load_group_row_def new_group_def with_group_def Let_def x_def w3_def)
  have x: "gs_groups x = gs_groups w3" "gs_next x = gs_next w3" "gs_pl x = gs_pl w3" "gs_world x = gs_world w3" "gs_env x = gs_env w3" "gs_db x = gs_db w3"
    by (simp_all add: x_def RegisterGroupDbStoreId_def Let_def gfault_def)
  have ok: "pool_ok w3" using pool(1) w3(8,9) by (simp add: pool_ok_def)
  have below: "\<not> id_used (GroupDbStore w3) (Suc (unat i))" using pool(4) w3(8) by simp
  note reg = register_loaded [OF ok pool(2,3) below, where p = ?p, folded x_def]
  show thesis
  proof (rule that [of low])
    show "pool_ok (load_group_row (i, r) w)" unfolding eq by (rule reg(1))
    show "gs_fault (load_group_row (i, r) w) = gs_fault w" unfolding eq using reg(2) w3(7) by simp
    show "GetGroupByDbStoreId (load_group_row (i, r) w) j = (if j = i then Some ?p else GetGroupByDbStoreId w j)" for j
      unfolding eq using reg(3) [of j] w3(8) by (simp add: GetGroupByDbStoreId_def)
  qed (simp_all add: eq x w3)
qed

text \<open>The state while the rows are read: the tables hold what has been read so far.\<close>

abbreviation read_so_far :: "(u32, group_row) stdmap \<Rightarrow> (u32, member_row) stdmap \<Rightarrow> gworld \<Rightarrow> gworld" where
  "read_so_far gs ms w \<equiv> w\<lparr>gs_db := \<lparr>db_groups = gs, db_group_member = ms\<rparr>\<rparr>"

lemma read_so_far_view [simp]:
  "GetGroup (w\<lparr>gs_db := d\<rparr>) = GetGroup w" "GetOriginalGroup (w\<lparr>gs_db := d\<rparr>) = GetOriginalGroup w" "invite_of (w\<lparr>gs_db := d\<rparr>) = invite_of w"
  "subgroup_of (w\<lparr>gs_db := d\<rparr>) = subgroup_of w" "loaded (w\<lparr>gs_db := d\<rparr>) = loaded w" "GetGroupByDbStoreId (w\<lparr>gs_db := d\<rparr>) = GetGroupByDbStoreId w"
  "pool_ok (w\<lparr>gs_db := d\<rparr>) = pool_ok w" "sane (w\<lparr>gs_db := d\<rparr>) = sane w"
  by (auto simp: GetGroup_def GetOriginalGroup_def invite_of_def subgroup_of_def loaded_def GetGroupByDbStoreId_def pool_ok_def sane_def fun_eq_iff)

lemma nobody_linked:
  assumes "consistent w" "w_players (gs_world w) = []"
  shows "GetGroup w u = None" "invite_of w u = None" "GetOriginalGroup w u = None" "\<not> loaded w u"
proof -
  show l: "\<not> loaded w u" using assms(2) by (simp add: loaded_def)
  show "GetGroup w u = None" "invite_of w u = None" "GetOriginalGroup w u = None"
    using consistentD(5) [OF assms(1), of u] l by (cases "GetGroup w u"; cases "invite_of w u"; simp add: player_ok_def)+
qed

lemma map_wf_snoc:
  assumes "map_wf (gs @ [(i, r)])"
  shows "map_wf gs" "map_find (gs @ [(i, r)]) j = (if j = i then Some r else map_find gs j)" "map_find gs j \<noteq> None \<Longrightarrow> j < i"
proof -
  have s: "sorted_wrt (<) (map fst gs)" "\<forall>k \<in> set (map fst gs). k < i" using assms by (simp_all add: map_wf_def sorted_wrt_append)
  show "map_wf gs" using s(1) by (simp add: map_wf_def)
  show lt: "map_find gs j \<noteq> None \<Longrightarrow> j < i" for j using s(2) by (fastforce simp: map_find_def dest: map_of_SomeD)
  show "map_find (gs @ [(i, r)]) j = (if j = i then Some r else map_find gs j)"
    using lt [of j] by (auto simp: map_find_def map_add_def split: option.split)
qed

definition group_row_fits :: "gworld \<Rightarrow> u32 \<times> group_row \<Rightarrow> bool" where
  "group_row_fits w = (\<lambda>(i, r). i \<noteq> 0 \<and> unat i < 0xFFFFFFFF \<and> char_exists w (gw_leaderGuid r)
     \<and> (gw_groupType r = GROUPTYPE_NORMAL \<or> gw_groupType r = GROUPTYPE_RAID))"

lemma load_group_row_consistent:
  assumes c: "consistent (read_so_far gs [] w)" and off: "w_players (gs_world w) = []"
    and wf: "map_wf (gs @ [(i, r)])" and fits: "group_row_fits w (i, r)"
  obtains g where "consistent (read_so_far (gs @ [(i, r)]) [] (load_group_row (i, r) w))"
    "gs_groups (load_group_row (i, r) w) = (gs_groups w)(gs_next w \<mapsto> g)" "m_dbStoreId g = i" "gs_world (load_group_row (i, r) w) = gs_world w"
    "gs_pl (load_group_row (i, r) w) = gs_pl w" "gs_env (load_group_row (i, r) w) = gs_env w" "gs_db (load_group_row (i, r) w) = gs_db w"
proof -
  let ?x = "read_so_far gs [] w" and ?p = "gs_next w"
  define w' where "w' = load_group_row (i, r) w"
  let ?y = "read_so_far (gs @ [(i, r)]) [] w'"
  obtain name where name: "w_char_names (gs_world w) (gw_leaderGuid r) = Some name" using fits by (auto simp: group_row_fits_def char_exists_def)
  have i: "i \<noteq> 0" "unat i < 0xFFFFFFFF" and t: "gw_groupType r = GROUPTYPE_NORMAL \<or> gw_groupType r = GROUPTYPE_RAID"
    using fits by (simp_all add: group_row_fits_def)
  note T = consistentD(4) [OF c] and snoc = map_wf_snoc [OF wf]
  have ids_below: "j < i" if used: "GetGroupByDbStoreId w j \<noteq> None" for j
  proof -
    obtain q g where g: "gs_groups w q = Some g" "m_dbStoreId g = j" "j \<noteq> 0" using tables_poolD [OF T, of j] used by auto
    then have "stored_ok ?x q g" using consistentD(6) [OF c, of q g] by (simp add: each_group_ok_def)
    then show ?thesis using g snoc(3) [of j] by (auto simp: stored_ok_def)
  qed
  have "unat (of_nat (Suc (unat i)) :: u32) = Suc (unat i)" using i(2) by (intro unat_of_nat_small) simp
  then have below: "\<not> id_used (GroupDbStore w) (Suc (unat i))"
    using ids_below [of "of_nat (Suc (unat i))"]
    by (cases "GroupDbStore w ! Suc (unat i)") (auto simp: GetGroupByDbStoreId_def id_used_def word_less_nat_alt)
  have pool: "pool_ok w" using T by (simp add: tables_ok_def)
  obtain low where sel: "gs_groups w' = (gs_groups w)(?p \<mapsto> loaded_group low name i r)" "gs_next w' = Suc ?p" "gs_pl w' = gs_pl w" "gs_world w' = gs_world w"
    "gs_env w' = gs_env w" "gs_db w' = gs_db w" "gs_fault w' = gs_fault w" "pool_ok w'"
    "\<And>j. GetGroupByDbStoreId w' j = (if j = i then Some ?p else GetGroupByDbStoreId w j)"
    using load_group_row_sel [OF off name t pool i below] unfolding w'_def by metis
  let ?g = "loaded_group low name i r"
  have off': "w_players (gs_world ?x) = []" using off by simp
  note alone = nobody_linked [OF c off', simplified]
  have view: "GetGroup ?y = GetGroup w" "GetOriginalGroup ?y = GetOriginalGroup w" "invite_of ?y = invite_of w" "loaded ?y = loaded w"
    using sel by (auto simp: GetGroup_def GetOriginalGroup_def invite_of_def loaded_def fun_eq_iff)
  have fresh: "gs_groups w ?p = None" using consistentD(6) [OF c, of ?p] by (cases "gs_groups w ?p") (auto simp: each_group_ok_def)
  have ids: "store_ids ?x ?y ?p = {i}" using fresh sel(1) i(1) by (auto simp: store_ids_def)
  have free: "GetGroupByDbStoreId w i = None" using ids_below [of i] by (cases "GetGroupByDbStoreId w i") auto
  have "sane ?y" using consistentD(2) [OF c] sel(1,3,5) loaded_group_ok(2) [OF t] by (auto simp: sane_def)
  then have "footprint ?x ?y ?p {}"
    using c consistentD(1,3) [OF c] wf snoc(2) sel fresh ids free alone view unfolding footprint_def by (simp add: map_wf_def)
  then have cy: "consistent ?y"
  proof (rule fp_consistent)
    show "each_group_ok ?y ?p h" if "gs_groups ?y ?p = Some h" for h
    proof -
      have h: "h = ?g" using that sel(1) by simp
      show ?thesis
        unfolding h using loaded_group_ok(1) [OF t] alone view sel(2,9) i(1) snoc(2) [of i] player_lopart
        by (simp add: each_group_ok_def linked_ok_def invited_ok_def members_ok_def stored_ok_def set_wf_def player_guid)
    qed
  qed simp
  show thesis by (rule that [of ?g]) (use cy sel in \<open>simp_all add: w'_def\<close>)
qed

definition all_stored :: "gworld \<Rightarrow> bool" where
  "all_stored w \<longleftrightarrow> (\<forall>p g. gs_groups w p = Some g \<longrightarrow> m_dbStoreId g \<noteq> 0)"

lemma load_groups_consistent:
  assumes "consistent (read_so_far gs [] w)" "w_players (gs_world w) = []" "map_wf (gs @ rest)" "\<forall>x \<in> set rest. group_row_fits w x" "all_stored w"
  shows "consistent (read_so_far (gs @ rest) [] (fold load_group_row rest w)) \<and> all_stored (fold load_group_row rest w)
    \<and> gs_world (fold load_group_row rest w) = gs_world w \<and> gs_pl (fold load_group_row rest w) = gs_pl w
    \<and> gs_env (fold load_group_row rest w) = gs_env w \<and> gs_db (fold load_group_row rest w) = gs_db w"
  using assms
proof (induction rest arbitrary: gs w)
  case (Cons x rest)
  obtain i r where x: "x = (i, r)" by fastforce
  have "sorted_wrt (<) (map fst gs @ [i])" using Cons.prems(3) x by (auto simp: map_wf_def sorted_wrt_append)
  then have wf: "map_wf (gs @ [(i, r)])" by (simp add: map_wf_def)
  have fits: "group_row_fits w (i, r)" using Cons.prems(4) x by simp
  obtain g where s: "consistent (read_so_far (gs @ [(i, r)]) [] (load_group_row (i, r) w))"
      "gs_groups (load_group_row (i, r) w) = (gs_groups w)(gs_next w \<mapsto> g)" "m_dbStoreId g = i" "gs_world (load_group_row (i, r) w) = gs_world w"
      "gs_pl (load_group_row (i, r) w) = gs_pl w" "gs_env (load_group_row (i, r) w) = gs_env w" "gs_db (load_group_row (i, r) w) = gs_db w"
    by (rule load_group_row_consistent [OF Cons.prems(1,2) wf fits])
  have "all_stored (load_group_row (i, r) w)"
    using Cons.prems(5) s(2,3) fits by (auto simp: all_stored_def group_row_fits_def)
  moreover have "\<forall>y \<in> set rest. group_row_fits (load_group_row (i, r) w) y"
    using Cons.prems(4) s(4) by (auto simp: group_row_fits_def char_exists_def)
  ultimately show ?case
    using Cons.IH [OF s(1)] Cons.prems(2,3) s(4-7) x by simp
qed simp

section \<open>Loading a member\<close>

lemma seated_sel [simp]:
  "m_memberSlots (seated s g) = m_memberSlots g @ [s]" "m_memberMgr (seated s g) = m_memberMgr g" "m_invitees (seated s g) = m_invitees g"
  "m_dbStoreId (seated s g) = m_dbStoreId g" "m_leaderGuid (seated s g) = m_leaderGuid g" "m_groupType (seated s g) = m_groupType g"
  "group_fine (seated s g) = group_fine g"
  by (simp_all add: seated_def group_fine_def)

definition row_slot :: "string \<Rightarrow> u32 \<times> member_row \<Rightarrow> member_slot" where
  "row_slot name = (\<lambda>(m, r). \<lparr>ms_guid = MAKE_NEW_GUID m 0 HIGHGUID_PLAYER, ms_name = name, ms_group = mw_subgroup r, ms_flags = mw_memberFlags r,
     ms_roles = mw_roles r\<rparr>)"

lemma row_slot_sel [simp]: "ms_guid (row_slot name (m, r)) = ucast m" "ms_group (row_slot name (m, r)) = mw_subgroup r"
  by (simp_all add: row_slot_def player_guid)

lemma is_player_ucast: "m \<noteq> 0 \<Longrightarrow> is_player (ucast (m :: u32))"
  using player_lopart [of m] by (simp add: is_player_def player_guid)

lemma load_member_row_eq:
  assumes p: "GetGroupByDbStoreId w (mw_guid r) = Some p" "gs_groups w p = Some g" "group_ok g" "seat_fits g (mw_subgroup r)"
    and off: "w_players (gs_world w) = []" and name: "w_char_names (gs_world w) m = Some name"
  shows "load_member_row (m, r) w = act (LfgSetupGroupMember (MAKE_NEW_GUID m 0 HIGHGUID_PLAYER) (m_guid g))
     (w\<lparr>gs_groups := (gs_groups w)(p \<mapsto> seated (row_slot name (m, r)) g)\<rparr>)"
proof (cases "m_subGroupsCounts g")
  case None
  then show ?thesis
    using p off name
    by (simp add: load_member_row_def LoadMemberFromDB_def Let_def offline_name modg_def with_group_def SubGroupCounterIncrease_def
        count_change_def seated_def row_slot_def no_counts)
next
  case (Some c)
  have "unat (mw_subgroup r) < length c"
    using p(3,4) Some by (auto simp: group_ok_def counts_ok_def seat_fits_def split: if_splits)
  then show ?thesis
    using p off name Some
    by (simp add: load_member_row_def LoadMemberFromDB_def Let_def offline_name modg_def with_group_def SubGroupCounterIncrease_def
        count_change_def seated_def row_slot_def)
qed

lemma load_member_row_consistent:
  assumes c: "consistent (read_so_far gs ms w)" and off: "w_players (gs_world w) = []"
    and p: "GetGroupByDbStoreId w (mw_guid r) = Some p" "gs_groups w p = Some g" "seat_fits g (mw_subgroup r)"
    and row: "char_exists w m" "m \<noteq> 0" "map_find ms m = None"
  obtains s a where "load_member_row (m, r) w = act a (w\<lparr>gs_groups := (gs_groups w)(p \<mapsto> seated s g)\<rparr>)"
    "ms_guid s = ucast m" "ms_group s = mw_subgroup r" "consistent (read_so_far gs (map_set m r ms) (load_member_row (m, r) w))"
proof -
  let ?x = "read_so_far gs ms w"
  obtain name where name: "w_char_names (gs_world w) m = Some name" using row(1) by (auto simp: char_exists_def)
  define s where "s = row_slot name (m, r)"
  have s: "ms_guid s = ucast m" "ms_group s = mw_subgroup r" by (simp_all add: s_def)
  have gx: "gs_groups ?x p = Some g" using p(2) by simp
  note G = consistentD(6) [OF c gx]
  have ok: "group_ok g" using G by (simp add: each_group_ok_def)
  note eq = load_member_row_eq [OF p(1,2) ok p(3) off name, folded s_def]
  have id: "m_dbStoreId g = mw_guid r" "mw_guid r \<noteq> 0" using tables_poolD [OF consistentD(4) [OF c], of "mw_guid r" p] p(1,2) by auto
  have off': "w_players (gs_world ?x) = []" using off by simp
  note alone = nobody_linked [OF c off', simplified]
  define y where "y = read_so_far gs (map_set m r ms) (load_member_row (m, r) w)"
  have y: "gs_groups y = (gs_groups w)(p \<mapsto> seated s g)" "gs_pl y = gs_pl w" "gs_world y = gs_world w" "gs_next y = gs_next w" "gs_fault y = gs_fault w"
      "GroupDbStore y = GroupDbStore w" "NextGroupDbStoreId y = NextGroupDbStoreId w" "gs_db y = \<lparr>db_groups = gs, db_group_member = map_set m r ms\<rparr>"
      "gs_env y = gs_env w"
    by (simp_all add: y_def eq act_def)
  have view: "GetGroup y = GetGroup w" "GetOriginalGroup y = GetOriginalGroup w" "invite_of y = invite_of w" "loaded y = loaded w"
      "GetGroupByDbStoreId y = GetGroupByDbStoreId w"
    using y by (auto simp: GetGroup_def GetOriginalGroup_def invite_of_def loaded_def GetGroupByDbStoreId_def fun_eq_iff)
  have new: "ms_guid t \<noteq> ucast m" if t: "gs_groups w q = Some h" "t \<in> set (m_memberSlots h)" for q h t
  proof
    assume eq: "ms_guid t = ucast m"
    have "stored_ok ?x q h" using consistentD(6) [OF c, of q h] t(1) by (simp add: each_group_ok_def)
    from stored_rowD(3) [OF this t(2)] show False using row(3) player_lopart [of m] eq by auto
  qed
  have "sane y" using consistentD(2) [OF c] y(1,2,9) p(2) by (auto simp: sane_def)
  moreover have wf: "map_wf ms" using consistentD(4) [OF c] by (simp add: tables_ok_def)
  ultimately have "footprint ?x y p {ucast m}"
    using consistentD(1,3) [OF c] consistent_tables [OF c] y view alone new id is_player_ucast [OF row(2)] player_lopart [of m] p(2) s(1)
    by (intro footprint_local [OF c gx, where g' = "seated s g"]) (auto simp: container_simps wf_intros)
  then have "consistent y"
  proof (rule fp_consistent)
    show "player_ok y u" for u using alone view by (simp add: player_ok_def)
    show "each_group_ok y p h" if "gs_groups y p = Some h" for h
    proof -
      have h: "h = seated s g" using that y(1) by simp
      have "ms_guid s \<notin> ms_guid ` set (m_memberSlots g)" using new [OF p(2)] s(1) by (metis imageE)
      then have "group_ok (seated s g)" using ok p(3) s(2) by (intro seated_ok) simp_all
      moreover have "stored_ok y p (seated s g)"
        using G id s player_lopart [of m] row(3) view y(8) by (auto simp: each_group_ok_def stored_ok_def container_simps)
      ultimately show ?thesis
        unfolding h using G view alone y(4) s is_player_ucast [OF row(2)]
        by (auto simp: each_group_ok_def linked_ok_def invited_ok_def members_ok_def)
    qed
  qed
  then show thesis by (intro that [OF eq s]) (simp add: y_def)
qed

section \<open>Loading all members\<close>

definition sub_rows :: "u32 \<Rightarrow> nat \<Rightarrow> (u32 \<times> member_row) list \<Rightarrow> nat" where
  "sub_rows i k ms = length (filter (\<lambda>(m, r). unat (mw_subgroup r) = k) (rows_of i ms))"

definition row_fits :: "gworld \<Rightarrow> (u32, group_row) stdmap \<Rightarrow> (u32 \<times> member_row) list \<Rightarrow> u32 \<times> member_row \<Rightarrow> bool" where
  "row_fits w gs ms = (\<lambda>(m, r). m \<noteq> 0 \<and> char_exists w m \<and>
     (case map_find gs (mw_guid r) of
        None \<Rightarrow> False
      | Some gr \<Rightarrow>
          if gw_groupType gr = GROUPTYPE_RAID
          then unat (mw_subgroup r) < MAX_RAID_SUBGROUPS \<and> sub_rows (mw_guid r) (unat (mw_subgroup r)) ms \<le> MAXGROUPSIZE
          else mw_subgroup r = 0 \<and> length (rows_of (mw_guid r) ms) \<le> MAXGROUPSIZE))"

text \<open>The members of a group are the rows read for it, in the order they were read.\<close>

definition placed :: "(u32 \<times> member_row) list \<Rightarrow> gworld \<Rightarrow> bool" where
  "placed ms w \<longleftrightarrow> (\<forall>p g. gs_groups w p = Some g \<longrightarrow> places g = map (\<lambda>(m, r). (ucast m, mw_subgroup r)) (rows_of (m_dbStoreId g) ms))"

lemma placed_counts:
  assumes "placed ms w" "gs_groups w p = Some g"
  shows "length (m_memberSlots g) = length (rows_of (m_dbStoreId g) ms)" "sub_count (m_memberSlots g) k = sub_rows (m_dbStoreId g) k ms"
proof -
  have eq: "places g = map (\<lambda>(m, r). (ucast m, mw_subgroup r)) (rows_of (m_dbStoreId g) ms)" using assms by (simp add: placed_def)
  show "length (m_memberSlots g) = length (rows_of (m_dbStoreId g) ms)" using arg_cong [OF eq, of length] by simp
  have "sub_count (m_memberSlots g) k = length (filter (\<lambda>x. unat (snd x) = k) (places g))" by (simp add: sub_count_def filter_map comp_def)
  also have "\<dots> = sub_rows (m_dbStoreId g) k ms" unfolding eq by (simp add: sub_rows_def filter_map comp_def case_prod_unfold)
  finally show "sub_count (m_memberSlots g) k = sub_rows (m_dbStoreId g) k ms" .
qed

lemma rows_of_simps [simp]:
  "rows_of i [] = []" "rows_of i (ms @ ms') = rows_of i ms @ rows_of i ms'"
  "rows_of i ((m, r) # ms) = (if mw_guid r = i then (m, r) # rows_of i ms else rows_of i ms)"
  by (simp_all add: rows_of_def)

lemma seat_of_row:
  assumes c: "consistent (read_so_far gs M w)" and p: "GetGroupByDbStoreId w (mw_guid r) = Some p" "gs_groups w p = Some g"
    and pl: "placed ms w" and fits: "row_fits w gs (ms @ (m, r) # rest) (m, r)"
  shows "seat_fits g (mw_subgroup r)"
proof -
  have id: "m_dbStoreId g = mw_guid r" "mw_guid r \<noteq> 0" using tables_poolD [OF consistentD(4) [OF c], of "mw_guid r" p] p by auto
  have gx: "gs_groups (read_so_far gs M w) p = Some g" using p(2) by simp
  obtain gr where gr: "map_find gs (mw_guid r) = Some gr" "gw_groupType gr = m_groupType g"
    using consistentD(6) [OF c gx] id by (auto simp: each_group_ok_def stored_ok_def)
  have "m_groupType g = GROUPTYPE_NORMAL \<or> m_groupType g = GROUPTYPE_RAID" using consistentD(6) [OF c gx] by (simp add: each_group_ok_def group_ok_def)
  then have raid: "isRaidGroup g \<longleftrightarrow> gw_groupType gr = GROUPTYPE_RAID" using gr(2) by (auto simp: isRaidGroup_def group_types)
  show ?thesis
    using fits gr(1) raid id(1) placed_counts [OF pl p(2)]
    by (auto simp: row_fits_def seat_fits_def sub_rows_def split: if_splits)
qed

lemma load_members_consistent:
  assumes "consistent (read_so_far gs M w)" "w_players (gs_world w) = []" "all_stored w" "placed ms w" "distinct (map fst (ms @ rest))"
    "\<And>m r. map_find M m = Some r \<longleftrightarrow> (m, r) \<in> set ms" "\<forall>x \<in> set rest. row_fits w gs (ms @ rest) x"
  obtains M' where "consistent (read_so_far gs M' (fold load_member_row rest w))" "placed (ms @ rest) (fold load_member_row rest w)"
    "all_stored (fold load_member_row rest w)" "\<And>m r. map_find M' m = Some r \<longleftrightarrow> (m, r) \<in> set (ms @ rest)"
    "gs_world (fold load_member_row rest w) = gs_world w" "gs_env (fold load_member_row rest w) = gs_env w" "gs_db (fold load_member_row rest w) = gs_db w"
    "gs_pl (fold load_member_row rest w) = gs_pl w"
  using assms
proof (induction rest arbitrary: ms M w thesis)
  case Nil
  from Nil.prems(1) [of M] Nil.prems(2-) show ?case by simp
next
  case (Cons x rest)
  note c = Cons.prems(2) and off = Cons.prems(3)
  obtain m r where x: "x = (m, r)" by fastforce
  have fits: "row_fits w gs (ms @ (m, r) # rest) (m, r)" using Cons.prems(8) x by auto
  then obtain gr where gr: "map_find gs (mw_guid r) = Some gr" and row: "char_exists w m" "m \<noteq> 0" by (auto simp: row_fits_def split: option.splits)
  obtain p where p: "GetGroupByDbStoreId w (mw_guid r) = Some p" using consistentD(4) [OF c] gr by (auto simp: tables_ok_def)
  then obtain g where g: "gs_groups w p = Some g" "m_dbStoreId g = mw_guid r" using tables_poolD [OF consistentD(4) [OF c], of "mw_guid r" p] by auto
  have new: "map_find M m = None" using Cons.prems(6,7) x by (cases "map_find M m") force+
  obtain s a where st: "load_member_row (m, r) w = act a (w\<lparr>gs_groups := (gs_groups w)(p \<mapsto> seated s g)\<rparr>)" "ms_guid s = ucast m" "ms_group s = mw_subgroup r"
      "consistent (read_so_far gs (map_set m r M) (load_member_row (m, r) w))"
    by (rule load_member_row_consistent [OF c off p g(1) seat_of_row [OF c p g(1) Cons.prems(5) fits] row new])
  let ?w = "load_member_row (m, r) w"
  have sel: "gs_groups ?w = (gs_groups w)(p \<mapsto> seated s g)" "gs_world ?w = gs_world w" "gs_env ?w = gs_env w" "gs_db ?w = gs_db w" "gs_pl ?w = gs_pl w"
    by (simp_all add: st(1) act_def)
  have other: "m_dbStoreId h \<noteq> mw_guid r" if h: "gs_groups w q = Some h" "q \<noteq> p" for q h
  proof -
    have "stored_ok (read_so_far gs M w) q h" using consistentD(6) [OF c, of q h] h(1) by (simp add: each_group_ok_def)
    then show ?thesis using Cons.prems(4) h p by (auto simp: stored_ok_def all_stored_def)
  qed
  have pl: "placed (ms @ [(m, r)]) ?w"
    using Cons.prems(5) sel(1) g st(2,3) by (auto simp: placed_def) (metis other)
  have stored: "all_stored ?w" using Cons.prems(4) sel(1) g by (auto simp: all_stored_def)
  have dist: "distinct (map fst ((ms @ [(m, r)]) @ rest))" using Cons.prems(6) x by simp
  have find: "map_find (map_set m r M) k = Some v \<longleftrightarrow> (k, v) \<in> set (ms @ [(m, r)])" for k v
    using Cons.prems(6,7) x by (force simp: container_simps)
  have fit': "\<forall>y \<in> set rest. row_fits ?w gs ((ms @ [(m, r)]) @ rest) y" using Cons.prems(8) sel(2) x by (auto simp: row_fits_def char_exists_def split: option.splits)
  have off': "w_players (gs_world ?w) = []" using off sel(2) by simp
  show ?case
    by (rule Cons.IH [OF _ st(4) off' stored pl dist find fit']) (rule Cons.prems(1); simp add: x sel)
qed

section \<open>Instance saves\<close>

definition saves_fine :: "(u32, instance_save) stdmap \<Rightarrow> bool" where
  "saves_fine byId \<longleftrightarrow> (\<forall>k s. map_find byId k = Some s \<longrightarrow> unat (is_difficulty s) < MAX_DIFFICULTY)"

lemma AddInstanceSave_fine:
  assumes "saves_fine byId" "AddInstanceSave e m i d c byId = (save, byId')"
  shows "saves_fine byId'" "save = Some s \<Longrightarrow> unat (is_difficulty s) < MAX_DIFFICULTY"
  using assms
  by (auto simp: AddInstanceSave_def saves_fine_def Let_def container_simps MAX_DUNGEON_DIFFICULTY_def MAX_RAID_DIFFICULTY_def group_sizes word_le_nat_alt
      split: option.splits if_splits)

lemma load_instance_row_core:
  assumes c: "consistent w" "saves_fine byId" and id: "GetGroupByDbStoreId w (gi_guid r) \<noteq> None" and l: "load_instance_row r (w, byId) = (w', byId')"
  shows "core w' = core w \<and> sane w' \<and> saves_fine byId'"
proof -
  obtain p where p: "GetGroupByDbStoreId w (gi_guid r) = Some p" using id by auto
  then have alive: "gs_groups w p \<noteq> None" using tables_poolD [OF consistentD(4) [OF c(1)]] by blast
  show ?thesis
  proof (cases "(w', byId') = (w, byId)")
    case True
    then show ?thesis using c consistentD(2) [OF c(1)] by simp
  next
    case False
    then obtain entry where e: "ge_map_entry (gs_env w) (gi_map r) = Some entry" "me_isDungeon entry"
      using l by (cases "ge_map_entry (gs_env w) (gi_map r)") (simp_all add: load_instance_row_def split: if_splits)
    define d where "d = (if gi_difficulty r \<ge> (if me_isRaid entry then MAX_RAID_DIFFICULTY else MAX_DUNGEON_DIFFICULTY) then 0 else gi_difficulty r)"
    obtain save byId1 where add: "AddInstanceSave (gs_env w) (gi_map r) (gi_instance r) d (gi_canReset r) byId = (save, byId1)" by fastforce
    have w': "w' = BindToInstance p save (gi_permanent r) True w" "byId' = byId1"
      using l p e add unfolding load_instance_row_def d_def [symmetric] Let_def by (simp_all add: d_def [symmetric])
    note fine = AddInstanceSave_fine [OF c(2) add] and sane = consistentD(2) [OF c(1)]
    have "core w' = core w" unfolding w' by (rule core_BindToInstance [OF alive sane fine(2)])
    moreover have "sane w'" unfolding w' by (rule sane_BindToInstance [OF sane fine(2)])
    ultimately show ?thesis using fine(1) w'(2) by blast
  qed
qed

lemma load_instances_core:
  assumes "consistent w" "saves_fine byId" "\<forall>r \<in> set rows. GetGroupByDbStoreId w (gi_guid r) \<noteq> None"
  shows "core (fst (fold load_instance_row rows (w, byId))) = core w \<and> sane (fst (fold load_instance_row rows (w, byId)))"
  using assms
proof (induction rows arbitrary: w byId)
  case Nil
  then show ?case using consistentD(2) by simp
next
  case (Cons r rows)
  obtain w' byId' where l: "load_instance_row r (w, byId) = (w', byId')" by fastforce
  have id: "GetGroupByDbStoreId w (gi_guid r) \<noteq> None" using Cons.prems(3) by simp
  have s: "core w' = core w" "sane w'" "saves_fine byId'" using load_instance_row_core [OF Cons.prems(1,2) id l] by simp_all
  have "GetGroupByDbStoreId w' = GetGroupByDbStoreId w" using core_eqD(9) [OF s(1)] by (simp add: GetGroupByDbStoreId_def fun_eq_iff)
  then have "\<forall>r \<in> set rows. GetGroupByDbStoreId w' (gi_guid r) \<noteq> None" using Cons.prems(3) by simp
  then show ?case using Cons.IH [OF consistent_core [OF Cons.prems(1) s(1,2)] s(3)] l s(1) by simp
qed

end
