(* ===== verification/Group_Restart.thy ===== *)
theory Group_Restart
  imports Group_Reload "HOL-Library.Multiset"
begin

text \<open>
  A restart of the server brings the groups back: from the tables that a consistent state leaves behind, \<^verbatim>\<open>LoadGroups\<close> builds a
  state that satisfies the invariant of the group system over the same tables.
\<close>

section \<open>The tables of a consistent state\<close>

lemma member_row_iff:
  assumes c: "consistent w"
  shows "(\<exists>r. map_find (member_rows w) m = Some r \<and> mw_guid r = i \<and> mw_subgroup r = n) \<longleftrightarrow>
    (\<exists>p g s. gs_groups w p = Some g \<and> m_dbStoreId g = i \<and> s \<in> set (m_memberSlots g) \<and> GUID_LOPART (ms_guid s) = m \<and> ms_group s = n)"
    (is "?row \<longleftrightarrow> ?slot")
proof
  assume ?row
  then obtain r where r: "map_find (member_rows w) m = Some r" "mw_guid r = i" "mw_subgroup r = n" by blast
  obtain p g s where g: "gs_groups w p = Some g" "s \<in> set (m_memberSlots g)" "GUID_LOPART (ms_guid s) = m" "m_dbStoreId g = mw_guid r"
    using tables_rowD [OF consistentD(4) [OF c] r(1)] by blast
  have "stored_ok w p g" using consistentD(6) [OF c g(1)] by (simp add: each_group_ok_def)
  from stored_rowD(3) [OF this g(2)] have "ms_group s = n" using g(3) r by auto
  then show ?slot using g r(2) by blast
next
  assume ?slot
  then obtain p g s where g: "gs_groups w p = Some g" "m_dbStoreId g = i" "s \<in> set (m_memberSlots g)" "GUID_LOPART (ms_guid s) = m" "ms_group s = n"
    by blast
  have "stored_ok w p g" using consistentD(6) [OF c g(1)] by (simp add: each_group_ok_def)
  from stored_rowD(3) [OF this g(3)] show ?row using g by auto
qed

lemma group_row_iff:
  assumes c: "consistent w"
  shows "(\<exists>r. map_find (group_rows w) i = Some r \<and> gw_leaderGuid r = l \<and> gw_groupType r = t) \<longleftrightarrow>
    (\<exists>p g. gs_groups w p = Some g \<and> m_dbStoreId g = i \<and> i \<noteq> 0 \<and> GUID_LOPART (m_leaderGuid g) = l \<and> m_groupType g = t)"
    (is "?row \<longleftrightarrow> ?group")
proof
  have st: "stored_ok w p g" if "gs_groups w p = Some g" for p g using consistentD(6) [OF c that] by (simp add: each_group_ok_def)
  show ?group if ?row
  proof -
    from that obtain r where r: "map_find (group_rows w) i = Some r" "gw_leaderGuid r = l" "gw_groupType r = t" by blast
    then obtain p where p: "GetGroupByDbStoreId w i = Some p" using consistentD(4) [OF c] by (auto simp: tables_ok_def)
    then obtain g where g: "gs_groups w p = Some g" "m_dbStoreId g = i" "i \<noteq> 0" using tables_poolD [OF consistentD(4) [OF c]] by blast
    then show ?group using st [OF g(1)] r by (auto simp: stored_ok_def)
  qed
  show ?row if ?group using that st by (auto simp: stored_ok_def)
qed

lemma member_row_slots:
  assumes c: "consistent w" and g: "gs_groups w p = Some g" "m_dbStoreId g \<noteq> 0"
  shows "length (filter (\<lambda>(m, r). P (mw_subgroup r)) (rows_of (m_dbStoreId g) (member_rows w))) = length (filter (\<lambda>s. P (ms_group s)) (m_memberSlots g))"
proof -
  let ?rows = "filter (\<lambda>(m, r). P (mw_subgroup r)) (rows_of (m_dbStoreId g) (member_rows w))"
  let ?ss = "filter (\<lambda>s. P (ms_group s)) (m_memberSlots g)" and ?key = "\<lambda>s. GUID_LOPART (ms_guid s)"
  note G = consistentD(6) [OF c g(1)]
  have wf: "map_wf (member_rows w)" using consistentD(4) [OF c] by (simp add: tables_ok_def)
  then have d1: "distinct (map fst ?rows)"
    by (auto simp: rows_of_def map_wf_def strict_sorted_iff distinct_map intro: inj_on_subset)
  have inj: "inj_on ms_guid (set (m_memberSlots g))" "distinct (m_memberSlots g)"
    using G by (simp_all add: each_group_ok_def group_ok_def distinct_map)
  have pl: "is_player (ms_guid s)" if "s \<in> set (m_memberSlots g)" for s using G that by (simp add: each_group_ok_def members_ok_def)
  have "inj_on ?key (set ?ss)"
    using inj(1) lopart_inj [OF pl pl] by (auto simp: inj_on_def)
  then have d2: "distinct (map ?key ?ss)" using inj(2) by (simp add: distinct_map)
  have "x \<in> fst ` set ?rows \<longleftrightarrow> x \<in> ?key ` set ?ss" for x
  proof
    assume "x \<in> fst ` set ?rows"
    then obtain r where r: "map_find (member_rows w) x = Some r" "mw_guid r = m_dbStoreId g" "P (mw_subgroup r)"
      using map_wf_mem_iff [OF wf] by (auto simp: rows_of_def)
    then obtain q h s where h: "gs_groups w q = Some h" "m_dbStoreId h = m_dbStoreId g" "s \<in> set (m_memberSlots h)" "?key s = x" "ms_group s = mw_subgroup r"
      using member_row_iff [OF c, of x "m_dbStoreId g" "mw_subgroup r"] by blast
    then have "q = p" using consistentD(6) [OF c h(1)] G g(2) by (auto simp: each_group_ok_def stored_ok_def)
    then show "x \<in> ?key ` set ?ss" using h g(1) r(3) by auto
  next
    assume "x \<in> ?key ` set ?ss"
    then obtain s where s: "s \<in> set (m_memberSlots g)" "P (ms_group s)" "?key s = x" by auto
    have "stored_ok w p g" using G by (simp add: each_group_ok_def)
    from stored_rowD(3) [OF this s(1)] obtain r where "(x, r) \<in> set ?rows"
      using s map_wf_mem_iff [OF wf] by (auto simp: rows_of_def)
    then show "x \<in> fst ` set ?rows" by force
  qed
  then have "fst ` set ?rows = ?key ` set ?ss" by blast
  then show ?thesis using distinct_card [OF d1] distinct_card [OF d2] by simp
qed

section \<open>Restart\<close>

text \<open>The characters that the tables name exist, and the instance query returns rows of stored groups.\<close>

definition tables_named :: "gworld \<Rightarrow> bool" where
  "tables_named w \<longleftrightarrow> (\<forall>m r. map_find (member_rows w) m = Some r \<longrightarrow> char_exists w m)
     \<and> (\<forall>i r. map_find (group_rows w) i = Some r \<longrightarrow> char_exists w (gw_leaderGuid r))"

lemma group_rows_fit:
  assumes inv: "group_inv w" and room: "pool_room w" and named: "tables_named w" and row: "map_find (group_rows w) i = Some r"
  shows "group_row_fits w (i, r)" "1 < length (rows_of i (member_rows w))"
proof -
  note c = group_invD(1) [OF inv]
  obtain p g where g: "gs_groups w p = Some g" "m_dbStoreId g = i" "i \<noteq> 0" "m_groupType g = gw_groupType r"
    using group_row_iff [OF c, of i "gw_leaderGuid r" "gw_groupType r"] row by blast
  have "GetGroupByDbStoreId w i = Some p" using consistentD(6) [OF c g(1)] g(2,3) by (auto simp: each_group_ok_def stored_ok_def)
  then have "unat i < 0xFFFFFFFF" using room by (auto simp: GetGroupByDbStoreId_def pool_room_def split: if_splits)
  moreover have "gw_groupType r = GROUPTYPE_NORMAL \<or> gw_groupType r = GROUPTYPE_RAID" using group_invD(3) [OF inv g(1)] g(4) by (auto simp: group_ok_def)
  ultimately show "group_row_fits w (i, r)" using g(3) named row by (auto simp: group_row_fits_def tables_named_def)
  have "2 \<le> length (m_memberSlots g)" using group_invD(2) [OF inv g(1)] g(2,3) by (simp add: settled_def)
  then show "1 < length (rows_of i (member_rows w))"
    using member_row_slots [OF c g(1), of "\<lambda>_. True"] g(2,3) by simp
qed

lemma member_rows_fit:
  assumes inv: "group_inv w" and named: "tables_named w" and row: "map_find (member_rows w) m = Some r"
  shows "row_fits w (group_rows w) (member_rows w) (m, r)"
proof -
  note c = group_invD(1) [OF inv]
  obtain p g s where g: "gs_groups w p = Some g" "m_dbStoreId g = mw_guid r" "s \<in> set (m_memberSlots g)" "GUID_LOPART (ms_guid s) = m" "ms_group s = mw_subgroup r"
    using member_row_iff [OF c, of m "mw_guid r" "mw_subgroup r"] row by blast
  note G = consistentD(6) [OF c g(1)]
  have m: "m \<noteq> 0" using G g(3,4) by (auto simp: each_group_ok_def members_ok_def is_player_def)
  have id: "mw_guid r \<noteq> 0" using stored_rowD(1) [of w p g s] G g(2,3) by (simp add: each_group_ok_def)
  obtain gr where gr: "map_find (group_rows w) (mw_guid r) = Some gr" "gw_groupType gr = m_groupType g"
    using G g(2) id by (auto simp: each_group_ok_def stored_ok_def)
  have ok: "group_ok g" using G by (simp add: each_group_ok_def)
  then have raid: "isRaidGroup g \<longleftrightarrow> gw_groupType gr = GROUPTYPE_RAID" using gr(2) by (auto simp: group_ok_def isRaidGroup_def group_types)
  have rows: "sub_rows (mw_guid r) k (member_rows w) = sub_count (m_memberSlots g) k" for k
    using member_row_slots [OF c g(1), of "\<lambda>sub. unat sub = k"] g(2) id by (simp add: sub_rows_def sub_count_def)
  have len: "length (rows_of (mw_guid r) (member_rows w)) = length (m_memberSlots g)"
    using member_row_slots [OF c g(1), of "\<lambda>_. True"] g(2) id by simp
  show ?thesis
  proof (cases "isRaidGroup g")
    case True
    then show ?thesis
      using ok named row m gr(1) raid rows g(3,5) by (auto simp: row_fits_def tables_named_def group_ok_def counts_ok_def)
  next
    case False
    then show ?thesis
      using ok named row m gr(1) raid len g(3,5) by (auto simp: row_fits_def tables_named_def group_ok_def counts_ok_def)
  qed
qed

text \<open>The world after a stop of the server: no object is left but the tables.\<close>

definition server_restart :: "gworld \<Rightarrow> gworld" where
  "server_restart w = GroupMgr_init (w\<lparr>gs_groups := (\<lambda>_. None), gs_loots := (\<lambda>_. None), gs_pl := (\<lambda>u. fresh_player (gs_pl w u)),
     gs_world := (gs_world w)\<lparr>w_players := []\<rparr>\<rparr>)"

lemma restart_sel [simp]:
  "gs_db (server_restart w) = gs_db w" "gs_groups (server_restart w) = (\<lambda>_. None)" "w_players (gs_world (server_restart w)) = []"
  "w_char_names (gs_world (server_restart w)) = w_char_names (gs_world w)"
  by (simp_all add: server_restart_def GroupMgr_init_def)

lemma restart_empty:
  assumes "consistent w"
  shows "consistent (read_so_far [] [] (server_restart w))"
  using assms
  by (auto simp: consistent_def server_restart_def GroupMgr_init_def sane_def players_ok_def world_wf_def player_ok_def tables_ok_def pool_ok_def
      id_used_def GetGroupByDbStoreId_def map_wf_def map_find_def GetGroup_def GetOriginalGroup_def invite_of_def)

lemma row_fits_mset:
  assumes "mset ms' = mset ms" "w_char_names (gs_world w') = w_char_names (gs_world w)"
  shows "row_fits w' gs ms' x = row_fits w gs ms x"
proof -
  have "length (filter P ms') = length (filter P ms)" for P by (metis assms(1) mset_filter size_mset)
  then have "sub_rows i k ms' = sub_rows i k ms" "length (rows_of i ms') = length (rows_of i ms)" for i k
    by (simp_all add: sub_rows_def rows_of_def)
  then show ?thesis using assms(2) by (simp add: row_fits_def char_exists_def cong: option.case_cong)
qed

lemma fits_exists: "char_exists (server_restart w) m = char_exists w m" "group_row_fits (server_restart w) x = group_row_fits w x"
  by (simp_all add: char_exists_def group_row_fits_def)

lemma restart_groups:
  assumes inv: "group_inv w" and room: "pool_room w" and named: "tables_named w"
  defines "w0 \<equiv> server_restart w" and "w2 \<equiv> fold load_group_row (group_rows w) (server_restart w)"
  shows "delete_bad_groups w0 = w0" "consistent (read_so_far (group_rows w) [] w2)" "all_stored w2" "gs_world w2 = gs_world w0" "gs_db w2 = gs_db w"
    "placed [] w2" "delete_bad_members w2 = w2"
proof -
  note c = group_invD(1) [OF inv]
  let ?gs = "group_rows w" and ?ms = "member_rows w"
  have wf: "map_wf ?gs" "map_wf ?ms" using consistentD(4) [OF c] by (simp_all add: tables_ok_def)
  have gfit: "group_row_fits w (i, r) \<and> 1 < length (rows_of i ?ms)" if "(i, r) \<in> set ?gs" for i r
    using group_rows_fit [OF inv room named map_wf_mem [OF wf(1) that]] by simp
  have "filter (\<lambda>(i, r). char_exists w0 (gw_leaderGuid r)) ?gs = ?gs" "filter (\<lambda>(i, r). length (rows_of i ?ms) > 1) ?gs = ?gs"
    using gfit by (auto simp: filter_id_conv group_row_fits_def fits_exists w0_def)
  then show "delete_bad_groups w0 = w0" by (simp add: delete_bad_groups_def w0_def)
  have "all_stored w0" "\<forall>x \<in> set ?gs. group_row_fits w0 x" using gfit by (auto simp: all_stored_def fits_exists w0_def)
  then show w2: "consistent (read_so_far ?gs [] w2)" "all_stored w2" "gs_world w2 = gs_world w0" "gs_db w2 = gs_db w"
    using load_groups_consistent [OF restart_empty [OF c], of ?gs] wf(1) by (simp_all add: w0_def w2_def)
  have "m_memberSlots g = []" if "gs_groups w2 p = Some g" for p g
  proof (rule ccontr)
    assume "m_memberSlots g \<noteq> []"
    moreover have "stored_ok (read_so_far ?gs [] w2) p g" using consistentD(6) [OF w2(1), of p g] that by (simp add: each_group_ok_def)
    ultimately show False using stored_rowD(3) [of "read_so_far ?gs [] w2" p g "hd (m_memberSlots g)"] by (auto simp: map_find_def)
  qed
  then show "placed [] w2" by (simp add: placed_def)
  have "map_find ?gs (mw_guid r) \<noteq> None \<and> char_exists w2 m" if "(m, r) \<in> set ?ms" for m r
    using member_rows_fit [OF inv named map_wf_mem [OF wf(2) that]] w2(3) by (auto simp: row_fits_def char_exists_def w0_def split: option.splits)
  then have "filter (\<lambda>(m, r). map_find ?gs (mw_guid r) \<noteq> None) ?ms = ?ms" "filter (\<lambda>(m, r). char_exists w2 m) ?ms = ?ms"
    unfolding filter_id_conv by auto
  then show "delete_bad_members w2 = w2" using w2(4) by (simp add: delete_bad_members_def)
qed

lemma restart_members:
  assumes inv: "group_inv w" and room: "pool_room w" and named: "tables_named w" and q: "\<And>t. mset (q t) = mset t"
  defines "w4 \<equiv> fold load_member_row (q (member_rows w)) (fold load_group_row (group_rows w) (server_restart w))"
  shows "consistent w4" "placed (q (member_rows w)) w4" "all_stored w4" "gs_db w4 = gs_db w" "gs_world w4 = gs_world (server_restart w)"
proof -
  let ?gs = "group_rows w" and ?ms = "member_rows w" and ?w2 = "fold load_group_row (group_rows w) (server_restart w)"
  note w2 = restart_groups [OF inv room named]
  have wf: "map_wf ?ms" using consistentD(4) [OF group_invD(1) [OF inv]] by (simp add: tables_ok_def)
  have off: "w_players (gs_world ?w2) = []" using w2(4) by simp
  have set: "set (q ?ms) = set ?ms" using mset_eq_setD [OF q [of ?ms]] .
  have "distinct (map fst ?ms)" using wf by (simp add: map_wf_def strict_sorted_iff)
  moreover have "mset (map fst (q ?ms)) = mset (map fst ?ms)" using q [of ?ms] by simp
  ultimately have dist: "distinct (map fst ([] @ q ?ms))" using mset_eq_imp_distinct_iff by fastforce
  have "row_fits w ?gs ?ms x" if "x \<in> set ?ms" for x
    using member_rows_fit [OF inv named map_wf_mem [OF wf, of "fst x" "snd x"]] that by simp
  then have fit: "\<forall>x \<in> set (q ?ms). row_fits ?w2 ?gs ([] @ q ?ms) x"
    using row_fits_mset [OF q [of ?ms], where w' = ?w2 and w = w and gs = ?gs] w2(4) set by auto
  obtain M' where M: "consistent (read_so_far ?gs M' w4)" "placed ([] @ q ?ms) w4" "all_stored w4" "\<And>m r. map_find M' m = Some r \<longleftrightarrow> (m, r) \<in> set ([] @ q ?ms)"
      "gs_world w4 = gs_world ?w2" "gs_env w4 = gs_env ?w2" "gs_db w4 = gs_db ?w2" "gs_pl w4 = gs_pl ?w2"
    unfolding w4_def by (rule load_members_consistent [OF w2(2) off w2(3,6) dist _ fit]) (auto simp: map_find_def)
  have "map_wf M'" using consistentD(4) [OF M(1)] by (simp add: tables_ok_def)
  then have "M' = ?ms"
    by (rule map_wf_ext [OF _ wf]) (use M(4) set map_wf_mem_iff [OF wf] in \<open>metis append_Nil not_None_eq\<close>)
  then have c': "consistent (read_so_far ?gs ?ms w4)" using M(1) by simp
  show db: "gs_db w4 = gs_db w" using M(7) w2(5) by simp
  then have "read_so_far ?gs ?ms w4 = w4" by (cases "gs_db w") (simp add: gworld.equality)
  then show "consistent w4" using c' by metis
  show "placed (q ?ms) w4" "all_stored w4" "gs_world w4 = gs_world (server_restart w)" using M(2,3,5) w2(4) by simp_all
qed

lemma restart_members_inv:
  assumes inv: "group_inv w" and room: "pool_room w" and named: "tables_named w" and q: "\<And>t. mset (q t) = mset t"
  shows "group_inv (fold load_member_row (q (member_rows w)) (fold load_group_row (group_rows w) (server_restart w)))" (is "group_inv ?w4")
proof -
  note w4 = restart_members [OF inv room named q]
  have "settled g" if g: "gs_groups ?w4 p = Some g" for p g
  proof -
    have id: "m_dbStoreId g \<noteq> 0" using w4(3) g by (auto simp: all_stored_def)
    then obtain r where r: "map_find (group_rows w) (m_dbStoreId g) = Some r"
      using consistentD(6) [OF w4(1) g] w4(4) by (auto simp: each_group_ok_def stored_ok_def)
    have "length (m_memberSlots g) = length (rows_of (m_dbStoreId g) (q (member_rows w)))" by (rule placed_counts(1) [OF w4(2) g])
    also have "\<dots> = length (rows_of (m_dbStoreId g) (member_rows w))" unfolding rows_of_def by (metis q mset_filter size_mset)
    finally show ?thesis using group_rows_fit(2) [OF inv room named r] id by (simp add: settled_def)
  qed
  then show ?thesis using w4(1) by (simp add: group_inv_def)
qed

lemma load_groups_tables:
  assumes inv: "group_inv w" and room: "pool_room w" and named: "tables_named w" and q: "\<And>t. mset (q t) = mset t"
  obtains w4 where "LoadGroups q rows (server_restart w, byId) = (if group_rows w = [] then (w4, byId) else fold load_instance_row rows (w4, byId))"
    "group_inv w4" "gs_db w4 = gs_db w" "w_players (gs_world w4) = []" "w_char_names (gs_world w4) = w_char_names (gs_world w)"
proof (cases "group_rows w = []")
  case True
  let ?w0 = "server_restart w"
  have "member_rows w = []"
  proof (rule ccontr)
    assume "member_rows w \<noteq> []"
    then obtain m r ms where "member_rows w = (m, r) # ms" by (cases "member_rows w") auto
    then have "map_find (member_rows w) m = Some r" by (simp add: map_find_def)
    then show False using member_rows_fit [OF inv named] True by (fastforce simp: row_fits_def map_find_def)
  qed
  then have eq: "read_so_far [] [] ?w0 = ?w0" using True by (cases "gs_db w") (simp add: server_restart_def GroupMgr_init_def)
  have "group_inv ?w0" using restart_empty [OF group_invD(1) [OF inv]] unfolding eq by (simp add: group_inv_def)
  then show thesis using True restart_groups(1) [OF inv room named] by (intro that [of ?w0]) (simp_all add: LoadGroups_def)
next
  case False
  then obtain i r gs where "group_rows w = (i, r) # gs" by (cases "group_rows w") auto
  then have "map_find (group_rows w) i = Some r" by (simp add: map_find_def)
  then have "member_rows w \<noteq> []" using group_rows_fit(2) [OF inv room named] by fastforce
  then have "q (member_rows w) \<noteq> []" using q [of "member_rows w"] by auto
  then show thesis
    using False restart_groups [OF inv room named] restart_members [OF inv room named q]
    by (intro that [OF _ restart_members_inv [OF inv room named q]]) (simp_all add: LoadGroups_def Let_def)
qed

lemma restart_inv:
  assumes inv: "group_inv w" and room: "pool_room w" and named: "tables_named w" and q: "\<And>t. mset (q t) = mset t"
    and rows: "\<forall>r \<in> set rows. map_find (group_rows w) (gi_guid r) \<noteq> None" "saves_fine byId"
  defines "w' \<equiv> fst (LoadGroups q rows (server_restart w, byId))"
  shows "group_inv w'" "gs_db w' = gs_db w" "w_players (gs_world w') = []" "w_char_names (gs_world w') = w_char_names (gs_world w)"
proof -
  obtain w4 where L: "LoadGroups q rows (server_restart w, byId) = (if group_rows w = [] then (w4, byId) else fold load_instance_row rows (w4, byId))"
    and w4: "group_inv w4" "gs_db w4 = gs_db w" "w_players (gs_world w4) = []" "w_char_names (gs_world w4) = w_char_names (gs_world w)"
    by (rule load_groups_tables [OF inv room named q])
  have c: "consistent w4" by (rule group_invD(1) [OF w4(1)])
  have "\<forall>r \<in> set rows. GetGroupByDbStoreId w4 (gi_guid r) \<noteq> None"
    using rows(1) consistentD(4) [OF c] w4(2) by (simp add: tables_ok_def)
  then have core: "core (fst (fold load_instance_row rows (w4, byId))) = core w4" "sane (fst (fold load_instance_row rows (w4, byId)))"
    using load_instances_core [OF c rows(2)] by simp_all
  have "w' = w4 \<or> w' = fst (fold load_instance_row rows (w4, byId))" using L by (simp add: w'_def)
  then have eq: "core w' = core w4" "sane w'" using core consistentD(2) [OF c] by auto
  show "group_inv w'" by (rule group_inv_core [OF w4(1) eq])
  show "gs_db w' = gs_db w" "w_players (gs_world w') = []" "w_char_names (gs_world w') = w_char_names (gs_world w)"
    using core_eqD(1,3) [OF eq(1)] w4 by simp_all
qed

end
