(* ===== verification/Group_Props.thy ===== *)
theory Group_Props
  imports Group_Run Group_Restart
begin

text \<open>
  The properties of the group system: what holds in every state that client packets, logins, logouts and restarts of the server
  lead to from a start without groups, and what the operations that form a group and hand on its leadership achieve.
\<close>

section \<open>The start\<close>

text \<open>A server whose tables hold no group, with any players logged in.\<close>

definition group_start :: "gworld \<Rightarrow> bool" where
  "group_start w \<longleftrightarrow> gs_fault w = None \<and> sane w \<and> players_ok (gs_world w) \<and> gs_groups w = (\<lambda>_. None)
     \<and> gs_db w = \<lparr>db_groups = [], db_group_member = []\<rparr> \<and> NextGroupDbStoreId w = 1 \<and> GroupDbStore w = []
     \<and> (\<forall>u. GetGroup w u = None \<and> GetOriginalGroup w u = None \<and> invite_of w u = None)"

lemma start_inv: "group_start w \<Longrightarrow> group_inv w"
  by (auto simp: group_start_def group_inv_def consistent_def player_ok_def tables_ok_def pool_ok_def id_used_def
      GetGroupByDbStoreId_def map_wf_def map_find_def)

text \<open>
  The states of the server: from a start without groups by the events of clients and by stopping and starting the server
  over the tables. When it starts, the characters that the tables name exist, the database returns the rows of
  \<^verbatim>\<open>group_member\<close> in some order, and the saves of instances belong to stored groups.
\<close>

inductive group_reachable :: "gworld \<Rightarrow> bool" where
  start: "group_start w \<Longrightarrow> group_reachable w"
| event: "group_reachable w \<Longrightarrow> group_step_ok e w \<Longrightarrow> group_reachable (group_step e w)"
| restart: "group_reachable w \<Longrightarrow> pool_room w \<Longrightarrow> tables_named w \<Longrightarrow> (\<And>t. mset (q t) = mset t)
    \<Longrightarrow> \<forall>r \<in> set rows. map_find (group_rows w) (gi_guid r) \<noteq> None \<Longrightarrow> saves_fine byId
    \<Longrightarrow> group_reachable (fst (LoadGroups q rows (server_restart w, byId)))"

lemma reachable_inv: "group_reachable w \<Longrightarrow> group_inv w"
  by (induction rule: group_reachable.induct) (auto intro: start_inv groups.step_inv restart_inv(1))

lemma reachable_run: "group_reachable w \<Longrightarrow> groups.run_ok ps w \<Longrightarrow> group_reachable (fold group_step ps w)"
  by (induction ps arbitrary: w) (auto intro: group_reachable.event)

lemmas reachable_consistent = group_invD(1) [OF reachable_inv]

abbreviation ann :: player where "ann \<equiv> sample_player 1 ''Ann''"
abbreviation bob :: player where "bob \<equiv> sample_player 2 ''Bob''"
abbreviation cid :: player where "cid \<equiv> sample_player 3 ''Cid''"

lemma sample_is_player: "is_player 1" "is_player 2" "is_player 3"
  unfolding is_player_def by code_simp+

lemma sample_group_start: "group_start sample_start"
  using sample_is_player
  by (simp add: group_start_def sample_start_def sane_def env_fine_def player_fine_def binds_fine_def sample_env_def sample_slots_def
      MAX_DIFFICULTY_def players_ok_def sample_players_def world_wf_def sample_player_def GetGroup_def GetOriginalGroup_def invite_of_def no_ref_def)

text \<open>Ann invites Bob, who accepts.\<close>

definition sample_party_run :: "group_event list" where
  "sample_party_run = [GroupInvite ann ''Bob'', GroupAccept bob]"

abbreviation sample_state :: gworld where
  "sample_state \<equiv> fold group_step sample_party_run sample_start"

lemma sample_run_ok: "groups.run_ok sample_party_run sample_start"
  unfolding sample_party_run_def groups.run_ok.simps by code_simp

lemma sample_reachable: "group_reachable sample_state"
  by (rule reachable_run [OF group_reachable.start [OF sample_group_start] sample_run_ok])

definition sample_view :: "gworld \<Rightarrow> gptr option \<times> u32 option \<times> (u32 \<times> u8) option" where
  "sample_view w = (GetGroup w 2, map_option m_dbStoreId (gs_groups w 0),
     map_option (\<lambda>r. (mw_guid r, mw_subgroup r)) (map_find (member_rows w) 2))"

lemma sample_state_view: "sample_view sample_state = (Some 0, Some 1, Some (1, 0))"
  by code_simp

section \<open>What the invariant says\<close>

lemma members_at_most:
  assumes "counts_ok g"
  shows "length (m_memberSlots g) \<le> (if isRaidGroup g then MAXRAIDSIZE else MAXGROUPSIZE)"
proof (cases "isRaidGroup g")
  case True
  then have raid: "\<forall>s \<in> set (m_memberSlots g). unat (ms_group s) < MAX_RAID_SUBGROUPS"
      "\<And>i. i < MAX_RAID_SUBGROUPS \<Longrightarrow> sub_count (m_memberSlots g) i \<le> MAXGROUPSIZE"
    using assms by (auto simp: counts_ok_def)
  have "(\<Sum>i < MAX_RAID_SUBGROUPS. sub_count (m_memberSlots g) i) \<le> (\<Sum>i < MAX_RAID_SUBGROUPS. MAXGROUPSIZE)"
    using raid(2) by (intro sum_mono) simp
  then show ?thesis using True sum_sub_count [OF raid(1)] by (simp add: MAXRAIDSIZE_def MAX_RAID_SUBGROUPS_def MAXGROUPSIZE_def)
qed (use assms in \<open>simp add: counts_ok_def\<close>)

lemma pointer_iff:
  assumes "consistent w"
  shows "loaded w u \<Longrightarrow> GetGroup w u = Some p \<longleftrightarrow> (\<exists>g. gs_groups w p = Some g \<and> IsMember g u)"
    and "invite_of w u = Some p \<longleftrightarrow> (\<exists>g. gs_groups w p = Some g \<and> u \<in> set (m_invitees g))"
proof -
  show "GetGroup w u = Some p \<longleftrightarrow> (\<exists>g. gs_groups w p = Some g \<and> IsMember g u)" if l: "loaded w u"
  proof
    assume "\<exists>g. gs_groups w p = Some g \<and> IsMember g u"
    then obtain g s where "gs_groups w p = Some g" "s \<in> set (m_memberSlots g)" "ms_guid s = u"
      unfolding IsMember_def by (metis GetMemberSlot_Some option.exhaust)
    then show "GetGroup w u = Some p" using consistentD(6) [OF assms] l by (auto simp: each_group_ok_def members_ok_def)
  qed (use GetGroup_member [OF assms] in blast)
  show "invite_of w u = Some p \<longleftrightarrow> (\<exists>g. gs_groups w p = Some g \<and> u \<in> set (m_invitees g))"
    using consistentD(5) [OF assms, of u] invited_all [OF assms] by (auto simp: player_ok_def)
qed

section \<open>Reachable states\<close>

text \<open>
  C2: From a start without groups, no sequence of client packets, logins and logouts that meets \<^const>\<open>group_step_ok\<close>,
  with restarts of the server in between, dereferences a deleted group or a missing table entry; every \<^verbatim>\<open>m_group\<close> pointer of a player leads to a live group
  that has him as a member, and every \<^verbatim>\<open>m_groupInvite\<close> pointer to a live group that lists him as invited.
\<close>

theorem group_runs_no_fault:
  assumes "group_reachable w"
  shows "gs_fault w = None
    \<and> (\<forall>u p. GetGroup w u = Some p \<longrightarrow> (\<exists>g. gs_groups w p = Some g \<and> IsMember g u))
    \<and> (\<forall>u p. invite_of w u = Some p \<longrightarrow> (\<exists>g. gs_groups w p = Some g \<and> u \<in> set (m_invitees g)))"
proof -
  note c = reachable_consistent [OF assms]
  have "\<exists>g. gs_groups w p = Some g \<and> IsMember g u" if "GetGroup w u = Some p" for u p
    by (rule GetGroup_member [OF c that]) blast
  then show ?thesis using consistentD(1) [OF c] by (simp add: pointer_iff(2) [OF c])
qed

theorem group_runs_no_fault_witness: "gs_fault sample_state = None"
  using group_runs_no_fault [OF sample_reachable] by blast

text \<open>
  C4: In every such state a player is in at most one group, he is in it once, and the server's view of a logged-in player
  agrees with the member lists: \<^verbatim>\<open>GetGroup\<close> is the one group that has him as a member. Nobody is invited while he is in a group.
\<close>

theorem one_group_per_player:
  assumes "group_reachable w"
  shows "(\<forall>p q g h u. gs_groups w p = Some g \<and> gs_groups w q = Some h \<and> IsMember g u \<and> IsMember h u \<longrightarrow> p = q)
    \<and> (\<forall>p g. gs_groups w p = Some g \<longrightarrow> distinct (map ms_guid (m_memberSlots g)))
    \<and> (\<forall>u p. loaded w u \<longrightarrow> (GetGroup w u = Some p \<longleftrightarrow> (\<exists>g. gs_groups w p = Some g \<and> IsMember g u)))
    \<and> (\<forall>u. GetGroup w u \<noteq> None \<longrightarrow> invite_of w u = None)"
proof -
  note c = reachable_consistent [OF assms]
  have slot: "\<exists>s. s \<in> set (m_memberSlots g) \<and> ms_guid s = u" if "IsMember g u" for g u
    using that GetMemberSlot_Some [of g u] by (auto simp: IsMember_def)
  have "p = q" if "gs_groups w p = Some g" "gs_groups w q = Some h" "IsMember g u" "IsMember h u" for p q g h u
    using slot [OF that(3)] slot [OF that(4)] one_group [OF c that(1) _ that(2)] by metis
  moreover have "distinct (map ms_guid (m_memberSlots g))" if "gs_groups w p = Some g" for p g
    using consistentD(6) [OF c that] by (simp add: each_group_ok_def group_ok_def)
  moreover have "invite_of w u = None" if "GetGroup w u \<noteq> None" for u
    using consistentD(5) [OF c, of u] that by (cases "invite_of w u") (auto simp: player_ok_def)
  ultimately show ?thesis using pointer_iff(1) [OF c] by blast
qed

theorem one_group_per_player_witness:
  "GetGroup sample_state 2 \<noteq> None \<and> invite_of sample_state 2 = None"
proof
  show "GetGroup sample_state 2 \<noteq> None" using sample_state_view by (simp add: sample_view_def)
  then show "invite_of sample_state 2 = None"
    using one_group_per_player [OF sample_reachable] by blast
qed

text \<open>
  C10: Every group is a party or a raid. A party has at most five members, all in subgroup 0, and no counters. A raid has
  eight counters, which are the numbers of its members in the eight subgroups, at most five each, and so at most forty members.
  A group with a storage id has at least two members.
\<close>

theorem group_shape:
  assumes "group_reachable w" "gs_groups w p = Some g"
  shows "(if isRaidGroup g
      then (\<exists>c. m_subGroupsCounts g = Some c \<and> length c = 8
             \<and> (\<forall>i < 8. unat (c ! i) = length (filter (\<lambda>s. unat (ms_group s) = i) (m_memberSlots g)) \<and> c ! i \<le> 5))
           \<and> length (m_memberSlots g) \<le> 40
      else m_groupType g = GROUPTYPE_NORMAL \<and> m_subGroupsCounts g = None
           \<and> (\<forall>s \<in> set (m_memberSlots g). ms_group s = 0) \<and> length (m_memberSlots g) \<le> 5)
    \<and> (m_dbStoreId g \<noteq> 0 \<longrightarrow> 2 \<le> length (m_memberSlots g))"
proof -
  note inv = reachable_inv [OF assms(1)]
  have ok: "group_ok g" by (rule group_invD(3) [OF inv assms(2)])
  then have n: "length (m_memberSlots g) \<le> (if isRaidGroup g then 40 else 5)"
    using members_at_most [of g] by (auto simp: group_ok_def MAXRAIDSIZE_def MAXGROUPSIZE_def)
  have "m_dbStoreId g \<noteq> 0 \<Longrightarrow> 2 \<le> length (m_memberSlots g)" using group_invD(2) [OF inv assms(2)] by (simp add: settled_def)
  moreover have "c ! i \<le> 5" if "unat (c ! i) \<le> 5" for c :: "u8 list" and i
    using that by (simp add: word_le_nat_alt)
  ultimately show ?thesis using ok n
    by (cases "isRaidGroup g") (auto simp: group_ok_def counts_ok_def sub_count_def MAX_RAID_SUBGROUPS_def MAXRAIDSIZE_def MAXGROUPSIZE_def isRaidGroup_def
        GROUPTYPE_NORMAL_def GROUPTYPE_RAID_def)
qed

theorem group_shape_witness:
  "\<exists>g. gs_groups sample_state 0 = Some g \<and> 2 \<le> length (m_memberSlots g)"
proof -
  obtain g where g: "gs_groups sample_state 0 = Some g" "m_dbStoreId g \<noteq> 0" using sample_state_view by (auto simp: sample_view_def)
  then show ?thesis using group_shape [OF sample_reachable g(1)] by blast
qed

text \<open>
  C3: The tables are a copy of the groups in memory: \<^verbatim>\<open>group_member\<close> has a row for a character exactly when some group has him as
  a member, with that group's storage id and his subgroup, and \<^verbatim>\<open>groups\<close> has a row for an id exactly when there is a group
  with it, with that group's leader and type.
\<close>

theorem group_tables_mirror:
  assumes "group_reachable w"
  shows "((\<exists>r. map_find (member_rows w) m = Some r \<and> mw_guid r = i \<and> mw_subgroup r = n) \<longleftrightarrow>
      (\<exists>p g s. gs_groups w p = Some g \<and> m_dbStoreId g = i \<and> s \<in> set (m_memberSlots g) \<and> GUID_LOPART (ms_guid s) = m \<and> ms_group s = n))
    \<and> ((\<exists>r. map_find (group_rows w) i = Some r \<and> gw_leaderGuid r = l \<and> gw_groupType r = t) \<longleftrightarrow>
      (\<exists>p g. gs_groups w p = Some g \<and> m_dbStoreId g = i \<and> i \<noteq> 0 \<and> GUID_LOPART (m_leaderGuid g) = l \<and> m_groupType g = t))"
proof -
  note c = reachable_consistent [OF assms]
  show ?thesis using member_row_iff [OF c, of m i n] group_row_iff [OF c, of i l t] by (rule conjI)
qed

theorem group_tables_mirror_witness:
  "\<exists>p g s. gs_groups sample_state p = Some g \<and> m_dbStoreId g = 1
     \<and> s \<in> set (m_memberSlots g) \<and> GUID_LOPART (ms_guid s) = 2 \<and> ms_group s = 0"
proof -
  have "\<exists>r. map_find (member_rows sample_state) 2 = Some r \<and> mw_guid r = 1 \<and> mw_subgroup r = 0" using sample_state_view by (auto simp: sample_view_def)
  then show ?thesis using group_tables_mirror [OF sample_reachable] by blast
qed

text \<open>
  C5: Stopping the server and loading the groups from the tables keeps every group: its leader, its type, its members and their
  subgroups, whatever order the database returns the members in. The loaded state satisfies the invariant again, so
  the subgroup counters and the pool of storage ids are exact.
\<close>

theorem restart_keeps_groups:
  assumes "group_inv w" "pool_room w" "tables_named w" "\<And>t. mset (q t) = mset t"
    and "\<forall>r \<in> set rows. map_find (group_rows w) (gi_guid r) \<noteq> None" "saves_fine byId"
  defines "w' \<equiv> fst (LoadGroups q rows (server_restart w, byId))"
  shows "group_inv w'
    \<and> (\<forall>i l t. (\<exists>p g. gs_groups w' p = Some g \<and> m_dbStoreId g = i \<and> i \<noteq> 0 \<and> GUID_LOPART (m_leaderGuid g) = l \<and> m_groupType g = t)
         \<longleftrightarrow> (\<exists>p g. gs_groups w p = Some g \<and> m_dbStoreId g = i \<and> i \<noteq> 0 \<and> GUID_LOPART (m_leaderGuid g) = l \<and> m_groupType g = t))
    \<and> (\<forall>i m n. (\<exists>p g s. gs_groups w' p = Some g \<and> m_dbStoreId g = i \<and> s \<in> set (m_memberSlots g) \<and> GUID_LOPART (ms_guid s) = m \<and> ms_group s = n)
         \<longleftrightarrow> (\<exists>p g s. gs_groups w p = Some g \<and> m_dbStoreId g = i \<and> s \<in> set (m_memberSlots g) \<and> GUID_LOPART (ms_guid s) = m \<and> ms_group s = n))"
proof -
  note r = restart_inv [OF assms(1-6), folded w'_def]
  note c = group_invD(1) [OF assms(1)] and c' = group_invD(1) [OF r(1)]
  show ?thesis unfolding member_row_iff [OF c, symmetric] member_row_iff [OF c', symmetric] group_row_iff [OF c, symmetric]
      group_row_iff [OF c', symmetric] r(2) using r(1) by simp
qed

section \<open>Joining and leading\<close>



text \<open>
  C15: When a member leaves a group of three or more, exactly he is taken from the list and the others keep their subgroups. If he
  led the group, the first remaining member who is online leads it; when nobody is online, the group goes on under the
  GUID of the leader who left.
\<close>

theorem leader_succession:
  assumes "group_inv w" "gs_groups w p = Some g" "IsMember g u" "2 < length (m_memberSlots g)"
  shows "\<exists>g'. gs_groups (snd (RemoveMember p u m kicker reason w)) p = Some g'
    \<and> map (\<lambda>s. (ms_guid s, ms_group s)) (m_memberSlots g') = map (\<lambda>s. (ms_guid s, ms_group s)) (filter (\<lambda>s. ms_guid s \<noteq> u) (m_memberSlots g))
    \<and> m_leaderGuid g' =
        (if m_leaderGuid g = u
         then (case find (\<lambda>s. online w (ms_guid s)) (filter (\<lambda>s. ms_guid s \<noteq> u) (m_memberSlots g)) of None \<Rightarrow> u | Some s \<Rightarrow> ms_guid s)
         else m_leaderGuid g)"
proof -
  obtain s where s: "GetMemberSlot g u = Some s" using assms(3) by (auto simp: IsMember_def)
  have d: "distinct (map ms_guid (m_memberSlots g))" using group_invD(3) [OF assms(1,2)] by (simp add: group_ok_def)
  obtain g' where "gs_groups (snd (RemoveMember p u m kicker reason w)) p = Some g'"
      "m_leaderGuid g' = new_leader w u (left_group u (ms_group s) g)" "places g' = places (left_group u (ms_group s) g)"
    by (rule RemoveMember_leader [OF assms(1,2) s assms(4)])
  then show ?thesis by (simp add: new_leader_def erase_slot_filter [OF d])
qed

text \<open>A party of Ann, Bob and Cid under Ann.\<close>

definition sample_slot :: "u64 \<Rightarrow> string \<Rightarrow> member_slot" where
  "sample_slot u name = \<lparr>ms_guid = u, ms_name = name, ms_group = 0, ms_flags = 0, ms_roles = 0\<rparr>"

definition sample_three :: group where
  "sample_three = Group_new\<lparr>m_memberSlots := [sample_slot 1 ''Ann'', sample_slot 2 ''Bob'', sample_slot 3 ''Cid''],
     m_memberMgr := [(3, False), (2, False), (1, False)], m_leaderGuid := 1, m_leaderName := ''Ann'', m_dbStoreId := 1\<rparr>"

definition sample_row :: member_row where
  "sample_row = \<lparr>mw_guid = 1, mw_memberFlags = 0, mw_subgroup = 0, mw_roles = 0\<rparr>"

definition sample_trio :: gworld where
  "sample_trio = sample_start\<lparr>gs_groups := [0 \<mapsto> sample_three], gs_next := 1, NextGroupDbStoreId := 2, GroupDbStore := [None, Some 0],
     gs_pl := (\<lambda>u. if u = 1 \<or> u = 2 \<or> u = 3 then sample_slots\<lparr>pg_group := \<lparr>gr_target = Some 0, gr_subGroup = 0\<rparr>\<rparr> else sample_slots),
     gs_db := \<lparr>db_groups = [(1, \<lparr>gw_leaderGuid = 1, gw_lootMethod = 0, gw_looterGuid = 0, gw_lootThreshold = 2,
         gw_icons = replicate 8 0, gw_groupType = 0, gw_difficulty = 0, gw_raiddifficulty = 0\<rparr>)],
       db_group_member = [(1, sample_row), (2, sample_row), (3, sample_row)]\<rparr>\<rparr>"

lemma trio_sel [simp]:
  "gs_groups sample_trio = [0 \<mapsto> sample_three]" "GetGroup sample_trio u = (if u = 1 \<or> u = 2 \<or> u = 3 then Some 0 else None)"
  "GetOriginalGroup sample_trio u = None" "invite_of sample_trio u = None" "subgroup_of sample_trio u = 0"
  "gs_fault sample_trio = None" "gs_world sample_trio = sample_players" "gs_env sample_trio = sample_env" "gs_next sample_trio = 1"
  "GroupDbStore sample_trio = [None, Some 0]" "NextGroupDbStoreId sample_trio = 2"
  "member_rows sample_trio = [(1, sample_row), (2, sample_row), (3, sample_row)]"
  by (simp_all add: sample_trio_def sample_start_def sample_slots_def no_ref_def GetGroup_def GetOriginalGroup_def invite_of_def subgroup_of_def)

lemma three_sel [simp]:
  "m_memberSlots sample_three = [sample_slot 1 ''Ann'', sample_slot 2 ''Bob'', sample_slot 3 ''Cid'']" "m_leaderGuid sample_three = 1"
  "m_memberMgr sample_three = [(3, False), (2, False), (1, False)]" "m_invitees sample_three = []" "m_dbStoreId sample_three = 1"
  "m_groupType sample_three = GROUPTYPE_NORMAL" "ms_guid (sample_slot u n) = u" "ms_group (sample_slot u n) = 0" "mw_guid sample_row = 1"
  by (simp_all add: sample_three_def Group_new_def sample_slot_def sample_row_def)

lemma trio_inv: "group_inv sample_trio"
proof -
  have l: "loaded sample_trio u \<longleftrightarrow> u = 1 \<or> u = 2 \<or> u = 3" for u
    by (auto simp: loaded_def sample_players_def sample_player_def)
  have lo: "GUID_LOPART 1 = 1" "GUID_LOPART 2 = 2" "GUID_LOPART 3 = 3" by code_simp+
  have rows: "map_find (member_rows sample_trio) m = (if m = 1 \<or> m = 2 \<or> m = 3 then Some sample_row else None)" for m
    by (auto simp: map_find_def)
  have id: "GetGroupByDbStoreId sample_trio i = (if i = 1 then Some 0 else None)" for i
    using word_unat_eq_iff [of i 1] by (auto simp: GetGroupByDbStoreId_def nth_Cons')
  have "group_ok sample_three" by (simp add: group_ok_def counts_ok_def isRaidGroup_def GROUPTYPE_NORMAL_def GROUPTYPE_RAID_def MAXGROUPSIZE_def sample_three_def Group_new_def sample_slot_def)
  moreover have "linked_ok sample_trio 0 sample_three" by (auto simp: linked_ok_def)
  moreover have "invited_ok sample_trio 0 sample_three" by (simp add: invited_ok_def set_wf_def)
  moreover have "members_ok sample_trio 0 sample_three" using sample_is_player by (simp add: members_ok_def)
  moreover have "stored_ok sample_trio 0 sample_three"
    using lo by (simp add: stored_ok_def id rows) (simp add: sample_trio_def map_find_def sample_row_def GROUPTYPE_NORMAL_def)
  ultimately have each: "each_group_ok sample_trio 0 sample_three" by (simp add: each_group_ok_def)
  have pl: "player_ok sample_trio u" for u by (auto simp: player_ok_def l)
  have "i = 1" if "0 < i" "i < 2" for i :: nat using that by linarith
  then have "pool_ok sample_trio" by (auto simp: pool_ok_def id_used_def)
  moreover have "map_wf (member_rows sample_trio)" "map_wf (group_rows sample_trio)"
    by (simp_all add: map_wf_def sample_trio_def)
  moreover have "\<exists>s \<in> set (m_memberSlots sample_three). GUID_LOPART (ms_guid s) = m \<and> mw_guid r = 1"
    if "map_find (member_rows sample_trio) m = Some r" for m r
    using that lo unfolding rows by (auto split: if_splits)
  moreover have "map_find (group_rows sample_trio) i \<noteq> None \<longrightarrow> i = 1" for i by (simp add: sample_trio_def map_find_def)
  ultimately have tab: "tables_ok sample_trio"
    unfolding tables_ok_def id by (fastforce split: if_splits)
  have "sane sample_trio"
    by (auto simp: sane_def sample_trio_def sample_start_def sample_env_def env_fine_def group_fine_def player_fine_def binds_fine_def sample_three_def
        Group_new_def sample_slots_def MAX_DIFFICULTY_def DUNGEON_DIFFICULTY_NORMAL_def RAID_DIFFICULTY_10MAN_NORMAL_def split: if_splits)
  with each pl tab show ?thesis
    using sample_group_start by (auto simp: group_inv_def consistent_def settled_def group_start_def sample_start_def split: if_splits)
qed

theorem leader_succession_witness:
  "\<exists>g'. gs_groups (snd (RemoveMember 0 1 GROUP_REMOVEMETHOD_LEAVE 0 [] sample_trio)) 0 = Some g' \<and> m_leaderGuid g' = 2
     \<and> map (\<lambda>s. (ms_guid s, ms_group s)) (m_memberSlots g') = [(2, 0), (3, 0)]"
proof -
  have "IsMember sample_three 1" by (simp add: IsMember_def GetMemberSlot_def)
  moreover have "online sample_trio 2" by code_simp
  ultimately show ?thesis
    using leader_succession [OF trio_inv, of 0 sample_three 1 GROUP_REMOVEMETHOD_LEAVE 0 "[]"] by auto
qed

theorem restart_keeps_groups_witness:
  "\<exists>p g s. gs_groups (fst (LoadGroups (\<lambda>t. t) [] (server_restart sample_trio, []))) p = Some g \<and> m_dbStoreId g = 1
     \<and> s \<in> set (m_memberSlots g) \<and> GUID_LOPART (ms_guid s) = 3 \<and> ms_group s = 0"
proof -
  have room: "pool_room sample_trio" by (simp add: pool_room_def)
  have rows: "map_find (group_rows sample_trio) i = Some r \<Longrightarrow> gw_leaderGuid r = 1" for i r
    by (auto simp: sample_trio_def map_find_def split: if_splits)
  have named: "tables_named sample_trio"
    using rows by (fastforce simp: tables_named_def char_exists_def sample_players_def map_find_def split: if_splits)
  have "GUID_LOPART (ms_guid (sample_slot 3 ''Cid'')) = 3" by code_simp
  then have "\<exists>p g s. gs_groups sample_trio p = Some g \<and> m_dbStoreId g = 1 \<and> s \<in> set (m_memberSlots g) \<and> GUID_LOPART (ms_guid s) = 3 \<and> ms_group s = 0"
    by (intro exI [of _ 0] exI [of _ sample_three] exI [of _ "sample_slot 3 ''Cid''"]) simp
  moreover have "saves_fine []" by (simp add: saves_fine_def map_find_def)
  ultimately show ?thesis
    using restart_keeps_groups [OF trio_inv room named, of "\<lambda>t. t" "[]" "[]"] by auto
qed


text \<open>A leader who accepts his own invitation stays outside the group that is being formed.\<close>

lemma own_accept_unsettles:
  "\<exists>g. gs_groups (fold group_step [GroupInvite ann ''Bob'', GroupAccept ann] sample_start) 0 = Some g \<and> \<not> settled g"
proof -
  have "map_option settled (gs_groups (fold group_step [GroupInvite ann ''Bob'', GroupAccept ann] sample_start) 0) = Some False" by code_simp
  then show ?thesis by auto
qed

end
