(* ===== verification/Spec2Isabelle.thy ===== *)
theory Spec2Isabelle
  imports Channel_Mgr_Props Timers Spell_Event Reputation_Props Group_Props
begin

text \<open>
  \<^bold>\<open>TeraCore world server: a verification library.\<close> The repository is a C++ server for an online game
  (\<^verbatim>\<open>src/src/server\<close>). This development models the parts that keep the server's own state and logic and
  can be stated without the client's data files: the string and number utilities, the packet buffer, the
  object identifiers, the friend and ignore lists, the chat channels with their registry and packet
  handlers, the timers, the event queue with the spell events, the reputation of a player, and the groups
  and raids with their members, loot rolls, packet handlers and tables.

  \<^bold>\<open>How the parts interact.\<close> A packet from a client is read from a \<^verbatim>\<open>ByteBuffer\<close> by a handler of
  \<^verbatim>\<open>ChannelHandler.cpp\<close>, which looks the channel up in the \<^verbatim>\<open>ChannelMgr\<close> of the player's team and calls a
  method of \<^verbatim>\<open>Channel\<close>; the method changes the members, sends packets to members who do not ignore the
  sender (\<^verbatim>\<open>SocialMgr\<close>), and issues SQL statements. Each unit owns an \<^verbatim>\<open>EventProcessor\<close>, which the world loop
  drives with the time of a tick; the spell system queues \<^verbatim>\<open>SpellEvent\<close> objects in it. The
  \<^verbatim>\<open>ReputationMgr\<close> of a player keeps the standings, sends them, and is loaded from and saved to the
  character database. A handler of \<^verbatim>\<open>GroupHandler.cpp\<close> finds the group of the caller through the references and
  invitation pointers that players keep, checks the ignore list of an invited player, and calls methods of
  \<^verbatim>\<open>Group\<close>, which change members, references and counters, write the tables \<^verbatim>\<open>groups\<close> and \<^verbatim>\<open>group_member\<close>, and take
  storage ids from the pool of \<^verbatim>\<open>GroupMgr\<close>; at start-up \<^verbatim>\<open>LoadGroups\<close> reads the tables back.

  \<^bold>\<open>Theories.\<close>
  \<^item> \<open>Prelude\<close>: machine integers and flags, the ordered containers \<^verbatim>\<open>std::map\<close> and \<^verbatim>\<open>std::set\<close> as sorted
    lists with their contracts (locales \<open>ordered_map\<close>, \<open>ordered_set\<close>), C strings, the errors that the
    source does not handle (\<open>cpp_error\<close>), and \<open>step_system\<close>, the contract of a component whose operations
    keep an invariant.
  \<^item> \<open>Util_Strings\<close>, \<open>Util_Chars\<close> (\<^verbatim>\<open>shared/Utilities/Util.cpp/.h\<close>): tokenizer, line cleaning, time, money and
    hex strings; character classes, case maps, \<^verbatim>\<open>flag96\<close>. Lemmas: round trips between printing and parsing,
    the line cleaner equals its reference, \<^verbatim>\<open>flag96\<close> implements a 96-bit number, case maps agree.
  \<^item> \<open>Byte_Buffer\<close> (\<^verbatim>\<open>shared/Packets/ByteBuffer.h\<close>), \<open>World_Packet\<close> (\<^verbatim>\<open>WorldPacket.h\<close>): the buffer with its
    positions and exceptions as a sum type; the locale \<open>stream_codec\<close> is the contract of a pair of
    operators and is interpreted for every streamed type. Lemmas: what is written is read back, no
    read leaves the buffer.
  \<^item> \<open>Object_Guid\<close> (\<^verbatim>\<open>ObjectDefines.h\<close>): construction and parts of the 64-bit identifiers.
  \<^item> \<open>World_State\<close>: what the components read of players, accounts and configuration.
  \<^item> \<open>Social_Mgr\<close> (\<^verbatim>\<open>SocialMgr.cpp/.h\<close>): the lists, their packets and statements. Lemmas: limits, the table
    mirrors the list under every sequence of operations, reload.
  \<^item> \<open>Channel\<close>, \<open>Channel_Ops\<close> (\<^verbatim>\<open>Channel.cpp/.h\<close>): the record of a channel, its packets, every method as a
    function on the channel and the list of its effects. \<open>Channel_Inv\<close>: the invariants, preserved by every
    command. \<open>Channel_Props\<close>: one owner, outcomes of join, leave, kick and ban, rights, recipients,
    reload from the database.
  \<^item> \<open>Channel_Mgr\<close>, \<open>Channel_Mgr_Props\<close> (\<^verbatim>\<open>ChannelMgr.cpp\<close>, \<^verbatim>\<open>ChannelHandler.cpp\<close>): the two registries and
    every handler; whatever packets arrive, the registries stay consistent.
  \<^item> \<open>Timers\<close> (\<^verbatim>\<open>Timer.h\<close>): clock differences and timers, with the wrap-around of their widths.
  \<^item> \<open>Event_Processor\<close> (\<^verbatim>\<open>EventProcessor.cpp/.h\<close>): the queue over a heap of event objects. \<^verbatim>\<open>Update\<close> is a partial
    function (\<open>None\<close> is a loop that does not end); the locale \<open>event_contract\<close> is what an event class
    must promise for it to return.
  \<^item> \<open>Spell_Event\<close> (\<^verbatim>\<open>SpellEvent\<close> and the scheduling part of \<^verbatim>\<open>Spell\<close>, \<^verbatim>\<open>Spell.cpp/.h\<close>): the class that re-queues
    itself; it keeps the contract (\<open>sublocale\<close>), so updates return; what \<^verbatim>\<open>KillAllEvents\<close> does to it.
  \<^item> \<open>Reputation_Mgr\<close> (\<^verbatim>\<open>ReputationMgr.cpp/.h\<close>): every method. \<open>Reputation_Inv\<close>: the invariants of states,
    counters and database rows. \<open>Reputation_Props\<close>: ranks, outcome of a change, exact counters, the initial
    packet, reload.
  \<^item> \<open>Group_State\<close> (\<^verbatim>\<open>Group.h\<close>, \<^verbatim>\<open>GroupReference.h\<close>, \<^verbatim>\<open>Reference.h\<close>): groups at addresses, the slots each player keeps,
    loot objects, tables, recorded actions and the first fault; \<open>Group_Mgr\<close> (\<^verbatim>\<open>GroupMgr.cpp\<close>): registry and pool, which
    hands out the least free id; \<open>Group_Core\<close>, \<open>Group_Members\<close>, \<open>Group_Loot\<close> (\<^verbatim>\<open>Group.cpp\<close>): the methods of \<^verbatim>\<open>Group\<close>;
    \<open>Group_Handlers\<close> (\<^verbatim>\<open>GroupHandler.cpp\<close>, parts of \<^verbatim>\<open>WorldSession.cpp\<close> and \<^verbatim>\<open>Player.cpp\<close>): the packet handlers, login and
    logout; \<open>Group_Load\<close>: \<^verbatim>\<open>LoadGroups\<close>. \<open>Group_Roll\<close>: the votes, the count and the award of a loot roll.
    \<open>Group_Sample\<close>: a small state for evaluations.
  \<^item> \<open>Group_Frame\<close>: the notifications leave the core of the state alone. \<open>Group_Inv\<close>: the invariant, and that a change to one
    group and its players leaves the rest consistent. \<open>Group_Steps\<close>, \<open>Group_Join\<close>, \<open>Group_Leave\<close>, \<open>Group_Disband\<close>,
    \<open>Group_Remove\<close>, \<open>Group_Kick\<close>: the methods keep it. \<open>Group_Answer\<close>, \<open>Group_Lead\<close>, \<open>Group_Slots\<close>, \<open>Group_Subgroups\<close>,
    \<open>Group_Session\<close>: the handlers keep it. \<open>Group_Run\<close>: the handlers as steps (\<open>step_system\<close>). \<open>Group_Reload\<close>,
    \<open>Group_Restart\<close>: loading from the tables of a consistent state gives a consistent state over the same tables.
    \<open>Group_Props\<close>: reachable states have no dangling pointer, no player in two groups, exact counters and
    tables that mirror the groups; outcome of an acceptance, succession of the leader, restart, and the
    fault that an invitation of oneself leads to.
  \<^item> this theory: the ignore list and the channels together.

  \<^bold>\<open>Conventions.\<close> A class is a record, a method a function on it named after the method (overloads carry a
  suffix); pointers into containers are keys; packets, statements and callbacks are appended to a list in
  the order the code issues them. Unsigned integers are words; signed ones are integers with the wrap
  written out (\<open>int32\<close>, \<open>int64\<close>). Null dereferences, failed assertions and uses of freed objects are values of
  \<open>cpp_error\<close>. Interleavings are sequences of operations: one server thread handles a session's packets.

  \<^bold>\<open>Bounds and termination.\<close> No definition uses fuel. Loops over containers are structural; the loops of
  \<^verbatim>\<open>SendInitialReputations\<close> run in 32-bit arithmetic and terminate by the distance to their bound; the loop
  of \<^verbatim>\<open>EventProcessor::Update\<close> is proved to return, with the number of runs an event can still have in one
  update as its measure (two for a spell: one to start its delay and one to handle it), for times below
  \<open>2^63\<close> and flight times below \<open>2^62\<close> milliseconds.

  \<^bold>\<open>Parameters.\<close> UTF-8 conversion and truncation (utf8cpp), the client data stores, the arithmetic on
  \<^verbatim>\<open>float\<close> rates of the reputation manager, script hooks, and \<^verbatim>\<open>Spell::cast\<close> with the conditions a spell
  reads from the world. What is assumed of them is named where it is used: \<open>env_ok\<close> for the faction data,
  \<open>spell_casting\<close> for \<^verbatim>\<open>cast\<close>. The group code asks the rest of the server through the record \<open>group_env\<close> (distance and
  sight, item templates and bag space, maps, the dungeon finder, configuration, name normalisation, random draws);
  \<open>env_fine\<close> states that the maps that players and binds refer to are in the map store.

  \<^bold>\<open>Conditions of the runs of groups.\<close> \<open>group_step_ok\<close> excludes a player who invites himself or accepts his own
  invitation (both corrupt the state, as the theorems show), a pool without a free id, a vote on loot that is gone, a
  move of a member who is between two maps, and logins of loaded players. A restart needs that the
  characters named in the tables exist.

  \<^bold>\<open>Not modelled.\<close> The entities (players, units, items), spell effects and auras, movement, maps and
  collision rest on floating point geometry and on the client's data and are bound to each other;
  guilds, mail, auctions, battlegrounds, instances and the other handlers are not reached; sessions, sockets,
  the database connection and the authentication server are I/O over third-party libraries; scripts are content.
  Floating point fields of the packet buffer and its log dumps are left out. Of the groups:
  \<^verbatim>\<open>CanJoinBattlegroundQueue\<close> and \<^verbatim>\<open>InCombatToInstance\<close> (battleground and combat state), what removing player bots does
  beyond the group, the minimap ping and the party member statistics (floating point and unit data), the table
  \<^verbatim>\<open>group_instance\<close>, whose query result is an argument of \<^verbatim>\<open>LoadGroups\<close>, and reset times of instance saves. Sets of
  player pointers and the hash maps of the registry are kept in the order of their keys.
\<close>

section \<open>Ignore lists and channels\<close>

text \<open>The players who are sent a chat message of \<open>p\<close>.\<close>

definition hears :: "world \<Rightarrow> social_map \<Rightarrow> u64 \<Rightarrow> string \<Rightarrow> u32 \<Rightarrow> channel_io \<Rightarrow> u64 \<Rightarrow> bool" where
  "hears w mgr p what lang c q \<longleftrightarrow>
     (\<exists>data. SendPacket q data \<in> set (drop (length (io c)) (io (Say w mgr p (Some what) lang c)))
        \<and> m_opcode data = SMSG_MESSAGECHAT)"

lemma hears_iff:
  assumes "IsOn p c" "p \<noteq> 0" "channel_wf c"
  shows "hears w mgr p what lang c q \<longleftrightarrow> \<not> pi_IsMuted (player_at p c) \<and> IsOn q c \<and>
    (\<exists>pl. FindPlayer w q = Some pl \<and> (pi_IsModerator (player_at p c) \<or> \<not> HasIgnore (GUID_LOPART p) (GetSocial mgr pl)))"
  using say_heard[OF assms, of w mgr what lang q] unfolding Let_def hears_def by blast

lemma GetSocial_set:
  "GetSocial (map_set k s mgr) pl = (if GUID_LOPART (pl_guid pl) = k then s else GetSocial mgr pl)"
  by (simp add: GetSocial_def map_at_def container_simps)

text \<open>C11: the ignore list and the chat channels together. Once a player has put the speaker on his ignore list,
  no message of the speaker reaches him on any channel, unless the speaker moderates it; taking the
  speaker off the list again restores what was heard. Nobody else's reception changes.\<close>

theorem ignored_speaker_not_heard:
  assumes c: "IsOn p c" "p \<noteq> 0" "channel_wf c" "\<not> pi_IsModerator (player_at p c)"
    and q: "FindPlayer w q = Some pl"
    and add: "AddToSocialList (GUID_LOPART p) True (GetSocial mgr pl) = (True, s, st)"
  shows "let mgr' = map_set (GUID_LOPART q) s mgr;
             s'' = fst (RemoveFromSocialList (GUID_LOPART p) True s);
             mgr'' = map_set (GUID_LOPART q) s'' mgr'
         in \<not> hears w mgr' p what lang c q
            \<and> (hears w mgr'' p what lang c q \<longleftrightarrow> \<not> pi_IsMuted (player_at p c) \<and> IsOn q c)
            \<and> (\<forall>r. GUID_LOPART r \<noteq> GUID_LOPART q \<longrightarrow> hears w mgr' p what lang c r = hears w mgr p what lang c r)"
proof -
  have guid: "pl_guid pl = q" using FindPlayer_guid[OF q] by simp
  have s: "HasIgnore (GUID_LOPART p) s"
    using AddToSocialList_tests(1)[of "GUID_LOPART p" True "GetSocial mgr pl" "GUID_LOPART p"] add by simp
  have other: "hears w (map_set (GUID_LOPART q) s mgr) p what lang c r = hears w mgr p what lang c r"
    if "GUID_LOPART r \<noteq> GUID_LOPART q" for r
    using that FindPlayer_guid[of w r] by (auto simp: hears_iff[OF c(1-3)] GetSocial_set)
  show ?thesis
    using c(4) q guid s other
    by (simp add: Let_def hears_iff[OF c(1-3)] GetSocial_set RemoveFromSocialList_tests(1))
qed

lemma ignored_speaker_not_heard_witness:
  "\<exists>s st. AddToSocialList 2 True (GetSocial [] (ex_player 1 ''Ann'')) = (True, s, st)
     \<and> \<not> hears ex_world (map_set 1 s []) 2 ''hi'' 0 ex_channel 1"
proof -
  obtain s st where add: "AddToSocialList 2 True (GetSocial [] (ex_player 1 ''Ann'')) = (True, s, st)"
    by (simp add: AddToSocialList_def GetSocial_def map_at_def map_find_def PlayerSocial_new_def GetNumberOfSocialsWithFlag_def
        SOCIALMGR_IGNORE_LIMIT_def Let_def)
  have low: "GUID_LOPART 2 = 2" "GUID_LOPART 1 = 1" by code_simp+
  have mod: "\<not> pi_IsModerator (player_at 2 ex_channel)" by (simp add: ex_channel_def player_at_def map_at_def map_find_def pi_IsModerator_def)
  show ?thesis
    using ignored_speaker_not_heard[where p = 2 and q = 1 and c = ex_channel and w = ex_world and pl = "ex_player 1 ''Ann''"
        and mgr = "[]" and s = s and st = st and what = "''hi''" and lang = 0] add ex_members ex_channel_wf ex_players mod
    by (simp add: Let_def low)
qed

end
